(* ===== verification/GoRegexp.thy ===== *)
theory GoRegexp
  imports Prelude
begin

text \<open>
  The part of Go's \<^verbatim>\<open>regexp\<close> package the scope and the target planner use, on syntax trees that
  \<^verbatim>\<open>syntax.Parse\<close> and \<^verbatim>\<open>Simplify\<close> have produced. Parsing of an expression stays a parameter
  \<open>rx :: string \<Rightarrow> regexp option\<close> of the models that need it (\<open>None\<close> for an expression
  \<^verbatim>\<open>regexp.Compile\<close> rejects); matching is defined here. Go takes the leftmost match and, at that
  position, the one a backtracking matcher would find first, so \<open>ends\<close> lists the end positions of
  the matches from one start in that order of preference.
\<close>

datatype regexp =
    ReNoMatch
  | ReEmpty
  | ReLiteral bool string
  | ReClass "(char \<times> char) list"
  | ReAnyNotNL
  | ReAny
  | ReBeginText
  | ReEndText
  | ReCapture regexp
  | ReStar bool regexp
  | RePlus bool regexp
  | ReQuest bool regexp
  | ReConcat "regexp list"
  | ReAlternate "regexp list"

type_synonym rx_parser = "string \<Rightarrow> regexp option"

definition step_if :: "(char \<Rightarrow> bool) \<Rightarrow> string \<Rightarrow> nat \<Rightarrow> nat list" where
  "step_if p s i = (if i < length s \<and> p (s ! i) then [Suc i] else [])"

definition in_class :: "(char \<times> char) list \<Rightarrow> char \<Rightarrow> bool" where
  "in_class rs c \<longleftrightarrow> list_ex (\<lambda>(lo, hi). lo \<le> c \<and> c \<le> hi) rs"

definition lit_ends :: "bool \<Rightarrow> string \<Rightarrow> string \<Rightarrow> nat \<Rightarrow> nat list" where
  "lit_ends fc w s i =
     (let part = take (length w) (drop i s)
      in if (if fc then to_lower part = to_lower w else part = w) then [i + length w] else [])"

text \<open>
  \<open>RePlus\<close> tries its body; after a match that made progress it goes on (before it stops when
  greedy, after when not), and a match of the empty string ends the repetition, as the duplicate
  check of Go's machine does. \<open>ReStar\<close> is an optional \<open>RePlus\<close>.
\<close>

function (sequential) ends :: "regexp \<Rightarrow> string \<Rightarrow> nat \<Rightarrow> nat list"
  and seq_ends :: "regexp list \<Rightarrow> string \<Rightarrow> nat \<Rightarrow> nat list"
  and alt_ends :: "regexp list \<Rightarrow> string \<Rightarrow> nat \<Rightarrow> nat list"
  and plus_ends :: "bool \<Rightarrow> regexp \<Rightarrow> string \<Rightarrow> nat \<Rightarrow> nat list"
where
  "ends ReNoMatch s i = []"
| "ends ReEmpty s i = [i]"
| "ends (ReLiteral fc w) s i = lit_ends fc w s i"
| "ends (ReClass rs) s i = step_if (in_class rs) s i"
| "ends ReAnyNotNL s i = step_if (\<lambda>c. c \<noteq> CHR 0x0A) s i"
| "ends ReAny s i = step_if (\<lambda>c. True) s i"
| "ends ReBeginText s i = (if i = 0 then [i] else [])"
| "ends ReEndText s i = (if i = length s then [i] else [])"
| "ends (ReCapture r) s i = ends r s i"
| "ends (ReStar g r) s i =
     (if g then plus_ends g r s i @ [i] else i # plus_ends g r s i)"
| "ends (RePlus g r) s i = plus_ends g r s i"
| "ends (ReQuest g r) s i = (if g then ends r s i @ [i] else i # ends r s i)"
| "ends (ReConcat rs) s i = seq_ends rs s i"
| "ends (ReAlternate rs) s i = alt_ends rs s i"
| "seq_ends [] s i = [i]"
| "seq_ends (r # rs) s i = concat (map (\<lambda>j. seq_ends rs s j) (ends r s i))"
| "alt_ends [] s i = []"
| "alt_ends (r # rs) s i = ends r s i @ alt_ends rs s i"
| "plus_ends g r s i =
     concat (map (\<lambda>j.
       (let more = (if i < j \<and> j \<le> length s then plus_ends g r s j else [])
        in if g then more @ [j] else j # more)) (ends r s i))"
  by pat_completeness auto
termination
  by (relation "measures
       [\<lambda>x. case x of Inl (Inl (r, s, i)) \<Rightarrow> 2 * size r | Inl (Inr (rs, s, i)) \<Rightarrow> 2 * size_list size rs
              | Inr (Inl (rs, s, i)) \<Rightarrow> 2 * size_list size rs | Inr (Inr (g, r, s, i)) \<Rightarrow> Suc (2 * size r),
        \<lambda>x. case x of Inl (Inl (r, s, i)) \<Rightarrow> 0 | Inl (Inr (rs, s, i)) \<Rightarrow> 0
              | Inr (Inl (rs, s, i)) \<Rightarrow> 0 | Inr (Inr (g, r, s, i)) \<Rightarrow> length s - i]") auto

text \<open>
  \<^verbatim>\<open>FindStringIndex\<close> reports the leftmost match; the helper \<^verbatim>\<open>full\<close> of the scope and of the planner
  accepts a value when that match starts at 0 and ends at the end of the value. A match from 0 is
  leftmost, so only the preferred match from 0 counts.
\<close>

fun find_index :: "regexp \<Rightarrow> string \<Rightarrow> nat \<Rightarrow> nat \<Rightarrow> (nat \<times> nat) option" where
  "find_index r s i 0 = (case ends r s i of [] \<Rightarrow> None | j # _ \<Rightarrow> Some (i, j))"
| "find_index r s i (Suc n) =
     (case ends r s i of [] \<Rightarrow> find_index r s (Suc i) n | j # _ \<Rightarrow> Some (i, j))"

definition find_string_index :: "regexp \<Rightarrow> string \<Rightarrow> (nat \<times> nat) option" where
  "find_string_index r s = find_index r s 0 (length s)"

definition full :: "regexp \<Rightarrow> string \<Rightarrow> bool" where
  "full r v =
     (case find_string_index r v of
        None \<Rightarrow> False
      | Some (lo, hi) \<Rightarrow> lo = 0 \<and> hi = length v)"

lemma find_index_start: "find_index r s i n = Some (lo, hi) \<Longrightarrow> i \<le> lo"
  by (induction n arbitrary: i) (fastforce split: list.splits)+

lemma full_iff_hd: "full r v \<longleftrightarrow> (\<exists>js. ends r v 0 = length v # js)"
proof (cases "ends r v 0")
  case Nil
  have "\<not> full r v"
  proof (cases "length v")
    case 0
    with Nil show ?thesis by (simp add: full_def find_string_index_def)
  next
    case (Suc n)
    with Nil have "find_string_index r v = find_index r v 1 n"
      by (simp add: find_string_index_def)
    with Suc show ?thesis
      by (auto simp: full_def split: option.splits dest: find_index_start)
  qed
  with Nil show ?thesis by simp
next
  case (Cons j js)
  then show ?thesis
    by (cases "length v") (auto simp: full_def find_string_index_def)
qed

text \<open>An expression that can only match up to the end of the text is matched in full exactly when it
  matches from the start at all; the order of preference no longer matters.\<close>

lemma full_anchored:
  assumes "\<And>j. j \<in> set (ends r v 0) \<Longrightarrow> j = length v"
  shows "full r v \<longleftrightarrow> ends r v 0 \<noteq> []"
  using assms by (cases "ends r v 0") (auto simp: full_iff_hd)

text \<open>\<^verbatim>\<open>regexp.QuoteMeta\<close>.\<close>

definition is_meta :: "char \<Rightarrow> bool" where
  "is_meta c \<longleftrightarrow> c \<in> set ([CHR 0x5C] @ ''.+*?()|[]{}^$'')"

fun quote_meta :: "string \<Rightarrow> string" where
  "quote_meta [] = []"
| "quote_meta (c # cs) = (if is_meta c then [CHR 0x5C, c] else [c]) @ quote_meta cs"

end
