(* ===== verification/GoData.thy ===== *)
theory GoData
  imports Complex_Main GoRegexp "HOL-Library.AList"
begin

text \<open>
  The values that the standard library's parsers hand to the program: a parsed URL
  (\<^verbatim>\<open>net/url\<close>) and a decoded JSON value (\<^verbatim>\<open>encoding/json\<close> into an \<^verbatim>\<open>any\<close>). The parsers
  themselves are parameters of the models that call them; the record fields are the accessors
  the program uses. JSON numbers are rationals, JSON objects association lists in iteration order.
\<close>

record url =
  url_scheme :: string
  url_hostname :: string
  url_port :: string
  url_escaped_path :: string
  url_path :: string
  url_string :: string
  url_string_no_fragment :: string

type_synonym url_parser = "string \<Rightarrow> url option"
type_synonym ip_parser = "string \<Rightarrow> string option"

definition http_url :: "url \<Rightarrow> bool" where
  "http_url u \<longleftrightarrow>
     url_hostname u \<noteq> [] \<and> (url_scheme u = ''http'' \<or> url_scheme u = ''https'')"

datatype json =
    JNull
  | JBool bool
  | JNum rat
  | JStr string
  | JArr "json list"
  | JObj "(string \<times> json) list"

type_synonym json_parser = "string \<Rightarrow> json option"
type_synonym json_printer = "json \<Rightarrow> string"

text \<open>\<^verbatim>\<open>json.Unmarshal\<close> into a \<^verbatim>\<open>map[string]any\<close>: objects, and null for the nil map.\<close>

definition parse_object :: "json_parser \<Rightarrow> string \<Rightarrow> (string \<times> json) list option" where
  "parse_object jp s =
     (case jp s of
        Some (JObj kvs) \<Rightarrow> Some kvs
      | Some JNull \<Rightarrow> Some []
      | _ \<Rightarrow> None)"

definition as_string :: "json option \<Rightarrow> string option" where
  "as_string v = (case v of Some (JStr s) \<Rightarrow> Some s | _ \<Rightarrow> None)"

definition as_array :: "json option \<Rightarrow> json list option" where
  "as_array v = (case v of Some (JArr xs) \<Rightarrow> Some xs | _ \<Rightarrow> None)"

text \<open>The string literals of \<^verbatim>\<open>json.Marshal\<close>, with its escapes (the HTML characters included).\<close>

definition hex_char :: "nat \<Rightarrow> char" where
  "hex_char n = (if n < 10 then char_of (48 + n) else char_of (87 + n))"

definition escape_char :: "char \<Rightarrow> string" where
  "escape_char c =
     (let n = (of_char c :: nat) in
      if c = CHR 0x22 then [CHR 0x5C, CHR 0x22]
      else if c = CHR 0x5C then [CHR 0x5C, CHR 0x5C]
      else if c = CHR 0x0A then [CHR 0x5C, CHR ''n'']
      else if c = CHR 0x0D then [CHR 0x5C, CHR ''r'']
      else if c = CHR 0x09 then [CHR 0x5C, CHR ''t'']
      else if c = CHR 0x08 then [CHR 0x5C, CHR ''b'']
      else if c = CHR 0x0C then [CHR 0x5C, CHR ''f'']
      else if n < 32 \<or> c = CHR ''<'' \<or> c = CHR ''>'' \<or> c = CHR ''&''
      then [CHR 0x5C] @ ''u00'' @ [hex_char (n div 16), hex_char (n mod 16)]
      else [c])"

definition json_string :: "string \<Rightarrow> string" where
  "json_string s = [CHR 0x22] @ concat (map escape_char s) @ [CHR 0x22]"

definition json_field :: "string \<Rightarrow> string \<Rightarrow> string" where
  "json_field k v = json_string k @ '':'' @ v"

definition json_object :: "(string \<times> string) list \<Rightarrow> string" where
  "json_object kvs =
     ''{'' @ join_with '','' (map (\<lambda>(k, v). json_field k v) kvs) @ ''}''"

definition json_array :: "string list \<Rightarrow> string" where
  "json_array vs = ''['' @ join_with '','' vs @ '']''"

definition json_bool :: "bool \<Rightarrow> string" where
  "json_bool b = (if b then ''true'' else ''false'')"

end
