(* ===== verification/Scope.thy ===== *)
theory Scope
  imports GoData
begin

text \<open>
  \<^verbatim>\<open>internal/scope/scope.go\<close>: the authorised scope. Rules are normalised and named by a digest,
  compiled to four regular expressions each, deduplicated and sorted by name; \<open>evaluate\<close> decides
  one target URL. Parameters: \<open>rx\<close> (expression parser), \<open>sha\<close> (hexadecimal SHA-256),
  \<open>parse\<close> (\<^verbatim>\<open>url.Parse\<close>) and \<open>ip\<close> (\<^verbatim>\<open>net.ParseIP\<close> with its \<^verbatim>\<open>String\<close>).
\<close>

subsection \<open>Data\<close>

record rule =
  rule_protocol :: string
  rule_host :: string
  rule_port :: string
  rule_file :: string
  rule_enabled :: bool

datatype rule_kind = IncludeRule | ExcludeRule

fun kind_string :: "rule_kind \<Rightarrow> string" where
  "kind_string IncludeRule = ''include''"
| "kind_string ExcludeRule = ''exclude''"

record normalized_rule =
  nr_id :: string
  nr_digest :: string
  nr_kind :: rule_kind
  nr_protocol :: string
  nr_host :: string
  nr_port :: string
  nr_file :: string
  nr_enabled :: bool

datatype reason =
    ReasonAllowed
  | ReasonInvalidTarget
  | ReasonInvalidHostname
  | ReasonExcluded
  | ReasonProtocolMismatch
  | ReasonHostMismatch
  | ReasonPortMismatch
  | ReasonPathMismatch
  | ReasonNoInclude

record evaluation =
  ev_target :: string
  ev_allowed :: bool
  ev_reason :: reason
  ev_includes :: "string list"
  ev_excludes :: "string list"

record compiled =
  c_rule :: normalized_rule
  c_protocol :: regexp
  c_host :: regexp
  c_port :: regexp
  c_file :: regexp

record scope =
  sc_include :: "compiled list"
  sc_exclude :: "compiled list"
  sc_digest :: string

subsection \<open>Normalising and compiling rules\<close>

definition default_any :: "string \<Rightarrow> string" where
  "default_any s = (if s = [] then ''.*'' else s)"

definition canonical_rule :: "rule_kind \<Rightarrow> string \<Rightarrow> string \<Rightarrow> string \<Rightarrow> string \<Rightarrow> string" where
  "canonical_rule kind protocol host port file =
     json_object [(''kind'', json_string (kind_string kind)),
       (''Protocol'', json_string protocol), (''Host'', json_string host),
       (''Port'', json_string port), (''File'', json_string file),
       (''Enabled'', json_bool True)]"

definition normalize_rule :: "(string \<Rightarrow> string) \<Rightarrow> rule \<Rightarrow> rule_kind \<Rightarrow> normalized_rule" where
  "normalize_rule sha r kind =
     (let protocol = default_any (trim_space (rule_protocol r));
          host = default_any (to_lower (trim_space (rule_host r)));
          port = default_any (trim_space (rule_port r));
          file = default_any (trim_space (rule_file r));
          digest = sha (canonical_rule kind protocol host port file)
      in \<lparr>nr_id = kind_string kind @ ''-'' @ take 16 digest, nr_digest = digest, nr_kind = kind,
          nr_protocol = protocol, nr_host = host, nr_port = port, nr_file = file,
          nr_enabled = True\<rparr>)"

definition compile_one :: "rx_parser \<Rightarrow> normalized_rule \<Rightarrow> compiled res" where
  "compile_one rx r =
     (case rx (nr_protocol r) of
        None \<Rightarrow> Inl (Err (''invalid rule expression '' @ quoted (nr_protocol r)))
      | Some p \<Rightarrow>
     (case rx (nr_host r) of
        None \<Rightarrow> Inl (Err (''invalid rule expression '' @ quoted (nr_host r)))
      | Some h \<Rightarrow>
     (case rx (nr_port r) of
        None \<Rightarrow> Inl (Err (''invalid rule expression '' @ quoted (nr_port r)))
      | Some q \<Rightarrow>
     (case rx (nr_file r) of
        None \<Rightarrow> Inl (Err (''invalid rule expression '' @ quoted (nr_file r)))
      | Some f \<Rightarrow>
        Inr \<lparr>c_rule = r, c_protocol = p, c_host = h, c_port = q, c_file = f\<rparr>))))"

text \<open>The loop of \<^verbatim>\<open>compile\<close>: \<open>seen\<close> holds the names met so far, \<open>out\<close> the result so far.\<close>

fun compile_loop ::
  "(string \<Rightarrow> string) \<Rightarrow> rx_parser \<Rightarrow> rule_kind \<Rightarrow> rule list \<Rightarrow> string list
    \<Rightarrow> compiled list \<Rightarrow> compiled list res" where
  "compile_loop sha rx kind [] seen out = Inr out"
| "compile_loop sha rx kind (source # rules) seen out =
     (if \<not> rule_enabled source then compile_loop sha rx kind rules seen out
      else
        let r = normalize_rule sha source kind in
        if nr_id r \<in> set seen then compile_loop sha rx kind rules seen out
        else (case compile_one rx r of
                Inl e \<Rightarrow> Inl e
              | Inr c \<Rightarrow> compile_loop sha rx kind rules (nr_id r # seen) (out @ [c])))"

definition compile_rules ::
  "(string \<Rightarrow> string) \<Rightarrow> rx_parser \<Rightarrow> rule list \<Rightarrow> rule_kind \<Rightarrow> compiled list res" where
  "compile_rules sha rx rules kind =
     (case compile_loop sha rx kind rules [] [] of
        Inl e \<Rightarrow> Inl e
      | Inr out \<Rightarrow> Inr (sort_key (\<lambda>c. nr_id (c_rule c)) out))"

definition copied_rules :: "compiled list \<Rightarrow> normalized_rule list" where
  "copied_rules cs = map c_rule cs"

definition rule_digests :: "compiled list \<Rightarrow> string list" where
  "rule_digests cs = map (\<lambda>c. nr_digest (c_rule c)) cs"

definition rule_json :: "normalized_rule \<Rightarrow> string" where
  "rule_json r =
     json_object [(''id'', json_string (nr_id r)), (''digest'', json_string (nr_digest r)),
       (''kind'', json_string (kind_string (nr_kind r))),
       (''protocol'', json_string (nr_protocol r)), (''host'', json_string (nr_host r)),
       (''port'', json_string (nr_port r)), (''file'', json_string (nr_file r)),
       (''enabled'', json_bool (nr_enabled r))]"

definition digest_rules :: "(string \<Rightarrow> string) \<Rightarrow> normalized_rule list \<Rightarrow> string" where
  "digest_rules sha rules = sha (json_array (map rule_json (sort_key nr_id rules)))"

definition compile_scope ::
  "(string \<Rightarrow> string) \<Rightarrow> rx_parser \<Rightarrow> rule list \<Rightarrow> rule list \<Rightarrow> scope res" where
  "compile_scope sha rx includes excludes =
     (case compile_rules sha rx includes IncludeRule of
        Inl e \<Rightarrow> Inl (Wrapped ''include scope: '' e)
      | Inr inc \<Rightarrow>
     (case compile_rules sha rx excludes ExcludeRule of
        Inl e \<Rightarrow> Inl (Wrapped ''exclude scope: '' e)
      | Inr exc \<Rightarrow>
        if inc = [] then Inl (Err ''scope requires at least one enabled include rule'')
        else Inr \<lparr>sc_include = inc, sc_exclude = exc,
                  sc_digest = digest_rules sha (copied_rules inc @ copied_rules exc)\<rparr>))"

definition include_rules :: "scope \<Rightarrow> normalized_rule list" where
  "include_rules s = copied_rules (sc_include s)"

definition exclude_rules :: "scope \<Rightarrow> normalized_rule list" where
  "exclude_rules s = copied_rules (sc_exclude s)"

subsection \<open>Evaluating a target\<close>

type_synonym target_values = "string \<times> string \<times> string \<times> string"

fun value_at :: "target_values \<Rightarrow> nat \<Rightarrow> string" where
  "value_at (a, b, c, d) i = [a, b, c, d] ! i"

definition regex_at :: "compiled \<Rightarrow> nat \<Rightarrow> regexp" where
  "regex_at r i = [c_protocol r, c_host r, c_port r, c_file r] ! i"

definition rule_matches :: "compiled \<Rightarrow> target_values \<Rightarrow> bool" where
  "rule_matches r v \<longleftrightarrow>
     full (c_protocol r) (value_at v 0) \<and> full (c_host r) (value_at v 1) \<and>
     full (c_port r) (value_at v 2) \<and> full (c_file r) (value_at v 3)"

definition any_match :: "compiled list \<Rightarrow> nat \<Rightarrow> string \<Rightarrow> bool" where
  "any_match rules index v = list_ex (\<lambda>r. full (regex_at r index) v) rules"

definition any_prefix :: "compiled list \<Rightarrow> target_values \<Rightarrow> nat \<Rightarrow> bool" where
  "any_prefix rules vs n =
     list_ex (\<lambda>r. list_all (\<lambda>i. full (regex_at r i) (value_at vs i)) [0..<n]) rules"

definition mismatch_reason :: "compiled list \<Rightarrow> target_values \<Rightarrow> reason" where
  "mismatch_reason rules v =
     (if \<not> any_match rules 0 (value_at v 0) then ReasonProtocolMismatch
      else if \<not> any_prefix rules v 2 then ReasonHostMismatch
      else if \<not> any_prefix rules v 3 then ReasonPortMismatch
      else if \<not> any_prefix rules v 4 then ReasonPathMismatch
      else ReasonNoInclude)"

definition target_values_of :: "url \<Rightarrow> target_values" where
  "target_values_of u =
     (let port = (if url_port u = [] then (if url_scheme u = ''https'' then ''443'' else ''80'')
                  else url_port u);
          path = (if url_escaped_path u = [] then ''/'' else url_escaped_path u)
      in (to_lower (url_scheme u), to_lower (url_hostname u), port, path))"

definition matched_ids :: "compiled list \<Rightarrow> target_values \<Rightarrow> string list" where
  "matched_ids rules v = map (\<lambda>r. nr_id (c_rule r)) (filter (\<lambda>r. rule_matches r v) rules)"

definition evaluate :: "url_parser \<Rightarrow> scope \<Rightarrow> string \<Rightarrow> evaluation" where
  "evaluate parse s raw =
     (let e = \<lparr>ev_target = raw, ev_allowed = False, ev_reason = ReasonInvalidTarget,
               ev_includes = [], ev_excludes = []\<rparr>
      in case parse raw of
           None \<Rightarrow> e
         | Some u \<Rightarrow>
             if \<not> http_url u then e
             else
               let v = target_values_of u;
                   ex = matched_ids (sc_exclude s) v;
                   inc = matched_ids (sc_include s) v
               in if ex \<noteq> [] then e\<lparr>ev_excludes := ex, ev_reason := ReasonExcluded\<rparr>
                  else if inc \<noteq> []
                  then e\<lparr>ev_includes := inc, ev_allowed := True, ev_reason := ReasonAllowed\<rparr>
                  else e\<lparr>ev_reason := mismatch_reason (sc_include s) v\<rparr>)"

definition allows :: "url_parser \<Rightarrow> scope \<Rightarrow> string \<Rightarrow> bool" where
  "allows parse s raw = ev_allowed (evaluate parse s raw)"

definition allows_redirect :: "url_parser \<Rightarrow> scope \<Rightarrow> string \<Rightarrow> string \<Rightarrow> bool" where
  "allows_redirect parse s src dst \<longleftrightarrow> allows parse s src \<and> allows parse s dst"

subsection \<open>Scopes from host names\<close>

definition host_pattern :: "ip_parser \<Rightarrow> string \<Rightarrow> string" where
  "host_pattern ip h0 =
     (let h = to_lower (trim_space h0) in
      if ip h = None
      then ''(?:^|.*'' @ [CHR 0x5C] @ ''.)'' @ quote_meta h @ ''$''
      else ''^'' @ quote_meta h @ ''$'')"

definition host_rule :: "ip_parser \<Rightarrow> string \<Rightarrow> rule" where
  "host_rule ip h =
     \<lparr>rule_protocol = ''^https?$'', rule_host = host_pattern ip h,
      rule_port = ''^(?:80|443)$'', rule_file = ''^/.*'', rule_enabled = True\<rparr>"

definition host_scope ::
  "(string \<Rightarrow> string) \<Rightarrow> rx_parser \<Rightarrow> ip_parser \<Rightarrow> string list \<Rightarrow> scope res" where
  "host_scope sha rx ip hosts = compile_scope sha rx (map (host_rule ip) hosts) []"

subsection \<open>Facts on compilation\<close>

definition enabled_rules :: "(string \<Rightarrow> string) \<Rightarrow> rule_kind \<Rightarrow> rule list \<Rightarrow> normalized_rule set" where
  "enabled_rules sha kind rules = (\<lambda>r. normalize_rule sha r kind) ` {r \<in> set rules. rule_enabled r}"

definition no_collision :: "(string \<Rightarrow> string) \<Rightarrow> rule_kind \<Rightarrow> rule list \<Rightarrow> bool" where
  "no_collision sha kind rules \<longleftrightarrow> inj_on nr_id (enabled_rules sha kind rules)"

lemma enabled_rules_simps [simp]:
  "enabled_rules sha kind [] = {}"
  "enabled_rules sha kind (r # rs) =
     (if rule_enabled r then insert (normalize_rule sha r kind) (enabled_rules sha kind rs)
      else enabled_rules sha kind rs)"
  by (auto simp: enabled_rules_def)

lemma compile_one_rule: "compile_one rx r = Inr c \<Longrightarrow> c_rule c = r"
  by (auto simp: compile_one_def split: option.splits)

lemma compile_loop_ids:
  assumes "compile_loop sha rx kind rules seen out = Inr out'"
    and "set seen = (\<lambda>c. nr_id (c_rule c)) ` set out"
    and "distinct (map (\<lambda>c. nr_id (c_rule c)) out)"
  shows "distinct (map (\<lambda>c. nr_id (c_rule c)) out') \<and>
    (\<lambda>c. nr_id (c_rule c)) ` set out' = set seen \<union> nr_id ` enabled_rules sha kind rules"
  using assms
proof (induction sha rx kind rules seen out rule: compile_loop.induct)
  case (2 sha rx kind source rules seen out)
  let ?r = "normalize_rule sha source kind"
  show ?case
  proof (cases "rule_enabled source \<and> nr_id ?r \<notin> set seen")
    case False
    then have step: "compile_loop sha rx kind (source # rules) seen out = compile_loop sha rx kind rules seen out"
      by (auto simp: Let_def)
    have "distinct (map (\<lambda>c. nr_id (c_rule c)) out') \<and>
        (\<lambda>c. nr_id (c_rule c)) ` set out' = set seen \<union> nr_id ` enabled_rules sha kind rules"
    proof (cases "rule_enabled source")
      case True
      with False "2.prems" step show ?thesis by (intro "2.IH"(2) [of ?r]) simp_all
    next
      case False
      with "2.prems" step show ?thesis by (intro "2.IH"(1)) simp_all
    qed
    moreover have "set seen \<union> nr_id ` enabled_rules sha kind (source # rules) =
        set seen \<union> nr_id ` enabled_rules sha kind rules"
      using False by auto
    ultimately show ?thesis by metis
  next
    case True
    with "2.prems"(1) obtain c where c: "compile_one rx ?r = Inr c"
      by (auto simp: Let_def split: sum.splits)
    then have r: "c_rule c = ?r" by (rule compile_one_rule)
    have "distinct (map (\<lambda>c. nr_id (c_rule c)) out') \<and>
        (\<lambda>c. nr_id (c_rule c)) ` set out' =
          set (nr_id ?r # seen) \<union> nr_id ` enabled_rules sha kind rules"
      using True c r "2.prems" by (intro "2.IH"(3) [of ?r c]) auto
    with True show ?thesis by auto
  qed
qed auto

lemma compile_loop_members:
  assumes "compile_loop sha rx kind rules seen out = Inr out'"
    and "c \<in> set out'"
  shows "c \<in> set out \<or>
    (c_rule c \<in> enabled_rules sha kind rules \<and> compile_one rx (c_rule c) = Inr c)"
  using assms
proof (induction sha rx kind rules seen out rule: compile_loop.induct)
  case (2 sha rx kind source rules seen out)
  let ?r = "normalize_rule sha source kind"
  show ?case
  proof (cases "rule_enabled source \<and> nr_id ?r \<notin> set seen")
    case False
    with 2 show ?thesis by (auto simp: Let_def split: if_splits)
  next
    case True
    with "2.prems"(1) obtain x where x: "compile_one rx ?r = Inr x"
      by (auto simp: Let_def split: sum.splits)
    then have "c \<in> set (out @ [x]) \<or>
        (c_rule c \<in> enabled_rules sha kind rules \<and> compile_one rx (c_rule c) = Inr c)"
      using True "2.prems" by (intro "2.IH"(3) [of ?r x]) simp_all
    with True x compile_one_rule [OF x] show ?thesis by auto
  qed
qed auto

lemma compile_loop_total:
  assumes "\<forall>r \<in> enabled_rules sha kind rules. \<exists>c. compile_one rx r = Inr c"
  shows "\<exists>out'. compile_loop sha rx kind rules seen out = Inr out'"
  using assms
proof (induction sha rx kind rules seen out rule: compile_loop.induct)
  case (2 sha rx kind source rules seen out)
  let ?r = "normalize_rule sha source kind"
  show ?case
  proof (cases "rule_enabled source")
    case False
    with "2.IH"(1) "2.prems" show ?thesis by simp
  next
    case True
    with "2.prems" obtain x where x: "compile_one rx ?r = Inr x" by auto
    show ?thesis
    proof (cases "nr_id ?r \<in> set seen")
      case True
      with "2.IH"(2) [of ?r] \<open>rule_enabled source\<close> "2.prems" show ?thesis by simp
    next
      case False
      with "2.IH"(3) [of ?r x] \<open>rule_enabled source\<close> "2.prems" x show ?thesis by simp
    qed
  qed
qed simp

lemma compile_rules_spec:
  assumes "compile_rules sha rx rules kind = Inr cs" and "no_collision sha kind rules"
  shows "distinct (map (\<lambda>c. nr_id (c_rule c)) cs)"
    and "sorted (map (\<lambda>c. nr_id (c_rule c)) cs)"
    and "set cs = {c. c_rule c \<in> enabled_rules sha kind rules \<and> compile_one rx (c_rule c) = Inr c}"
proof -
  from assms(1) obtain out where out: "compile_loop sha rx kind rules [] [] = Inr out"
    and cs: "cs = sort_key (\<lambda>c. nr_id (c_rule c)) out"
    by (auto simp: compile_rules_def split: sum.splits)
  have *: "distinct (map (\<lambda>c. nr_id (c_rule c)) out) \<and>
      (\<lambda>c. nr_id (c_rule c)) ` set out = set [] \<union> nr_id ` enabled_rules sha kind rules"
    by (rule compile_loop_ids [OF out]) simp_all
  then have d: "distinct (map (\<lambda>c. nr_id (c_rule c)) out)" ..
  from * have ids: "(\<lambda>c. nr_id (c_rule c)) ` set out = nr_id ` enabled_rules sha kind rules"
    by simp
  from d show "distinct (map (\<lambda>c. nr_id (c_rule c)) cs)"
    by (simp add: cs distinct_map)
  show "sorted (map (\<lambda>c. nr_id (c_rule c)) cs)" by (simp add: cs)
  have mem: "c_rule c \<in> enabled_rules sha kind rules \<and> compile_one rx (c_rule c) = Inr c"
    if "c \<in> set out" for c
    using compile_loop_members [OF out that] by simp
  show "set cs = {c. c_rule c \<in> enabled_rules sha kind rules \<and> compile_one rx (c_rule c) = Inr c}"
  proof (intro set_eqI iffI)
    fix c assume "c \<in> set cs"
    then show "c \<in> {c. c_rule c \<in> enabled_rules sha kind rules \<and> compile_one rx (c_rule c) = Inr c}"
      using mem by (simp add: cs)
  next
    fix c assume c: "c \<in> {c. c_rule c \<in> enabled_rules sha kind rules \<and> compile_one rx (c_rule c) = Inr c}"
    then have "nr_id (c_rule c) \<in> (\<lambda>c. nr_id (c_rule c)) ` set out" using ids by blast
    then obtain c' where c': "c' \<in> set out" and eq: "nr_id (c_rule c) = nr_id (c_rule c')" by blast
    have "c_rule c = c_rule c'"
      using assms(2) eq c mem [OF c'] unfolding no_collision_def inj_on_def by blast
    moreover have "compile_one rx (c_rule c) = Inr c" using c by blast
    moreover have "compile_one rx (c_rule c') = Inr c'" using mem [OF c'] ..
    ultimately have "c = c'" by (metis sum.inject(2))
    with c' show "c \<in> set cs" by (simp add: cs)
  qed
qed

lemma compile_rules_cong:
  assumes "compile_rules sha rx rules kind = Inr cs"
    and "enabled_rules sha kind rules = enabled_rules sha kind rules'"
    and "no_collision sha kind rules"
  shows "compile_rules sha rx rules' kind = Inr cs"
proof -
  have nc: "no_collision sha kind rules'" using assms(2,3) by (simp add: no_collision_def)
  have "\<exists>c. compile_one rx r = Inr c" if r: "r \<in> enabled_rules sha kind rules" for r
  proof -
    from assms(1) obtain out where out: "compile_loop sha rx kind rules [] [] = Inr out"
      by (auto simp: compile_rules_def split: sum.splits)
    then obtain c where "c \<in> set out" and "nr_id (c_rule c) = nr_id r"
      using compile_loop_ids [OF out] r by simp (metis imageE imageI)
    moreover have "c_rule c \<in> enabled_rules sha kind rules \<and> compile_one rx (c_rule c) = Inr c"
      using compile_loop_members [OF out \<open>c \<in> set out\<close>] by simp
    ultimately have "c_rule c = r"
      using assms(3) r unfolding no_collision_def inj_on_def by blast
    with \<open>c_rule c \<in> _ \<and> _\<close> show ?thesis by auto
  qed
  then obtain out' where "compile_loop sha rx kind rules' [] [] = Inr out'"
    using compile_loop_total assms(2) by metis
  then obtain cs' where cs': "compile_rules sha rx rules' kind = Inr cs'"
    by (simp add: compile_rules_def)
  have "set cs = set cs'"
    by (simp add: compile_rules_spec(3) [OF assms(1,3)] compile_rules_spec(3) [OF cs' nc] assms(2))
  then have "sort_key (\<lambda>c. nr_id (c_rule c)) cs = sort_key (\<lambda>c. nr_id (c_rule c)) cs'"
    using compile_rules_spec(1) [OF assms(1,3)] compile_rules_spec(1) [OF cs' nc]
    by (rule sort_key_same_set [rotated 2])
  then have "cs = cs'"
    using compile_rules_spec(2) [OF assms(1,3)] compile_rules_spec(2) [OF cs' nc]
    by (simp add: sorted_sort_id sort_key_id_if_sorted)
  with cs' show ?thesis by simp
qed

text \<open>
  Compiling a scope depends only on the set of enabled rules after normalisation: reordering
  or repeating rules gives the same scope with the same digest, provided the shortened digests
  that name the rules do not collide.
\<close>

theorem compile_scope_order_independent:
  assumes "compile_scope sha rx includes excludes = Inr s"
    and "enabled_rules sha IncludeRule includes = enabled_rules sha IncludeRule includes'"
    and "enabled_rules sha ExcludeRule excludes = enabled_rules sha ExcludeRule excludes'"
    and "no_collision sha IncludeRule includes" and "no_collision sha ExcludeRule excludes"
  shows "compile_scope sha rx includes' excludes' = Inr s"
proof -
  from assms(1) obtain inc exc where inc: "compile_rules sha rx includes IncludeRule = Inr inc"
    and exc: "compile_rules sha rx excludes ExcludeRule = Inr exc"
    by (auto simp: compile_scope_def split: sum.splits)
  from compile_rules_cong [OF inc assms(2,4)] compile_rules_cong [OF exc assms(3,5)]
  show ?thesis using assms(1) inc exc by (simp add: compile_scope_def)
qed

subsection \<open>Facts on evaluation\<close>

lemma matched_ids_Nil: "matched_ids rules v = [] \<longleftrightarrow> (\<forall>r \<in> set rules. \<not> rule_matches r v)"
  by (auto simp: matched_ids_def filter_empty_conv)

lemma any_prefix_4: "any_prefix rules v 4 \<longleftrightarrow> (\<exists>r \<in> set rules. rule_matches r v)"
proof -
  have "[0..<4] = [0, 1, 2, 3::nat]" by code_simp
  then show ?thesis
    by (simp add: any_prefix_def rule_matches_def list_ex_iff regex_at_def numeral_3_eq_3 numeral_2_eq_2)
qed

lemma evaluate_cases:
  obtains (invalid) "evaluate parse s raw =
      \<lparr>ev_target = raw, ev_allowed = False, ev_reason = ReasonInvalidTarget,
       ev_includes = [], ev_excludes = []\<rparr>"
      "\<nexists>u. parse raw = Some u \<and> http_url u"
  | (excluded) u where "parse raw = Some u" "http_url u"
      "matched_ids (sc_exclude s) (target_values_of u) \<noteq> []"
      "evaluate parse s raw =
        \<lparr>ev_target = raw, ev_allowed = False, ev_reason = ReasonExcluded, ev_includes = [],
         ev_excludes = matched_ids (sc_exclude s) (target_values_of u)\<rparr>"
  | (allowed) u where "parse raw = Some u" "http_url u"
      "matched_ids (sc_exclude s) (target_values_of u) = []"
      "matched_ids (sc_include s) (target_values_of u) \<noteq> []"
      "evaluate parse s raw =
        \<lparr>ev_target = raw, ev_allowed = True, ev_reason = ReasonAllowed,
         ev_includes = matched_ids (sc_include s) (target_values_of u), ev_excludes = []\<rparr>"
  | (mismatch) u where "parse raw = Some u" "http_url u"
      "matched_ids (sc_exclude s) (target_values_of u) = []"
      "matched_ids (sc_include s) (target_values_of u) = []"
      "evaluate parse s raw =
        \<lparr>ev_target = raw, ev_allowed = False,
         ev_reason = mismatch_reason (sc_include s) (target_values_of u),
         ev_includes = [], ev_excludes = []\<rparr>"
proof (cases "\<exists>u. parse raw = Some u \<and> http_url u")
  case False
  then show thesis
    by (intro invalid) (auto simp: evaluate_def Let_def split: option.splits)
next
  case True
  then obtain u where u: "parse raw = Some u" "http_url u" by blast
  show thesis
  proof (cases "matched_ids (sc_exclude s) (target_values_of u) = []")
    case False
    with u show thesis by (intro excluded) (auto simp: evaluate_def)
  next
    case True
    with u show thesis
      by (cases "matched_ids (sc_include s) (target_values_of u) = []")
        (auto simp: evaluate_def intro: allowed mismatch)
  qed
qed

lemma mismatch_reason_range:
  "mismatch_reason rules v \<in>
     {ReasonProtocolMismatch, ReasonHostMismatch, ReasonPortMismatch, ReasonPathMismatch, ReasonNoInclude}"
  by (simp add: mismatch_reason_def)

lemmas evaluation_simps = evaluation.simps

lemma allows_iff:
  "allows parse s raw \<longleftrightarrow>
     (\<exists>u. parse raw = Some u \<and> http_url u \<and>
          \<not> list_ex (\<lambda>r. rule_matches r (target_values_of u)) (sc_exclude s) \<and>
          list_ex (\<lambda>r. rule_matches r (target_values_of u)) (sc_include s))"
  unfolding allows_def
  by (rule evaluate_cases [of parse s raw]) (auto simp: matched_ids_Nil list_ex_iff)

text \<open>
  C1: A target is allowed exactly when it parses as an http or https URL with a host, no exclude
  rule matches all four of its parts, and some include rule does: exclusions always win over
  inclusions.
\<close>

theorem exclusions_always_win:
  "allows parse s raw \<longleftrightarrow>
     (\<exists>u. parse raw = Some u \<and> http_url u \<and>
          \<not> list_ex (\<lambda>r. rule_matches r (target_values_of u)) (sc_exclude s) \<and>
          list_ex (\<lambda>r. rule_matches r (target_values_of u)) (sc_include s))"
  by (rule allows_iff)

subsection \<open>The reason of a rejection\<close>

definition match_depth :: "compiled \<Rightarrow> target_values \<Rightarrow> nat" where
  "match_depth r v = length (takeWhile (\<lambda>i. full (regex_at r i) (value_at v i)) [0..<4])"

definition closest :: "compiled list \<Rightarrow> target_values \<Rightarrow> nat" where
  "closest rules v = foldr (\<lambda>r. max (match_depth r v)) rules 0"

definition spec_reason :: "url_parser \<Rightarrow> scope \<Rightarrow> string \<Rightarrow> reason" where
  "spec_reason parse s raw =
     (case parse raw of
        None \<Rightarrow> ReasonInvalidTarget
      | Some u \<Rightarrow>
          if \<not> http_url u then ReasonInvalidTarget
          else if list_ex (\<lambda>r. rule_matches r (target_values_of u)) (sc_exclude s)
          then ReasonExcluded
          else [ReasonProtocolMismatch, ReasonHostMismatch, ReasonPortMismatch,
                ReasonPathMismatch, ReasonAllowed] ! closest (sc_include s) (target_values_of u))"

lemma match_depth_ge:
  assumes "n \<le> 4"
  shows "n \<le> match_depth r v \<longleftrightarrow> (\<forall>i < n. full (regex_at r i) (value_at v i))"
proof
  assume le: "n \<le> match_depth r v"
  show "\<forall>i < n. full (regex_at r i) (value_at v i)"
  proof (intro allI impI)
    fix i assume "i < n"
    with le have i: "i < length (takeWhile (\<lambda>i. full (regex_at r i) (value_at v i)) [0..<4])"
      by (simp add: match_depth_def)
    then have "full (regex_at r ([0..<4] ! i)) (value_at v ([0..<4] ! i))"
      using nth_mem [OF i] by (auto simp: takeWhile_nth dest: set_takeWhileD)
    then show "full (regex_at r i) (value_at v i)"
      using \<open>i < n\<close> assms by simp
  qed
next
  assume "\<forall>i < n. full (regex_at r i) (value_at v i)"
  then have "n \<le> length (takeWhile (\<lambda>i. full (regex_at r i) (value_at v i)) [0..<4])"
    using assms by (intro length_takeWhile_less_P_nth) simp_all
  then show "n \<le> match_depth r v" by (simp add: match_depth_def)
qed

lemma match_depth_le: "match_depth r v \<le> 4"
  unfolding match_depth_def using length_takeWhile_le [of _ "[0..<4]"] by (metis diff_zero length_upt)

lemma closest_ge: "n \<le> closest rules v \<longleftrightarrow> n = 0 \<or> (\<exists>r \<in> set rules. n \<le> match_depth r v)"
  by (induction rules) (auto simp: closest_def)

lemma closest_le: "closest rules v \<le> 4"
  by (induction rules) (auto simp: closest_def match_depth_le)

lemma any_prefix_depth:
  "n \<le> 4 \<Longrightarrow> any_prefix rules v n \<longleftrightarrow> (\<exists>r \<in> set rules. n \<le> match_depth r v)"
  by (simp add: any_prefix_def list_ex_iff list_all_iff match_depth_ge atLeast0LessThan Ball_def)

lemma any_match_depth:
  "any_match rules 0 (value_at v 0) \<longleftrightarrow> (\<exists>r \<in> set rules. 1 \<le> match_depth r v)"
  by (simp add: any_match_def list_ex_iff match_depth_ge)

lemma mismatch_reason_closest:
  assumes "\<not> (\<exists>r \<in> set rules. rule_matches r v)"
  shows "mismatch_reason rules v =
    [ReasonProtocolMismatch, ReasonHostMismatch, ReasonPortMismatch, ReasonPathMismatch,
     ReasonAllowed] ! closest rules v"
proof -
  have "\<not> 4 \<le> closest rules v"
    using assms by (simp add: closest_ge flip: any_prefix_depth any_prefix_4)
  then consider "closest rules v = 0" | "closest rules v = 1" | "closest rules v = 2"
    | "closest rules v = 3" by linarith
  then show ?thesis
    using closest_ge [of 1 rules v] closest_ge [of 2 rules v] closest_ge [of 3 rules v]
      closest_ge [of 4 rules v]
    by cases (simp_all add: mismatch_reason_def any_match_depth any_prefix_depth
        numeral_2_eq_2 numeral_3_eq_3)
qed

lemma closest_4: "(\<exists>r \<in> set rules. rule_matches r v) \<Longrightarrow> closest rules v = 4"
proof -
  assume "\<exists>r \<in> set rules. rule_matches r v"
  then have "4 \<le> closest rules v"
    by (simp add: closest_ge flip: any_prefix_depth any_prefix_4)
  with closest_le [of rules v] show ?thesis by simp
qed

text \<open>
  C24: The reason the evaluation of a target reports is the one of a reference definition: the
  first of protocol, host, port and path at which the include rule that comes closest fails, and
  no_matching_include is never reported.
\<close>

theorem evaluation_reason_spec:
  "ev_reason (evaluate parse s raw) = spec_reason parse s raw \<and>
   (ev_allowed (evaluate parse s raw) \<longleftrightarrow> spec_reason parse s raw = ReasonAllowed)"
proof (rule evaluate_cases [of parse s raw])
  assume "evaluate parse s raw = \<lparr>ev_target = raw, ev_allowed = False, ev_reason = ReasonInvalidTarget,
       ev_includes = [], ev_excludes = []\<rparr>" and "\<nexists>u. parse raw = Some u \<and> http_url u"
  then show ?thesis by (auto simp: spec_reason_def split: option.splits)
next
  fix u assume "parse raw = Some u" "http_url u"
    "matched_ids (sc_exclude s) (target_values_of u) \<noteq> []"
    "evaluate parse s raw = \<lparr>ev_target = raw, ev_allowed = False, ev_reason = ReasonExcluded,
       ev_includes = [], ev_excludes = matched_ids (sc_exclude s) (target_values_of u)\<rparr>"
  then show ?thesis by (auto simp: spec_reason_def matched_ids_Nil list_ex_iff)
next
  fix u assume "parse raw = Some u" "http_url u"
    "matched_ids (sc_exclude s) (target_values_of u) = []"
    "matched_ids (sc_include s) (target_values_of u) \<noteq> []"
    "evaluate parse s raw = \<lparr>ev_target = raw, ev_allowed = True, ev_reason = ReasonAllowed,
         ev_includes = matched_ids (sc_include s) (target_values_of u), ev_excludes = []\<rparr>"
  then show ?thesis
    by (auto simp: spec_reason_def matched_ids_Nil list_ex_iff closest_4 [OF bexI])
next
  fix u assume u: "parse raw = Some u" "http_url u"
    "matched_ids (sc_exclude s) (target_values_of u) = []"
    "matched_ids (sc_include s) (target_values_of u) = []"
    "evaluate parse s raw = \<lparr>ev_target = raw, ev_allowed = False,
         ev_reason = mismatch_reason (sc_include s) (target_values_of u),
         ev_includes = [], ev_excludes = []\<rparr>"
  then have n: "\<not> (\<exists>r \<in> set (sc_include s). rule_matches r (target_values_of u))"
    by (simp add: matched_ids_Nil)
  then have "\<not> 4 \<le> closest (sc_include s) (target_values_of u)"
    by (simp add: closest_ge flip: any_prefix_depth any_prefix_4)
  then have "spec_reason parse s raw \<noteq> ReasonAllowed"
    using u mismatch_reason_closest [OF n]
    by (auto simp: spec_reason_def matched_ids_Nil list_ex_iff mismatch_reason_def
          any_match_depth closest_ge split: if_splits)
  with u mismatch_reason_closest [OF n] show ?thesis
    by (auto simp: spec_reason_def matched_ids_Nil list_ex_iff)
qed

subsection \<open>What a scope made from host names authorises\<close>

definition host_regexp :: "string \<Rightarrow> regexp" where
  "host_regexp h =
     ReConcat [ReAlternate [ReBeginText, ReConcat [ReStar True ReAnyNotNL, ReLiteral False ''.'']],
       ReLiteral False h, ReEndText]"

definition scheme_regexp :: regexp where
  "scheme_regexp =
     ReConcat [ReBeginText, ReLiteral False ''http'', ReQuest True (ReLiteral False ''s''), ReEndText]"

definition port_regexp :: regexp where
  "port_regexp =
     ReConcat [ReBeginText, ReAlternate [ReLiteral False ''80'', ReLiteral False ''443''], ReEndText]"

definition path_regexp :: regexp where
  "path_regexp = ReConcat [ReBeginText, ReLiteral False ''/'', ReStar True ReAnyNotNL]"

lemma lit_ends_False: "lit_ends False w s i = (if has_prefix (drop i s) w then [i + length w] else [])"
  by (auto simp: lit_ends_def has_prefix_iff) (metis append_take_drop_id)+

lemma star_any_ends:
  "i \<le> length s \<Longrightarrow>
     ends (ReStar True ReAnyNotNL) s i =
       rev [i ..< i + Suc (length (takeWhile (\<lambda>c. c \<noteq> CHR 0x0A) (drop i s)))]"
proof (induction "length s - i" arbitrary: i)
  case 0
  then show ?case by (simp add: step_if_def)
next
  case (Suc n)
  then have i: "i < length s" by simp
  then have d: "drop i s = s ! i # drop (Suc i) s" by (simp add: Cons_nth_drop_Suc)
  show ?case
  proof (cases "s ! i = CHR 0x0A")
    case True
    with i d show ?thesis by (simp add: step_if_def)
  next
    case False
    have IH: "ends (ReStar True ReAnyNotNL) s (Suc i) =
        rev [Suc i ..< Suc i + Suc (length (takeWhile (\<lambda>c. c \<noteq> CHR 0x0A) (drop (Suc i) s)))]"
      using Suc i by simp
    have "plus_ends True ReAnyNotNL s i = plus_ends True ReAnyNotNL s (Suc i) @ [Suc i]"
      using i False by (simp add: step_if_def)
    then have "ends (ReStar True ReAnyNotNL) s i = ends (ReStar True ReAnyNotNL) s (Suc i) @ [i]"
      by simp
    with IH False d show ?thesis
      by (simp add: upt_conv_Cons del: ends.simps upt_Suc)
  qed
qed

declare plus_ends.simps [simp del]

lemma set_star_any:
  "set (ends (ReStar True ReAnyNotNL) t 0) = {..length (takeWhile (\<lambda>c. c \<noteq> CHR 0x0A) t)}"
  using star_any_ends [of 0 t] by (auto simp del: ends.simps upt_Suc)

lemma set_lit_dot: "set (ends (ReLiteral False ''.'') t k) = (if k < length t \<and> t ! k = CHR ''.'' then {Suc k} else {})"
proof (cases "k < length t")
  case True
  then have "drop k t = t ! k # drop (Suc k) t" by (simp add: Cons_nth_drop_Suc)
  with True show ?thesis by (simp add: lit_ends_False)
next
  case False
  then show ?thesis by (simp add: lit_ends_False)
qed

lemma host_starts:
  "set (ends (ReAlternate [ReBeginText, ReConcat [ReStar True ReAnyNotNL, ReLiteral False ''.'']]) t 0) =
     insert 0 {Suc k |k. k < length t \<and> t ! k = CHR ''.'' \<and>
                k \<le> length (takeWhile (\<lambda>c. c \<noteq> CHR 0x0A) t)}"
proof -
  have "set (ends (ReAlternate [ReBeginText, ReConcat [ReStar True ReAnyNotNL, ReLiteral False ''.'']]) t 0) =
     insert 0 (\<Union>k \<in> set (ends (ReStar True ReAnyNotNL) t 0). set (ends (ReLiteral False ''.'') t k))"
    by (simp del: ends.simps(3,10))
  then show ?thesis
    unfolding set_star_any set_lit_dot by (auto split: if_splits)
qed

lemma set_host_ends:
  "set (ends (host_regexp h) t 0) =
     (\<Union>k \<in> set (ends (ReAlternate [ReBeginText, ReConcat [ReStar True ReAnyNotNL, ReLiteral False ''.'']]) t 0).
        if has_prefix (drop k t) h \<and> k + length h = length t then {length t} else {})"
  unfolding host_regexp_def
  by (auto simp: lit_ends_False simp del: ends.simps(10,14) split: if_splits)

lemma before_newline:
  "t ! k \<noteq> CHR 0x0A \<Longrightarrow> k < length t \<Longrightarrow>
     k \<le> length (takeWhile (\<lambda>c. c \<noteq> CHR 0x0A) t) \<longleftrightarrow> CHR 0x0A \<notin> set (take k t)"
proof
  assume "k \<le> length (takeWhile (\<lambda>c. c \<noteq> CHR 0x0A) t)"
  then have "take k t = take k (takeWhile (\<lambda>c. c \<noteq> CHR 0x0A) t)"
    by (metis takeWhile_eq_take take_take min.absorb1)
  then show "CHR 0x0A \<notin> set (take k t)"
    by (metis in_set_takeD set_takeWhileD)
next
  assume "CHR 0x0A \<notin> set (take k t)" "k < length t"
  then show "k \<le> length (takeWhile (\<lambda>c. c \<noteq> CHR 0x0A) t)"
    by (intro length_takeWhile_less_P_nth) (auto simp: in_set_conv_nth)
qed

lemma host_regexp_full:
  "full (host_regexp h) t \<longleftrightarrow> t = h \<or> (\<exists>p. t = p @ ''.'' @ h \<and> CHR 0x0A \<notin> set p)"
proof -
  have "full (host_regexp h) t \<longleftrightarrow> ends (host_regexp h) t 0 \<noteq> []"
    by (rule full_anchored) (auto simp: set_host_ends split: if_splits)
  also have "\<dots> \<longleftrightarrow> set (ends (host_regexp h) t 0) \<noteq> {}" by simp
  also have "\<dots> \<longleftrightarrow> t = h \<or> (\<exists>k < length t. t ! k = CHR ''.'' \<and> CHR 0x0A \<notin> set (take k t) \<and>
      drop (Suc k) t = h)"
  proof -
    have eq: "has_prefix (drop k t) h \<and> k + length h = length t \<longleftrightarrow> drop k t = h \<and> k \<le> length t" for k
      by (auto simp: has_prefix_iff) (metis add_diff_cancel_left' append_eq_append_conv append_self_conv length_drop)
    have "set (ends (host_regexp h) t 0) \<noteq> {} \<longleftrightarrow>
        (\<exists>k \<in> insert 0 {Suc k |k. k < length t \<and> t ! k = CHR ''.'' \<and>
           k \<le> length (takeWhile (\<lambda>c. c \<noteq> CHR 0x0A) t)}. drop k t = h \<and> k \<le> length t)"
      unfolding set_host_ends host_starts eq by (auto split: if_splits)
    also have "\<dots> \<longleftrightarrow> t = h \<or> (\<exists>k < length t. t ! k = CHR ''.'' \<and>
        k \<le> length (takeWhile (\<lambda>c. c \<noteq> CHR 0x0A) t) \<and> drop (Suc k) t = h)"
      by auto
    also have "\<dots> \<longleftrightarrow> t = h \<or> (\<exists>k < length t. t ! k = CHR ''.'' \<and>
        CHR 0x0A \<notin> set (take k t) \<and> drop (Suc k) t = h)"
    proof -
      have "k \<le> length (takeWhile (\<lambda>c. c \<noteq> CHR 0x0A) t) \<longleftrightarrow> CHR 0x0A \<notin> set (take k t)"
        if "k < length t" "t ! k = CHR ''.''" for k
        using before_newline [of t k] that by simp
      then show ?thesis by blast
    qed
    finally show ?thesis .
  qed
  also have "\<dots> \<longleftrightarrow> t = h \<or> (\<exists>p. t = p @ ''.'' @ h \<and> CHR 0x0A \<notin> set p)"
  proof -
    have "(\<exists>k < length t. t ! k = CHR ''.'' \<and> CHR 0x0A \<notin> set (take k t) \<and> drop (Suc k) t = h) \<longleftrightarrow>
        (\<exists>p. t = p @ ''.'' @ h \<and> CHR 0x0A \<notin> set p)"
    proof
      assume "\<exists>k < length t. t ! k = CHR ''.'' \<and> CHR 0x0A \<notin> set (take k t) \<and> drop (Suc k) t = h"
      then obtain k where "k < length t" "t ! k = CHR ''.''" "CHR 0x0A \<notin> set (take k t)" "drop (Suc k) t = h"
        by blast
      then have "t = take k t @ ''.'' @ h" by (metis append_Cons append_Nil id_take_nth_drop)
      with \<open>CHR 0x0A \<notin> set (take k t)\<close> show "\<exists>p. t = p @ ''.'' @ h \<and> CHR 0x0A \<notin> set p" by blast
    next
      assume "\<exists>p. t = p @ ''.'' @ h \<and> CHR 0x0A \<notin> set p"
      then obtain p where "t = p @ ''.'' @ h" "CHR 0x0A \<notin> set p" by blast
      then show "\<exists>k < length t. t ! k = CHR ''.'' \<and> CHR 0x0A \<notin> set (take k t) \<and> drop (Suc k) t = h"
        by (intro exI [of _ "length p"]) (simp add: nth_append)
    qed
    then show ?thesis by simp
  qed
  finally show ?thesis .
qed

lemma seq_ends_EndText: "j \<in> set (seq_ends (rs @ [ReEndText]) s i) \<Longrightarrow> j = length s"
  by (induction rs arbitrary: i) (auto split: if_splits)

lemma full_EndText:
  "full (ReConcat (rs @ [ReEndText])) t \<longleftrightarrow> length t \<in> set (seq_ends (rs @ [ReEndText]) t 0)"
proof -
  have "full (ReConcat (rs @ [ReEndText])) t \<longleftrightarrow> seq_ends (rs @ [ReEndText]) t 0 \<noteq> []"
    by (subst full_anchored) (auto dest: seq_ends_EndText)
  then show ?thesis
    by (metis empty_iff empty_set last_in_set seq_ends_EndText)
qed

lemma scheme_regexp_full: "full scheme_regexp t \<longleftrightarrow> t = ''http'' \<or> t = ''https''"
proof -
  have "full scheme_regexp t \<longleftrightarrow>
      has_prefix t ''http'' \<and> (has_prefix (drop 4 t) ''s'' \<and> length t = 5 \<or> length t = 4)"
    using full_EndText [of "[ReBeginText, ReLiteral False ''http'', ReQuest True (ReLiteral False ''s'')]" t]
    by (simp add: scheme_regexp_def lit_ends_False eval_nat_numeral) metis
  also have "\<dots> \<longleftrightarrow> t = ''http'' \<or> t = ''https''"
    by (cases "has_prefix t ''http''") (auto simp: has_prefix_iff)
  finally show ?thesis .
qed

lemma port_regexp_full: "full port_regexp t \<longleftrightarrow> t = ''80'' \<or> t = ''443''"
proof -
  have "full port_regexp t \<longleftrightarrow>
      (has_prefix t ''80'' \<and> length t = 2) \<or> (has_prefix t ''443'' \<and> length t = 3)"
    using full_EndText [of "[ReBeginText, ReAlternate [ReLiteral False ''80'', ReLiteral False ''443'']]" t]
    by (simp add: port_regexp_def lit_ends_False eval_nat_numeral conj_commute)
  also have "\<dots> \<longleftrightarrow> t = ''80'' \<or> t = ''443''"
    by (auto simp: has_prefix_iff)
  finally show ?thesis .
qed

lemma path_regexp_ends:
  "ends path_regexp t 0 = (if has_prefix t ''/'' then ends (ReStar True ReAnyNotNL) t 1 else [])"
proof -
  have "concat (map (seq_ends [] t) xs) = xs" for xs by (induction xs) simp_all
  then show ?thesis by (simp add: path_regexp_def lit_ends_False del: ends.simps(10))
qed

lemma path_regexp_full: "full path_regexp t \<longleftrightarrow> (\<exists>p. t = ''/'' @ p \<and> CHR 0x0A \<notin> set p)"
proof (cases "has_prefix t ''/''")
  case True
  then obtain p where t: "t = CHR ''/'' # p" by (auto simp: has_prefix_iff)
  have "ends path_regexp t 0 = rev [1 ..< 2 + length (takeWhile (\<lambda>c. c \<noteq> CHR 0x0A) p)]"
    using True star_any_ends [of 1 t] by (simp add: path_regexp_ends t del: ends.simps upt_Suc)
  also have "\<dots> = Suc (length (takeWhile (\<lambda>c. c \<noteq> CHR 0x0A) p)) #
      rev [1 ..< 1 + length (takeWhile (\<lambda>c. c \<noteq> CHR 0x0A) p)]"
    by simp
  finally have "full path_regexp t \<longleftrightarrow> length (takeWhile (\<lambda>c. c \<noteq> CHR 0x0A) p) = length p"
    by (simp add: full_iff_hd t)
  also have "\<dots> \<longleftrightarrow> CHR 0x0A \<notin> set p"
  proof
    assume "length (takeWhile (\<lambda>c. c \<noteq> CHR 0x0A) p) = length p"
    then have "takeWhile (\<lambda>c. c \<noteq> CHR 0x0A) p = p" by (metis takeWhile_eq_take take_all order_refl)
    then show "CHR 0x0A \<notin> set p" by (auto simp: takeWhile_eq_all_conv)
  next
    assume "CHR 0x0A \<notin> set p"
    then have "takeWhile (\<lambda>c. c \<noteq> CHR 0x0A) p = p" by (auto simp: takeWhile_eq_all_conv)
    then show "length (takeWhile (\<lambda>c. c \<noteq> CHR 0x0A) p) = length p" by (rule arg_cong)
  qed
  finally show ?thesis by (simp add: t)
next
  case False
  then show ?thesis by (auto simp: full_iff_hd path_regexp_ends has_prefix_iff)
qed

lemma trim_space_id:
  "s \<noteq> [] \<Longrightarrow> \<not> is_space (hd s) \<Longrightarrow> \<not> is_space (last s) \<Longrightarrow> trim_space s = s"
proof -
  assume "s \<noteq> []" "\<not> is_space (hd s)" "\<not> is_space (last s)"
  then have "dropWhile is_space s = s" and "dropWhile is_space (rev s) = rev s"
    by (simp_all add: dropWhile_eq_self_iff hd_rev)
  then show ?thesis by (simp add: trim_space_def trim_def trim_left_def trim_right_def)
qed

definition plain_hostname :: "string \<Rightarrow> bool" where
  "plain_hostname h \<longleftrightarrow> h \<noteq> [] \<and> to_lower (trim_space h) = h"

lemma to_lower_append [simp]: "to_lower (a @ b) = to_lower a @ to_lower b"
  by (simp add: to_lower_def)

lemma to_lower_Cons [simp]: "to_lower (c # s) = lower_char c # to_lower s"
  by (simp add: to_lower_def)

lemma is_meta_lower: "is_meta c \<Longrightarrow> lower_char c = c"
  by (auto simp: is_meta_def lower_char_def)

lemma to_lower_quote_meta: "to_lower h = h \<Longrightarrow> to_lower (quote_meta h) = quote_meta h"
  by (induction h) (auto simp: is_meta_lower, simp add: lower_char_def)

lemma plain_lower: "plain_hostname h \<Longrightarrow> to_lower h = h"
  by (metis plain_hostname_def to_lower_idem)

lemma normalize_host_rule:
  assumes "plain_hostname h" and "ip h = None"
  shows "nr_protocol (normalize_rule sha (host_rule ip h) IncludeRule) = ''^https?$''"
    and "nr_host (normalize_rule sha (host_rule ip h) IncludeRule) = host_pattern ip h"
    and "nr_port (normalize_rule sha (host_rule ip h) IncludeRule) = ''^(?:80|443)$''"
    and "nr_file (normalize_rule sha (host_rule ip h) IncludeRule) = ''^/.*''"
proof -
  have h: "to_lower (trim_space h) = h" using assms by (simp add: plain_hostname_def)
  have "to_lower (trim_space (host_pattern ip h)) = host_pattern ip h"
  proof -
    have "trim_space (host_pattern ip h) = host_pattern ip h"
      by (rule trim_space_id) (simp_all add: host_pattern_def h assms is_space_def)
    moreover have "to_lower (host_pattern ip h) = host_pattern ip h"
      using to_lower_quote_meta [OF plain_lower [OF assms(1)]]
      by (simp add: host_pattern_def h assms) (simp add: lower_char_def)
    ultimately show ?thesis by simp
  qed
  then show "nr_host (normalize_rule sha (host_rule ip h) IncludeRule) = host_pattern ip h"
    by (simp add: normalize_rule_def host_rule_def Let_def default_any_def host_pattern_def)
qed (simp_all add: normalize_rule_def host_rule_def Let_def default_any_def trim_space_id is_space_def)

text \<open>
  A scope made from a host name authorises exactly http and https URLs on ports 80 and 443
  whose host is that name or a subdomain of it (never a name that merely ends with it), given that
  the expression parser maps the four generated expressions to their syntax trees.
\<close>

theorem host_scope_authorises_subdomains:
  assumes "plain_hostname h" and "ip h = None"
    and "rx ''^https?$'' = Some scheme_regexp"
    and "rx (host_pattern ip h) = Some (host_regexp h)"
    and "rx ''^(?:80|443)$'' = Some port_regexp"
    and "rx ''^/.*'' = Some path_regexp"
    and "parse raw = Some u" and "http_url u"
    and "target_values_of u = (scheme, host, port, path)"
  shows "\<exists>s. host_scope sha rx ip [h] = Inr s \<and>
    (allows parse s raw \<longleftrightarrow>
       (scheme = ''http'' \<or> scheme = ''https'') \<and>
       (host = h \<or> (\<exists>p. host = p @ ''.'' @ h \<and> CHR 0x0A \<notin> set p)) \<and>
       (port = ''80'' \<or> port = ''443'') \<and>
       (\<exists>p. path = ''/'' @ p \<and> CHR 0x0A \<notin> set p))"
proof -
  let ?r = "normalize_rule sha (host_rule ip h) IncludeRule"
  let ?c = "\<lparr>c_rule = ?r, c_protocol = scheme_regexp, c_host = host_regexp h,
      c_port = port_regexp, c_file = path_regexp\<rparr>"
  have "compile_one rx ?r = Inr ?c"
    using assms by (simp add: compile_one_def normalize_host_rule)
  moreover have "rule_enabled (host_rule ip h)" by (simp add: host_rule_def)
  ultimately have "\<exists>d. host_scope sha rx ip [h] = Inr \<lparr>sc_include = [?c], sc_exclude = [], sc_digest = d\<rparr>"
    by (simp add: host_scope_def compile_scope_def compile_rules_def Let_def)
  then obtain d where d: "host_scope sha rx ip [h] = Inr \<lparr>sc_include = [?c], sc_exclude = [], sc_digest = d\<rparr>" ..
  then show ?thesis
    using assms(7,8,9)
    by (simp add: allows_iff rule_matches_def scheme_regexp_full host_regexp_full
        port_regexp_full path_regexp_full)
qed

definition demo_rx :: rx_parser where
  "demo_rx p =
     (if p = ''^https?$'' then Some scheme_regexp
      else if p = host_pattern (\<lambda>_. None) ''acme.test'' then Some (host_regexp ''acme.test'')
      else if p = ''^(?:80|443)$'' then Some port_regexp
      else if p = ''^/.*'' then Some path_regexp
      else if p = ''.*'' then Some (ReStar True ReAnyNotNL)
      else if p = CHR 0x5C # ''s+'' then Some (RePlus True (ReClass [(CHR 0x09, CHR 0x0D), (CHR '' '', CHR '' '')]))
      else None)"

definition demo_url :: url where
  "demo_url = \<lparr>url_scheme = ''https'', url_hostname = ''api.acme.test'', url_port = [],
     url_escaped_path = ''/v1'', url_path = ''/v1'', url_string = ''https://api.acme.test/v1'',
     url_string_no_fragment = ''https://api.acme.test/v1''\<rparr>"

theorem host_scope_authorises_subdomains_witness:
  "\<exists>s. host_scope id demo_rx (\<lambda>_. None) [''acme.test''] = Inr s \<and>
     allows (\<lambda>_. Some demo_url) s ''https://api.acme.test/v1''"
proof -
  have h: "plain_hostname ''acme.test''" by code_simp
  have rx: "demo_rx ''^https?$'' = Some scheme_regexp"
    "demo_rx (host_pattern (\<lambda>_. None) ''acme.test'') = Some (host_regexp ''acme.test'')"
    "demo_rx ''^(?:80|443)$'' = Some port_regexp" "demo_rx ''^/.*'' = Some path_regexp"
    by (simp_all add: demo_rx_def host_pattern_def)
  have u: "http_url demo_url" by code_simp
  have v: "target_values_of demo_url = (''https'', ''api.acme.test'', ''443'', ''/v1'')" by code_simp
  have "''api.acme.test'' = ''api'' @ ''.'' @ ''acme.test'' \<and> CHR 0x0A \<notin> set ''api''" by simp
  then show ?thesis
    using host_scope_authorises_subdomains [where ip = "\<lambda>_. None" and sha = id and
        parse = "\<lambda>_. Some demo_url" and raw = "''https://api.acme.test/v1''", OF h refl rx refl u v]
    by (auto simp: Cons_eq_append_conv)
qed

definition demo_rules :: "rule list" where
  "demo_rules =
     [\<lparr>rule_protocol = ''^https?$'', rule_host = [], rule_port = [], rule_file = [], rule_enabled = True\<rparr>,
      \<lparr>rule_protocol = [], rule_host = [], rule_port = [], rule_file = ''^/.*'', rule_enabled = True\<rparr>]"

definition demo_sha :: "string \<Rightarrow> string" where
  "demo_sha s = (if str_contains s ''https'' then ''a1'' else ''b2'')"

theorem compile_scope_order_independent_witness:
  "\<exists>s. compile_scope demo_sha demo_rx demo_rules [] = Inr s \<and>
       compile_scope demo_sha demo_rx (rev demo_rules @ demo_rules) [] = Inr s"
proof -
  have "\<not> isl (compile_scope demo_sha demo_rx demo_rules [])" by code_simp
  then obtain s where s: "compile_scope demo_sha demo_rx demo_rules [] = Inr s"
    by (cases "compile_scope demo_sha demo_rx demo_rules []") auto
  have "enabled_rules demo_sha IncludeRule demo_rules =
      enabled_rules demo_sha IncludeRule (rev demo_rules @ demo_rules)"
    by (simp add: enabled_rules_def Un_commute)
  moreover have "no_collision demo_sha IncludeRule demo_rules"
  proof -
    have "nr_id (normalize_rule demo_sha (demo_rules ! 0) IncludeRule) \<noteq>
        nr_id (normalize_rule demo_sha (demo_rules ! 1) IncludeRule)" by code_simp
    moreover have "enabled_rules demo_sha IncludeRule demo_rules =
        {normalize_rule demo_sha (demo_rules ! 0) IncludeRule,
         normalize_rule demo_sha (demo_rules ! 1) IncludeRule}"
      by (auto simp: enabled_rules_def demo_rules_def)
    ultimately show ?thesis by (auto simp: no_collision_def)
  qed
  ultimately show ?thesis
    using compile_scope_order_independent [OF s, of "rev demo_rules @ demo_rules" "[]"] s
    by (simp add: no_collision_def)
qed

subsection \<open>Two surprises of rule expressions\<close>

definition space_class_rule :: rule where
  "space_class_rule = \<lparr>rule_protocol = [], rule_host = CHR 0x5C # ''S+'', rule_port = [],
     rule_file = [], rule_enabled = True\<rparr>"

lemma host_class_escape_lowered:
  "nr_host (normalize_rule sha space_class_rule ExcludeRule) = CHR 0x5C # ''s+''"
  by (simp add: normalize_rule_def space_class_rule_def default_any_def Let_def) code_simp

lemma lowered_class_exclusion_lost:
  "case compile_scope demo_sha demo_rx demo_rules [space_class_rule] of
     Inl e \<Rightarrow> False
   | Inr s \<Rightarrow> sc_exclude s \<noteq> [] \<and> allows (\<lambda>_. Some demo_url) s (url_string demo_url)"
  by code_simp

lemma unanchored_alternation_prefers_first:
  "full (ReAlternate [ReLiteral False ''http'', ReLiteral False ''https'']) ''http''"
  "\<not> full (ReAlternate [ReLiteral False ''http'', ReLiteral False ''https'']) ''https''"
  by (simp_all add: full_iff_hd lit_ends_False)

subsection \<open>The evaluation interface\<close>

text \<open>
  \<^verbatim>\<open>DetailedScope\<close> (internal/targeting/filter.go) and \<^verbatim>\<open>capability.Scope\<close> are what the target
  filter, the command providers and the internal capabilities know of a scope: an evaluation
  function. The laws are what those clients rely on.
\<close>

locale scope_evaluator =
  fixes eval :: "string \<Rightarrow> evaluation"
  assumes eval_target: "ev_target (eval t) = t"
    and eval_allowed: "ev_allowed (eval t) \<longleftrightarrow> ev_reason (eval t) = ReasonAllowed"
    and eval_includes: "ev_includes (eval t) \<noteq> [] \<longleftrightarrow> ev_allowed (eval t)"
    and eval_excludes: "ev_excludes (eval t) \<noteq> [] \<longleftrightarrow> ev_reason (eval t) = ReasonExcluded"
begin

lemma allowed_has_no_exclusion: "ev_allowed (eval t) \<Longrightarrow> ev_excludes (eval t) = []"
  using eval_allowed [of t] eval_excludes [of t] by (cases "ev_reason (eval t)") auto

lemma allowed_names_its_rules: "ev_allowed (eval t) \<Longrightarrow> ev_includes (eval t) \<noteq> []"
  by (simp add: eval_includes)

end

lemma mismatch_not_allowed_excluded:
  "mismatch_reason rules v \<noteq> ReasonAllowed" "mismatch_reason rules v \<noteq> ReasonExcluded"
  by (simp_all add: mismatch_reason_def)

interpretation scope_ev: scope_evaluator "evaluate parse s" for parse s
proof unfold_locales
  fix t
  show "ev_target (evaluate parse s t) = t"
    by (rule evaluate_cases [of parse s t]) simp_all
  show "ev_allowed (evaluate parse s t) \<longleftrightarrow> ev_reason (evaluate parse s t) = ReasonAllowed"
    by (rule evaluate_cases [of parse s t]) (simp_all add: mismatch_not_allowed_excluded)
  show "ev_includes (evaluate parse s t) \<noteq> [] \<longleftrightarrow> ev_allowed (evaluate parse s t)"
    by (rule evaluate_cases [of parse s t]) simp_all
  show "ev_excludes (evaluate parse s t) \<noteq> [] \<longleftrightarrow> ev_reason (evaluate parse s t) = ReasonExcluded"
    by (rule evaluate_cases [of parse s t]) (simp_all add: mismatch_not_allowed_excluded)
qed

end
