(* ===== verification/Policy.thy ===== *)
theory Policy
  imports GoData
begin

text \<open>
  \<^verbatim>\<open>internal/policy/policy.go\<close>: the policy record, the decision \<open>evaluate_at\<close>, UTC scan windows
  and the per-step share of the program's limits. A Go \<^verbatim>\<open>int\<close> is an \<open>int\<close>; the instant of the
  decision is given by its UTC weekday, hour and minute. Parameter: \<open>jp\<close>, the JSON parser.
\<close>

subsection \<open>Data\<close>

datatype risk = Passive | Low | Moderate | High | Forbidden | UnknownRisk string

fun risk_string :: "risk \<Rightarrow> string" where
  "risk_string Passive = ''passive''"
| "risk_string Low = ''low''"
| "risk_string Moderate = ''moderate''"
| "risk_string High = ''high''"
| "risk_string Forbidden = ''forbidden''"
| "risk_string (UnknownRisk s) = s"

datatype decision = Allow | RequireApproval | Deny

fun decision_string :: "decision \<Rightarrow> string" where
  "decision_string Allow = ''allow''"
| "decision_string RequireApproval = ''require_approval''"
| "decision_string Deny = ''deny''"

record policy =
  pol_id :: string
  allowed_capabilities :: "string list"
  denied_capabilities :: "string list"
  rate_limit :: int
  concurrency :: int
  provider_concurrency :: int
  host_concurrency :: int
  scan_windows :: "string list"
  allowed_http_methods :: "string list"
  authentication_usage :: bool
  headless_browser :: bool
  directory_fuzzing :: bool
  template_tags :: "string list"
  excluded_template_tags :: "string list"
  maximum_payload_size :: int
  follow_redirects :: bool
  cross_origin :: bool
  intrusive_checks :: bool
  artifact_retention :: int
  moderate_approved :: bool

record policy_evaluation =
  pe_decision :: decision
  pe_reason :: string

record requirements =
  req_authentication :: bool
  req_directory_fuzzing :: bool
  req_cross_origin :: bool
  req_intrusive_checks :: bool

record utc_time =
  ut_weekday :: nat
  ut_hour :: nat
  ut_minute :: nat

subsection \<open>Scan windows\<close>

record scan_window =
  w_weekday :: "nat option"
  w_start :: nat
  w_end :: nat

definition weekday_of :: "string \<Rightarrow> nat option" where
  "weekday_of s =
     map_of [(''sun'', 0), (''sunday'', 0), (''mon'', 1), (''monday'', 1),
       (''tue'', 2), (''tuesday'', 2), (''wed'', 3), (''wednesday'', 3),
       (''thu'', 4), (''thursday'', 4), (''fri'', 5), (''friday'', 5),
       (''sat'', 6), (''saturday'', 6)] s"

text \<open>\<^verbatim>\<open>time.Parse("15:04", raw)\<close>: one or two hour digits, a colon, two minute digits, no more text.\<close>

definition two_digits :: "char \<Rightarrow> char \<Rightarrow> nat option" where
  "two_digits a b =
     (case (digit_val a, digit_val b) of
        (Some x, Some y) \<Rightarrow> Some (nat (10 * x + y))
      | _ \<Rightarrow> None)"

definition clock_parts :: "string \<Rightarrow> (nat \<times> nat) option" where
  "clock_parts s =
     (case s of
        [a, b, c, d, e] \<Rightarrow>
          if c = CHR '':'' then
            (case (two_digits a b, two_digits d e) of
               (Some h, Some m) \<Rightarrow> Some (h, m) | _ \<Rightarrow> None)
          else None
      | [b, c, d, e] \<Rightarrow>
          if c = CHR '':'' then
            (case (digit_val b, two_digits d e) of
               (Some h, Some m) \<Rightarrow> Some (nat h, m) | _ \<Rightarrow> None)
          else None
      | _ \<Rightarrow> None)"

definition clock_minute :: "string \<Rightarrow> nat res" where
  "clock_minute raw =
     (case clock_parts raw of
        Some (h, m) \<Rightarrow>
          if h < 24 \<and> m < 60 then Inr (h * 60 + m)
          else Inl (Err (''invalid UTC time '' @ quoted raw))
      | None \<Rightarrow> Inl (Err (''invalid UTC time '' @ quoted raw)))"

definition parse_span :: "nat option \<Rightarrow> string \<Rightarrow> scan_window res" where
  "parse_span day time_range =
     (case cut time_range (CHR ''-'') of (start_raw, end_raw, ok) \<Rightarrow>
        if \<not> ok then Inl (Err ''missing time range'')
        else bind_res (clock_minute start_raw) (\<lambda>start.
             bind_res (clock_minute end_raw) (\<lambda>stop.
               if start = stop then Inl (Err ''start and end must differ'')
               else Inr \<lparr>w_weekday = day, w_start = start, w_end = stop\<rparr>)))"

definition parse_scan_window :: "string \<Rightarrow> scan_window res" where
  "parse_scan_window raw =
     (let fs = str_fields (trim_space raw) in
      if length fs < 2 \<or> \<not> equal_fold (last fs) ''UTC''
      then Inl (Err ''expected HH:MM-HH:MM UTC or Day HH:MM-HH:MM UTC'')
      else (case butlast fs of
              [time_range] \<Rightarrow> parse_span None time_range
            | [day, time_range] \<Rightarrow>
                (case weekday_of (to_lower day) of
                   None \<Rightarrow> Inl (Err ''invalid weekday'')
                 | Some d \<Rightarrow> parse_span (Some d) time_range)
            | _ \<Rightarrow> Inl (Err ''invalid format'')))"

definition window_contains :: "scan_window \<Rightarrow> utc_time \<Rightarrow> bool" where
  "window_contains w t =
     (let minute = ut_hour t * 60 + ut_minute t; day = ut_weekday t in
      if w_start w < w_end w
      then (w_weekday w = None \<or> w_weekday w = Some day) \<and> w_start w \<le> minute \<and> minute < w_end w
      else if w_start w \<le> minute then w_weekday w = None \<or> w_weekday w = Some day
      else
        let previous = (day + 6) mod 7 in
        minute < w_end w \<and> (w_weekday w = None \<or> w_weekday w = Some previous))"

text \<open>The loop over the windows; the counter is the number reported for an invalid window.\<close>

fun windows_from :: "nat \<Rightarrow> string list \<Rightarrow> utc_time \<Rightarrow> bool \<times> string" where
  "windows_from n [] t = (False, ''current UTC time is outside configured scan windows'')"
| "windows_from n (raw # ws) t =
     (case parse_scan_window raw of
        Inl e \<Rightarrow>
          (False, ''scan window '' @ itoa (int n) @ '' is invalid: '' @ error_text e)
      | Inr w \<Rightarrow> if window_contains w t then (True, []) else windows_from (Suc n) ws t)"

definition within_scan_windows :: "string list \<Rightarrow> utc_time \<Rightarrow> bool \<times> string" where
  "within_scan_windows ws t = (if ws = [] then (True, []) else windows_from 1 ws t)"

subsection \<open>The decision\<close>

definition validate_http_method :: "policy \<Rightarrow> string \<Rightarrow> go_error option" where
  "validate_http_method p m =
     (let upper = to_upper m in
      if list_ex (\<lambda>a. to_upper a = upper) (allowed_http_methods p) then None
      else Some (Err (''HTTP method '' @ upper @ '' denied by policy'')))"

text \<open>
  \<^verbatim>\<open>json.Unmarshal\<close> into \<^verbatim>\<open>struct { Headless bool; Method string }\<close>: keys match regardless of case, a
  null leaves the field alone, and a value of another type is an error, which skips the checks.
\<close>

fun decode_common :: "(string \<times> json) list \<Rightarrow> bool \<times> string \<Rightarrow> (bool \<times> string) option" where
  "decode_common [] acc = Some acc"
| "decode_common ((k, v) # kvs) (hl, me) =
     (if equal_fold k ''headless'' then
        (case v of JBool b \<Rightarrow> decode_common kvs (b, me)
                 | JNull \<Rightarrow> decode_common kvs (hl, me)
                 | _ \<Rightarrow> None)
      else if equal_fold k ''method'' then
        (case v of JStr s \<Rightarrow> decode_common kvs (hl, s)
                 | JNull \<Rightarrow> decode_common kvs (hl, me)
                 | _ \<Rightarrow> None)
      else decode_common kvs (hl, me))"

definition common_fields :: "json_parser \<Rightarrow> string \<Rightarrow> (bool \<times> string) option" where
  "common_fields jp input =
     (case parse_object jp input of
        None \<Rightarrow> None
      | Some kvs \<Rightarrow> decode_common kvs (False, []))"

definition input_denial :: "json_parser \<Rightarrow> policy \<Rightarrow> string \<Rightarrow> string option" where
  "input_denial jp p input =
     (if input = [] then None
      else (case common_fields jp input of
              None \<Rightarrow> None
            | Some (headless, m) \<Rightarrow>
                if headless \<and> \<not> headless_browser p
                then Some ''headless browser use is denied by policy''
                else if m \<noteq> []
                then map_option error_text (validate_http_method p m)
                else None))"

definition deny :: "string \<Rightarrow> policy_evaluation" where
  "deny reason = \<lparr>pe_decision = Deny, pe_reason = reason\<rparr>"

definition risk_decision :: "policy \<Rightarrow> risk \<Rightarrow> bool \<Rightarrow> policy_evaluation" where
  "risk_decision p r approved =
     (case r of
        Passive \<Rightarrow> \<lparr>pe_decision = Allow, pe_reason = ''allowed within scope and limits''\<rparr>
      | Low \<Rightarrow> \<lparr>pe_decision = Allow, pe_reason = ''allowed within scope and limits''\<rparr>
      | Moderate \<Rightarrow>
          if approved \<or> moderate_approved p
          then \<lparr>pe_decision = Allow, pe_reason = ''moderate action approved''\<rparr>
          else \<lparr>pe_decision = RequireApproval,
                pe_reason = ''moderate action requires workflow or action approval''\<rparr>
      | High \<Rightarrow>
          if approved
          then \<lparr>pe_decision = Allow, pe_reason = ''high-risk action explicitly approved''\<rparr>
          else \<lparr>pe_decision = RequireApproval,
                pe_reason = ''high-risk action requires explicit per-action approval''\<rparr>
      | _ \<Rightarrow> deny (''unknown risk '' @ quoted (risk_string r)))"

definition evaluate_at ::
  "json_parser \<Rightarrow> policy \<Rightarrow> string \<Rightarrow> risk \<Rightarrow> bool \<Rightarrow> requirements \<Rightarrow> string \<Rightarrow> utc_time
    \<Rightarrow> policy_evaluation" where
  "evaluate_at jp p capability r approved rq input t =
     (if r = Forbidden then deny ''forbidden risk level''
      else if capability \<in> set (denied_capabilities p)
      then deny ''capability denied by policy''
      else if allowed_capabilities p \<noteq> [] \<and> capability \<notin> set (allowed_capabilities p)
      then deny ''capability is not allowlisted''
      else
      (case within_scan_windows (scan_windows p) t of (inside, reason) \<Rightarrow>
        if \<not> inside then deny reason
        else if req_authentication rq \<and> \<not> authentication_usage p
        then deny ''authentication usage is denied by policy''
        else if req_directory_fuzzing rq \<and> \<not> directory_fuzzing p
        then deny ''directory fuzzing is denied by policy''
        else if req_cross_origin rq \<and> \<not> cross_origin p
        then deny ''cross-origin access is denied by policy''
        else if req_intrusive_checks rq \<and> \<not> intrusive_checks p
        then deny ''intrusive checks are denied by policy''
        else if maximum_payload_size p > 0 \<and> int (length input) > maximum_payload_size p
        then deny ''input exceeds policy maximum payload size''
        else (case input_denial jp p input of
                Some reason \<Rightarrow> deny reason
              | None \<Rightarrow> risk_decision p r approved)))"

definition no_requirements :: requirements where
  "no_requirements = \<lparr>req_authentication = False, req_directory_fuzzing = False,
     req_cross_origin = False, req_intrusive_checks = False\<rparr>"

definition evaluate_now :: "json_parser \<Rightarrow> policy \<Rightarrow> string \<Rightarrow> risk \<Rightarrow> bool \<Rightarrow> utc_time \<Rightarrow> policy_evaluation" where
  "evaluate_now jp p capability r approved now =
     evaluate_at jp p capability r approved no_requirements [] now"

subsection \<open>Sharing the program's limits\<close>

definition share :: "int \<Rightarrow> int \<Rightarrow> int" where
  "share v parts =
     (if v < 1 then v else if v div parts < 1 then 1 else v div parts)"

definition parallel_share :: "policy \<Rightarrow> int \<Rightarrow> policy" where
  "parallel_share p active_steps =
     (if active_steps < 2 then p
      else p\<lparr>rate_limit := share (rate_limit p) active_steps,
             concurrency := share (concurrency p) active_steps\<rparr>)"

definition program_parallelism :: "policy \<Rightarrow> int" where
  "program_parallelism p =
     (let parallelism = (if concurrency p < 1 then 1 else concurrency p)
      in if rate_limit p > 0 \<and> rate_limit p < parallelism then rate_limit p else parallelism)"

subsection \<open>Facts on the decision\<close>

text \<open>The specification of an allowing decision: every guard, as one conjunction.\<close>

definition windows_open :: "string list \<Rightarrow> utc_time \<Rightarrow> bool" where
  "windows_open ws t \<longleftrightarrow>
     ws = [] \<or>
     (\<exists>before raw rest w. ws = before @ raw # rest \<and>
        list_all (\<lambda>b. \<exists>v. parse_scan_window b = Inr v) before \<and>
        parse_scan_window raw = Inr w \<and> window_contains w t)"

definition risk_accepted :: "policy \<Rightarrow> risk \<Rightarrow> bool \<Rightarrow> bool" where
  "risk_accepted p r approved \<longleftrightarrow>
     r = Passive \<or> r = Low \<or> (r = Moderate \<and> (approved \<or> moderate_approved p)) \<or> (r = High \<and> approved)"

definition requirements_met :: "policy \<Rightarrow> requirements \<Rightarrow> bool" where
  "requirements_met p rq \<longleftrightarrow>
     (authentication_usage p \<or> \<not> req_authentication rq) \<and>
     (directory_fuzzing p \<or> \<not> req_directory_fuzzing rq) \<and>
     (cross_origin p \<or> \<not> req_cross_origin rq) \<and>
     (intrusive_checks p \<or> \<not> req_intrusive_checks rq)"

definition input_accepted :: "json_parser \<Rightarrow> policy \<Rightarrow> string \<Rightarrow> bool" where
  "input_accepted jp p input \<longleftrightarrow>
     (maximum_payload_size p \<le> 0 \<or> int (length input) \<le> maximum_payload_size p) \<and>
     input_denial jp p input = None"

lemma windows_from_open:
  "fst (windows_from n ws t) \<longleftrightarrow>
     (\<exists>before raw rest w. ws = before @ raw # rest \<and>
        list_all (\<lambda>b. \<exists>v. parse_scan_window b = Inr v) before \<and>
        parse_scan_window raw = Inr w \<and> window_contains w t)"
proof (induction n ws t rule: windows_from.induct)
  case (1 n t)
  then show ?case by simp
next
  case (2 n raw ws t)
  show ?case
  proof (cases "parse_scan_window raw")
    case (Inl e)
    then show ?thesis by (auto simp: Cons_eq_append_conv)
  next
    case (Inr w)
    show ?thesis
    proof (cases "window_contains w t")
      case True
      then have "raw # ws = [] @ raw # ws \<and> list_all (\<lambda>b. \<exists>v. parse_scan_window b = Inr v) [] \<and>
          parse_scan_window raw = Inr w \<and> window_contains w t"
        using Inr by simp
      moreover have "fst (windows_from n (raw # ws) t)" using True Inr by simp
      ultimately show ?thesis by blast
    next
      case False
      let ?P = "\<lambda>ws before r rest v. ws = before @ r # rest \<and>
        list_all (\<lambda>b. \<exists>v. parse_scan_window b = Inr v) before \<and>
        parse_scan_window r = Inr v \<and> window_contains v t"
      have "fst (windows_from n (raw # ws) t) \<longleftrightarrow> (\<exists>b r rest v. ?P ws b r rest v)"
        using 2 [OF Inr] Inr False by simp
      also have "\<dots> \<longleftrightarrow> (\<exists>b r rest v. ?P (raw # ws) b r rest v)"
      proof
        assume "\<exists>b r rest v. ?P ws b r rest v"
        then obtain b r rest v where "?P ws b r rest v" by blast
        then have "?P (raw # ws) (raw # b) r rest v" using Inr by simp
        then show "\<exists>b r rest v. ?P (raw # ws) b r rest v" by blast
      next
        assume "\<exists>b r rest v. ?P (raw # ws) b r rest v"
        then obtain b r rest v where P: "?P (raw # ws) b r rest v" by blast
        then have "b \<noteq> []" using Inr False by auto
        then obtain b' where "b = raw # b'" using P by (cases b) auto
        then have "?P ws b' r rest v" using P by simp
        then show "\<exists>b r rest v. ?P ws b r rest v" by blast
      qed
      finally show ?thesis .
    qed
  qed
qed

lemma within_scan_windows_open: "fst (within_scan_windows ws t) \<longleftrightarrow> windows_open ws t"
  by (simp add: within_scan_windows_def windows_open_def windows_from_open)

lemma risk_decision_Allow:
  "pe_decision (risk_decision p r approved) = Allow \<longleftrightarrow> risk_accepted p r approved"
  by (cases r) (auto simp: risk_decision_def risk_accepted_def deny_def)

lemma deny_decision [simp]: "pe_decision (deny m) = Deny"
  by (simp add: deny_def)

text \<open>
  C2: The policy decision is allow exactly when the capability is not denied and is on the allow
  list if there is one, a scan window is open, every declared requirement and the input are
  accepted, and the risk class is accepted with the approvals given; forbidden and unknown risks
  never are.
\<close>

theorem policy_allows_iff:
  "pe_decision (evaluate_at jp p cap r approved rq input t) = Allow \<longleftrightarrow>
     cap \<notin> set (denied_capabilities p) \<and>
     (allowed_capabilities p = [] \<or> cap \<in> set (allowed_capabilities p)) \<and>
     windows_open (scan_windows p) t \<and> requirements_met p rq \<and>
     input_accepted jp p input \<and> risk_accepted p r approved"
proof (cases "within_scan_windows (scan_windows p) t")
  case (Pair inside reason)
  then have "inside \<longleftrightarrow> windows_open (scan_windows p) t"
    using within_scan_windows_open [of "scan_windows p" t] by simp
  then show ?thesis
    by (auto simp: evaluate_at_def Pair risk_decision_Allow requirements_met_def
        input_accepted_def risk_accepted_def split: option.splits)
qed

text \<open>A sequence of gates before a decision: it is closed for every argument, or the decision is the result.\<close>

definition gated :: "('a \<Rightarrow> 'b) \<Rightarrow> ('a \<Rightarrow> 'b) \<Rightarrow> bool" where
  "gated f g \<longleftrightarrow> (\<exists>d. \<forall>a. f a = d) \<or> (\<forall>a. f a = g a)"

lemma gated_intros: "gated f g \<Longrightarrow> gated (\<lambda>a. if c then d else f a) g"
  by (cases c) (auto simp: gated_def)

text \<open>
  Approval changes the decision only from require_approval to allow, and only for moderate
  and high risk: a denial is never lifted by an approval.
\<close>

theorem approval_only_lifts_the_approval_gate:
  "evaluate_at jp p cap r True rq input t = evaluate_at jp p cap r False rq input t \<or>
   (pe_decision (evaluate_at jp p cap r False rq input t) = RequireApproval \<and>
    pe_decision (evaluate_at jp p cap r True rq input t) = Allow \<and> (r = Moderate \<or> r = High))"
proof -
  have gate: "risk_decision p r True = risk_decision p r False \<or>
      (pe_decision (risk_decision p r False) = RequireApproval \<and> pe_decision (risk_decision p r True) = Allow \<and>
       (r = Moderate \<or> r = High))"
    by (cases r) (simp_all add: risk_decision_def)
  obtain inside reason where w: "within_scan_windows (scan_windows p) t = (inside, reason)" by fastforce
  have "gated (\<lambda>a. evaluate_at jp p cap r a rq input t) (risk_decision p r)"
    unfolding evaluate_at_def w prod.case by (intro gated_intros) (cases "input_denial jp p input"; simp add: gated_def)
  then show ?thesis using gate unfolding gated_def by metis
qed

subsection \<open>Facts on scan windows\<close>

definition wf_window :: "scan_window \<Rightarrow> bool" where
  "wf_window w \<longleftrightarrow> w_start w < 1440 \<and> w_end w < 1440 \<and> w_start w \<noteq> w_end w \<and>
     (case w_weekday w of None \<Rightarrow> True | Some d \<Rightarrow> d < 7)"

definition wf_time :: "utc_time \<Rightarrow> bool" where
  "wf_time t \<longleftrightarrow> ut_weekday t < 7 \<and> ut_hour t < 24 \<and> ut_minute t < 60"

definition week_minute :: "utc_time \<Rightarrow> nat" where
  "week_minute t = ut_weekday t * 1440 + ut_hour t * 60 + ut_minute t"

definition window_length :: "scan_window \<Rightarrow> nat" where
  "window_length w = (w_end w + 1440 - w_start w) mod 1440"

text \<open>The minutes elapsed in the week from the opening on day \<open>d\<close> to the instant.\<close>

definition elapsed :: "nat \<Rightarrow> scan_window \<Rightarrow> utc_time \<Rightarrow> nat" where
  "elapsed d w t = (week_minute t + 10080 - (d * 1440 + w_start w)) mod 10080"

lemma clock_minute_bound: "clock_minute raw = Inr n \<Longrightarrow> n < 1440"
  by (auto simp: clock_minute_def split: option.splits if_splits)

lemma parse_span_wf:
  "parse_span day time_range = Inr w \<Longrightarrow> (\<forall>d. day = Some d \<longrightarrow> d < 7) \<Longrightarrow> wf_window w"
  by (auto simp: parse_span_def wf_window_def bind_res_Inr dest: clock_minute_bound
      split: prod.splits if_splits option.splits)

lemma weekday_of_bound: "weekday_of s = Some d \<Longrightarrow> d < 7"
  by (auto simp: weekday_of_def split: if_splits)

lemma parse_scan_window_wf: "parse_scan_window raw = Inr w \<Longrightarrow> wf_window w"
  by (auto simp: parse_scan_window_def Let_def dest: weekday_of_bound intro: parse_span_wf
      split: if_splits list.splits option.splits)

lemma mod_week: "x < 10080 \<Longrightarrow> y < 10080 \<Longrightarrow>
    ((x + 10080 - y) mod 10080 :: nat) = (if y \<le> x then x - y else x + 10080 - y)"
  by (simp add: mod_if)

lemma window_length_cases:
  "wf_window w \<Longrightarrow> window_length w =
     (if w_start w < w_end w then w_end w - w_start w else w_end w + 1440 - w_start w)"
  by (auto simp: window_length_def wf_window_def mod_if)

lemma elapsed_same_day:
  assumes "wf_window w" "wf_time t" "d < 7"
  shows "elapsed d w t < window_length w \<longleftrightarrow>
    (let m = ut_hour t * 60 + ut_minute t in
      (d = ut_weekday t \<and> w_start w \<le> m \<and> (w_end w < w_start w \<or> m < w_end w)) \<or>
      (d = (ut_weekday t + 6) mod 7 \<and> w_end w < w_start w \<and> m < w_end w))"
proof -
  have m: "ut_hour t * 60 + ut_minute t < 1440"
    using assms(2) by (simp add: wf_time_def)
  have e: "elapsed d w t = (let x = ut_weekday t * 1440 + (ut_hour t * 60 + ut_minute t);
      y = d * 1440 + w_start w in if y \<le> x then x - y else x + 10080 - y)"
    unfolding elapsed_def week_minute_def Let_def
    using assms m by (subst mod_week) (auto simp: wf_time_def wf_window_def)
  have p: "(ut_weekday t + 6) mod 7 = (if ut_weekday t = 0 then 6 else ut_weekday t - 1)"
    using assms(2) by (auto simp: wf_time_def mod_if)
  have w: "w_start w < 1440" "w_end w < 1440" "w_start w \<noteq> w_end w" and t: "ut_weekday t < 7"
    using assms by (auto simp: wf_window_def wf_time_def)
  define D M S L where "D = ut_weekday t" and "M = ut_hour t * 60 + ut_minute t"
    and "S = w_start w" and "L = w_end w"
  note defs = D_def [symmetric] M_def [symmetric] S_def [symmetric] L_def [symmetric]
  have fin: "D < 7" "d < 7" "M < 1440" "S < 1440" "L < 1440" "S \<noteq> L"
    using m w t assms(3) by (simp_all add: D_def M_def S_def L_def)
  show ?thesis
    unfolding e p window_length_cases [OF assms(1)] Let_def
    unfolding defs
  proof -
    consider "d = D" | "D = Suc d" | "D = 0" "d = 6" | "d + 2 \<le> D" | "D < d" "d \<le> D + 5"
      using fin by linarith
    then show "((if d * 1440 + S \<le> D * 1440 + M then D * 1440 + M - (d * 1440 + S)
          else D * 1440 + M + 10080 - (d * 1440 + S)) < (if S < L then L - S else L + 1440 - S)) =
        (d = D \<and> S \<le> M \<and> (L < S \<or> M < L) \<or> d = (if D = 0 then 6 else D - 1) \<and> L < S \<and> M < L)"
    proof cases
      case 4
      then have "d * 1440 + 2880 \<le> D * 1440" by linarith
      with 4 fin show ?thesis by auto
    next
      case 5
      then have "D * 1440 + 1440 \<le> d * 1440" "d * 1440 \<le> D * 1440 + 7200" by linarith+
      with 5 fin show ?thesis by auto
    qed (use fin in auto)
  qed
qed

lemma window_contains_cases:
  "wf_window w \<Longrightarrow> window_contains w t \<longleftrightarrow>
    (let m = ut_hour t * 60 + ut_minute t; open_on = (\<lambda>d. w_weekday w = None \<or> w_weekday w = Some d) in
      (open_on (ut_weekday t) \<and> w_start w \<le> m \<and> (w_end w < w_start w \<or> m < w_end w)) \<or>
      (open_on ((ut_weekday t + 6) mod 7) \<and> w_end w < w_start w \<and> m < w_end w))"
  by (auto simp: window_contains_def wf_window_def Let_def)

text \<open>
  A parsed scan window contains an instant exactly when, counted modulo the week, fewer
  minutes than its length have passed since it opened on one of its days; overnight windows run
  into the following day and Saturday runs into Sunday.
\<close>

theorem scan_window_spans_its_length:
  assumes "parse_scan_window raw = Inr w" and "wf_time t"
  shows "window_contains w t \<longleftrightarrow>
    list_ex (\<lambda>d. (w_weekday w = None \<or> w_weekday w = Some d) \<and> elapsed d w t < window_length w) [0..<7]"
proof -
  have wf: "wf_window w" using assms(1) by (rule parse_scan_window_wf)
  have d: "ut_weekday t < 7" "(ut_weekday t + 6) mod 7 < 7"
    using assms(2) by (simp_all add: wf_time_def)
  let ?m = "ut_hour t * 60 + ut_minute t" and ?D = "ut_weekday t" and ?Y = "(ut_weekday t + 6) mod 7"
  let ?today = "w_start w \<le> ?m \<and> (w_end w < w_start w \<or> ?m < w_end w)"
    and ?late = "w_end w < w_start w \<and> ?m < w_end w"
  define opens where "opens = (\<lambda>d. w_weekday w = None \<or> w_weekday w = Some d)"
  have "list_ex (\<lambda>d. opens d \<and> elapsed d w t < window_length w) [0..<7] \<longleftrightarrow>
      (\<exists>d < 7. opens d \<and> elapsed d w t < window_length w)"
    by (auto simp: list_ex_iff)
  also have "\<dots> \<longleftrightarrow> (\<exists>d < 7. opens d \<and> ((d = ?D \<and> ?today) \<or> (d = ?Y \<and> ?late)))"
    using elapsed_same_day [OF wf assms(2)] by (auto simp: Let_def)
  also have "\<dots> \<longleftrightarrow> (opens ?D \<and> ?today) \<or> (opens ?Y \<and> ?late)"
    using d by blast
  also have "\<dots> \<longleftrightarrow> window_contains w t"
    unfolding window_contains_cases [OF wf] by (auto simp: Let_def opens_def)
  finally show ?thesis by (simp add: opens_def)
qed

theorem scan_window_spans_its_length_witness:
  "window_contains \<lparr>w_weekday = Some 5, w_start = 1320, w_end = 120\<rparr>
     \<lparr>ut_weekday = 6, ut_hour = 1, ut_minute = 59\<rparr>"
proof -
  have "parse_scan_window ''Fri 22:00-02:00 UTC'' = Inr \<lparr>w_weekday = Some 5, w_start = 1320, w_end = 120\<rparr>"
    by code_simp
  moreover have "wf_time \<lparr>ut_weekday = 6, ut_hour = 1, ut_minute = 59\<rparr>" by code_simp
  ultimately have "window_contains \<lparr>w_weekday = Some 5, w_start = 1320, w_end = 120\<rparr>
      \<lparr>ut_weekday = 6, ut_hour = 1, ut_minute = 59\<rparr> \<longleftrightarrow>
    list_ex (\<lambda>d. (w_weekday \<lparr>w_weekday = Some 5, w_start = 1320, w_end = 120\<rparr> = None \<or>
          w_weekday \<lparr>w_weekday = Some 5, w_start = 1320, w_end = 120\<rparr> = Some d) \<and>
        elapsed d \<lparr>w_weekday = Some 5, w_start = 1320, w_end = 120\<rparr>
          \<lparr>ut_weekday = 6, ut_hour = 1, ut_minute = 59\<rparr>
        < window_length \<lparr>w_weekday = Some 5, w_start = 1320, w_end = 120\<rparr>) [0..<7]"
    by (rule scan_window_spans_its_length)
  moreover have "list_ex (\<lambda>d. (w_weekday \<lparr>w_weekday = Some 5, w_start = 1320, w_end = 120\<rparr> = None \<or>
          w_weekday \<lparr>w_weekday = Some 5, w_start = 1320, w_end = 120\<rparr> = Some d) \<and>
        elapsed d \<lparr>w_weekday = Some 5, w_start = 1320, w_end = 120\<rparr>
          \<lparr>ut_weekday = 6, ut_hour = 1, ut_minute = 59\<rparr>
        < window_length \<lparr>w_weekday = Some 5, w_start = 1320, w_end = 120\<rparr>) [0..<7]"
    by (simp add: elapsed_def window_length_def week_minute_def list_ex_iff)
  ultimately show ?thesis by (rule iffD2)
qed

subsection \<open>Facts on sharing\<close>

lemma share_bound: "1 \<le> n \<Longrightarrow> n \<le> v \<Longrightarrow> n * share v n \<le> v"
proof -
  assume n: "1 \<le> n" and v: "n \<le> v"
  have "n div n \<le> v div n" using n v by (intro zdiv_mono1) simp_all
  then have "share v n = v div n" using n v by (simp add: share_def)
  moreover have "n * (v div n) = v - v mod n" by (simp add: minus_mod_eq_mult_div)
  moreover have "0 \<le> v mod n" using n by simp
  ultimately show ?thesis by simp
qed

text \<open>
  For a wave of at most program_parallelism steps and positive limits, the shares of the rate
  limit and of the concurrency that the steps get add up to at most the limits of the policy.
\<close>

theorem wave_shares_stay_within_budget:
  assumes "1 \<le> n" and "n \<le> program_parallelism p"
    and "1 \<le> rate_limit p" and "1 \<le> concurrency p"
  shows "n * rate_limit (parallel_share p n) \<le> rate_limit p \<and>
    n * concurrency (parallel_share p n) \<le> concurrency p"
proof (cases "n < 2")
  case True
  with assms(1) have "n = 1" by simp
  then show ?thesis by (simp add: parallel_share_def)
next
  case False
  have "n \<le> rate_limit p" "n \<le> concurrency p"
    using assms by (auto simp: program_parallelism_def Let_def split: if_splits)
  with False share_bound [of n "rate_limit p"] share_bound [of n "concurrency p"] show ?thesis
    by (simp add: parallel_share_def)
qed

definition demo_policy :: policy where
  "demo_policy = \<lparr>pol_id = ''default'', allowed_capabilities = [], denied_capabilities = [''scan.nuclei''],
     rate_limit = 7, concurrency = 3, provider_concurrency = 2, host_concurrency = 2, scan_windows = [],
     allowed_http_methods = [''GET''], authentication_usage = False, headless_browser = False,
     directory_fuzzing = False, template_tags = [], excluded_template_tags = [],
     maximum_payload_size = 4096, follow_redirects = False, cross_origin = False,
     intrusive_checks = False, artifact_retention = 0, moderate_approved = False\<rparr>"

theorem wave_shares_stay_within_budget_witness:
  "3 * rate_limit (parallel_share demo_policy 3) \<le> 7 \<and> 3 * concurrency (parallel_share demo_policy 3) \<le> 3"
  using wave_shares_stay_within_budget [of 3 demo_policy]
  by (simp add: demo_policy_def program_parallelism_def)

text \<open>Without the bound on the wave the shares can add up to more than the limit.\<close>

lemma wave_shares_exceed_small_limit:
  "rate_limit p = 2 \<Longrightarrow> rate_limit p < 3 * rate_limit (parallel_share p 3)"
  by (simp add: parallel_share_def share_def)

end
