(* ===== verification/Budget.thy ===== *)
theory Budget
  imports GoData
begin

text \<open>
  \<^verbatim>\<open>internal/budget/limiter.go\<close>: the in-process limiter on concurrent work per program, per provider
  and per host. \<open>acquire\<close> is one pass of the loop of \<^verbatim>\<open>Acquire\<close> (\<open>None\<close>: the caller waits for the next
  release), \<open>release\<close> is the closure it returns. Parameters: \<open>parse\<close> (\<^verbatim>\<open>url.Parse\<close>), \<open>shp\<close>
  (\<^verbatim>\<open>net.SplitHostPort\<close>, the host part), \<open>ip\<close> (\<^verbatim>\<open>net.ParseIP\<close>) and \<open>jp\<close> (JSON).
\<close>

subsection \<open>State and operations\<close>

record limits =
  lim_program :: int
  lim_provider :: int
  lim_host :: int

record budget_request =
  br_program :: string
  br_provider :: string
  br_hosts :: "string list"

record limiter_state =
  ls_limits :: limits
  ls_programs :: "string \<rightharpoonup> int"
  ls_providers :: "string \<rightharpoonup> int"
  ls_hosts :: "string \<rightharpoonup> int"
  ls_changed :: nat

definition positive :: "int \<Rightarrow> int" where
  "positive v = (if v < 1 then 1 else v)"

definition new_local :: "limits \<Rightarrow> limiter_state" where
  "new_local l =
     \<lparr>ls_limits = \<lparr>lim_program = positive (lim_program l), lim_provider = positive (lim_provider l),
                   lim_host = positive (lim_host l)\<rparr>,
      ls_programs = Map.empty, ls_providers = Map.empty, ls_hosts = Map.empty, ls_changed = 0\<rparr>"

text \<open>Reading a missing key of a Go map gives 0.\<close>

definition read_count :: "(string \<rightharpoonup> int) \<Rightarrow> string \<Rightarrow> int" where
  "read_count m k = (case m k of None \<Rightarrow> 0 | Some n \<Rightarrow> n)"

definition increment :: "(string \<rightharpoonup> int) \<Rightarrow> string \<Rightarrow> (string \<rightharpoonup> int)" where
  "increment m k = m(k \<mapsto> read_count m k + 1)"

definition decrement :: "(string \<rightharpoonup> int) \<Rightarrow> string \<Rightarrow> (string \<rightharpoonup> int)" where
  "decrement m k = (if read_count m k \<le> 1 then m(k := None) else m(k \<mapsto> read_count m k - 1))"

definition normalized :: "string list \<Rightarrow> string list" where
  "normalized vs =
     sort (fold (\<lambda>v seen. if v = [] \<or> v \<in> set seen then seen else seen @ [v])
             (map (\<lambda>v. to_lower (trim_space v)) vs) [])"

definition available :: "limiter_state \<Rightarrow> budget_request \<Rightarrow> bool" where
  "available l r =
     (if read_count (ls_programs l) (br_program r) \<ge> lim_program (ls_limits l) then False
      else if br_provider r \<noteq> [] \<and> read_count (ls_providers l) (br_provider r) \<ge> lim_provider (ls_limits l)
      then False
      else list_all (\<lambda>h. \<not> read_count (ls_hosts l) h \<ge> lim_host (ls_limits l)) (br_hosts r))"

definition normalize_request :: "budget_request \<Rightarrow> budget_request" where
  "normalize_request r =
     r\<lparr>br_provider := to_lower (trim_space (br_provider r)), br_hosts := normalized (br_hosts r)\<rparr>"

definition take_budget :: "limiter_state \<Rightarrow> budget_request \<Rightarrow> limiter_state" where
  "take_budget l r =
     l\<lparr>ls_programs := increment (ls_programs l) (br_program r),
       ls_providers := (if br_provider r \<noteq> [] then increment (ls_providers l) (br_provider r)
                        else ls_providers l),
       ls_hosts := fold (\<lambda>h m. increment m h) (br_hosts r) (ls_hosts l)\<rparr>"

definition give_budget :: "limiter_state \<Rightarrow> budget_request \<Rightarrow> limiter_state" where
  "give_budget l r =
     l\<lparr>ls_programs := decrement (ls_programs l) (br_program r),
       ls_providers := (if br_provider r \<noteq> [] then decrement (ls_providers l) (br_provider r)
                        else ls_providers l),
       ls_hosts := fold (\<lambda>h m. decrement m h) (br_hosts r) (ls_hosts l),
       ls_changed := Suc (ls_changed l)\<rparr>"

text \<open>A grant is the request it was made for and the \<^verbatim>\<open>released\<close> flag of its closure.\<close>

type_synonym grant = "budget_request \<times> bool"

definition acquire :: "limiter_state \<Rightarrow> budget_request \<Rightarrow> (limiter_state \<times> grant) option" where
  "acquire l r0 =
     (let r = normalize_request r0
      in if available l r then Some (take_budget l r, (r, False)) else None)"

definition release :: "limiter_state \<Rightarrow> grant \<Rightarrow> limiter_state \<times> grant" where
  "release l g =
     (case g of (r, released) \<Rightarrow>
        if released then (l, g) else (give_budget l r, (r, True)))"

subsection \<open>Hosts of an input\<close>

definition target_key :: "string \<Rightarrow> bool" where
  "target_key k \<longleftrightarrow>
     k \<in> set [''target'', ''targets'', ''url'', ''urls'', ''domain'', ''domains'', ''host'', ''hosts'',
       ''exact_urls'', ''discovered_urls'', ''port_targets'']"

fun json_texts :: "json list \<Rightarrow> string list" where
  "json_texts [] = []"
| "json_texts (JStr s # vs) = s # json_texts vs"
| "json_texts (v # vs) = json_texts vs"

fun collect_candidates :: "json \<Rightarrow> string \<Rightarrow> string list"
  and collect_fields :: "(string \<times> json) list \<Rightarrow> string list" where
  "collect_candidates (JObj kvs) key = collect_fields kvs"
| "collect_candidates (JArr vs) key = (if target_key key then json_texts vs else [])"
| "collect_candidates (JStr s) key = (if target_key key then [s] else [])"
| "collect_candidates v key = []"
| "collect_fields [] = []"
| "collect_fields ((k, v) # kvs) = collect_candidates v (to_lower k) @ collect_fields kvs"

definition host_from_candidate ::
  "url_parser \<Rightarrow> (string \<Rightarrow> string option) \<Rightarrow> ip_parser \<Rightarrow> string \<Rightarrow> string" where
  "host_from_candidate parse shp ip raw =
     (let candidate = trim_space raw; brackets = (\<lambda>c. c = CHR ''['' \<or> c = CHR '']'');
          not_url = (case shp candidate of
              Some h \<Rightarrow> to_lower (trim brackets (trim_suffix h ''.''))
            | None \<Rightarrow>
                (case ip (trim brackets candidate) of
                   Some a \<Rightarrow> to_lower a
                 | None \<Rightarrow>
                     if \<not> contains_any candidate ''/?# '' then to_lower (trim_suffix candidate ''.'')
                     else []))
      in if candidate = [] then []
         else (case parse candidate of
                 Some u \<Rightarrow> if url_hostname u \<noteq> [] then to_lower (trim_suffix (url_hostname u) ''.'')
                           else not_url
               | None \<Rightarrow> not_url))"

definition hosts_from_input ::
  "json_parser \<Rightarrow> url_parser \<Rightarrow> (string \<Rightarrow> string option) \<Rightarrow> ip_parser \<Rightarrow> string \<Rightarrow> string list" where
  "hosts_from_input jp parse shp ip raw =
     (case jp raw of
        None \<Rightarrow> []
      | Some v \<Rightarrow>
          normalized (filter (\<lambda>h. h \<noteq> [])
            (map (host_from_candidate parse shp ip) (collect_candidates v []))))"

subsection \<open>The limiter interface\<close>

text \<open>
  What a holder of grants relies on, for any limiter: each request loads some resources by at
  most one unit, taking and giving change the loads by exactly that, and a request is available
  when all the resources it needs are below their capacity.
\<close>

locale limiter =
  fixes avail :: "'s \<Rightarrow> 'r \<Rightarrow> bool"
    and taken :: "'s \<Rightarrow> 'r \<Rightarrow> 's"
    and given :: "'s \<Rightarrow> 'r \<Rightarrow> 's"
    and load :: "'s \<Rightarrow> 'k \<Rightarrow> int"
    and capacity :: "'s \<Rightarrow> 'k \<Rightarrow> int"
    and demand :: "'r \<Rightarrow> 'k \<Rightarrow> int"
    and wf :: "'r \<Rightarrow> bool"
  assumes demand_unit: "wf r \<Longrightarrow> demand r k = 0 \<or> demand r k = 1"
    and load_taken: "wf r \<Longrightarrow> load (taken s r) k = load s k + demand r k"
    and load_given: "wf r \<Longrightarrow> \<forall>k. demand r k \<le> load s k \<Longrightarrow> load (given s r) k = load s k - demand r k"
    and avail_iff: "wf r \<Longrightarrow> avail s r \<longleftrightarrow> (\<forall>k. demand r k = 1 \<longrightarrow> load s k < capacity s k)"
    and capacity_kept: "capacity (taken s r) k = capacity s k" "capacity (given s r) k = capacity s k"
begin

lemma demand_nonneg: "wf r \<Longrightarrow> 0 \<le> demand r k"
  using demand_unit [of r k] by auto

lemma held_demand_le:
  "list_all wf held \<Longrightarrow> r \<in> set held \<Longrightarrow> demand r k \<le> sum_list (map (\<lambda>q. demand q k) held)"
proof (induction held)
  case (Cons q held)
  have "0 \<le> sum_list (map (\<lambda>q. demand q k) held)"
    using Cons.prems(1) by (intro sum_list_nonneg) (auto simp: list_all_iff demand_nonneg)
  moreover have "0 \<le> demand q k" using Cons.prems(1) by (simp add: demand_nonneg)
  ultimately show ?case using Cons by auto
qed simp

lemma taken_accounts:
  assumes "\<forall>k. load s k = sum_list (map (\<lambda>q. demand q k) held)" and "wf r"
  shows "\<forall>k. load (taken s r) k = sum_list (map (\<lambda>q. demand q k) (r # held))"
  using assms by (simp add: load_taken)

lemma given_accounts:
  assumes "\<forall>k. load s k = sum_list (map (\<lambda>q. demand q k) (before @ r # after))"
    and "list_all wf (before @ r # after)"
  shows "\<forall>k. load (given s r) k = sum_list (map (\<lambda>q. demand q k) (before @ after))"
proof
  fix k
  have "\<forall>k. demand r k \<le> load s k"
    using held_demand_le [OF assms(2), of r] assms(1) by simp
  moreover have "wf r" using assms(2) by simp
  ultimately have "load (given s r) k = load s k - demand r k" by (simp add: load_given)
  then show "load (given s r) k = sum_list (map (\<lambda>q. demand q k) (before @ after))"
    using assms(1) by simp
qed

lemma taken_within_capacity:
  assumes "\<forall>k. load s k \<le> capacity s k" and "wf r" and "avail s r"
  shows "\<forall>k. load (taken s r) k \<le> capacity (taken s r) k"
proof
  fix k
  show "load (taken s r) k \<le> capacity (taken s r) k"
    using assms avail_iff [OF assms(2), of s] demand_unit [OF assms(2), of k]
    by (auto simp: load_taken capacity_kept)
qed

lemma idle_admits:
  assumes "\<forall>k. load s k = 0" and "\<forall>k. 0 < capacity s k" and "wf r"
  shows "avail s r"
  using assms by (simp add: avail_iff)

end

subsection \<open>The interpretation\<close>

datatype resource = ProgramOf string | ProviderOf string | HostOf string

fun load_of :: "limiter_state \<Rightarrow> resource \<Rightarrow> int" where
  "load_of l (ProgramOf p) = read_count (ls_programs l) p"
| "load_of l (ProviderOf p) = read_count (ls_providers l) p"
| "load_of l (HostOf h) = read_count (ls_hosts l) h"

fun capacity_of :: "limiter_state \<Rightarrow> resource \<Rightarrow> int" where
  "capacity_of l (ProgramOf p) = lim_program (ls_limits l)"
| "capacity_of l (ProviderOf p) = lim_provider (ls_limits l)"
| "capacity_of l (HostOf h) = lim_host (ls_limits l)"

fun demand_of :: "budget_request \<Rightarrow> resource \<Rightarrow> int" where
  "demand_of r (ProgramOf p) = (if p = br_program r then 1 else 0)"
| "demand_of r (ProviderOf p) = (if p \<noteq> [] \<and> p = br_provider r then 1 else 0)"
| "demand_of r (HostOf h) = (if h \<in> set (br_hosts r) then 1 else 0)"

definition wf_request :: "budget_request \<Rightarrow> bool" where
  "wf_request r \<longleftrightarrow> distinct (br_hosts r)"

lemma count_increment: "read_count (increment m k) j = read_count m j + (if j = k then 1 else 0)"
  by (simp add: read_count_def increment_def)

lemma count_decrement: "1 \<le> read_count m k \<Longrightarrow> read_count (decrement m k) j = read_count m j - (if j = k then 1 else 0)"
  by (auto simp: read_count_def decrement_def)

lemma count_fold_increment:
  "distinct hs \<Longrightarrow> read_count (fold (\<lambda>h m. increment m h) hs m) j = read_count m j + (if j \<in> set hs then 1 else 0)"
  by (induction hs arbitrary: m) (auto simp: count_increment)

lemma count_fold_decrement:
  "distinct hs \<Longrightarrow> \<forall>h \<in> set hs. 1 \<le> read_count m h \<Longrightarrow>
     read_count (fold (\<lambda>h m. decrement m h) hs m) j = read_count m j - (if j \<in> set hs then 1 else 0)"
  by (induction hs arbitrary: m) (auto simp: count_decrement)

interpretation local_limiter: limiter available take_budget give_budget load_of capacity_of demand_of wf_request
proof unfold_locales
  fix r k
  show "demand_of r k = 0 \<or> demand_of r k = 1" by (cases k) auto
next
  fix r s k assume "wf_request r"
  then show "load_of (take_budget s r) k = load_of s k + demand_of r k"
    by (cases k) (auto simp: take_budget_def wf_request_def count_increment count_fold_increment)
next
  fix r s k assume wf: "wf_request r" and le: "\<forall>k. demand_of r k \<le> load_of s k"
  have p: "1 \<le> read_count (ls_programs s) (br_program r)"
    using le [rule_format, of "ProgramOf (br_program r)"] by simp
  have v: "br_provider r \<noteq> [] \<Longrightarrow> 1 \<le> read_count (ls_providers s) (br_provider r)"
    using le [rule_format, of "ProviderOf (br_provider r)"] by simp
  have h: "\<forall>h \<in> set (br_hosts r). 1 \<le> read_count (ls_hosts s) h"
  proof
    fix h assume "h \<in> set (br_hosts r)"
    then show "1 \<le> read_count (ls_hosts s) h" using le [rule_format, of "HostOf h"] by simp
  qed
  show "load_of (give_budget s r) k = load_of s k - demand_of r k"
    using wf p v h
    by (cases k) (auto simp: give_budget_def wf_request_def count_decrement count_fold_decrement)
next
  fix r s assume "wf_request r"
  show "available s r \<longleftrightarrow> (\<forall>k. demand_of r k = 1 \<longrightarrow> load_of s k < capacity_of s k)"
  proof
    assume a: "available s r"
    show "\<forall>k. demand_of r k = 1 \<longrightarrow> load_of s k < capacity_of s k"
    proof
      fix k
      show "demand_of r k = 1 \<longrightarrow> load_of s k < capacity_of s k"
        using a by (cases k) (auto simp: available_def list_all_iff split: if_splits)
    qed
  next
    assume k: "\<forall>k. demand_of r k = 1 \<longrightarrow> load_of s k < capacity_of s k"
    have h: "read_count (ls_hosts s) h < lim_host (ls_limits s)" if "h \<in> set (br_hosts r)" for h
      using k [rule_format, of "HostOf h"] that by simp
    have v: "br_provider r \<noteq> [] \<Longrightarrow> read_count (ls_providers s) (br_provider r) < lim_provider (ls_limits s)"
      using k [rule_format, of "ProviderOf (br_provider r)"] by simp
    show "available s r"
      using k [rule_format, of "ProgramOf (br_program r)"] v h
      by (auto simp: available_def list_all_iff not_le split: if_splits)
  qed
next
  fix s r k
  show "capacity_of (take_budget s r) k = capacity_of s k"
    by (cases k) (simp_all add: take_budget_def)
  show "capacity_of (give_budget s r) k = capacity_of s k"
    by (cases k) (simp_all add: give_budget_def)
qed

subsection \<open>Concurrent holders\<close>

text \<open>
  The workers of a process share one limiter. A state is the limiter and every grant handed out
  so far; a step is one \<^verbatim>\<open>Acquire\<close> that gets through or one call of a release closure, in any order
  and as often as the holders like.
\<close>

record budget_system =
  bs_limiter :: limiter_state
  bs_grants :: "grant list"

inductive budget_step :: "budget_system \<Rightarrow> budget_system \<Rightarrow> bool" where
  acquired: "acquire (bs_limiter s) r = Some (l, g) \<Longrightarrow>
     budget_step s \<lparr>bs_limiter = l, bs_grants = g # bs_grants s\<rparr>"
| released: "i < length (bs_grants s) \<Longrightarrow> release (bs_limiter s) (bs_grants s ! i) = (l, g) \<Longrightarrow>
     budget_step s \<lparr>bs_limiter = l, bs_grants = (bs_grants s)[i := g]\<rparr>"

inductive budget_reachable :: "limits \<Rightarrow> budget_system \<Rightarrow> bool" for lims where
  start: "budget_reachable lims \<lparr>bs_limiter = new_local lims, bs_grants = []\<rparr>"
| step: "budget_reachable lims s \<Longrightarrow> budget_step s t \<Longrightarrow> budget_reachable lims t"

inductive_cases budget_stepE: "budget_step s t"

definition active_requests :: "grant list \<Rightarrow> budget_request list" where
  "active_requests gs = map fst (filter (\<lambda>g. \<not> snd g) gs)"

definition budget_inv :: "limits \<Rightarrow> budget_system \<Rightarrow> bool" where
  "budget_inv lims s \<longleftrightarrow>
     list_all wf_request (active_requests (bs_grants s)) \<and>
     (\<forall>k. load_of (bs_limiter s) k = sum_list (map (\<lambda>r. demand_of r k) (active_requests (bs_grants s)))) \<and>
     (\<forall>k. load_of (bs_limiter s) k \<le> capacity_of (bs_limiter s) k) \<and>
     (\<forall>k. capacity_of (bs_limiter s) k = capacity_of (new_local lims) k)"

lemma distinct_normalized: "distinct (normalized vs)"
proof -
  have "distinct (fold (\<lambda>v seen. if v = [] \<or> v \<in> set seen then seen else seen @ [v]) xs acc)"
    if "distinct acc" for xs acc :: "string list"
    using that by (induction xs arbitrary: acc) auto
  then show ?thesis by (simp add: normalized_def)
qed

lemma wf_normalize_request: "wf_request (normalize_request r)"
  by (simp add: wf_request_def normalize_request_def distinct_normalized)

lemma active_requests_update:
  assumes "i < length gs" and "gs ! i = (r, False)"
  shows "\<exists>before after. active_requests gs = before @ r # after \<and> active_requests (gs[i := (r, True)]) = before @ after"
proof -
  have "gs = take i gs @ (r, False) # drop (Suc i) gs"
    using assms by (metis id_take_nth_drop)
  then have "active_requests gs = active_requests (take i gs) @ r # active_requests (drop (Suc i) gs)"
    by (metis (no_types, lifting) active_requests_def append.simps filter.simps(2) filter_append fst_conv list.simps(9) map_append snd_conv)
  moreover have "active_requests (gs[i := (r, True)]) = active_requests (take i gs) @ active_requests (drop (Suc i) gs)"
    using assms(1) by (simp add: active_requests_def upd_conv_take_nth_drop)
  ultimately show ?thesis by blast
qed

lemma budget_step_inv:
  assumes "budget_step s t" and "budget_inv lims s"
  shows "budget_inv lims t"
  using assms(1)
proof (cases rule: budget_step.cases)
  case (acquired r l g)
  let ?r = "normalize_request r"
  have l: "l = take_budget (bs_limiter s) ?r" and g: "g = (?r, False)" and av: "available (bs_limiter s) ?r"
    using acquired(2) by (auto simp: acquire_def Let_def split: if_splits)
  have act: "active_requests (g # bs_grants s) = ?r # active_requests (bs_grants s)"
    by (simp add: active_requests_def g)
  have accounts: "\<forall>k. load_of l k = sum_list (map (\<lambda>q. demand_of q k) (?r # active_requests (bs_grants s)))"
    using assms(2) unfolding l
    by (intro local_limiter.taken_accounts wf_normalize_request) (simp add: budget_inv_def)
  moreover have "\<forall>k. load_of l k \<le> capacity_of l k"
    using local_limiter.taken_within_capacity [of "bs_limiter s" ?r] wf_normalize_request [of r] av
      assms(2) unfolding l budget_inv_def by blast
  ultimately show ?thesis
    using acquired(1) assms(2) act wf_normalize_request [of r] l
    by (simp only: budget_inv_def budget_system.simps act list.pred_inject(2) local_limiter.capacity_kept) simp
next
  case (released i l g)
  obtain r flag where gi: "bs_grants s ! i = (r, flag)" by fastforce
  show ?thesis
  proof (cases flag)
    case True
    then have "t = s" using released gi by (simp add: release_def list_update_same_conv)
    with assms(2) show ?thesis by simp
  next
    case False
    then have l: "l = give_budget (bs_limiter s) r" and g: "g = (r, True)"
      using released(3) gi by (auto simp: release_def)
    obtain before after where ba: "active_requests (bs_grants s) = before @ r # after"
        "active_requests ((bs_grants s)[i := (r, True)]) = before @ after"
      using active_requests_update [of i "bs_grants s" r] released(2) gi False by auto
    have acc: "\<forall>k. load_of (give_budget (bs_limiter s) r) k = sum_list (map (\<lambda>q. demand_of q k) (before @ after))"
      using assms(2) ba by (intro local_limiter.given_accounts) (auto simp: budget_inv_def)
    have "load_of (give_budget (bs_limiter s) r) k \<le> load_of (bs_limiter s) k" for k
      using acc assms(2) ba local_limiter.demand_nonneg [of r k] by (simp add: budget_inv_def)
    then have "load_of (give_budget (bs_limiter s) r) k \<le> capacity_of (bs_limiter s) k" for k
      using assms(2) by (meson budget_inv_def order_trans)
    then show ?thesis
      using released(1) assms(2) l g ba acc
      by (simp add: budget_inv_def local_limiter.capacity_kept)
  qed
qed

lemma budget_reachable_inv: "budget_reachable lims s \<Longrightarrow> budget_inv lims s"
proof (induction rule: budget_reachable.induct)
  case start
  have "load_of (new_local lims) k = 0 \<and> 0 \<le> capacity_of (new_local lims) k" for k
    by (cases k) (simp_all add: new_local_def read_count_def positive_def)
  then show ?case by (simp add: budget_inv_def active_requests_def)
next
  case (step s t)
  then show ?case by (blast intro: budget_step_inv)
qed

text \<open>
  C25: However acquisitions and releases interleave, the grants in force never exceed the limit of
  any program, provider or host, each limit taken as at least one.
\<close>

theorem grants_never_exceed_limits:
  assumes "budget_reachable lims s"
  shows "int (length (filter (\<lambda>r. br_program r = p) (active_requests (bs_grants s)))) \<le> positive (lim_program lims) \<and>
    (v \<noteq> [] \<longrightarrow> int (length (filter (\<lambda>r. br_provider r = v) (active_requests (bs_grants s)))) \<le> positive (lim_provider lims)) \<and>
    int (length (filter (\<lambda>r. h \<in> set (br_hosts r)) (active_requests (bs_grants s)))) \<le> positive (lim_host lims)"
proof -
  have counted: "sum_list (map (\<lambda>r. if P r then 1 else 0) rs) = int (length (filter P rs))"
    for P and rs :: "budget_request list"
    by (induction rs) auto
  have le: "sum_list (map (\<lambda>r. demand_of r k) (active_requests (bs_grants s))) \<le> capacity_of (new_local lims) k" for k
    using budget_reachable_inv [OF assms] unfolding budget_inv_def by (metis (no_types, lifting))
  show ?thesis
    using le [of "ProgramOf p"] le [of "ProviderOf v"] le [of "HostOf h"]
    by (auto simp: new_local_def eq_commute counted)
qed

text \<open>
  Once every grant handed out has been released, any request is admitted at once: releases
  give back exactly what acquisitions took, and repeated releases give back nothing more.
\<close>

theorem idle_limiter_admits_any_request:
  assumes "budget_reachable lims s" and "list_all snd (bs_grants s)"
  shows "\<exists>l g. acquire (bs_limiter s) r = Some (l, g)"
proof -
  have "active_requests (bs_grants s) = []"
    using assms(2) by (induction "bs_grants s") (auto simp: active_requests_def list_all_iff)
  then have "\<forall>k. load_of (bs_limiter s) k = 0"
    and cap: "\<forall>k. capacity_of (bs_limiter s) k = capacity_of (new_local lims) k"
    using budget_reachable_inv [OF assms(1)] by (auto simp: budget_inv_def)
  moreover have "0 < capacity_of (new_local lims) k" for k
    by (cases k) (simp_all add: new_local_def positive_def)
  ultimately have "available (bs_limiter s) (normalize_request r)"
    by (intro local_limiter.idle_admits wf_normalize_request) simp_all
  then show ?thesis by (auto simp: acquire_def Let_def)
qed

text \<open>Two holders on one program with a limit of one: the second waits until the first releases.\<close>

definition one_each :: limits where
  "one_each = \<lparr>lim_program = 1, lim_provider = 0, lim_host = - 3\<rparr>"

definition sample_request :: budget_request where
  "sample_request = \<lparr>br_program = ''p'', br_provider = '' Nmap '', br_hosts = [''A.example'', ''a.example'']\<rparr>"

definition after_acquire :: budget_system where
  "after_acquire =
     (case acquire (new_local one_each) sample_request of
        Some (l, g) \<Rightarrow> \<lparr>bs_limiter = l, bs_grants = [g]\<rparr>
      | None \<Rightarrow> \<lparr>bs_limiter = new_local one_each, bs_grants = []\<rparr>)"

definition after_release :: budget_system where
  "after_release =
     (case release (bs_limiter after_acquire) (bs_grants after_acquire ! 0) of
        (l, g) \<Rightarrow> \<lparr>bs_limiter = l, bs_grants = [g]\<rparr>)"

lemma after_acquire_step:
  "\<exists>l g. acquire (new_local one_each) sample_request = Some (l, g) \<and>
     after_acquire = \<lparr>bs_limiter = l, bs_grants = [g]\<rparr>"
proof -
  have "available (new_local one_each) (normalize_request sample_request)" by code_simp
  then show ?thesis by (auto simp: acquire_def after_acquire_def Let_def)
qed

lemma after_acquire_reachable: "budget_reachable one_each after_acquire"
  using after_acquire_step budget_reachable.start [of one_each]
    budget_step.acquired [of "\<lparr>bs_limiter = new_local one_each, bs_grants = []\<rparr>"]
  by (fastforce intro: budget_reachable.step)

lemma after_release_reachable: "budget_reachable one_each after_release"
proof -
  obtain l g where lg: "release (bs_limiter after_acquire) (bs_grants after_acquire ! 0) = (l, g)"
    by (cases "release (bs_limiter after_acquire) (bs_grants after_acquire ! 0)") simp
  have one: "length (bs_grants after_acquire) = 1" by code_simp
  have "budget_step after_acquire \<lparr>bs_limiter = l, bs_grants = (bs_grants after_acquire)[0 := g]\<rparr>"
    using lg one by (intro budget_step.released) simp_all
  moreover have "\<lparr>bs_limiter = l, bs_grants = (bs_grants after_acquire)[0 := g]\<rparr> = after_release"
    using lg one by (cases "bs_grants after_acquire") (auto simp: after_release_def)
  ultimately show ?thesis using after_acquire_reachable by (auto intro: budget_reachable.step)
qed

lemma grants_never_exceed_limits_witness:
  "active_requests (bs_grants after_acquire) \<noteq> [] \<and>
   int (length (filter (\<lambda>r. br_program r = ''p'') (active_requests (bs_grants after_acquire)))) \<le> 1"
proof
  show "active_requests (bs_grants after_acquire) \<noteq> []" by code_simp
  show "int (length (filter (\<lambda>r. br_program r = ''p'') (active_requests (bs_grants after_acquire)))) \<le> 1"
    using grants_never_exceed_limits [OF after_acquire_reachable, of "''p''" "''nmap''" "''a.example''"]
    by (simp add: one_each_def positive_def)
qed

lemma idle_limiter_admits_any_request_witness:
  "acquire (bs_limiter after_acquire) sample_request = None \<and>
   (\<exists>l g. acquire (bs_limiter after_release) sample_request = Some (l, g))"
proof
  have "\<not> available (bs_limiter after_acquire) (normalize_request sample_request)" by code_simp
  then show "acquire (bs_limiter after_acquire) sample_request = None" by (simp add: acquire_def)
  have "list_all snd (bs_grants after_release)" by code_simp
  then show "\<exists>l g. acquire (bs_limiter after_release) sample_request = Some (l, g)"
    by (rule idle_limiter_admits_any_request [OF after_release_reachable])
qed

subsection \<open>Hosts do not depend on the iteration order of maps\<close>

text \<open>
  \<^verbatim>\<open>collectCandidates\<close> ranges over Go maps, whose order changes from run to run. Two decoded values
  are \<open>reordered\<close> when they differ in the order of object members only, at any depth.
\<close>

inductive reordered :: "json \<Rightarrow> json \<Rightarrow> bool" where
  same: "reordered v v"
| swap: "reordered (JObj (xs @ a # b # ys)) (JObj (xs @ b # a # ys))"
| member: "reordered v w \<Longrightarrow> reordered (JObj (xs @ (k, v) # ys)) (JObj (xs @ (k, w) # ys))"
| element: "reordered v w \<Longrightarrow> reordered (JArr (xs @ v # ys)) (JArr (xs @ w # ys))"
| trans: "reordered u v \<Longrightarrow> reordered v w \<Longrightarrow> reordered u w"

lemma reordered_JStr: "reordered v w \<Longrightarrow> v = JStr s \<longleftrightarrow> w = JStr s"
  by (induction rule: reordered.induct) auto

lemma json_texts_append: "json_texts (xs @ ys) = json_texts xs @ json_texts ys"
  by (induction xs rule: json_texts.induct) auto

lemma json_texts_single: "json_texts [v] = (case v of JStr s \<Rightarrow> [s] | _ \<Rightarrow> [])"
  by (cases v) auto

lemma json_texts_reordered: "reordered v w \<Longrightarrow> json_texts [v] = json_texts [w]"
  using reordered_JStr [of v w] by (cases v; cases w) auto

lemma collect_fields_append: "collect_fields (xs @ ys) = collect_fields xs @ collect_fields ys"
  by (induction xs) auto

lemma collect_reordered: "reordered v w \<Longrightarrow> set (collect_candidates v key) = set (collect_candidates w key)"
proof (induction arbitrary: key rule: reordered.induct)
  case (swap xs a b ys)
  then show ?case by (cases a; cases b) (auto simp: collect_fields_append)
next
  case (element v w xs ys)
  have "json_texts (xs @ [v] @ ys) = json_texts (xs @ [w] @ ys)"
    by (simp only: json_texts_append json_texts_reordered [OF element.hyps])
  then show ?case by simp
qed (auto simp: collect_fields_append)

lemma set_normalized: "set (normalized vs) = set (map (\<lambda>v. to_lower (trim_space v)) vs) - {[]}"
proof -
  have "set (fold (\<lambda>v seen. if v = [] \<or> v \<in> set seen then seen else seen @ [v]) xs acc)
          = set acc \<union> (set xs - {[]})" for xs acc :: "string list"
    by (induction xs arbitrary: acc) auto
  then show ?thesis by (simp add: normalized_def)
qed

lemma normalized_same_set: "set vs = set ws \<Longrightarrow> normalized vs = normalized ws"
  by (intro sorted_distinct_set_unique) (simp_all add: set_normalized distinct_normalized, simp_all add: normalized_def)

text \<open>
  The hosts a capability input is budgeted for do not depend on the order in which Go ranges
  over the decoded JSON objects, at any depth.
\<close>

theorem hosts_independent_of_map_order:
  assumes "jp raw = Some v" and "jp' raw = Some w" and "reordered v w"
  shows "hosts_from_input jp parse shp ip raw = hosts_from_input jp' parse shp ip raw"
  using assms collect_reordered [OF assms(3), of "[]"]
  by (auto simp: hosts_from_input_def intro!: normalized_same_set)

definition sample_members :: "(string \<times> json) list" where
  "sample_members = [(''Host'', JStr ''B.example''), (''targets'', JArr [JStr ''a.example'', JNull])]"

lemma hosts_independent_of_map_order_witness:
  "hosts_from_input (\<lambda>_. Some (JObj sample_members)) (\<lambda>_. None) (\<lambda>_. None) (\<lambda>_. None) [] =
     hosts_from_input (\<lambda>_. Some (JObj (rev sample_members))) (\<lambda>_. None) (\<lambda>_. None) (\<lambda>_. None) [] \<and>
   hosts_from_input (\<lambda>_. Some (JObj sample_members)) (\<lambda>_. None) (\<lambda>_. None) (\<lambda>_. None) [] =
     [''a.example'', ''b.example'']"
proof
  have "reordered (JObj sample_members) (JObj (rev sample_members))"
    using reordered.swap [of "[]" "sample_members ! 0" "sample_members ! 1" "[]"]
    by (simp add: sample_members_def)
  then show "hosts_from_input (\<lambda>_. Some (JObj sample_members)) (\<lambda>_. None) (\<lambda>_. None) (\<lambda>_. None) [] =
     hosts_from_input (\<lambda>_. Some (JObj (rev sample_members))) (\<lambda>_. None) (\<lambda>_. None) (\<lambda>_. None) []"
    by (intro hosts_independent_of_map_order [where v = "JObj sample_members"]) simp_all
  show "hosts_from_input (\<lambda>_. Some (JObj sample_members)) (\<lambda>_. None) (\<lambda>_. None) (\<lambda>_. None) [] =
     [''a.example'', ''b.example'']"
    by code_simp
qed

end
