(* ===== verification/Domain.thy ===== *)
theory Domain
  imports GoData "HOL-Library.Word"
begin

unbundle bit_operations_syntax

text \<open>
  \<^verbatim>\<open>internal/domain/models.go\<close>: the records the components exchange and store, the status
  enumerations with the strings they are stored as, and the identifiers. Times are nanoseconds
  since the epoch, raw JSON is its text, a pointer field is an option.
\<close>

subsection \<open>Identifiers\<close>

text \<open>\<open>new_id\<close> is \<^verbatim>\<open>NewID\<close> on the sixteen bytes that \<^verbatim>\<open>rand.Read\<close> delivered.\<close>

definition hex_byte :: "8 word \<Rightarrow> string" where
  "hex_byte b = [hex_char (unat b div 16), hex_char (unat b mod 16)]"

definition hex_encode :: "8 word list \<Rightarrow> string" where
  "hex_encode bs = concat (map hex_byte bs)"

definition stamp_version :: "8 word list \<Rightarrow> 8 word list" where
  "stamp_version b =
     (let b6 = b[6 := ((b ! 6) AND 0x0f) OR 0x40] in b6[8 := ((b6 ! 8) AND 0x3f) OR 0x80])"

definition new_id :: "8 word list \<Rightarrow> string" where
  "new_id random =
     (let b = stamp_version random in
      hex_encode (take 4 b) @ ''-'' @ hex_encode (take 2 (drop 4 b)) @ ''-'' @
      hex_encode (take 2 (drop 6 b)) @ ''-'' @ hex_encode (take 2 (drop 8 b)) @ ''-'' @
      hex_encode (take 6 (drop 10 b)))"

subsection \<open>Statuses\<close>

datatype task_status = TaskPending | TaskRunning | TaskPaused | TaskCompleted | TaskFailed | TaskCancelled

fun task_status_string :: "task_status \<Rightarrow> string" where
  "task_status_string TaskPending = ''pending''"
| "task_status_string TaskRunning = ''running''"
| "task_status_string TaskPaused = ''paused''"
| "task_status_string TaskCompleted = ''completed''"
| "task_status_string TaskFailed = ''failed''"
| "task_status_string TaskCancelled = ''cancelled''"

datatype run_status = RunPending | RunRunning | RunPaused | RunCompleted | RunFailed | RunCancelled

fun run_status_string :: "run_status \<Rightarrow> string" where
  "run_status_string RunPending = ''pending''"
| "run_status_string RunRunning = ''running''"
| "run_status_string RunPaused = ''paused''"
| "run_status_string RunCompleted = ''completed''"
| "run_status_string RunFailed = ''failed''"
| "run_status_string RunCancelled = ''cancelled''"

datatype step_status = StepPending | StepBlocked | StepAwaitingApproval | StepQueued | StepRunning | StepSucceeded | StepFailed | StepRetryable | StepSkipped | StepCancelled

fun step_status_string :: "step_status \<Rightarrow> string" where
  "step_status_string StepPending = ''pending''"
| "step_status_string StepBlocked = ''blocked''"
| "step_status_string StepAwaitingApproval = ''awaiting_approval''"
| "step_status_string StepQueued = ''queued''"
| "step_status_string StepRunning = ''running''"
| "step_status_string StepSucceeded = ''succeeded''"
| "step_status_string StepFailed = ''failed''"
| "step_status_string StepRetryable = ''retryable''"
| "step_status_string StepSkipped = ''skipped''"
| "step_status_string StepCancelled = ''cancelled''"

subsection \<open>Records\<close>

record program =
  pg_id :: string
  pg_name :: string
  pg_platform :: string
  pg_description :: string
  pg_scope_reference :: string
  pg_policy_reference :: string
  pg_scope_digest :: string
  pg_include_rule_digests :: "string list"
  pg_exclude_rule_digests :: "string list"
  pg_target_plan_digest :: string
  pg_scope_plan_warnings :: string
  pg_created_at :: int
  pg_updated_at :: int

record scope_snapshot =
  sn_id :: string
  sn_program_id :: string
  sn_scope_reference :: string
  sn_scope_digest :: string
  sn_include_rule_digests :: "string list"
  sn_exclude_rule_digests :: "string list"
  sn_target_plan_digest :: string
  sn_planning_warnings :: string
  sn_target_plan :: string
  sn_expands_scope :: bool
  sn_added_include_digests :: "string list"
  sn_removed_include_digests :: "string list"
  sn_added_exclude_digests :: "string list"
  sn_removed_exclude_digests :: "string list"
  sn_acknowledged_by :: string
  sn_acknowledged_at :: "int option"
  sn_created_at :: int

record scope_change =
  sch_changed :: bool
  sch_expands_scope :: bool
  sch_acknowledged :: bool
  sch_added_include_digests :: "string list"
  sch_removed_include_digests :: "string list"
  sch_added_exclude_digests :: "string list"
  sch_removed_exclude_digests :: "string list"

record task =
  tk_id :: string
  tk_program_id :: string
  tk_objective :: string
  tk_workflow_definition_id :: string
  tk_status :: task_status
  tk_requested_by :: string
  tk_created_at :: int
  tk_updated_at :: int
  tk_schedule_reference :: "string option"
  tk_cancelled_at :: "int option"
  tk_cancellation_reason :: string

record workflow_run =
  wr_id :: string
  wr_task_id :: string
  wr_workflow_definition_id :: string
  wr_workflow_version :: string
  wr_status :: run_status
  wr_started_at :: "int option"
  wr_completed_at :: "int option"
  wr_previous_run_id :: "string option"
  wr_trigger_source :: string
  wr_summary :: string

record step_run =
  sr_id :: string
  sr_workflow_run_id :: string
  sr_step_definition_id :: string
  sr_capability :: string
  sr_status :: step_status
  sr_attempt_count :: int
  sr_input :: string
  sr_output :: string
  sr_error_classification :: string
  sr_error_details :: string
  sr_started_at :: "int option"
  sr_completed_at :: "int option"
  sr_idempotency_key :: string
  sr_approval_state :: string

record tool_run =
  tr_id :: string
  tr_step_run_id :: string
  tr_capability :: string
  tr_provider :: string
  tr_tool_version :: string
  tr_sanitized_arguments :: string
  tr_execution_environment :: string
  tr_started_at :: int
  tr_completed_at :: "int option"
  tr_exit_code :: "int option"
  tr_timed_out :: bool
  tr_artifact_ids :: "string list"
  tr_stdout_artifact_id :: "string option"
  tr_stderr_artifact_id :: "string option"

record action_request =
  aq_id :: string
  aq_task_id :: string
  aq_workflow_run_id :: string
  aq_step_run_id :: string
  aq_requested_by :: string
  aq_capability :: string
  aq_reason :: string
  aq_input :: string
  aq_idempotency_key :: string

record structured_error =
  se_classification :: string
  se_message :: string
  se_retryable :: bool

record action_result =
  ar_request_id :: string
  ar_status :: string
  ar_summary :: string
  ar_output :: string
  ar_artifact_ids :: "string list"
  ar_error :: "structured_error option"

record artifact =
  art_id :: string
  art_task_id :: string
  art_workflow_run_id :: string
  art_step_run_id :: string
  art_tool_run_id :: string
  art_type :: string
  art_content_type :: string
  art_size :: int
  art_sha256 :: string
  art_storage_location :: string
  art_created_at :: int
  art_expires_at :: "int option"
  art_redaction_state :: string
  art_sensitive :: bool

record asset =
  as_id :: string
  as_program_id :: string
  as_type :: string
  as_canonical_value :: string
  as_created_at :: int
  as_updated_at :: int

record asset_observation =
  ob_id :: string
  ob_asset_id :: string
  ob_workflow_run_id :: string
  ob_source_capability :: string
  ob_observed_value :: string
  ob_metadata :: string
  ob_first_seen_at :: int
  ob_observed_at :: int
  ob_confidence :: rat
  ob_evidence_artifact_ids :: "string list"

subsection \<open>Facts on identifiers\<close>

lemma hex_char_inj: "n < 16 \<Longrightarrow> m < 16 \<Longrightarrow> hex_char n = hex_char m \<Longrightarrow> n = m"
proof -
  assume n: "n < 16" and m: "m < 16" and eq: "hex_char n = hex_char m"
  have "(of_char (hex_char n) :: nat) = of_char (hex_char m)" using eq by simp
  then show "n = m" using n m by (simp add: hex_char_def split: if_splits)
qed

lemma hex_byte_inj: "hex_byte a = hex_byte b \<longleftrightarrow> a = b"
proof
  assume "hex_byte a = hex_byte b"
  moreover have "unat x div 16 < 16" for x :: "8 word"
  proof -
    have "unat x < 2 ^ LENGTH(8)" by (rule unsigned_less)
    then show ?thesis by simp
  qed
  ultimately have "unat a div 16 = unat b div 16" and "unat a mod 16 = unat b mod 16"
    by (auto simp: hex_byte_def intro!: hex_char_inj)
  then have "unat a = unat b" by (metis div_mult_mod_eq)
  then show "a = b" by (rule word_unat_eq_iff [THEN iffD2])
qed simp

lemma length_hex_encode [simp]: "length (hex_encode bs) = 2 * length bs"
  by (induction bs) (simp_all add: hex_encode_def hex_byte_def)

lemma hex_encode_inj: "hex_encode bs = hex_encode cs \<longleftrightarrow> bs = cs"
proof (induction bs arbitrary: cs)
  case Nil
  then show ?case by (cases cs) (simp_all add: hex_encode_def hex_byte_def)
next
  case (Cons b bs)
  show ?case
  proof (cases cs)
    case Nil
    then show ?thesis by (simp add: hex_encode_def hex_byte_def)
  next
    case (Cons c cs')
    have "hex_encode (b # bs) = hex_encode (c # cs') \<longleftrightarrow> hex_byte b = hex_byte c \<and> hex_encode bs = hex_encode cs'"
      by (simp add: hex_encode_def hex_byte_def)
    then show ?thesis using Cons.IH [of cs'] Cons by (simp add: hex_byte_inj)
  qed
qed

lemma length_stamp [simp]: "length (stamp_version b) = length b"
  by (simp add: stamp_version_def Let_def)

lemma new_id_eq_iff:
  assumes "length a = 16" and "length b = 16"
  shows "new_id a = new_id b \<longleftrightarrow> stamp_version a = stamp_version b"
proof
  assume eq: "new_id a = new_id b"
  let ?a = "stamp_version a" and ?b = "stamp_version b"
  have "take 4 ?a = take 4 ?b \<and> take 2 (drop 4 ?a) = take 2 (drop 4 ?b) \<and>
      take 2 (drop 6 ?a) = take 2 (drop 6 ?b) \<and> take 2 (drop 8 ?a) = take 2 (drop 8 ?b) \<and>
      take 6 (drop 10 ?a) = take 6 (drop 10 ?b)"
    using eq assms by (simp add: new_id_def Let_def hex_encode_inj append_eq_append_conv)
  moreover have "c = take 4 c @ take 2 (drop 4 c) @ take 2 (drop 6 c) @ take 2 (drop 8 c) @ take 6 (drop 10 c)"
    if "length c = 16" for c :: "8 word list"
  proof -
    have "take 6 (drop 10 c) = drop 10 c" using that by simp
    moreover have "take 2 (drop k c) @ drop (k + 2) c = drop k c" for k
      by (metis add.commute append_take_drop_id drop_drop)
    note this [of 8] this [of 6] this [of 4]
    ultimately show ?thesis by simp
  qed
  ultimately show "stamp_version a = stamp_version b"
    using assms by (metis length_stamp)
qed (simp add: new_id_def)

lemma unat_numeral_4: "unat (4 :: 8 word) = 4"
  by simp

lemma version_nibble: "unat ((x AND 0x0f) OR (0x40 :: 8 word)) div 16 = 4"
proof -
  have "drop_bit 4 ((x AND 0x0f) OR (0x40 :: 8 word)) = 4"
    by (simp add: drop_bit_or drop_bit_and)
  then have "drop_bit 4 (unat ((x AND 0x0f) OR (0x40 :: 8 word))) = 4"
    by (metis unat_drop_bit_eq unat_numeral_4)
  then show ?thesis by (simp only: drop_bit_eq_div) simp
qed

lemma variant_nibble: "unat ((x AND 0x3f) OR (0x80 :: 8 word)) div 16 \<in> {8, 9, 10, 11}"
proof -
  let ?y = "take_bit 2 (drop_bit 4 x) :: 8 word"
  have "drop_bit 4 ((x AND 0x3f) OR (0x80 :: 8 word)) = (drop_bit 4 x AND mask 2) OR 8"
    by (simp add: drop_bit_or drop_bit_and mask_eq_exp_minus_1)
  also have "\<dots> = ?y OR 8" by (simp add: take_bit_eq_mask)
  finally have eq: "drop_bit 4 ((x AND 0x3f) OR (0x80 :: 8 word)) = ?y OR 8" .
  have "unat ?y < 4" by (simp only: unsigned_take_bit_eq) (simp add: take_bit_eq_mod)
  then have "unat ?y = 0 \<or> unat ?y = 1 \<or> unat ?y = 2 \<or> unat ?y = 3" by linarith
  then have "?y = 0 \<or> ?y = 1 \<or> ?y = 2 \<or> ?y = 3"
    by (auto simp: word_unat_eq_iff)
  then have "unat (?y OR 8) \<in> {8, 9, 10, 11}" by auto
  then have "drop_bit 4 (unat ((x AND 0x3f) OR (0x80 :: 8 word))) \<in> {8, 9, 10, 11}"
    by (simp only: eq [symmetric] unat_drop_bit_eq)
  then show ?thesis by (simp only: drop_bit_eq_div) simp
qed

text \<open>
  Whatever bytes the random source delivers, a new identifier has the shape of a version 4
  variant 1 UUID: 36 characters with hyphens at 8, 13, 18 and 23, the version digit 4 and a
  variant digit in 8, 9, a, b.
\<close>

theorem new_id_is_version_4_uuid:
  assumes "length bytes = 16"
  shows "length (new_id bytes) = 36 \<and>
    (\<forall>i. i \<in> {8, 13, 18, 23} \<longrightarrow> new_id bytes ! i = CHR ''-'') \<and>
    new_id bytes ! 14 = CHR ''4'' \<and> new_id bytes ! 19 \<in> set ''89ab''"
proof -
  obtain b0 b1 b2 b3 b4 b5 b6 b7 b8 b9 b10 b11 b12 b13 b14 b15 where
    b: "bytes = [b0, b1, b2, b3, b4, b5, b6, b7, b8, b9, b10, b11, b12, b13, b14, b15]"
    using assms by (auto simp: numeral_eq_Suc length_Suc_conv)
  have "hex_char (unat ((b6 AND 0x0f) OR 0x40) div 16) = CHR ''4''"
    unfolding version_nibble by code_simp
  moreover have "hex_char (unat ((b8 AND 0x3f) OR 0x80) div 16) \<in> set ''89ab''"
  proof -
    have "hex_char n \<in> set ''89ab''" if "n \<in> {8, 9, 10, 11}" for n
    proof -
      have "hex_char 8 = CHR ''8''" "hex_char 9 = CHR ''9''" "hex_char 10 = CHR ''a''" "hex_char 11 = CHR ''b''"
        by code_simp+
      with that show ?thesis by auto
    qed
    with variant_nibble [of b8] show ?thesis by blast
  qed
  ultimately show ?thesis
    by (simp add: b new_id_def stamp_version_def hex_encode_def hex_byte_def)
qed

lemma new_id_is_version_4_uuid_witness:
  "length (new_id (replicate 16 0xff)) = 36 \<and> new_id (replicate 16 0xff) ! 14 = CHR ''4''"
  using new_id_is_version_4_uuid [of "replicate 16 0xff"] by simp

end
