(* ===== verification/Capability.thy ===== *)
theory Capability
  imports Domain Policy
begin

text \<open>
  \<^verbatim>\<open>internal/capability/capability.go\<close>: manifests, requests, the registry with its authorisation
  step, and the capability that dispatches to several providers. A value of the Go interface
  \<^verbatim>\<open>Capability\<close> is a record of its methods, the optional \<^verbatim>\<open>DefinitionValidator\<close> an optional field.
  The calls the registry makes are returned as a trace of \<open>cap_event\<close>s beside the result.
  Parameters: \<open>jp\<close> (JSON) and \<open>now\<close> (the registry's clock).
\<close>

subsection \<open>Data\<close>

record manifest =
  mf_name :: string
  mf_description :: string
  mf_version :: string
  mf_risk :: risk
  mf_input_schema :: string
  mf_output_schema :: string
  mf_required_scope_type :: string
  mf_approval_required :: bool
  mf_retry_safe :: bool
  mf_idempotent :: bool
  mf_supported_providers :: "string list"
  mf_produced_artifact_types :: "string list"
  mf_required_secrets :: "string list"
  mf_policy_requirements :: requirements
  mf_default_timeout :: int

record decision_record =
  dr_program_id :: string
  dr_action :: action_request
  dr_provider :: string
  dr_policy_id :: string
  dr_phase :: string
  dr_requirements :: requirements
  dr_evaluation :: policy_evaluation

record cap_request =
  cq_action :: action_request
  cq_program_id :: string
  cq_provider :: string
  cq_approved :: bool
  cq_policy :: policy
  cq_scope :: "(string \<Rightarrow> bool) option"
  cq_policy_phase :: string
  cq_decision_recorder :: "(decision_record \<Rightarrow> go_error option) option"

record cap_result =
  rs_action :: action_result
  rs_tool_run :: "tool_run option"
  rs_raw_stdout :: string
  rs_raw_stderr :: string

record capability =
  cap_manifest :: manifest
  cap_validate :: "cap_request \<Rightarrow> go_error option"
  cap_execute :: "cap_request \<Rightarrow> cap_result \<times> go_error option"
  cap_definition_validator :: "(string \<Rightarrow> go_error option) option"

datatype cap_event =
    DecisionRecorded decision_record
  | ValidateCalled cap_request
  | ExecuteCalled cap_request

definition zero_action_result :: action_result where
  "zero_action_result =
     \<lparr>ar_request_id = [], ar_status = [], ar_summary = [], ar_output = [], ar_artifact_ids = [],
      ar_error = None\<rparr>"

definition zero_result :: cap_result where
  "zero_result =
     \<lparr>rs_action = zero_action_result, rs_tool_run = None, rs_raw_stdout = [], rs_raw_stderr = []\<rparr>"

subsection \<open>The registry\<close>

type_synonym registry = "(string \<times> capability) list"

definition registry_get :: "registry \<Rightarrow> string \<Rightarrow> capability option" where
  "registry_get r name = map_of r name"

definition registry_register :: "registry \<Rightarrow> capability \<Rightarrow> registry res" where
  "registry_register r c =
     (let m = cap_manifest c in
      if mf_name m = [] \<or> mf_version m = [] then Inl (Err ''capability name and version are required'')
      else if registry_get r (mf_name m) \<noteq> None
      then Inl (Err (''capability '' @ mf_name m @ '' already registered''))
      else Inr (r @ [(mf_name m, c)]))"

definition registry_names :: "registry \<Rightarrow> string list" where
  "registry_names r = sort (map fst r)"

definition decision_record_of :: "cap_request \<Rightarrow> manifest \<Rightarrow> policy_evaluation \<Rightarrow> decision_record" where
  "decision_record_of q m eval =
     \<lparr>dr_program_id = cq_program_id q, dr_action = cq_action q, dr_provider = cq_provider q,
      dr_policy_id = pol_id (cq_policy q),
      dr_phase = (if cq_policy_phase q = [] then ''execution'' else cq_policy_phase q),
      dr_requirements = mf_policy_requirements m, dr_evaluation = eval\<rparr>"

definition evaluate_request :: "json_parser \<Rightarrow> utc_time \<Rightarrow> cap_request \<Rightarrow> manifest \<Rightarrow> policy_evaluation" where
  "evaluate_request jp now q m =
     evaluate_at jp (cq_policy q) (mf_name m) (mf_risk m) (cq_approved q) (mf_policy_requirements m)
       (aq_input (cq_action q)) now"

definition authorize ::
  "json_parser \<Rightarrow> utc_time \<Rightarrow> registry \<Rightarrow> cap_request \<Rightarrow> cap_event list \<times> capability res" where
  "authorize jp now r q =
     (case registry_get r (aq_capability (cq_action q)) of
        None \<Rightarrow> ([], Inl (Err (''unknown capability '' @ quoted (aq_capability (cq_action q)))))
      | Some c \<Rightarrow>
          let eval = evaluate_request jp now q (cap_manifest c);
              rec = decision_record_of q (cap_manifest c) eval;
              decided = (if pe_decision eval \<noteq> Allow
                 then Inl (Err (''policy '' @ decision_string (pe_decision eval) @ '': '' @ pe_reason eval))
                 else Inr c)
          in (case cq_decision_recorder q of
                None \<Rightarrow> ([], decided)
              | Some record_decision \<Rightarrow>
                  (case record_decision rec of
                     Some e \<Rightarrow> ([DecisionRecorded rec], Inl (Wrapped ''persist policy decision: '' e))
                   | None \<Rightarrow> ([DecisionRecorded rec], decided))))"

definition registry_validate ::
  "json_parser \<Rightarrow> utc_time \<Rightarrow> registry \<Rightarrow> cap_request \<Rightarrow> cap_event list \<times> go_error option" where
  "registry_validate jp now r q =
     (case authorize jp now r q of
        (ev, Inl e) \<Rightarrow> (ev, Some e)
      | (ev, Inr c) \<Rightarrow> (ev @ [ValidateCalled q], cap_validate c q))"

definition registry_execute ::
  "json_parser \<Rightarrow> utc_time \<Rightarrow> registry \<Rightarrow> cap_request \<Rightarrow>
     cap_event list \<times> cap_result \<times> go_error option" where
  "registry_execute jp now r q =
     (case authorize jp now r q of
        (ev, Inl e) \<Rightarrow> (ev, zero_result, Some e)
      | (ev, Inr c) \<Rightarrow>
          (case cap_validate c q of
             Some e \<Rightarrow> (ev @ [ValidateCalled q], zero_result, Some e)
           | None \<Rightarrow> (ev @ [ValidateCalled q, ExecuteCalled q], cap_execute c q)))"

definition validate_definition_input :: "registry \<Rightarrow> string \<Rightarrow> string \<Rightarrow> go_error option" where
  "validate_definition_input r name raw =
     (case registry_get r name of
        None \<Rightarrow> Some (Err (''unknown capability '' @ quoted name))
      | Some c \<Rightarrow> (case cap_definition_validator c of None \<Rightarrow> None | Some v \<Rightarrow> v raw))"

subsection \<open>Several providers of one capability\<close>

definition merge_requirements :: "requirements \<Rightarrow> requirements \<Rightarrow> requirements" where
  "merge_requirements a b =
     \<lparr>req_authentication = req_authentication a \<or> req_authentication b,
      req_directory_fuzzing = req_directory_fuzzing a \<or> req_directory_fuzzing b,
      req_cross_origin = req_cross_origin a \<or> req_cross_origin b,
      req_intrusive_checks = req_intrusive_checks a \<or> req_intrusive_checks b\<rparr>"

text \<open>The association list of providers is the map in its iteration order.\<close>

record multi =
  mu_manifest :: manifest
  mu_default_provider :: string
  mu_providers :: "(string \<times> capability) list"

fun merge_providers :: "(string \<times> capability) list \<Rightarrow> manifest \<Rightarrow> manifest res" where
  "merge_providers [] m = Inr m"
| "merge_providers ((name, p) # ps) m =
     (let pm = cap_manifest p in
      if mf_name pm \<noteq> mf_name m
      then Inl (Err (''provider '' @ name @ '' implements '' @ mf_name pm @ '', expected '' @ mf_name m))
      else merge_providers ps
             (m\<lparr>mf_policy_requirements :=
                   merge_requirements (mf_policy_requirements m) (mf_policy_requirements pm),
                mf_supported_providers := mf_supported_providers m @ [name]\<rparr>))"

definition new_multi :: "string \<Rightarrow> (string \<times> capability) list \<Rightarrow> multi res" where
  "new_multi dflt ps =
     (if ps = [] then Inl (Err ''at least one provider is required'')
      else (case map_of ps dflt of
              None \<Rightarrow> Inl (Err (''default provider '' @ quoted dflt @ '' is not registered''))
            | Some base \<Rightarrow>
                bind_res (merge_providers ps ((cap_manifest base)\<lparr>mf_supported_providers := []\<rparr>)) (\<lambda>m.
                  Inr \<lparr>mu_manifest = m\<lparr>mf_supported_providers := sort (mf_supported_providers m)\<rparr>,
                       mu_default_provider = dflt, mu_providers = ps\<rparr>)))"

definition multi_provider :: "multi \<Rightarrow> string \<Rightarrow> capability res" where
  "multi_provider m name0 =
     (let name = (if name0 = [] then mu_default_provider m else name0) in
      case map_of (mu_providers m) name of
        None \<Rightarrow> Inl (Err (''provider '' @ quoted name @ '' is not supported for '' @ mf_name (mu_manifest m)))
      | Some p \<Rightarrow> Inr p)"

definition multi_validate :: "multi \<Rightarrow> cap_request \<Rightarrow> go_error option" where
  "multi_validate m q =
     (case multi_provider m (cq_provider q) of Inl e \<Rightarrow> Some e | Inr p \<Rightarrow> cap_validate p q)"

definition multi_execute :: "multi \<Rightarrow> cap_request \<Rightarrow> cap_result \<times> go_error option" where
  "multi_execute m q =
     (case multi_provider m (cq_provider q) of
        Inl e \<Rightarrow> (zero_result, Some e) | Inr p \<Rightarrow> cap_execute p q)"

definition multi_validate_definition :: "multi \<Rightarrow> string \<Rightarrow> go_error option" where
  "multi_validate_definition m raw =
     (case multi_provider m (mu_default_provider m) of
        Inl e \<Rightarrow> Some e
      | Inr p \<Rightarrow> (case cap_definition_validator p of None \<Rightarrow> None | Some v \<Rightarrow> v raw))"

definition multi_capability :: "multi \<Rightarrow> capability" where
  "multi_capability m =
     \<lparr>cap_manifest = mu_manifest m, cap_validate = multi_validate m, cap_execute = multi_execute m,
      cap_definition_validator = Some (multi_validate_definition m)\<rparr>"

subsection \<open>The registry interface\<close>

text \<open>
  The contract of a table of named entries, whose client registers a list of entries one after
  the other and stops at the first error (as \<^verbatim>\<open>providers.NewRegistry\<close> does).
\<close>

locale named_registry =
  fixes register :: "'r \<Rightarrow> 'c \<Rightarrow> 'r res"
    and lookup :: "'r \<Rightarrow> string \<Rightarrow> 'c option"
    and label :: "'c \<Rightarrow> string"
  assumes lookup_register: "register r c = Inr r' \<Longrightarrow> lookup r' k = (if k = label c then Some c else lookup r k)"
    and register_fresh: "register r c = Inr r' \<Longrightarrow> lookup r (label c) = None"
begin

fun register_all :: "'r \<Rightarrow> 'c list \<Rightarrow> 'r res" where
  "register_all r [] = Inr r"
| "register_all r (c # cs) = bind_res (register r c) (\<lambda>r'. register_all r' cs)"

lemma register_all_lookup:
  "register_all r cs = Inr r' \<Longrightarrow>
     distinct (map label cs) \<and>
     (\<forall>c \<in> set cs. lookup r (label c) = None) \<and>
     (\<forall>k. lookup r' k = (case map_of (map (\<lambda>c. (label c, c)) cs) k of None \<Rightarrow> lookup r k | Some c \<Rightarrow> Some c))"
proof (induction cs arbitrary: r)
  case (Cons c cs)
  then obtain r1 where r1: "register r c = Inr r1" and rest: "register_all r1 cs = Inr r'"
    by (auto simp: bind_res_Inr)
  note ih = Cons.IH [OF rest]
  have fresh: "label c \<notin> set (map label cs)"
    using ih lookup_register [OF r1, of "label c"] by auto
  have "map_of (map (\<lambda>c. (label c, c)) cs) (label c) = None"
    using fresh by (simp add: map_of_eq_None_iff image_image)
  then show ?case
    using ih fresh register_fresh [OF r1] lookup_register [OF r1]
    by (auto split: if_splits option.splits)
qed simp

end

interpretation capability_registry:
  named_registry registry_register registry_get "\<lambda>c. mf_name (cap_manifest c)"
  by unfold_locales
    (auto simp: registry_register_def registry_get_def Let_def map_add_def split: if_splits option.splits)

definition registry_inv :: "registry \<Rightarrow> bool" where
  "registry_inv r \<longleftrightarrow>
     distinct (map fst r) \<and> list_all (\<lambda>(n, c). n = mf_name (cap_manifest c) \<and> n \<noteq> []) r"

lemma registry_register_inv: "registry_inv r \<Longrightarrow> registry_register r c = Inr r' \<Longrightarrow> registry_inv r'"
  by (auto simp: registry_inv_def registry_register_def registry_get_def Let_def map_of_eq_None_iff
      split: if_splits)

lemma registry_get_name: "registry_inv r \<Longrightarrow> registry_get r n = Some c \<Longrightarrow> mf_name (cap_manifest c) = n"
  by (auto simp: registry_inv_def registry_get_def list_all_iff dest!: map_of_SomeD)

lemma register_all_inv:
  "registry_inv r \<Longrightarrow> capability_registry.register_all r cs = Inr r' \<Longrightarrow> registry_inv r'"
proof (induction cs arbitrary: r)
  case (Cons c cs)
  then obtain r1 where r1: "registry_register r c = Inr r1"
    and rest: "capability_registry.register_all r1 cs = Inr r'"
    by (auto simp: bind_res_Inr)
  show ?case using registry_register_inv [OF Cons.prems(1) r1] rest by (rule Cons.IH)
qed simp

lemma registry_names_of_inv: "registry_inv r \<Longrightarrow> set (registry_names r) = {n. registry_get r n \<noteq> None}"
  by (auto simp: registry_names_def registry_get_def map_of_eq_None_iff)

text \<open>
  When a list of capabilities registers without an error their names are distinct, the
  registry lists exactly these names in order, and looking each up finds it.
\<close>

theorem registered_capabilities_are_found:
  assumes "capability_registry.register_all [] cs = Inr r"
  shows "registry_names r = sort (map (\<lambda>c. mf_name (cap_manifest c)) cs) \<and>
    distinct (registry_names r) \<and>
    (\<forall>c \<in> set cs. registry_get r (mf_name (cap_manifest c)) = Some c)"
proof -
  let ?names = "map (\<lambda>c. mf_name (cap_manifest c)) cs"
  have inv: "registry_inv r" using assms by (rule register_all_inv [rotated]) (simp add: registry_inv_def)
  have all: "distinct ?names"
    "\<And>k. registry_get r k = map_of (map (\<lambda>c. (mf_name (cap_manifest c), c)) cs) k"
    using capability_registry.register_all_lookup [OF assms]
    by (auto simp: registry_get_def split: option.splits)
  have "set (registry_names r) = set ?names"
    unfolding registry_names_of_inv [OF inv] all(2) by (auto simp: map_of_eq_None_iff image_image)
  moreover have dist: "distinct (registry_names r)" using inv by (simp add: registry_inv_def registry_names_def)
  ultimately have "registry_names r = sort ?names"
    using all(1) by (metis registry_names_def set_sort distinct_sort sort_same_set sorted_sort sort_key_id_if_sorted sorted_map)
  moreover have "registry_get r (mf_name (cap_manifest c)) = Some c" if "c \<in> set cs" for c
    unfolding all(2) using that all(1) by (intro map_of_is_SomeI) (auto simp: o_def)
  ultimately show ?thesis using dist by blast
qed

subsection \<open>Authorisation\<close>

text \<open>The place of a call in an execution: the decision is recorded before the request is validated and executed.\<close>

fun event_stage :: "cap_event \<Rightarrow> nat" where
  "event_stage (DecisionRecorded d) = 0"
| "event_stage (ValidateCalled q) = 1"
| "event_stage (ExecuteCalled q) = 2"

text \<open>
  C26: The registry calls Execute of a registered capability exactly when the policy allows this
  request, the decision recorder (if there is one) stored the decision without an error, and
  Validate accepted the request; a recorder is given exactly the decision evaluated for this
  request, denials included; the calls come in the order record, validate, execute, each at most
  once; the result is then the one of the capability, and in every other case the zero result with
  an error. For an unregistered capability nothing is called.
\<close>

theorem provider_runs_only_after_recorded_allow:
  "case registry_execute jp now r q of (ev, res, e) \<Rightarrow>
     (case registry_get r (aq_capability (cq_action q)) of
        None \<Rightarrow> ev = [] \<and> res = zero_result \<and> e \<noteq> None
      | Some c \<Rightarrow>
          let m = cap_manifest c;
              eval = evaluate_at jp (cq_policy q) (mf_name m) (mf_risk m) (cq_approved q) (mf_policy_requirements m)
                (aq_input (cq_action q)) now;
              rec = \<lparr>dr_program_id = cq_program_id q, dr_action = cq_action q, dr_provider = cq_provider q,
                dr_policy_id = pol_id (cq_policy q),
                dr_phase = (if cq_policy_phase q = [] then ''execution'' else cq_policy_phase q),
                dr_requirements = mf_policy_requirements m, dr_evaluation = eval\<rparr>;
              allowed = (pe_decision eval = Allow \<and>
                (case cq_decision_recorder q of None \<Rightarrow> True | Some f \<Rightarrow> f rec = None))
          in (\<forall>p. ExecuteCalled p \<in> set ev \<longleftrightarrow> p = q \<and> allowed \<and> cap_validate c q = None) \<and>
             (\<forall>p. ValidateCalled p \<in> set ev \<longleftrightarrow> p = q \<and> allowed) \<and>
             (\<forall>d. DecisionRecorded d \<in> set ev \<longleftrightarrow> d = rec \<and> cq_decision_recorder q \<noteq> None) \<and>
             sorted_wrt (<) (map event_stage ev) \<and>
             (if allowed \<and> cap_validate c q = None then (res, e) = cap_execute c q
              else res = zero_result \<and> e \<noteq> None))"
proof (cases "registry_get r (aq_capability (cq_action q))")
  case None
  then show ?thesis by (simp add: registry_execute_def authorize_def)
next
  case (Some c)
  show ?thesis
    by (cases "pe_decision (evaluate_request jp now q (cap_manifest c)) = Allow"; cases "cq_decision_recorder q";
        cases "cap_validate c q")
      (auto simp: registry_execute_def authorize_def Some Let_def decision_record_of_def evaluate_request_def
        split: option.split)
qed

subsection \<open>Several providers\<close>

lemma merge_providers_spec:
  "merge_providers ps m = Inr m' \<Longrightarrow>
     mf_name m' = mf_name m \<and> mf_version m' = mf_version m \<and>  mf_risk m' = mf_risk m \<and>
     (\<forall>(n, p) \<in> set ps. mf_name (cap_manifest p) = mf_name m) \<and>
     mf_supported_providers m' = mf_supported_providers m @ map fst ps \<and>
     (\<forall>pol. requirements_met pol (mf_policy_requirements m') \<longleftrightarrow>
        requirements_met pol (mf_policy_requirements m) \<and>
        (\<forall>(n, p) \<in> set ps. requirements_met pol (mf_policy_requirements (cap_manifest p))))"
proof (induction ps m rule: merge_providers.induct)
  case (2 name p ps m)
  let ?m1 = "m\<lparr>mf_policy_requirements :=
                   merge_requirements (mf_policy_requirements m) (mf_policy_requirements (cap_manifest p)),
                mf_supported_providers := mf_supported_providers m @ [name]\<rparr>"
  have same: "mf_name (cap_manifest p) = mf_name m" and rest: "merge_providers ps ?m1 = Inr m'"
    using 2 by (auto simp: Let_def split: if_splits)
  have "requirements_met pol (mf_policy_requirements ?m1) \<longleftrightarrow>
      requirements_met pol (mf_policy_requirements m) \<and>
      requirements_met pol (mf_policy_requirements (cap_manifest p))" for pol
    by (auto simp: requirements_met_def merge_requirements_def)
  then show ?case using 2(1) [OF refl _ rest] same by auto
qed simp

text \<open>
  A capability over several providers is accepted by exactly the policies that accept the
  requirements of every one of its providers, all providers implement the same capability, its
  manifest lists them in order, and a request reaches the named provider, or the default one when
  none is named.
\<close>

theorem multi_requires_what_every_provider_requires:
  assumes "new_multi dflt ps = Inr m"
  shows "(requirements_met pol (mf_policy_requirements (mu_manifest m)) \<longleftrightarrow>
      list_all (\<lambda>(n, p). requirements_met pol (mf_policy_requirements (cap_manifest p))) ps) \<and>
    list_all (\<lambda>(n, p). mf_name (cap_manifest p) = mf_name (mu_manifest m)) ps \<and>
    mf_supported_providers (mu_manifest m) = sort (map fst ps) \<and>
    (multi_provider m n = Inr p \<longleftrightarrow> map_of ps (if n = [] then dflt else n) = Some p)"
proof -
  obtain base m1 where base: "map_of ps dflt = Some base"
    and m1: "merge_providers ps ((cap_manifest base)\<lparr>mf_supported_providers := []\<rparr>) = Inr m1"
    and m: "m = \<lparr>mu_manifest = m1\<lparr>mf_supported_providers := sort (mf_supported_providers m1)\<rparr>,
                 mu_default_provider = dflt, mu_providers = ps\<rparr>"
    using assms by (auto simp: new_multi_def bind_res_Inr split: if_splits option.splits)
  note spec = merge_providers_spec [OF m1]
  have "(dflt, base) \<in> set ps" using base by (rule map_of_SomeD)
  then have "requirements_met pol (mf_policy_requirements (mu_manifest m)) \<longleftrightarrow>
      list_all (\<lambda>(n, p). requirements_met pol (mf_policy_requirements (cap_manifest p))) ps"
    using spec by (auto simp: m list_all_iff)
  moreover have "list_all (\<lambda>(n, p). mf_name (cap_manifest p) = mf_name (mu_manifest m)) ps \<and>
      mf_supported_providers (mu_manifest m) = sort (map fst ps)"
    using spec by (auto simp: m list_all_iff)
  moreover have "multi_provider m n = Inr p \<longleftrightarrow> map_of ps (if n = [] then dflt else n) = Some p"
    by (auto simp: m multi_provider_def Let_def split: option.splits)
  ultimately show ?thesis by blast
qed

text \<open>A capability for the witnesses: it accepts every input and succeeds.\<close>

definition sample_manifest :: "string \<Rightarrow> bool \<Rightarrow> manifest" where
  "sample_manifest name fuzzing =
     \<lparr>mf_name = name, mf_description = [], mf_version = ''1'', mf_risk = Low, mf_input_schema = ''{}'',
      mf_output_schema = ''{}'', mf_required_scope_type = ''web'', mf_approval_required = False,
      mf_retry_safe = True, mf_idempotent = True, mf_supported_providers = [],
      mf_produced_artifact_types = [], mf_required_secrets = [],
      mf_policy_requirements = no_requirements\<lparr>req_directory_fuzzing := fuzzing\<rparr>,
      mf_default_timeout = 0\<rparr>"

definition sample_capability :: "string \<Rightarrow> bool \<Rightarrow> capability" where
  "sample_capability name fuzzing =
     \<lparr>cap_manifest = sample_manifest name fuzzing, cap_validate = (\<lambda>_. None),
      cap_execute = (\<lambda>_. (zero_result, None)), cap_definition_validator = None\<rparr>"

lemma registered_capabilities_are_found_witness:
  "\<exists>r. capability_registry.register_all []
          [sample_capability ''subdomain.enumerate'' False, sample_capability ''http.probe'' False] = Inr r \<and>
       registry_names r = [''http.probe'', ''subdomain.enumerate'']"
proof -
  let ?cs = "[sample_capability ''subdomain.enumerate'' False, sample_capability ''http.probe'' False]"
  let ?r = "map (\<lambda>c. (mf_name (cap_manifest c), c)) ?cs"
  have "capability_registry.register_all [] ?cs = Inr ?r"
    by (simp add: registry_register_def registry_get_def sample_capability_def sample_manifest_def)
  moreover from registered_capabilities_are_found [OF this]
  have "registry_names ?r = [''http.probe'', ''subdomain.enumerate'']"
    by (simp add: sample_capability_def sample_manifest_def)
  ultimately show ?thesis by blast
qed

lemma multi_requires_what_every_provider_requires_witness:
  "\<exists>m. new_multi ''httpx'' [(''katana'', sample_capability ''web.crawl'' True), (''httpx'', sample_capability ''web.crawl'' False)] = Inr m \<and>
     mf_supported_providers (mu_manifest m) = [''httpx'', ''katana''] \<and>
     \<not> requirements_met demo_policy (mf_policy_requirements (mu_manifest m))"
proof -
  let ?ps = "[(''katana'', sample_capability ''web.crawl'' True), (''httpx'', sample_capability ''web.crawl'' False)]"
  obtain m where m: "new_multi ''httpx'' ?ps = Inr m"
    by (simp add: new_multi_def sample_capability_def sample_manifest_def)
  have "sort [''katana'', ''httpx''] = [''httpx'', ''katana'']" by code_simp
  then show ?thesis
    using m multi_requires_what_every_provider_requires [OF m, of demo_policy "[]"]
    by (auto simp: requirements_met_def demo_policy_def sample_capability_def sample_manifest_def)
qed

definition sample_request :: cap_request where
  "sample_request =
     \<lparr>cq_action = \<lparr>aq_id = ''a'', aq_task_id = ''t'', aq_workflow_run_id = ''r'', aq_step_run_id = ''s'',
        aq_requested_by = [], aq_capability = ''http.probe'', aq_reason = [], aq_input = ''{}'',
        aq_idempotency_key = ''k''\<rparr>,
      cq_program_id = ''p'', cq_provider = [], cq_approved = False, cq_policy = demo_policy, cq_scope = None,
      cq_policy_phase = [], cq_decision_recorder = Some (\<lambda>d. if dr_phase d = ''execution'' then None else Some Canceled)\<rparr>"

lemma provider_runs_only_after_recorded_allow_witness:
  "\<exists>ev d. registry_execute (\<lambda>s. None) \<lparr>ut_weekday = 0, ut_hour = 0, ut_minute = 0\<rparr>
       [(''http.probe'', sample_capability ''http.probe'' False)] sample_request = (ev, zero_result, None) \<and>
     ExecuteCalled sample_request \<in> set ev \<and> DecisionRecorded d \<in> set ev \<and> dr_phase d = ''execution''"
proof -
  let ?r = "[(''http.probe'', sample_capability ''http.probe'' False)]" and ?q = sample_request
    and ?now = "\<lparr>ut_weekday = 0, ut_hour = 0, ut_minute = 0\<rparr>"
  obtain ev res e where run: "registry_execute (\<lambda>s. None) ?now ?r ?q = (ev, res, e)" by (metis prod_cases3)
  have get: "registry_get ?r (aq_capability (cq_action ?q)) = Some (sample_capability ''http.probe'' False)"
    by (simp add: registry_get_def sample_request_def)
  have parts: "pe_decision (evaluate_at (\<lambda>s. None) (cq_policy ?q) (mf_name m) (mf_risk m) (cq_approved ?q)
      (mf_policy_requirements m) (aq_input (cq_action ?q)) ?now) = Allow" "cap_validate (sample_capability ''http.probe'' False) ?q = None"
      "cap_execute (sample_capability ''http.probe'' False) ?q = (zero_result, None)" "cq_policy_phase ?q = []"
      "cq_decision_recorder ?q = Some (\<lambda>d. if dr_phase d = ''execution'' then None else Some Canceled)"
    if "m = cap_manifest (sample_capability ''http.probe'' False)" for m
    unfolding that
    by (simp_all add: sample_request_def evaluate_at_def sample_capability_def sample_manifest_def demo_policy_def
        Let_def no_requirements_def within_scan_windows_def input_denial_def common_fields_def parse_object_def
        risk_decision_def)
  note all = provider_runs_only_after_recorded_allow [where jp = "\<lambda>s. None" and now = ?now and r = ?r and q = ?q,
      unfolded run prod.case get option.case Let_def]
  show ?thesis using all parts [OF refl] run by (intro exI [of _ ev] exI) auto
qed

end
