(* ===== verification/Workflow.thy ===== *)
theory Workflow
  imports Capability
begin

text \<open>
  \<^verbatim>\<open>internal/workflow/workflow.go\<close>, the definitions: \<open>validate\<close> (\<^verbatim>\<open>Validate\<close>) with its depth first
  search for cycles, \<open>transitively_depends_on\<close> and the execution order \<open>topological\<close>. Bindings are
  association lists in iteration order; \<open>iter\<close> is the order in which Go ranges over the keys of
  \<^verbatim>\<open>byID\<close>. Parameters: \<open>jp\<close> (JSON), \<open>iter\<close>, and the registry \<open>r\<close>.
\<close>

subsection \<open>Data\<close>

record wf_step =
  st_id :: string
  st_capability :: string
  st_provider :: string
  st_depends_on :: "string list"
  st_condition :: string
  st_input :: string
  st_bindings :: "(string \<times> string) list"
  st_max_attempts :: int
  st_base_delay :: int
  st_timeout :: int
  st_approval_required :: bool
  st_rerun_on_input_change :: bool

record wf_definition =
  wd_id :: string
  wd_name :: string
  wd_version :: string
  wd_description :: string
  wd_steps :: "wf_step list"
  wd_default_policy_requirements :: string
  wd_created_at :: int

definition zero_step :: wf_step where
  "zero_step =
     \<lparr>st_id = [], st_capability = [], st_provider = [], st_depends_on = [], st_condition = [],
      st_input = [], st_bindings = [], st_max_attempts = 0, st_base_delay = 0, st_timeout = 0,
      st_approval_required = False, st_rerun_on_input_change = False\<rparr>"

text \<open>The map \<^verbatim>\<open>byID\<close>: a later step replaces an earlier one, a missing key reads the zero step.\<close>

definition by_id :: "wf_step list \<Rightarrow> string \<Rightarrow> wf_step" where
  "by_id steps sid =
     (case map_of (map (\<lambda>s. (st_id s, s)) (rev steps)) sid of None \<Rightarrow> zero_step | Some s \<Rightarrow> s)"

definition deps_of :: "wf_step list \<Rightarrow> string \<Rightarrow> string list" where
  "deps_of steps sid = st_depends_on (by_id steps sid)"

subsection \<open>Validation\<close>

definition supported_condition :: "string \<Rightarrow> bool" where
  "supported_condition c \<longleftrightarrow>
     c = [] \<or> has_prefix c ''success:'' \<or> has_prefix c ''changed:'' \<or> has_prefix c ''nonempty:''"

fun check_steps ::
  "json_parser \<Rightarrow> registry \<Rightarrow> wf_step list \<Rightarrow> string list \<Rightarrow> go_error option" where
  "check_steps jp r [] seen = None"
| "check_steps jp r (s # steps) seen =
     (if st_id s = [] then Some (Err ''step id is required'')
      else if st_id s \<in> set seen then Some (Err (''duplicate step '' @ quoted (st_id s)))
      else if registry_get r (st_capability s) = None
      then Some (Err (''step '' @ st_id s @ '' uses unknown capability '' @ quoted (st_capability s)))
      else if length (st_input s) = 0 \<or> jp (st_input s) = None
      then Some (Err (''step '' @ st_id s @ '' has invalid input JSON''))
      else (case validate_definition_input r (st_capability s) (st_input s) of
              Some e \<Rightarrow> Some (Wrapped (''step '' @ st_id s @ '' input schema: '') e)
            | None \<Rightarrow>
                if \<not> supported_condition (st_condition s)
                then Some (Err (''step '' @ st_id s @ '' has unsupported condition '' @ quoted (st_condition s)))
                else check_steps jp r steps (st_id s # seen)))"

fun first_error :: "('a \<Rightarrow> go_error option) \<Rightarrow> 'a list \<Rightarrow> go_error option" where
  "first_error f [] = None"
| "first_error f (x # xs) = (case f x of Some e \<Rightarrow> Some e | None \<Rightarrow> first_error f xs)"

text \<open>The step a binding or a condition reads from.\<close>

definition binding_source :: "string \<Rightarrow> string" where
  "binding_source b = hd (split_on (CHR ''.'') b)"

definition condition_source :: "string \<Rightarrow> string" where
  "condition_source c =
     (case cut c (CHR '':'') of (kind, reference, found) \<Rightarrow> hd (split_on (CHR ''.'') reference))"

definition check_dependency :: "string list \<Rightarrow> wf_step \<Rightarrow> string \<Rightarrow> go_error option" where
  "check_dependency ids s dep =
     (if dep \<notin> set ids then Some (Err (''step '' @ st_id s @ '' depends on unknown step '' @ dep))
      else None)"

definition check_binding :: "string list \<Rightarrow> wf_step \<Rightarrow> string \<Rightarrow> go_error option" where
  "check_binding ids s binding =
     (let parts = split_on (CHR ''.'') binding in
      if length parts < 3 \<or> parts ! 1 \<noteq> ''output''
      then Some (Err (''step '' @ st_id s @ '' has unsupported binding '' @ quoted binding))
      else if parts ! 0 \<notin> set ids
      then Some (Err (''step '' @ st_id s @ '' binding references unknown step '' @ parts ! 0))
      else None)"

definition check_condition :: "string list \<Rightarrow> wf_step \<Rightarrow> go_error option" where
  "check_condition ids s =
     (if st_condition s \<noteq> [] \<and> condition_source (st_condition s) \<notin> set ids
      then Some (Err (''step '' @ st_id s @ '' condition references unknown step '' @
             condition_source (st_condition s)))
      else None)"

definition check_references :: "string list \<Rightarrow> wf_step \<Rightarrow> go_error option" where
  "check_references ids s =
     (case first_error (check_dependency ids s) (st_depends_on s) of
        Some e \<Rightarrow> Some e
      | None \<Rightarrow>
          (case first_error (check_binding ids s) (map snd (st_bindings s)) of
             Some e \<Rightarrow> Some e
           | None \<Rightarrow> check_condition ids s))"

text \<open>
  The search for cycles. \<open>visiting\<close> is the set of the code's \<^verbatim>\<open>visiting\<close> entries that are true, which
  is the recursion stack: an entry is set on entering \<^verbatim>\<open>visit\<close> and reset on leaving it, and an
  error leaves the whole search. \<open>visited\<close> collects the steps in the order they are left.
\<close>

function (sequential) visit_list ::
  "wf_step list \<Rightarrow> string list \<Rightarrow> string list \<Rightarrow> string list \<Rightarrow> string list res" where
  "visit_list steps [] visiting visited = Inr visited"
| "visit_list steps (sid # ids) visiting visited =
     (if sid \<in> set visiting then Inl (Err (''cyclic dependency at step '' @ sid))
      else if sid \<in> set visited then visit_list steps ids visiting visited
      else (case visit_list steps (deps_of steps sid) (sid # visiting) visited of
              Inl e \<Rightarrow> Inl e
            | Inr visited' \<Rightarrow> visit_list steps ids visiting (visited' @ [sid])))"
  by pat_completeness auto

lemma deps_of_unknown: "sid \<notin> st_id ` set steps \<Longrightarrow> deps_of steps sid = []"
proof -
  assume "sid \<notin> st_id ` set steps"
  then have "map_of (map (\<lambda>s. (st_id s, s)) (rev steps)) sid = None"
    by (auto simp: map_of_eq_None_iff)
  then show ?thesis by (simp add: deps_of_def by_id_def zero_step_def)
qed

termination visit_list
proof (relation "measures [\<lambda>(steps, ids, visiting, visited). card (st_id ` set steps - set visiting),
                           \<lambda>(steps, ids, visiting, visited). length ids]", goal_cases)
  case 1
  then show ?case by simp
next
  case (2 steps sid ids visiting visited)
  then show ?case by simp
next
  case (3 steps sid ids visiting visited)
  show ?case
  proof (cases "sid \<in> st_id ` set steps")
    case True
    then have "card (st_id ` set steps - set (sid # visiting)) < card (st_id ` set steps - set visiting)"
      using 3(1) by (intro psubset_card_mono) auto
    then show ?thesis by simp
  next
    case False
    then have "st_id ` set steps - insert sid (set visiting) = st_id ` set steps - set visiting" by auto
    with False show ?thesis by (simp add: deps_of_unknown)
  qed
next
  case (4 steps sid ids visiting visited)
  then show ?case by simp
qed

text \<open>
  \<^verbatim>\<open>transitivelyDependsOn\<close>. A hit ends the whole search and \<^verbatim>\<open>seen\<close> only grows, so the recursion is
  a loop over the dependencies that are still to be looked at.
\<close>

function (sequential) contains_step :: "wf_step list \<Rightarrow> string \<Rightarrow> string list \<Rightarrow> string list \<Rightarrow> bool" where
  "contains_step steps source [] seen = False"
| "contains_step steps source (dependency # rest) seen =
     (if dependency = source then True
      else if dependency \<in> set seen then contains_step steps source rest seen
      else contains_step steps source (deps_of steps dependency @ rest) (dependency # seen))"
  by pat_completeness auto

termination contains_step
proof (relation "measures [\<lambda>(steps, source, ids, seen). card (st_id ` set steps - set seen),
                           \<lambda>(steps, source, ids, seen). length ids]", goal_cases)
  case 1
  then show ?case by simp
next
  case (2 steps source dependency rest seen)
  then show ?case by simp
next
  case (3 steps source dependency rest seen)
  show ?case
  proof (cases "dependency \<in> st_id ` set steps")
    case True
    then have "card (st_id ` set steps - set (dependency # seen)) < card (st_id ` set steps - set seen)"
      using 3(2) by (intro psubset_card_mono) auto
    then show ?thesis by simp
  next
    case False
    then have "st_id ` set steps - insert dependency (set seen) = st_id ` set steps - set seen" by auto
    with False show ?thesis by (simp add: deps_of_unknown)
  qed
qed

definition transitively_depends_on :: "string \<Rightarrow> string \<Rightarrow> wf_step list \<Rightarrow> bool" where
  "transitively_depends_on step_id source steps =
     contains_step steps source (deps_of steps step_id) [step_id]"

definition check_binding_source :: "wf_step list \<Rightarrow> wf_step \<Rightarrow> string \<Rightarrow> go_error option" where
  "check_binding_source steps s binding =
     (let source = binding_source binding in
      if \<not> transitively_depends_on (st_id s) source steps
      then Some (Err (''step '' @ st_id s @ '' binding source '' @ source @ '' must be a dependency''))
      else None)"

definition check_sources :: "wf_step list \<Rightarrow> wf_step \<Rightarrow> go_error option" where
  "check_sources steps s =
     (case first_error (check_binding_source steps s) (map snd (st_bindings s)) of
        Some e \<Rightarrow> Some e
      | None \<Rightarrow>
          if st_condition s \<noteq> []
             \<and> \<not> transitively_depends_on (st_id s) (condition_source (st_condition s)) steps
          then Some (Err (''step '' @ st_id s @ '' condition source '' @
                 condition_source (st_condition s) @ '' must be a dependency''))
          else None)"

definition validate ::
  "json_parser \<Rightarrow> (string list \<Rightarrow> string list) \<Rightarrow> registry \<Rightarrow> wf_definition \<Rightarrow> go_error option" where
  "validate jp iter r d =
     (let steps = wd_steps d; ids = map st_id steps in
      if wd_name d = [] \<or> wd_version d = []
      then Some (Err ''workflow name and version are required'')
      else (case check_steps jp r steps [] of
              Some e \<Rightarrow> Some e
            | None \<Rightarrow>
          (case first_error (check_references ids) steps of
              Some e \<Rightarrow> Some e
            | None \<Rightarrow>
          (case visit_list steps (iter ids) [] [] of
              Inl e \<Rightarrow> Some e
            | Inr _ \<Rightarrow> first_error (check_sources steps) steps))))"

subsection \<open>The execution order\<close>

text \<open>
  \<^verbatim>\<open>topological\<close>. A step is marked as seen when it is appended, so \<^verbatim>\<open>seen\<close> is the set of the steps
  of \<open>out\<close>. On a cyclic definition the recursion of \<^verbatim>\<open>add\<close> does not end; \<open>fuel\<close> bounds its depth
  and \<open>None\<close> is the search that ran out of it.
\<close>

fun add_list :: "nat \<Rightarrow> wf_step list \<Rightarrow> string list \<Rightarrow> (string \<times> wf_step) list \<Rightarrow> (string \<times> wf_step) list option" where
  "add_list fuel steps [] out = Some out"
| "add_list 0 steps (sid # ids) out = None"
| "add_list (Suc fuel) steps (sid # ids) out =
     (if sid \<in> set (map fst out) then add_list (Suc fuel) steps ids out
      else (case add_list fuel steps (sort (deps_of steps sid)) out of
              None \<Rightarrow> None
            | Some out' \<Rightarrow> add_list (Suc fuel) steps ids (out' @ [(sid, by_id steps sid)])))"

definition topological :: "nat \<Rightarrow> wf_definition \<Rightarrow> wf_step list option" where
  "topological fuel d =
     map_option (map snd)
       (add_list fuel (wd_steps d) (unique_sorted (map st_id (wd_steps d))) [])"

subsection \<open>The dependency relation\<close>

definition dep_rel :: "wf_step list \<Rightarrow> (string \<times> string) set" where
  "dep_rel steps = {(a, b). b \<in> set (deps_of steps a)}"

lemma dep_rel_iff [simp]: "(a, b) \<in> dep_rel steps \<longleftrightarrow> b \<in> set (deps_of steps a)"
  by (simp add: dep_rel_def)

definition acyclic_steps :: "wf_step list \<Rightarrow> bool" where
  "acyclic_steps steps \<longleftrightarrow> acyclic (dep_rel steps)"

lemma by_id_step: "distinct (map st_id steps) \<Longrightarrow> s \<in> set steps \<Longrightarrow> by_id steps (st_id s) = s"
proof -
  assume d: "distinct (map st_id steps)" and s: "s \<in> set steps"
  have "map_of (map (\<lambda>s. (st_id s, s)) (rev steps)) (st_id s) = Some s"
    using d s by (intro map_of_is_SomeI) (auto simp: o_def rev_map [symmetric])
  then show ?thesis by (simp add: by_id_def)
qed

lemma deps_of_step: "distinct (map st_id steps) \<Longrightarrow> s \<in> set steps \<Longrightarrow> deps_of steps (st_id s) = st_depends_on s"
  by (simp add: deps_of_def by_id_step)

text \<open>A list of steps in which every step comes after all its dependencies.\<close>

definition ordered :: "wf_step list \<Rightarrow> string list \<Rightarrow> bool" where
  "ordered steps v \<longleftrightarrow> (\<forall>i < length v. set (deps_of steps (v ! i)) \<subseteq> set (take i v))"

lemma ordered_Nil [simp]: "ordered steps []"
  by (simp add: ordered_def)

lemma ordered_snoc [simp]: "ordered steps (v @ [x]) \<longleftrightarrow> ordered steps v \<and> set (deps_of steps x) \<subseteq> set v"
  by (auto simp: ordered_def nth_append less_Suc_eq)

lemma ordered_trancl:
  assumes "ordered steps v" and "(a, b) \<in> (dep_rel steps)\<^sup>+" and "i < length v" and "a = v ! i"
  shows "\<exists>j < i. b = v ! j"
  using assms(2,3,4)
proof (induction arbitrary: i rule: trancl_induct)
  case (base b)
  then have "b \<in> set (take i v)" using assms(1) by (auto simp: ordered_def)
  then show ?case by (auto simp: in_set_conv_nth)
next
  case (step b c)
  then obtain j where j: "j < i" "b = v ! j" by blast
  moreover have "j < length v" using j step.prems by simp
  ultimately have "c \<in> set (take j v)"
    using step.hyps(2) assms(1) j(2) unfolding ordered_def dep_rel_iff by blast
  then obtain k where "k < j" "c = v ! k" by (auto simp: in_set_conv_nth)
  then have "k < i \<and> c = v ! k" using j(1) by simp
  then show ?case by blast
qed

lemma ordered_no_cycle:
  "ordered steps v \<Longrightarrow> distinct v \<Longrightarrow> x \<in> set v \<Longrightarrow> (x, x) \<notin> (dep_rel steps)\<^sup>+"
proof
  assume v: "ordered steps v" "distinct v" and x: "x \<in> set v" and cycle: "(x, x) \<in> (dep_rel steps)\<^sup>+"
  obtain i where i: "i < length v" "x = v ! i" using x by (auto simp: in_set_conv_nth)
  then obtain j where "j < i" "x = v ! j" using ordered_trancl [OF v(1) cycle] by blast
  then show False using i v(2) by (simp add: nth_eq_iff_index_eq)
qed

subsection \<open>The search for cycles\<close>

lemma visit_list_Inr:
  "visit_list steps ids visiting visited = Inr v \<Longrightarrow> ordered steps visited \<Longrightarrow> distinct visited \<Longrightarrow>
     set visited \<inter> set visiting = {} \<Longrightarrow>
     ordered steps v \<and> distinct v \<and> set ids \<subseteq> set v \<and> set visited \<subseteq> set v \<and> set v \<inter> set visiting = {}"
proof (induction steps ids visiting visited arbitrary: v rule: visit_list.induct)
  case (1 steps visiting visited)
  then show ?case by simp
next
  case (2 steps sid ids visiting visited)
  have nv: "sid \<notin> set visiting" using "2.prems"(1) by (auto split: if_splits)
  show ?case
  proof (cases "sid \<in> set visited")
    case True
    then show ?thesis using 2(1) [OF nv True] "2.prems" nv by auto
  next
    case False
    then obtain w where w: "visit_list steps (deps_of steps sid) (sid # visiting) visited = Inr w"
      and rest: "visit_list steps ids visiting (w @ [sid]) = Inr v"
      using "2.prems"(1) nv by (auto split: sum.splits)
    have inner: "ordered steps w" "distinct w" "set (deps_of steps sid) \<subseteq> set w" "set visited \<subseteq> set w"
      "sid \<notin> set w" "set w \<inter> set visiting = {}"
      using 2(2) [OF nv False w] "2.prems"(2,3,4) False by auto
    have "ordered steps v \<and> distinct v \<and> set ids \<subseteq> set v \<and> set (w @ [sid]) \<subseteq> set v \<and> set v \<inter> set visiting = {}"
      using inner nv by (intro 2(3) [OF nv False w rest]) auto
    then show ?thesis using inner by auto
  qed
qed

lemma visit_list_Inl:
  "visit_list steps ids visiting visited = Inl e \<Longrightarrow>
     \<forall>x \<in> set ids. \<forall>y \<in> set visiting. (y, x) \<in> (dep_rel steps)\<^sup>+ \<Longrightarrow> \<exists>x. (x, x) \<in> (dep_rel steps)\<^sup>+"
proof (induction steps ids visiting visited rule: visit_list.induct)
  case (1 steps visiting visited)
  then show ?case by simp
next
  case (2 steps sid ids visiting visited)
  show ?case
  proof (cases "sid \<in> set visiting")
    case True
    then show ?thesis using "2.prems"(2) by auto
  next
    case nv: False
    show ?thesis
    proof (cases "sid \<in> set visited")
      case True
      then show ?thesis using 2(1) [OF nv True] "2.prems" nv by auto
    next
      case False
      show ?thesis
      proof (cases "visit_list steps (deps_of steps sid) (sid # visiting) visited")
        case (Inl e')
        have "\<forall>x \<in> set (deps_of steps sid). \<forall>y \<in> set (sid # visiting). (y, x) \<in> (dep_rel steps)\<^sup>+"
        proof (intro ballI)
          fix x y assume x: "x \<in> set (deps_of steps sid)" and y: "y \<in> set (sid # visiting)"
          have edge: "(sid, x) \<in> dep_rel steps" using x by simp
          show "(y, x) \<in> (dep_rel steps)\<^sup>+"
          proof (cases "y = sid")
            case True
            then show ?thesis using edge by (blast intro: r_into_trancl)
          next
            case False
            then have "(y, sid) \<in> (dep_rel steps)\<^sup>+" using "2.prems"(2) y by simp
            then show ?thesis using edge by (rule trancl_into_trancl)
          qed
        qed
        moreover have "e' = e" using "2.prems"(1) Inl nv False by simp
        ultimately show ?thesis using 2(2) [OF nv False] Inl by simp
      next
        case (Inr w)
        then show ?thesis using 2(3) [OF nv False Inr] "2.prems" nv False by simp
      qed
    qed
  qed
qed

text \<open>The search accepts exactly the acyclic definitions, whatever the iteration order.\<close>

lemma visit_list_acyclic:
  assumes "st_id ` set steps \<subseteq> set ids"
  shows "(\<exists>v. visit_list steps ids [] [] = Inr v) \<longleftrightarrow> acyclic_steps steps"
proof
  assume "\<exists>v. visit_list steps ids [] [] = Inr v"
  then obtain v where v: "ordered steps v" "distinct v" "set ids \<subseteq> set v"
    using visit_list_Inr by fastforce
  have "(x, x) \<notin> (dep_rel steps)\<^sup>+" for x
  proof (cases "x \<in> set v")
    case True
    with v show ?thesis by (blast dest: ordered_no_cycle)
  next
    case False
    then have "x \<notin> st_id ` set steps" using assms v(3) by blast
    then have "deps_of steps x = []" by (rule deps_of_unknown)
    then show ?thesis by (metis converse_tranclE dep_rel_iff empty_iff empty_set)
  qed
  then show "acyclic_steps steps" by (simp add: acyclic_steps_def acyclic_def)
next
  assume "acyclic_steps steps"
  then show "\<exists>v. visit_list steps ids [] [] = Inr v"
    using visit_list_Inl [of steps ids "[]" "[]"]
    by (cases "visit_list steps ids [] []") (auto simp: acyclic_steps_def acyclic_def)
qed

subsection \<open>Transitive dependencies\<close>

lemma contains_step_sound:
  "contains_step steps source ids seen \<Longrightarrow> \<exists>d \<in> set ids. (d, source) \<in> (dep_rel steps)\<^sup>*"
proof (induction steps source ids seen rule: contains_step.induct)
  case (2 steps source d rest seen)
  show ?case
  proof (cases "d = source")
    case True
    then show ?thesis by auto
  next
    case ne: False
    show ?thesis
    proof (cases "d \<in> set seen")
      case True
      then show ?thesis using 2(1) [OF ne True] "2.prems" ne by auto
    next
      case False
      then obtain x where x: "x \<in> set (deps_of steps d) \<union> set rest" and path: "(x, source) \<in> (dep_rel steps)\<^sup>*"
        using 2(2) [OF ne False] "2.prems" ne by auto
      show ?thesis
      proof (cases "x \<in> set rest")
        case True
        then show ?thesis using path by auto
      next
        case False
        then have "(d, x) \<in> dep_rel steps" using x by simp
        then have "(d, source) \<in> (dep_rel steps)\<^sup>*" using path by (rule converse_rtrancl_into_rtrancl)
        then show ?thesis by simp
      qed
    qed
  qed
qed simp

lemma contains_step_complete:
  "\<not> contains_step steps source ids seen \<Longrightarrow>
     \<forall>x \<in> set seen. \<forall>y \<in> set (deps_of steps x). y \<in> set ids \<or> (y \<in> set seen \<and> y \<noteq> source) \<Longrightarrow>
     \<exists>C. set seen \<subseteq> C \<and> (\<forall>x \<in> C. \<forall>y \<in> set (deps_of steps x). y \<in> C \<and> y \<noteq> source)"
proof (induction steps source ids seen rule: contains_step.induct)
  case (1 steps source seen)
  then show ?case by (intro exI [of _ "set seen"]) auto
next
  case (2 steps source d rest seen)
  have ne: "d \<noteq> source" using "2.prems"(1) by auto
  show ?case
  proof (cases "d \<in> set seen")
    case True
    have "\<not> contains_step steps source rest seen" using "2.prems"(1) ne True by simp
    moreover have "\<forall>x \<in> set seen. \<forall>y \<in> set (deps_of steps x). y \<in> set rest \<or> (y \<in> set seen \<and> y \<noteq> source)"
      using "2.prems"(2) True ne by (metis set_ConsD)
    ultimately show ?thesis by (rule 2(1) [OF ne True])
  next
    case False
    have "\<exists>C. set (d # seen) \<subseteq> C \<and> (\<forall>x \<in> C. \<forall>y \<in> set (deps_of steps x). y \<in> C \<and> y \<noteq> source)"
      using "2.prems" ne False by (intro 2(2) [OF ne False]) auto
    then show ?thesis by auto
  qed
qed

lemma transitively_depends_on_iff:
  "transitively_depends_on a b steps \<longleftrightarrow> (a, b) \<in> (dep_rel steps)\<^sup>+"
proof
  assume "transitively_depends_on a b steps"
  then obtain d where d: "d \<in> set (deps_of steps a)" and path: "(d, b) \<in> (dep_rel steps)\<^sup>*"
    unfolding transitively_depends_on_def by (blast dest: contains_step_sound)
  have "(a, d) \<in> dep_rel steps" using d by simp
  then show "(a, b) \<in> (dep_rel steps)\<^sup>+" using path by (rule rtrancl_into_trancl2)
next
  assume path: "(a, b) \<in> (dep_rel steps)\<^sup>+"
  show "transitively_depends_on a b steps"
  proof (rule ccontr)
    assume "\<not> transitively_depends_on a b steps"
    then obtain C where a: "a \<in> C" and C: "\<forall>x \<in> C. \<forall>y \<in> set (deps_of steps x). y \<in> C \<and> y \<noteq> b"
      using contains_step_complete [of steps b "deps_of steps a" "[a]"]
      by (auto simp: transitively_depends_on_def)
    from path have "b \<in> C \<and> b \<noteq> b"
      using a C by (induction rule: trancl_induct) auto
    then show False by simp
  qed
qed

subsection \<open>What validation accepts\<close>

definition valid_binding :: "wf_step list \<Rightarrow> string \<Rightarrow> string \<Rightarrow> bool" where
  "valid_binding steps sid b \<longleftrightarrow>
     length (split_on (CHR ''.'') b) \<ge> 3 \<and> split_on (CHR ''.'') b ! 1 = ''output'' \<and>
     binding_source b \<in> st_id ` set steps \<and> (sid, binding_source b) \<in> (dep_rel steps)\<^sup>+"

definition valid_condition :: "wf_step list \<Rightarrow> string \<Rightarrow> string \<Rightarrow> bool" where
  "valid_condition steps sid c \<longleftrightarrow>
     c = [] \<or> (supported_condition c \<and> condition_source c \<in> st_id ` set steps \<and>
               (sid, condition_source c) \<in> (dep_rel steps)\<^sup>+)"

definition valid_step :: "json_parser \<Rightarrow> registry \<Rightarrow> wf_step list \<Rightarrow> wf_step \<Rightarrow> bool" where
  "valid_step jp r steps s \<longleftrightarrow>
     st_id s \<noteq> [] \<and> registry_get r (st_capability s) \<noteq> None \<and>
     st_input s \<noteq> [] \<and> jp (st_input s) \<noteq> None \<and>
     validate_definition_input r (st_capability s) (st_input s) = None \<and>
     set (st_depends_on s) \<subseteq> st_id ` set steps \<and>
     list_all (\<lambda>(f, b). valid_binding steps (st_id s) b) (st_bindings s) \<and>
     valid_condition steps (st_id s) (st_condition s)"

definition valid_definition :: "json_parser \<Rightarrow> registry \<Rightarrow> wf_definition \<Rightarrow> bool" where
  "valid_definition jp r d \<longleftrightarrow>
     wd_name d \<noteq> [] \<and> wd_version d \<noteq> [] \<and> distinct (map st_id (wd_steps d)) \<and>
     list_all (valid_step jp r (wd_steps d)) (wd_steps d) \<and> acyclic_steps (wd_steps d)"

lemma first_error_None [simp]: "first_error f xs = None \<longleftrightarrow> list_all (\<lambda>x. f x = None) xs"
  by (induction xs) (auto split: option.splits)

lemma case_error_None [simp]: "(case x of None \<Rightarrow> y | Some e \<Rightarrow> Some e) = None \<longleftrightarrow> x = None \<and> y = None"
  by (cases x) simp_all

lemma if_error_None [simp]: "(if c then Some e else x) = None \<longleftrightarrow> \<not> c \<and> x = None"
  by simp

lemma check_steps_None:
  "check_steps jp r steps seen = None \<longleftrightarrow>
     distinct (map st_id steps) \<and> set (map st_id steps) \<inter> set seen = {} \<and>
     list_all (\<lambda>s. st_id s \<noteq> [] \<and> registry_get r (st_capability s) \<noteq> None \<and>
        st_input s \<noteq> [] \<and> jp (st_input s) \<noteq> None \<and>
        validate_definition_input r (st_capability s) (st_input s) = None \<and>
        supported_condition (st_condition s)) steps"
proof (induction steps arbitrary: seen)
  case (Cons s steps)
  show ?case
    by (simp add: Cons.IH split: option.split) blast
qed simp

lemma nth_0_hd: "split_on c b ! 0 = hd (split_on c b)"
  by (simp add: hd_conv_nth)

lemma supported_condition_Nil [simp]: "supported_condition []"
  by (simp add: supported_condition_def)

lemma check_references_None:
  "check_references (map st_id steps) s = None \<longleftrightarrow>
     set (st_depends_on s) \<subseteq> st_id ` set steps \<and>
     list_all (\<lambda>b. length (split_on (CHR ''.'') b) \<ge> 3 \<and> split_on (CHR ''.'') b ! 1 = ''output'' \<and>
        binding_source b \<in> st_id ` set steps) (map snd (st_bindings s)) \<and>
     (st_condition s = [] \<or> condition_source (st_condition s) \<in> st_id ` set steps)"
proof -
  have dep: "list_all (\<lambda>x. check_dependency (map st_id steps) s x = None) (st_depends_on s) \<longleftrightarrow>
      set (st_depends_on s) \<subseteq> st_id ` set steps"
    by (auto simp: check_dependency_def list_all_iff)
  have bind: "check_binding (map st_id steps) s b = None \<longleftrightarrow>
      length (split_on (CHR ''.'') b) \<ge> 3 \<and> split_on (CHR ''.'') b ! 1 = ''output'' \<and>
      binding_source b \<in> st_id ` set steps" for b
    by (auto simp: check_binding_def Let_def binding_source_def nth_0_hd)
  have cond: "check_condition (map st_id steps) s = None \<longleftrightarrow>
      st_condition s = [] \<or> condition_source (st_condition s) \<in> st_id ` set steps"
    by (auto simp: check_condition_def)
  show ?thesis
    by (simp only: check_references_def case_error_None first_error_None dep bind cond)
qed

lemma check_sources_None:
  "check_sources steps s = None \<longleftrightarrow>
     list_all (\<lambda>b. (st_id s, binding_source b) \<in> (dep_rel steps)\<^sup>+) (map snd (st_bindings s)) \<and>
     (st_condition s = [] \<or> (st_id s, condition_source (st_condition s)) \<in> (dep_rel steps)\<^sup>+)"
proof -
  have bind: "check_binding_source steps s b = None \<longleftrightarrow> (st_id s, binding_source b) \<in> (dep_rel steps)\<^sup>+" for b
    by (simp add: check_binding_source_def Let_def transitively_depends_on_iff)
  show ?thesis
    by (simp only: check_sources_def case_error_None first_error_None bind)
      (simp add: transitively_depends_on_iff)
qed

definition valid_alone :: "json_parser \<Rightarrow> registry \<Rightarrow> wf_step \<Rightarrow> bool" where
  "valid_alone jp r s \<longleftrightarrow>
     st_id s \<noteq> [] \<and> registry_get r (st_capability s) \<noteq> None \<and>
     st_input s \<noteq> [] \<and> jp (st_input s) \<noteq> None \<and>
     validate_definition_input r (st_capability s) (st_input s) = None \<and>
     supported_condition (st_condition s)"

lemma valid_step_parts:
  "valid_step jp r steps s \<longleftrightarrow>
     valid_alone jp r s \<and> check_references (map st_id steps) s = None \<and> check_sources steps s = None"
proof -
  have bindings: "list_all (\<lambda>(f, b). valid_binding steps (st_id s) b) (st_bindings s) \<longleftrightarrow>
      list_all (\<lambda>b. length (split_on (CHR ''.'') b) \<ge> 3 \<and> split_on (CHR ''.'') b ! 1 = ''output'' \<and>
        binding_source b \<in> st_id ` set steps) (map snd (st_bindings s)) \<and>
      list_all (\<lambda>b. (st_id s, binding_source b) \<in> (dep_rel steps)\<^sup>+) (map snd (st_bindings s))"
    by (induction "st_bindings s" rule: list.induct)
      (auto simp: list.pred_map valid_binding_def list_all_iff split_beta)
  show ?thesis
    unfolding check_references_None check_sources_None valid_step_def valid_alone_def bindings valid_condition_def
    by (cases "st_condition s = []") (simp_all only: supported_condition_Nil, blast+)
qed

lemma list_all_conj: "list_all (\<lambda>x. P x \<and> Q x) xs \<longleftrightarrow> list_all P xs \<and> list_all Q xs"
  by (induction xs) auto

lemma validate_None_iff:
  assumes "set (iter (map st_id (wd_steps d))) = set (map st_id (wd_steps d))"
  shows "validate jp iter r d = None \<longleftrightarrow> valid_definition jp r d"
proof -
  let ?steps = "wd_steps d"
  have cyc: "(case visit_list ?steps (iter (map st_id ?steps)) [] [] of
        Inl e \<Rightarrow> Some e | Inr v \<Rightarrow> first_error (check_sources ?steps) ?steps) = None \<longleftrightarrow>
      acyclic_steps ?steps \<and> list_all (\<lambda>s. check_sources ?steps s = None) ?steps"
    using visit_list_acyclic [of ?steps "iter (map st_id ?steps)"] assms
    by (auto split: sum.splits)
  have "validate jp iter r d = None \<longleftrightarrow>
      wd_name d \<noteq> [] \<and> wd_version d \<noteq> [] \<and> check_steps jp r ?steps [] = None \<and>
      list_all (\<lambda>s. check_references (map st_id ?steps) s = None) ?steps \<and>
      acyclic_steps ?steps \<and> list_all (\<lambda>s. check_sources ?steps s = None) ?steps"
    unfolding validate_def Let_def by (simp only: case_error_None if_error_None first_error_None cyc) simp
  also have "\<dots> \<longleftrightarrow> wd_name d \<noteq> [] \<and> wd_version d \<noteq> [] \<and> distinct (map st_id ?steps) \<and>
      list_all (\<lambda>s. valid_alone jp r s \<and> check_references (map st_id ?steps) s = None \<and>
        check_sources ?steps s = None) ?steps \<and> acyclic_steps ?steps"
    unfolding list_all_conj check_steps_None valid_alone_def [abs_def] by simp blast
  finally show ?thesis
    unfolding valid_definition_def valid_step_parts .
qed

text \<open>
  C27: Validate accepts a definition exactly when it is named and versioned, its step ids are
  distinct and not empty, every step uses a registered capability with an accepted input, every
  dependency, binding and condition refers to a step, every binding and condition reads from a
  transitive dependency, and the dependencies have no cycle; the order in which Go ranges over the
  step map does not matter.
\<close>

theorem validate_accepts_exactly_valid_definitions:
  assumes "mset (iter (map st_id (wd_steps d))) = mset (map st_id (wd_steps d))"
  shows "validate jp iter r d = None \<longleftrightarrow> valid_definition jp r d"
  using assms by (intro validate_None_iff) (metis set_mset_mset)

subsection \<open>The execution order\<close>

lemma add_list_Suc_Some:
  "add_list (Suc fuel) steps (sid # ids) out = Some w \<longleftrightarrow>
     (if sid \<in> set (map fst out) then add_list (Suc fuel) steps ids out = Some w
      else (\<exists>m. add_list fuel steps (sort (deps_of steps sid)) out = Some m \<and>
                add_list (Suc fuel) steps ids (m @ [(sid, by_id steps sid)]) = Some w))"
  by (auto split: option.splits)

declare add_list.simps(3) [simp del]

lemma add_list_mono:
  "add_list fuel steps ids out = Some w \<Longrightarrow> fuel \<le> fuel' \<Longrightarrow> add_list fuel' steps ids out = Some w"
proof (induction fuel steps ids out arbitrary: w fuel' rule: add_list.induct)
  case (3 fuel steps sid ids out)
  obtain g where g: "fuel' = Suc g" "fuel \<le> g" using "3.prems"(2) by (cases fuel') auto
  show ?case
  proof (cases "sid \<in> set (map fst out)")
    case True
    then have "add_list (Suc fuel) steps ids out = Some w" using "3.prems"(1) by (simp add: add_list_Suc_Some)
    from 3(1) [OF True this "3.prems"(2)] show ?thesis using True by (simp add: g(1) add_list_Suc_Some)
  next
    case False
    then obtain m where m: "add_list fuel steps (sort (deps_of steps sid)) out = Some m"
      and w: "add_list (Suc fuel) steps ids (m @ [(sid, by_id steps sid)]) = Some w"
      using "3.prems"(1) by (auto simp: add_list_Suc_Some)
    have "add_list g steps (sort (deps_of steps sid)) out = Some m"
      using 3(2) [OF False m g(2)] .
    moreover have "add_list fuel' steps ids (m @ [(sid, by_id steps sid)]) = Some w"
      using 3(3) [OF False m w "3.prems"(2)] .
    ultimately show ?thesis using False by (simp add: g(1) add_list_Suc_Some)
  qed
qed simp_all

text \<open>The recursion stack is a path of distinct known steps, which bounds the fuel.\<close>

lemma add_list_enough:
  assumes "acyclic_steps steps" and known: "\<And>x. set (deps_of steps x) \<subseteq> st_id ` set steps"
  shows "set ids \<subseteq> st_id ` set steps \<Longrightarrow> stack \<subseteq> st_id ` set steps \<Longrightarrow>
    \<forall>x \<in> set ids. \<forall>y \<in> stack. (y, x) \<in> (dep_rel steps)\<^sup>+ \<Longrightarrow>
    card (st_id ` set steps - stack) < fuel \<Longrightarrow> \<exists>w. add_list fuel steps ids out = Some w"
proof (induction fuel arbitrary: ids out stack)
  case (Suc fuel)
  note outer = Suc.IH
  from Suc.prems(1,3) show ?case
  proof (induction ids arbitrary: out)
    case (Cons sid ids)
    show ?case
    proof (cases "sid \<in> set (map fst out)")
      case True
      then show ?thesis using Cons.IH [of out] Cons.prems by (simp add: add_list_Suc_Some)
    next
      case False
      have ns: "sid \<notin> stack"
        using Cons.prems(2) assms(1) by (auto simp: acyclic_steps_def acyclic_def)
      have sid: "sid \<in> st_id ` set steps" using Cons.prems(1) by simp
      have "st_id ` set steps - insert sid stack = (st_id ` set steps - stack) - {sid}" by blast
      then have "card (st_id ` set steps - insert sid stack) < card (st_id ` set steps - stack)"
        using ns sid by (metis DiffI List.finite_set card_Diff1_less finite_Diff finite_imageI)
      then have small: "card (st_id ` set steps - insert sid stack) < fuel" using Suc.prems(4) by simp
      have "\<forall>x \<in> set (sort (deps_of steps sid)). \<forall>y \<in> insert sid stack. (y, x) \<in> (dep_rel steps)\<^sup>+"
        using Cons.prems(2) by (auto intro: r_into_trancl trancl_into_trancl simp del: dep_rel_iff)
          (auto simp: dep_rel_def intro: r_into_trancl trancl_into_trancl)
      then obtain m where "add_list fuel steps (sort (deps_of steps sid)) out = Some m"
        using outer [of "sort (deps_of steps sid)" "insert sid stack" out] known [of sid] small sid Suc.prems(2)
        by auto
      then show ?thesis
        using Cons.IH [of "m @ [(sid, by_id steps sid)]"] Cons.prems False by (simp add: add_list_Suc_Some)
    qed
  qed simp
qed simp

lemma add_list_result:
  "add_list fuel steps ids out = Some w \<Longrightarrow> ordered steps (map fst out) \<Longrightarrow> distinct (map fst out) \<Longrightarrow>
    list_all (\<lambda>(i, s). s = by_id steps i) out \<Longrightarrow> acyclic_steps steps \<Longrightarrow>
    ordered steps (map fst w) \<and> distinct (map fst w) \<and> list_all (\<lambda>(i, s). s = by_id steps i) w \<and>
    set ids \<union> set (map fst out) \<subseteq> set (map fst w) \<and>
    set (map fst w) \<subseteq> set (map fst out) \<union> (dep_rel steps)\<^sup>* `` set ids"
proof (induction fuel steps ids out arbitrary: w rule: add_list.induct)
  case (3 fuel steps sid ids out)
  show ?case
  proof (cases "sid \<in> set (map fst out)")
    case True
    then show ?thesis using 3(1) [OF True] "3.prems" by (auto simp: add_list_Suc_Some)
  next
    case False
    then obtain m where m: "add_list fuel steps (sort (deps_of steps sid)) out = Some m"
      and w: "add_list (Suc fuel) steps ids (m @ [(sid, by_id steps sid)]) = Some w"
      using "3.prems"(1) by (auto simp: add_list_Suc_Some)
    have inner: "ordered steps (map fst m)" "distinct (map fst m)" "list_all (\<lambda>(i, s). s = by_id steps i) m"
      "set (deps_of steps sid) \<union> set (map fst out) \<subseteq> set (map fst m)"
      "set (map fst m) \<subseteq> set (map fst out) \<union> (dep_rel steps)\<^sup>* `` set (deps_of steps sid)"
      using 3(2) [OF False m "3.prems"(2-5)] by simp_all
    have reach: "(dep_rel steps)\<^sup>* `` set (deps_of steps sid) \<subseteq> {x. (sid, x) \<in> (dep_rel steps)\<^sup>+}"
      by (auto simp: dep_rel_def intro: rtrancl_into_trancl2)
    have "(sid, sid) \<notin> (dep_rel steps)\<^sup>+" using "3.prems"(5) unfolding acyclic_steps_def acyclic_def by blast
    then have fresh: "sid \<notin> set (map fst m)" using inner(5) reach False by blast
    have "ordered steps (map fst (m @ [(sid, by_id steps sid)]))" using inner(1,4) by simp
    moreover have "distinct (map fst (m @ [(sid, by_id steps sid)]))" using inner(2) fresh by simp
    moreover have "list_all (\<lambda>(i, s). s = by_id steps i) (m @ [(sid, by_id steps sid)])" using inner(3) by simp
    ultimately have last: "ordered steps (map fst w)" "distinct (map fst w)" "list_all (\<lambda>(i, s). s = by_id steps i) w"
      "set ids \<union> set (map fst (m @ [(sid, by_id steps sid)])) \<subseteq> set (map fst w)"
      "set (map fst w) \<subseteq> set (map fst (m @ [(sid, by_id steps sid)])) \<union> (dep_rel steps)\<^sup>* `` set ids"
      using 3(3) [OF False m w _ _ _ "3.prems"(5)] by simp_all
    have "set (map fst w) \<subseteq> set (map fst out) \<union> (dep_rel steps)\<^sup>* `` set (sid # ids)"
    proof -
      have "(dep_rel steps)\<^sup>* `` set (sid # ids) = (dep_rel steps)\<^sup>* `` {sid} \<union> (dep_rel steps)\<^sup>* `` set ids"
        by auto
      moreover have "{x. (sid, x) \<in> (dep_rel steps)\<^sup>+} \<subseteq> (dep_rel steps)\<^sup>* `` {sid}" and
        "sid \<in> (dep_rel steps)\<^sup>* `` {sid}"
        by (auto dest: trancl_into_rtrancl)
      moreover have "set (map fst (m @ [(sid, by_id steps sid)])) = insert sid (set (map fst m))" by auto
      ultimately show ?thesis
        using last(5) subset_trans [OF inner(5) Un_mono [OF subset_refl reach]]
        by (simp only: Un_subset_iff subset_iff Un_iff insert_iff) metis
    qed
    moreover have "set (map fst m) \<subseteq> set (map fst w)" and "sid \<in> set (map fst w)" and "set ids \<subseteq> set (map fst w)"
      using last(4) by simp_all
    moreover have "set (map fst out) \<subseteq> set (map fst m)" using inner(4) by simp
    ultimately have "set (sid # ids) \<union> set (map fst out) \<subseteq> set (map fst w)"
      and upper: "set (map fst w) \<subseteq> set (map fst out) \<union> (dep_rel steps)\<^sup>* `` set (sid # ids)"
      by (simp_all only: list.set Un_subset_iff insert_subset) (meson subset_trans)
    then show ?thesis using last(1-3) by blast
  qed
qed simp_all

lemma validated_deps_known: "valid_definition jp r d \<Longrightarrow> set (deps_of (wd_steps d) x) \<subseteq> st_id ` set (wd_steps d)"
proof (cases "x \<in> st_id ` set (wd_steps d)")
  case True
  assume v: "valid_definition jp r d"
  obtain s where s: "s \<in> set (wd_steps d)" "x = st_id s" using True by blast
  then have "deps_of (wd_steps d) x = st_depends_on s"
    using v by (simp add: valid_definition_def deps_of_step)
  then show ?thesis using v s by (simp add: valid_definition_def list_all_iff valid_step_def)
qed (simp add: deps_of_unknown)

lemma topological_Some:
  assumes v: "valid_definition jp r d" and fuel: "length (wd_steps d) < fuel"
  shows "\<exists>out. topological fuel d = Some out \<and> set out = set (wd_steps d) \<and>
    distinct (map st_id out) \<and> ordered (wd_steps d) (map st_id out)"
proof -
  let ?steps = "wd_steps d" and ?ids = "unique_sorted (map st_id (wd_steps d))"
  have ac: "acyclic_steps ?steps" and dist: "distinct (map st_id ?steps)"
    using v by (simp_all add: valid_definition_def)
  have "card (st_id ` set ?steps - {}) < fuel"
    using fuel card_length [of "map st_id ?steps"] by simp
  then obtain w where w: "add_list fuel ?steps ?ids [] = Some w"
    using add_list_enough [OF ac validated_deps_known [OF v], of ?ids "{}" fuel "[]"] by auto
  have res: "ordered ?steps (map fst w)" "distinct (map fst w)" "list_all (\<lambda>(i, s). s = by_id ?steps i) w"
    "st_id ` set ?steps \<subseteq> set (map fst w)" "set (map fst w) \<subseteq> (dep_rel ?steps)\<^sup>* `` (st_id ` set ?steps)"
    using add_list_result [OF w _ _ _ ac] by simp_all
  have "y \<in> st_id ` set ?steps" if "(x, y) \<in> (dep_rel ?steps)\<^sup>*" "x \<in> st_id ` set ?steps" for x y
    using that
  proof (induction rule: rtrancl_induct)
    case (step y z)
    have "z \<in> set (deps_of ?steps y)" using step.hyps(2) by simp
    then show ?case using validated_deps_known [OF v, of y] by blast
  qed simp
  then have "(dep_rel ?steps)\<^sup>* `` (st_id ` set ?steps) \<subseteq> st_id ` set ?steps"
    by (meson ImageE subsetI)
  then have keys: "set (map fst w) = st_id ` set ?steps"
    using res(4,5) by (meson subset_antisym subset_trans)
  have step: "s \<in> set ?steps \<and> st_id s = i" if mem: "(i, s) \<in> set w" for i s
  proof -
    have "i \<in> st_id ` set ?steps" using mem keys by force
    then obtain t where t: "t \<in> set ?steps" "i = st_id t" by blast
    moreover have "s = by_id ?steps i" using mem res(3) by (auto simp: list_all_iff)
    ultimately show ?thesis using by_id_step [OF dist] by simp
  qed
  have ids: "map st_id (map snd w) = map fst w" using step by auto
  have "set (map snd w) = set ?steps"
  proof
    show "set (map snd w) \<subseteq> set ?steps" using step by auto
    show "set ?steps \<subseteq> set (map snd w)"
    proof
      fix s assume s: "s \<in> set ?steps"
      then have "st_id s \<in> set (map fst w)" unfolding keys by (rule imageI)
      then obtain t where t: "(st_id s, t) \<in> set w" by auto
      from t have "t = s" using step [OF t] s dist by (metis by_id_step)
      with t show "s \<in> set (map snd w)" by force
    qed
  qed
  moreover have "topological fuel d = Some (map snd w)" by (simp add: topological_def w)
  moreover have "distinct (map st_id (map snd w))" and "ordered ?steps (map st_id (map snd w))"
    unfolding ids by (fact res)+
  ultimately show ?thesis by blast
qed

text \<open>
  For a definition that Validate accepts the recursion of topological ends, within a depth of
  the number of steps, and returns every step exactly once with each step after all its
  dependencies.
\<close>

theorem topological_is_an_execution_order:
  assumes "validate jp iter r d = None" and "mset (iter (map st_id (wd_steps d))) = mset (map st_id (wd_steps d))"
    and "length (wd_steps d) < fuel"
  shows "\<exists>out. topological fuel d = Some out \<and> mset out = mset (wd_steps d) \<and>
    (\<forall>i < length out. set (st_depends_on (out ! i)) \<subseteq> set (map st_id (take i out)))"
proof -
  have v: "valid_definition jp r d"
    using assms(1,2) by (metis set_mset_mset validate_None_iff)
  then have dist: "distinct (map st_id (wd_steps d))" by (simp add: valid_definition_def)
  obtain out where out: "topological fuel d = Some out" "set out = set (wd_steps d)"
    "distinct (map st_id out)" "ordered (wd_steps d) (map st_id out)"
    using topological_Some [OF v assms(3)] by blast
  have "mset out = mset (wd_steps d)"
    using set_eq_iff_mset_eq_distinct [of out "wd_steps d"] out(2,3) dist by (simp add: distinct_map)
  moreover have "set (st_depends_on (out ! i)) \<subseteq> set (map st_id (take i out))" if "i < length out" for i
  proof -
    have "out ! i \<in> set (wd_steps d)" using nth_mem [OF that] out(2) by simp
    then have "deps_of (wd_steps d) (st_id (out ! i)) = st_depends_on (out ! i)"
      by (rule deps_of_step [OF dist])
    moreover have "set (deps_of (wd_steps d) (map st_id out ! i)) \<subseteq> set (take i (map st_id out))"
      using out(4) that by (simp add: ordered_def)
    ultimately show ?thesis using that by (simp add: take_map)
  qed
  ultimately show ?thesis using out(1) by blast
qed

text \<open>A definition of two steps, the second bound to the output of the first.\<close>

definition sample_step :: "string \<Rightarrow> string \<Rightarrow> wf_step" where
  "sample_step sid cap = zero_step\<lparr>st_id := sid, st_capability := cap, st_input := ''{}''\<rparr>"

definition sample_steps :: "wf_step list" where
  "sample_steps =
     [(sample_step ''probe'' ''http.probe'')\<lparr>st_depends_on := [''enumerate''],
        st_bindings := [(''targets'', ''enumerate.output.domains'')],
        st_condition := ''nonempty:enumerate.output.domains''\<rparr>,
      sample_step ''enumerate'' ''subdomain.enumerate'']"

definition sample_definition :: wf_definition where
  "sample_definition =
     \<lparr>wd_id = ''d'', wd_name = ''recon'', wd_version = ''1'', wd_description = [], wd_steps = sample_steps,
      wd_default_policy_requirements = ''{}'', wd_created_at = 0\<rparr>"

definition sample_registry :: registry where
  "sample_registry =
     [(''http.probe'', sample_capability ''http.probe'' False),
      (''subdomain.enumerate'', sample_capability ''subdomain.enumerate'' False)]"

definition sample_json :: json_parser where
  "sample_json s = (if s = ''{}'' then Some (JObj []) else None)"

lemma sample_definition_accepted: "validate sample_json rev sample_registry sample_definition = None"
  by code_simp

lemma validate_accepts_exactly_valid_definitions_witness:
  "valid_definition sample_json sample_registry sample_definition"
  using validate_accepts_exactly_valid_definitions [of rev sample_definition sample_json sample_registry]
    sample_definition_accepted
  by simp

lemma topological_is_an_execution_order_witness:
  "\<exists>out. topological 3 sample_definition = Some out \<and> mset out = mset sample_steps \<and>
     (\<forall>i < length out. set (st_depends_on (out ! i)) \<subseteq> set (map st_id (take i out)))"
  using topological_is_an_execution_order [OF sample_definition_accepted, of 3]
  by (simp add: sample_definition_def sample_steps_def)

subsection \<open>The execution order does not depend on how the definition is written\<close>

lemma by_id_same_steps:
  assumes "mset steps = mset steps'" and "distinct (map st_id steps)"
  shows "by_id steps = by_id steps'"
proof
  fix sid
  have dist': "distinct (map st_id steps')" and same: "set steps = set steps'"
    using assms by (metis mset_map mset_eq_imp_distinct_iff, metis set_mset_mset)
  show "by_id steps sid = by_id steps' sid"
  proof (cases "sid \<in> st_id ` set steps")
    case True
    then obtain s where "s \<in> set steps" "sid = st_id s" by blast
    then show ?thesis using by_id_step [OF assms(2)] by_id_step [OF dist'] same by simp
  next
    case False
    have "by_id xs sid = zero_step" if "sid \<notin> st_id ` set xs" for xs
    proof -
      have "map_of (map (\<lambda>s. (st_id s, s)) (rev xs)) sid = None" using that by (auto simp: map_of_eq_None_iff)
      then show ?thesis by (simp add: by_id_def)
    qed
    then show ?thesis using False same by simp
  qed
qed

lemma add_list_by_id: "by_id steps = by_id steps' \<Longrightarrow> add_list fuel steps ids out = add_list fuel steps' ids out"
proof (induction fuel steps ids out rule: add_list.induct)
  case (3 fuel steps sid ids out)
  have deps: "deps_of steps sid = deps_of steps' sid" using "3.prems" by (simp add: deps_of_def)
  show ?case
  proof (cases "sid \<in> set (map fst out)")
    case True
    then show ?thesis using 3(1) [OF True "3.prems"] by (simp add: add_list.simps(3))
  next
    case False
    note inner = 3(2) [OF False "3.prems"]
    show ?thesis
    proof (cases "add_list fuel steps (sort (deps_of steps sid)) out")
      case None
      then show ?thesis using False inner deps by (simp add: add_list.simps(3))
    next
      case (Some m)
      moreover from this have "add_list fuel steps' (sort (deps_of steps' sid)) out = Some m"
        using inner deps by simp
      ultimately show ?thesis
        using 3(3) [OF False Some "3.prems"] False deps "3.prems" by (simp add: add_list.simps(3))
    qed
  qed
qed simp_all

text \<open>
  The execution order does not depend on the order in which the steps of a definition are
  written.
\<close>

theorem execution_order_independent_of_step_order:
  assumes "mset (wd_steps d) = mset (wd_steps d')" and "distinct (map st_id (wd_steps d))"
  shows "topological fuel d = topological fuel d'"
proof -
  have "set (map st_id (wd_steps d)) = set (map st_id (wd_steps d'))"
    using assms(1) by (metis set_map set_mset_mset)
  then have "unique_sorted (map st_id (wd_steps d)) = unique_sorted (map st_id (wd_steps d'))"
    by (rule unique_sorted_same_set)
  then show ?thesis
    using add_list_by_id [OF by_id_same_steps [OF assms]] by (simp add: topological_def)
qed

lemma execution_order_independent_of_step_order_witness:
  "topological 3 sample_definition = topological 3 (sample_definition\<lparr>wd_steps := rev sample_steps\<rparr>) \<and>
   map_option (map st_id) (topological 3 sample_definition) = Some [''enumerate'', ''probe'']"
proof
  show "topological 3 sample_definition = topological 3 (sample_definition\<lparr>wd_steps := rev sample_steps\<rparr>)"
    by (rule execution_order_independent_of_step_order)
      (simp_all add: sample_definition_def sample_steps_def sample_step_def)
  show "map_option (map st_id) (topological 3 sample_definition) = Some [''enumerate'', ''probe'']"
    by code_simp
qed

end
