(* ===== verification/WorkflowStep.thy ===== *)
theory WorkflowStep
  imports Workflow Budget
begin

text \<open>
  \<^verbatim>\<open>internal/workflow/workflow.go\<close>, one step: the stored state, conditions, the resolution of
  bindings, idempotency keys, and the execution of a step with its retries.

  \<^item> A function that can panic returns an option, \<open>None\<close> being the panic.
  \<^item> What the surroundings answer is in the record \<open>engine\<close>: the clock, fresh identifiers, the
    persister, the controls, the approval function, the executor and the limiter. The sequential
    part of a run numbers its interactions (\<open>tick\<close>); inside a wave, whose steps run concurrently,
    an answer depends on the wave's tick, the step and the attempt.
\<close>

subsection \<open>State\<close>

record step_state =
  ss_run :: step_run
  ss_input_hash :: string

record wf_event =
  ev_at :: int
  ev_type :: string
  ev_step_id :: string
  ev_message :: string

record wf_state =
  ws_run :: workflow_run
  ws_steps :: "string \<rightharpoonup> step_state"
  ws_events :: "wf_event list"

text \<open>The text of the errors of \<^verbatim>\<open>encoding/json\<close> is not modelled.\<close>

definition json_error :: go_error where
  "json_error = Err ''json''"

subsection \<open>Conditions\<close>

fun json_path :: "json \<Rightarrow> string list \<Rightarrow> json option" where
  "json_path v [] = Some v"
| "json_path v (part # parts) =
     (case v of
        JObj m \<Rightarrow> (case map_of m part of None \<Rightarrow> None | Some w \<Rightarrow> json_path w parts)
      | _ \<Rightarrow> None)"

fun json_nonempty :: "json \<Rightarrow> bool" where
  "json_nonempty (JArr xs) = (length xs > 0)"
| "json_nonempty (JStr s) = (s \<noteq> [])"
| "json_nonempty JNull = False"
| "json_nonempty v = True"

text \<open>\<open>tail_from_2\<close> is \<^verbatim>\<open>parts[2:]\<close>, which panics on fewer than two parts.\<close>

definition tail_from_2 :: "string list \<Rightarrow> string list option" where
  "tail_from_2 parts = (if length parts < 2 then None else Some (drop 2 parts))"

definition condition :: "json_parser \<Rightarrow> string \<Rightarrow> (string \<rightharpoonup> step_state) \<Rightarrow> bool option" where
  "condition jp expr steps =
     (if expr = [] then Some True
      else (case cut expr (CHR '':'') of (kind, reference, found) \<Rightarrow>
        (case steps (hd (split_on (CHR ''.'') reference)) of
           None \<Rightarrow> Some False
         | Some s \<Rightarrow>
             if kind = ''success'' then Some (sr_status (ss_run s) = StepSucceeded)
             else if kind = ''changed'' then
               Some (case parse_object jp (sr_output (ss_run s)) of
                       None \<Rightarrow> False
                     | Some v \<Rightarrow> (case as_array (map_of v ''changes'') of
                                    None \<Rightarrow> False | Some changes \<Rightarrow> length changes > 0))
             else if kind = ''nonempty'' then
               (case jp (sr_output (ss_run s)) of
                  None \<Rightarrow> Some False
                | Some value \<Rightarrow>
                    (case tail_from_2 (split_on (CHR ''.'') reference) of
                       None \<Rightarrow> None
                     | Some parts \<Rightarrow>
                         Some (case json_path value parts of None \<Rightarrow> False | Some v \<Rightarrow> json_nonempty v)))
             else Some False)))"

subsection \<open>Bindings\<close>

definition extract_item :: "json_parser \<Rightarrow> string \<Rightarrow> json \<Rightarrow> json option" where
  "extract_item jp part item =
     (case item of
        JStr raw \<Rightarrow> (case parse_object jp raw of None \<Rightarrow> None | Some parsed \<Rightarrow> map_of parsed part)
      | JObj m \<Rightarrow> map_of m part
      | _ \<Rightarrow> None)"

fun walk_binding :: "json_parser \<Rightarrow> string \<Rightarrow> string list \<Rightarrow> json \<Rightarrow> json res" where
  "walk_binding jp binding [] value = Inr value"
| "walk_binding jp binding (part # parts) value =
     (if has_suffix part ''[]'' then
        (case value of
           JObj m \<Rightarrow>
             (case as_array (map_of m (trim_suffix part ''[]'')) of
                None \<Rightarrow> Inl (Err (''binding '' @ binding @ '' is not an array''))
              | Some arr \<Rightarrow> walk_binding jp binding parts (JArr arr))
         | _ \<Rightarrow> Inl (Err (''binding '' @ binding @ '' is not an object'')))
      else (case value of
              JArr arr \<Rightarrow> walk_binding jp binding parts (JArr (List.map_filter (extract_item jp part) arr))
            | JObj m \<Rightarrow>
                (case map_of m part of
                   None \<Rightarrow> Inl (Err (''binding '' @ binding @ '' not found''))
                 | Some v \<Rightarrow> walk_binding jp binding parts v)
            | _ \<Rightarrow> Inl (Err (''binding '' @ binding @ '' is not an object''))))"

text \<open>
  The resolved value of one binding: \<open>None\<close> is the panic of \<^verbatim>\<open>parts[2:]\<close>, \<open>Some (Inr None)\<close> the
  binding that is left out because its source was skipped without an output.
\<close>

definition binding_value ::
  "json_parser \<Rightarrow> (string \<rightharpoonup> step_state) \<Rightarrow> string \<Rightarrow> json option res option" where
  "binding_value jp steps binding =
     (let parts = split_on (CHR ''.'') binding in
      case steps (hd parts) of
        None \<Rightarrow> Some (Inl (Err (''binding source '' @ hd parts @ '' has no state'')))
      | Some source \<Rightarrow>
          if length (sr_output (ss_run source)) = 0 \<and> sr_status (ss_run source) = StepSkipped
          then Some (Inr None)
          else (case jp (sr_output (ss_run source)) of
                  None \<Rightarrow> Some (Inl json_error)
                | Some value \<Rightarrow>
                    map_option (\<lambda>path. bind_res (walk_binding jp binding path value) (\<lambda>v. Inr (Some v)))
                      (tail_from_2 parts)))"

text \<open>\<open>None\<close> as the target is the nil map that \<^verbatim>\<open>null\<close> decodes to; assigning to it panics.\<close>

fun resolve_bindings ::
  "json_parser \<Rightarrow> (string \<rightharpoonup> step_state) \<Rightarrow> (string \<times> string) list \<Rightarrow>
     (string \<times> json) list option \<Rightarrow> (string \<times> json) list option res option" where
  "resolve_bindings jp steps [] target = Some (Inr target)"
| "resolve_bindings jp steps ((field, binding) # bs) target =
     (case binding_value jp steps binding of
        None \<Rightarrow> None
      | Some (Inl e) \<Rightarrow> Some (Inl e)
      | Some (Inr None) \<Rightarrow> resolve_bindings jp steps bs target
      | Some (Inr (Some v)) \<Rightarrow>
          (case target of
             None \<Rightarrow> None
           | Some m \<Rightarrow> resolve_bindings jp steps bs (Some (AList.update field v m))))"

definition input_target :: "json_parser \<Rightarrow> string \<Rightarrow> (string \<times> json) list option res" where
  "input_target jp input =
     (case jp input of
        Some (JObj m) \<Rightarrow> Inr (Some m)
      | Some JNull \<Rightarrow> Inr None
      | Some v \<Rightarrow> Inl json_error
      | None \<Rightarrow> Inl json_error)"

definition marshal_target :: "json_printer \<Rightarrow> (string \<times> json) list option \<Rightarrow> string" where
  "marshal_target print target = (case target of None \<Rightarrow> print JNull | Some m \<Rightarrow> print (JObj m))"

definition resolve_input ::
  "json_parser \<Rightarrow> json_printer \<Rightarrow> wf_step \<Rightarrow> (string \<rightharpoonup> step_state) \<Rightarrow> string res option" where
  "resolve_input jp print s steps =
     (case input_target jp (st_input s) of
        Inl e \<Rightarrow> Some (Inl e)
      | Inr target \<Rightarrow>
          map_option (\<lambda>r. bind_res r (\<lambda>t. Inr (marshal_target print t)))
            (resolve_bindings jp steps (st_bindings s) target))"

subsection \<open>Step states\<close>

definition input_hash :: "(string \<Rightarrow> string) \<Rightarrow> string \<Rightarrow> string" where
  "input_hash sha input = sha input"

definition idempotency_key :: "(string \<Rightarrow> string) \<Rightarrow> string \<Rightarrow> string \<Rightarrow> string \<Rightarrow> string" where
  "idempotency_key sha run_id step_id hash = sha (run_id @ [CHR 0x00] @ step_id @ [CHR 0x00] @ hash)"

definition new_step ::
  "(string \<Rightarrow> string) \<Rightarrow> string \<Rightarrow> wf_state \<Rightarrow> wf_step \<Rightarrow> string \<Rightarrow> string \<Rightarrow> step_status \<Rightarrow> step_state" where
  "new_step sha fresh state s input hash status =
     \<lparr>ss_run = \<lparr>sr_id = fresh, sr_workflow_run_id = wr_id (ws_run state), sr_step_definition_id = st_id s,
        sr_capability = st_capability s, sr_status = status, sr_attempt_count = 0, sr_input = input,
        sr_output = [], sr_error_classification = [], sr_error_details = [], sr_started_at = None,
        sr_completed_at = None, sr_idempotency_key = idempotency_key sha (wr_id (ws_run state)) (st_id s) hash,
        sr_approval_state = ''not_required''\<rparr>,
      ss_input_hash = hash\<rparr>"

definition transition_step ::
  "(string \<Rightarrow> string) \<Rightarrow> string \<Rightarrow> wf_state \<Rightarrow> wf_step \<Rightarrow> string \<Rightarrow> string \<Rightarrow> step_status \<Rightarrow> step_state" where
  "transition_step sha fresh state s input hash status =
     (let next = new_step sha fresh state s input hash status in
      case ws_steps state (st_id s) of
        None \<Rightarrow> next
      | Some previous \<Rightarrow>
          if sr_idempotency_key (ss_run previous) = sr_idempotency_key (ss_run next)
          then next\<lparr>ss_run := (ss_run next)\<lparr>sr_id := sr_id (ss_run previous)\<rparr>\<rparr>
          else next)"

definition settled :: "step_status \<Rightarrow> bool" where
  "settled st \<longleftrightarrow> st = StepSucceeded \<or> st = StepSkipped"

definition dependencies_succeeded :: "wf_step \<Rightarrow> (string \<rightharpoonup> step_state) \<Rightarrow> bool" where
  "dependencies_succeeded s steps =
     list_all (\<lambda>d. case steps d of
                     None \<Rightarrow> False
                   | Some run \<Rightarrow> \<not> (sr_status (ss_run run) \<noteq> StepSucceeded \<and> sr_status (ss_run run) \<noteq> StepSkipped))
       (st_depends_on s)"

subsection \<open>Execution of a step\<close>

record step_plan =
  sp_definition :: wf_step
  sp_state :: step_state
  sp_input :: string
  sp_approved :: bool
  sp_provider :: string
  sp_parallel_share :: int

record step_outcome =
  so_definition :: wf_step
  so_state :: step_state
  so_result :: cap_result
  so_err :: "go_error option"
  so_primary_failure :: bool

text \<open>
  The engine's fields, the standard library functions it uses and the answers of its surroundings.
  \<open>eg_persister\<close>, \<open>eg_approval\<close> and \<open>eg_budget\<close> (the error of \<^verbatim>\<open>Acquire\<close>) are \<open>None\<close> when the field is nil.
\<close>

record engine =
  eg_registry :: registry
  eg_policy :: policy
  eg_scope :: "(string \<Rightarrow> bool) option"
  eg_max_parallel :: int
  eg_json :: json_parser
  eg_print :: json_printer
  eg_sha :: "string \<Rightarrow> string"
  eg_parse_url :: url_parser
  eg_split_host_port :: "string \<Rightarrow> string option"
  eg_parse_ip :: ip_parser
  eg_iter :: "string list \<Rightarrow> string list"
  eg_now :: "nat \<Rightarrow> int"
  eg_new_id :: "nat \<Rightarrow> string"
  eg_persister :: "(nat \<Rightarrow> wf_state \<Rightarrow> go_error option) option"
  eg_paused :: "nat \<Rightarrow> bool"
  eg_cancelled :: "nat \<Rightarrow> bool"
  eg_ctx_err :: "nat \<Rightarrow> go_error option"
  eg_approval :: "(nat \<Rightarrow> wf_step \<Rightarrow> risk \<Rightarrow> bool res) option"
  eg_budget :: "(nat \<Rightarrow> string \<Rightarrow> budget_request \<Rightarrow> go_error option) option"
  eg_execute :: "nat \<Rightarrow> string \<Rightarrow> nat \<Rightarrow> cap_request \<Rightarrow> cap_result \<times> go_error option"
  eg_action_id :: "nat \<Rightarrow> string \<Rightarrow> nat \<Rightarrow> string"
  eg_interrupted :: "nat \<Rightarrow> string \<Rightarrow> nat \<Rightarrow> go_error option"
  eg_completed_at :: "nat \<Rightarrow> string \<Rightarrow> int"
  eg_stopped :: "nat \<Rightarrow> string \<Rightarrow> bool"
  eg_arrival :: "nat \<Rightarrow> step_outcome list \<Rightarrow> step_outcome list"

definition complete_step :: "int \<Rightarrow> step_state \<Rightarrow> step_state" where
  "complete_step now s = s\<lparr>ss_run := (ss_run s)\<lparr>sr_completed_at := Some now\<rparr>\<rparr>"

definition second :: int where
  "second = 1000000000"

text \<open>\<^verbatim>\<open>delay * time.Duration(1<<(attempt-1))\<close> in 64-bit arithmetic.\<close>

definition retry_delay :: "int \<Rightarrow> nat \<Rightarrow> int" where
  "retry_delay base attempt =
     (let delay = (if base \<le> 0 then second else base) in
      sint ((word_of_int delay :: 64 word) * push_bit (attempt - 1) 1))"

definition attempt_request :: "engine \<Rightarrow> nat \<Rightarrow> task \<Rightarrow> string \<Rightarrow> step_plan \<Rightarrow> nat \<Rightarrow> cap_request" where
  "attempt_request e wave t run_id plan attempt =
     \<lparr>cq_action =
        \<lparr>aq_id = eg_action_id e wave (st_id (sp_definition plan)) attempt, aq_task_id = tk_id t,
         aq_workflow_run_id = run_id, aq_step_run_id = sr_id (ss_run (sp_state plan)),
         aq_requested_by = ''workflow'', aq_capability = st_capability (sp_definition plan),
         aq_reason = ''deterministic workflow step '' @ st_id (sp_definition plan),
         aq_input = sp_input plan, aq_idempotency_key = sr_idempotency_key (ss_run (sp_state plan))\<rparr>,
      cq_program_id = [], cq_provider = st_provider (sp_definition plan), cq_approved = sp_approved plan,
      cq_policy = parallel_share (eg_policy e) (sp_parallel_share plan), cq_scope = eg_scope e,
      cq_policy_phase = [], cq_decision_recorder = None\<rparr>"

text \<open>
  The loop over the attempts, \<open>left\<close> being the attempts still allowed after this one. It returns
  the number of the last attempt, its result and the error of the step, and beside them the
  attempts it made and the delays it slept in between.
\<close>

record attempts =
  at_count :: nat
  at_result :: cap_result
  at_err :: "go_error option"
  at_requests :: "cap_request list"
  at_delays :: "int list"

definition retryable :: "cap_result \<Rightarrow> bool" where
  "retryable r \<longleftrightarrow> (case ar_error (rs_action r) of None \<Rightarrow> False | Some e \<Rightarrow> se_retryable e)"

fun run_attempts :: "engine \<Rightarrow> nat \<Rightarrow> task \<Rightarrow> string \<Rightarrow> step_plan \<Rightarrow> nat \<Rightarrow> nat \<Rightarrow> attempts" where
  "run_attempts e wave t run_id plan attempt left =
     (let sid = st_id (sp_definition plan);
          q = attempt_request e wave t run_id plan attempt;
          (result, err) = eg_execute e wave sid attempt q;
          stop = (\<lambda>er ds. \<lparr>at_count = attempt, at_result = result, at_err = er, at_requests = [q], at_delays = ds\<rparr>)
      in if err = None \<or> \<not> retryable result then stop err []
         else (case left of
                 0 \<Rightarrow> stop err []
               | Suc left' \<Rightarrow>
                   let delay = retry_delay (st_base_delay (sp_definition plan)) attempt in
                   (case eg_interrupted e wave sid attempt of
                      Some ctx_err \<Rightarrow> stop (Some ctx_err) [delay]
                    | None \<Rightarrow>
                        let rest = run_attempts e wave t run_id plan (Suc attempt) left' in
                        rest\<lparr>at_requests := q # at_requests rest, at_delays := delay # at_delays rest\<rparr>)))"

definition max_attempts :: "wf_step \<Rightarrow> nat" where
  "max_attempts s = (if st_max_attempts s < 1 then 1 else nat (st_max_attempts s))"

definition step_attempts :: "engine \<Rightarrow> nat \<Rightarrow> task \<Rightarrow> string \<Rightarrow> step_plan \<Rightarrow> attempts" where
  "step_attempts e wave t run_id plan =
     run_attempts e wave t run_id plan 1 (max_attempts (sp_definition plan) - 1)"

definition step_budget_request :: "engine \<Rightarrow> task \<Rightarrow> step_plan \<Rightarrow> budget_request" where
  "step_budget_request e t plan =
     \<lparr>br_program = tk_program_id t, br_provider = sp_provider plan,
      br_hosts = hosts_from_input (eg_json e) (eg_parse_url e) (eg_split_host_port e) (eg_parse_ip e)
                   (sp_input plan)\<rparr>"

definition execute_step :: "engine \<Rightarrow> nat \<Rightarrow> task \<Rightarrow> string \<Rightarrow> step_plan \<Rightarrow> step_outcome" where
  "execute_step e wave t run_id plan =
     (let sid = st_id (sp_definition plan);
          outcome = \<lparr>so_definition = sp_definition plan, so_state = sp_state plan, so_result = zero_result,
                     so_err = None, so_primary_failure = False\<rparr>;
          finish = complete_step (eg_completed_at e wave sid);
          run = (let a = step_attempts e wave t run_id plan in
                 outcome\<lparr>so_state := finish ((sp_state plan)
                            \<lparr>ss_run := (ss_run (sp_state plan))\<lparr>sr_attempt_count := int (at_count a)\<rparr>\<rparr>),
                         so_result := at_result a, so_err := at_err a\<rparr>)
      in case eg_budget e of
           None \<Rightarrow> run
         | Some budget_acquire \<Rightarrow>
             (case budget_acquire wave sid (step_budget_request e t plan) of
                Some er \<Rightarrow> outcome\<lparr>so_err := Some er, so_state := finish (sp_state plan)\<rparr>
              | None \<Rightarrow> run))"

text \<open>
  \<^verbatim>\<open>executeWave\<close>: the outcomes in the order \<open>eg_arrival\<close> in which the goroutines deliver them. A
  failure is primary when the run's context is still live as the step ends.
\<close>

definition execute_wave :: "engine \<Rightarrow> nat \<Rightarrow> task \<Rightarrow> string \<Rightarrow> step_plan list \<Rightarrow> step_outcome list" where
  "execute_wave e wave t run_id plans =
     eg_arrival e wave
       (map (\<lambda>plan. let o1 = execute_step e wave t run_id plan in
               o1\<lparr>so_primary_failure := (so_err o1 \<noteq> None \<and> \<not> eg_stopped e wave (st_id (so_definition o1)))\<rparr>)
          plans)"

definition error_class :: "go_error option \<Rightarrow> string" where
  "error_class err =
     (case err of
        None \<Rightarrow> ''execution''
      | Some er \<Rightarrow> if errors_is er DeadlineExceeded then ''timeout''
                   else if errors_is er Canceled then ''cancelled'' else ''execution'')"

definition execution_classification :: "cap_result \<Rightarrow> go_error option \<Rightarrow> string" where
  "execution_classification result err =
     (case ar_error (rs_action result) of
        Some se \<Rightarrow> if se_classification se \<noteq> [] then se_classification se else error_class err
      | None \<Rightarrow> error_class err)"

subsection \<open>Retries\<close>

lemma run_attempts_0:
  "run_attempts e w t r p n 0 =
     \<lparr>at_count = n, at_result = fst (eg_execute e w (st_id (sp_definition p)) n (attempt_request e w t r p n)),
      at_err = snd (eg_execute e w (st_id (sp_definition p)) n (attempt_request e w t r p n)),
      at_requests = [attempt_request e w t r p n], at_delays = []\<rparr>"
  by (simp add: Let_def split_beta)

lemma run_attempts_Suc:
  "run_attempts e w t r p n (Suc m) =
     (let q = attempt_request e w t r p n; sid = st_id (sp_definition p);
          x = eg_execute e w sid n q; delay = retry_delay (st_base_delay (sp_definition p)) n
      in if snd x = None \<or> \<not> retryable (fst x)
         then \<lparr>at_count = n, at_result = fst x, at_err = snd x, at_requests = [q], at_delays = []\<rparr>
         else (case eg_interrupted e w sid n of
                 Some er \<Rightarrow> \<lparr>at_count = n, at_result = fst x, at_err = Some er, at_requests = [q], at_delays = [delay]\<rparr>
               | None \<Rightarrow> (run_attempts e w t r p (Suc n) m)
                   \<lparr>at_requests := q # at_requests (run_attempts e w t r p (Suc n) m),
                    at_delays := delay # at_delays (run_attempts e w t r p (Suc n) m)\<rparr>))"
  by (subst run_attempts.simps) (simp add: Let_def split_beta split: option.split)

declare run_attempts.simps [simp del]

lemma run_attempts_spec:
  "let a = run_attempts e w t r p n m in
     n \<le> at_count a \<and> at_count a \<le> n + m \<and> Suc (at_count a) = n + length (at_requests a) \<and>
     (\<forall>i < length (at_requests a). at_requests a ! i = attempt_request e w t r p (n + i)) \<and>
     (\<forall>i. Suc i < length (at_requests a) \<longrightarrow>
        snd (eg_execute e w (st_id (sp_definition p)) (n + i) (at_requests a ! i)) \<noteq> None \<and>
        retryable (fst (eg_execute e w (st_id (sp_definition p)) (n + i) (at_requests a ! i))))"
proof (induction m arbitrary: n)
  case 0
  then show ?case by (simp add: run_attempts_0 Let_def)
next
  case (Suc m)
  let ?q = "attempt_request e w t r p n"
  let ?x = "eg_execute e w (st_id (sp_definition p)) n ?q"
  let ?b = "run_attempts e w t r p (Suc n) m"
  show ?case
  proof (cases "snd ?x = None \<or> \<not> retryable (fst ?x) \<or> eg_interrupted e w (st_id (sp_definition p)) n \<noteq> None")
    case True
    then show ?thesis by (auto simp: run_attempts_Suc Let_def)
  next
    case False
    then have a: "run_attempts e w t r p n (Suc m) =
        ?b\<lparr>at_requests := ?q # at_requests ?b,
           at_delays := retry_delay (st_base_delay (sp_definition p)) n # at_delays ?b\<rparr>"
      by (auto simp: run_attempts_Suc Let_def)
    note ih = Suc [of "Suc n", unfolded Let_def]
    show ?thesis
      unfolding a Let_def
    proof (intro conjI allI impI)
      fix i assume "i < length (at_requests (?b\<lparr>at_requests := ?q # at_requests ?b,
           at_delays := retry_delay (st_base_delay (sp_definition p)) n # at_delays ?b\<rparr>))"
      then show "at_requests (?b\<lparr>at_requests := ?q # at_requests ?b,
           at_delays := retry_delay (st_base_delay (sp_definition p)) n # at_delays ?b\<rparr>) ! i =
           attempt_request e w t r p (n + i)"
        using ih by (cases i) auto
    next
      fix i assume i: "Suc i < length (at_requests (?b\<lparr>at_requests := ?q # at_requests ?b,
           at_delays := retry_delay (st_base_delay (sp_definition p)) n # at_delays ?b\<rparr>))"
      have "snd (eg_execute e w (st_id (sp_definition p)) (n + i) ((?q # at_requests ?b) ! i)) \<noteq> None \<and>
          retryable (fst (eg_execute e w (st_id (sp_definition p)) (n + i) ((?q # at_requests ?b) ! i)))"
        using ih i False by (cases i) auto
      then show "snd (eg_execute e w (st_id (sp_definition p)) (n + i) (at_requests (?b\<lparr>at_requests := ?q # at_requests ?b,
           at_delays := retry_delay (st_base_delay (sp_definition p)) n # at_delays ?b\<rparr>) ! i)) \<noteq> None"
        and "retryable (fst (eg_execute e w (st_id (sp_definition p)) (n + i) (at_requests (?b\<lparr>at_requests := ?q # at_requests ?b,
           at_delays := retry_delay (st_base_delay (sp_definition p)) n # at_delays ?b\<rparr>) ! i)))"
        by simp_all
    qed (use ih in auto)
  qed
qed

text \<open>
  A step is attempted at least once and at most as often as its retry policy allows, every
  attempt carries the same idempotency key, input, approval and policy, and an attempt is followed
  by another only when its result is marked retryable.
\<close>

theorem retries_are_bounded_and_repeat_one_request:
  assumes "a = step_attempts e w t r p"
  shows "1 \<le> at_count a \<and> at_count a \<le> max_attempts (sp_definition p) \<and> length (at_requests a) = at_count a \<and>
    list_all (\<lambda>q. aq_idempotency_key (cq_action q) = sr_idempotency_key (ss_run (sp_state p)) \<and>
       aq_input (cq_action q) = sp_input p \<and> cq_approved q = sp_approved p \<and>
       cq_policy q = parallel_share (eg_policy e) (sp_parallel_share p)) (at_requests a) \<and>
    (\<forall>i. Suc i < at_count a \<longrightarrow>
       retryable (fst (eg_execute e w (st_id (sp_definition p)) (Suc i) (at_requests a ! i))))"
proof -
  note spec = run_attempts_spec [of e w t r p 1 "max_attempts (sp_definition p) - 1", unfolded Let_def,
      folded step_attempts_def, folded assms]
  have pos: "1 \<le> max_attempts (sp_definition p)" by (simp add: max_attempts_def) linarith
  have "length (at_requests a) = at_count a" using spec by simp
  moreover have "list_all (\<lambda>q. aq_idempotency_key (cq_action q) = sr_idempotency_key (ss_run (sp_state p)) \<and>
       aq_input (cq_action q) = sp_input p \<and> cq_approved q = sp_approved p \<and>
       cq_policy q = parallel_share (eg_policy e) (sp_parallel_share p)) (at_requests a)"
    using spec by (auto simp: list_all_length attempt_request_def)
  ultimately show ?thesis using spec pos by auto
qed

text \<open>The delays double until they leave the 64 bits.\<close>

text \<open>
  The pause after an attempt is the base delay doubled with every attempt, as long as the
  product fits into 63 bits.
\<close>

theorem retry_delay_doubles:
  assumes "0 < base" and "base * 2 ^ (attempt - 1) < 2 ^ 63"
  shows "retry_delay base attempt = base * 2 ^ (attempt - 1)"
proof -
  have "(word_of_int base :: 64 word) * push_bit (attempt - 1) 1 = word_of_int (base * 2 ^ (attempt - 1))"
    by (simp add: push_bit_eq_mult)
  then have "retry_delay base attempt = sint (word_of_int (base * 2 ^ (attempt - 1)) :: 64 word)"
    using assms(1) by (simp only: retry_delay_def Let_def) simp
  also have "\<dots> = signed_take_bit 63 (base * 2 ^ (attempt - 1))"
    by (simp only: signed_of_int) simp
  also have "\<dots> = base * 2 ^ (attempt - 1)"
  proof (rule signed_take_bit_int_eq_self)
    show "- (2 ^ 63) \<le> base * 2 ^ (attempt - 1)"
    proof -
      have "0 \<le> base * 2 ^ (attempt - 1)" using assms(1) by simp
      then show ?thesis by (rule order_trans [rotated]) simp
    qed
  qed (fact assms(2))
  finally show ?thesis .
qed

lemma retry_delay_doubles_witness: "retry_delay 0 1 = second \<and> retry_delay second 4 = 8 * second"
  using retry_delay_doubles [of second 4] by (simp add: second_def retry_delay_def Let_def)

text \<open>With the default delay the 35th attempt would wait a negative time, that is, not at all.\<close>

lemma retry_delay_overflow: "retry_delay 0 35 < 0"
  by (simp add: retry_delay_def second_def)

subsection \<open>Identity of step runs\<close>

lemma split_at_nul:
  "CHR 0x00 \<notin> set a \<Longrightarrow> CHR 0x00 \<notin> set b \<Longrightarrow> a @ [CHR 0x00] @ x = b @ [CHR 0x00] @ y \<longleftrightarrow> a = b \<and> x = y"
proof (induction a arbitrary: b)
  case Nil
  then show ?case by (cases b) auto
next
  case (Cons c a)
  then show ?case by (cases b) auto
qed

lemma idempotency_preimage:
  assumes "CHR 0x00 \<notin> set r1" "CHR 0x00 \<notin> set r2" "CHR 0x00 \<notin> set h1" "CHR 0x00 \<notin> set h2"
  shows "r1 @ [CHR 0x00] @ s1 @ [CHR 0x00] @ h1 = r2 @ [CHR 0x00] @ s2 @ [CHR 0x00] @ h2 \<longleftrightarrow>
    r1 = r2 \<and> s1 = s2 \<and> h1 = h2"
proof -
  have "s1 @ [CHR 0x00] @ h1 = s2 @ [CHR 0x00] @ h2 \<longleftrightarrow> rev h1 @ [CHR 0x00] @ rev s1 = rev h2 @ [CHR 0x00] @ rev s2"
    by (metis append.assoc rev_append rev_rev_ident rev_singleton_conv)
  also have "\<dots> \<longleftrightarrow> rev h1 = rev h2 \<and> rev s1 = rev s2"
    using assms(3,4) by (intro split_at_nul) simp_all
  finally show ?thesis using split_at_nul [OF assms(1,2)] by auto
qed

text \<open>
  Planning a step keeps the identity of its stored step run exactly when that one belongs to
  the same run, the same step and an input with the same hash, provided the two idempotency keys
  do not collide.
\<close>

theorem step_run_kept_exactly_for_same_input:
  assumes "ws_steps state (st_id s) = Some previous"
    and "sr_idempotency_key (ss_run previous) = idempotency_key sha run0 step0 hash0"
    and "CHR 0x00 \<notin> set run0" and "CHR 0x00 \<notin> set (wr_id (ws_run state))"
    and "CHR 0x00 \<notin> set hash0" and "CHR 0x00 \<notin> set hash"
    and "idempotency_key sha run0 step0 hash0 = idempotency_key sha (wr_id (ws_run state)) (st_id s) hash \<Longrightarrow>
      run0 @ [CHR 0x00] @ step0 @ [CHR 0x00] @ hash0 =
      wr_id (ws_run state) @ [CHR 0x00] @ st_id s @ [CHR 0x00] @ hash"
    and "fresh \<noteq> sr_id (ss_run previous)"
  shows "sr_id (ss_run (transition_step sha fresh state s input hash status)) = sr_id (ss_run previous) \<longleftrightarrow>
    run0 = wr_id (ws_run state) \<and> step0 = st_id s \<and> hash0 = hash"
proof -
  have "idempotency_key sha run0 step0 hash0 = idempotency_key sha (wr_id (ws_run state)) (st_id s) hash \<longleftrightarrow>
      run0 = wr_id (ws_run state) \<and> step0 = st_id s \<and> hash0 = hash"
    using assms(7) idempotency_preimage [OF assms(3-6), of step0 "st_id s"] by blast
  then show ?thesis
    using assms(1,2,8) by (simp add: transition_step_def new_step_def Let_def)
qed

definition sample_state :: wf_state where
  "sample_state =
     \<lparr>ws_run = \<lparr>wr_id = ''r'', wr_task_id = ''t'', wr_workflow_definition_id = ''d'', wr_workflow_version = ''1'',
        wr_status = RunRunning, wr_started_at = None, wr_completed_at = None, wr_previous_run_id = None,
        wr_trigger_source = [], wr_summary = ''{}''\<rparr>,
      ws_steps = Map.empty, ws_events = []\<rparr>"

lemma step_run_kept_exactly_for_same_input_witness:
  "sr_id (ss_run (transition_step (\<lambda>x. x) ''new''
       (sample_state\<lparr>ws_steps := [''s'' \<mapsto> new_step (\<lambda>x. x) ''old'' sample_state (zero_step\<lparr>st_id := ''s''\<rparr>) ''{}'' ''h'' StepFailed]\<rparr>)
       (zero_step\<lparr>st_id := ''s''\<rparr>) ''{}'' ''h'' StepRunning)) = ''old''"
  using step_run_kept_exactly_for_same_input [of
      "sample_state\<lparr>ws_steps := [''s'' \<mapsto> new_step (\<lambda>x. x) ''old'' sample_state (zero_step\<lparr>st_id := ''s''\<rparr>) ''{}'' ''h'' StepFailed]\<rparr>"
      "zero_step\<lparr>st_id := ''s''\<rparr>"
      "new_step (\<lambda>x. x) ''old'' sample_state (zero_step\<lparr>st_id := ''s''\<rparr>) ''{}'' ''h'' StepFailed"
      "\<lambda>x. x" "''r''" "''s''" "''h''" "''h''" "''new''" "''{}''" StepRunning]
  by (simp add: sample_state_def new_step_def idempotency_key_def)

subsection \<open>Panics that validation does not exclude\<close>

text \<open>
  A condition \<^verbatim>\<open>nonempty:step\<close> without an output path passes \<^verbatim>\<open>Validate\<close>, and slicing its parts panics
  as soon as the step has an output. Likewise the input \<^verbatim>\<open>null\<close> with a binding: it is valid JSON, decodes
  to a nil map, and assigning the bound field to it panics.
\<close>

lemma nonempty_without_path_panics:
  assumes "steps ''enumerate'' = Some ss" and "jp (sr_output (ss_run ss)) = Some v"
  shows "condition jp ''nonempty:enumerate'' steps = None"
  using assms by (simp add: condition_def tail_from_2_def)

lemma nonempty_without_path_validates:
  "validate sample_json rev sample_registry
     (sample_definition\<lparr>wd_steps :=
        [sample_step ''enumerate'' ''subdomain.enumerate'',
         (sample_step ''probe'' ''http.probe'')\<lparr>st_depends_on := [''enumerate''], st_condition := ''nonempty:enumerate''\<rparr>]\<rparr>)
   = None"
  by code_simp

lemma null_input_with_binding_panics:
  assumes "jp (st_input s) = Some JNull" and "st_bindings s = [(field, ''enumerate.output.domains'')]"
    and "steps ''enumerate'' = Some ss" and "sr_status (ss_run ss) = StepSucceeded"
    and "jp (sr_output (ss_run ss)) = Some (JObj [(''domains'', v)])"
  shows "resolve_input jp print s steps = None"
  using assms by (simp add: resolve_input_def input_target_def binding_value_def tail_from_2_def has_suffix_def)

end
