(* ===== verification/WorkflowEngine.thy ===== *)
theory WorkflowEngine
  imports WorkflowStep "HOL-Library.Sublist"
begin

text \<open>
  \<^verbatim>\<open>internal/workflow/workflow.go\<close>, the run of a workflow: the controls, the planning of a wave of
  ready steps, the recording of its outcomes, and the loop of \<^verbatim>\<open>Run\<close> around them. Each operation takes
  and returns a \<open>run_state\<close>; \<open>iterate\<close> is one pass of the loop and \<open>run_loop\<close> repeats it, \<open>fuel\<close>
  bounding the number of passes.
\<close>

subsection \<open>Controls\<close>

text \<open>\<open>ct_done\<close> is the channel \<^verbatim>\<open>cancelledCh\<close>: \<open>None\<close> while nil, else whether it is closed.\<close>

record controls =
  ct_paused :: bool
  ct_cancelled :: bool
  ct_done :: "bool option"

definition new_controls :: controls where
  "new_controls = \<lparr>ct_paused = False, ct_cancelled = False, ct_done = None\<rparr>"

definition controls_pause :: "controls \<Rightarrow> controls" where
  "controls_pause c = c\<lparr>ct_paused := True\<rparr>"

definition controls_resume :: "controls \<Rightarrow> controls" where
  "controls_resume c = c\<lparr>ct_paused := False\<rparr>"

definition controls_cancel :: "controls \<Rightarrow> controls" where
  "controls_cancel c =
     (if ct_cancelled c then c else c\<lparr>ct_cancelled := True, ct_done := Some True\<rparr>)"

definition controls_state :: "controls \<Rightarrow> bool \<times> bool" where
  "controls_state c = (ct_paused c, ct_cancelled c)"

definition controls_done :: "controls \<Rightarrow> controls \<times> bool" where
  "controls_done c =
     (case ct_done c of
        None \<Rightarrow> (c\<lparr>ct_done := Some (ct_cancelled c)\<rparr>, ct_cancelled c)
      | Some shut \<Rightarrow> (c, shut))"

subsection \<open>The state of a run\<close>

text \<open>
  \<open>rn_finished\<close> and \<open>rn_blocked\<close> are the key sets of \<^verbatim>\<open>finished\<close> and \<^verbatim>\<open>blockedApprovals\<close>. Two fields
  record what the run did: the states it handed to the persister and the plans it executed, wave
  by wave.
\<close>

record run_state =
  rn_state :: wf_state
  rn_tick :: nat
  rn_finished :: "string list"
  rn_blocked :: "string list"
  rn_saved :: "wf_state list"
  rn_waves :: "step_plan list list"

datatype run_result =
    Returned run_state "go_error option"
  | Rejected go_error
  | Panicked
  | OutOfFuel

definition put_step :: "string \<Rightarrow> step_state \<Rightarrow> run_state \<Rightarrow> run_state" where
  "put_step sid ss s =
     s\<lparr>rn_state := (rn_state s)\<lparr>ws_steps := (ws_steps (rn_state s))(sid \<mapsto> ss)\<rparr>\<rparr>"

definition set_run_status :: "run_status \<Rightarrow> run_state \<Rightarrow> run_state" where
  "set_run_status st s =
     s\<lparr>rn_state := (rn_state s)\<lparr>ws_run := (ws_run (rn_state s))\<lparr>wr_status := st\<rparr>\<rparr>\<rparr>"

definition append_event :: "wf_event \<Rightarrow> run_state \<Rightarrow> run_state" where
  "append_event ev s = s\<lparr>rn_state := (rn_state s)\<lparr>ws_events := ws_events (rn_state s) @ [ev]\<rparr>\<rparr>"

definition pass_tick :: "run_state \<Rightarrow> run_state" where
  "pass_tick s = s\<lparr>rn_tick := Suc (rn_tick s)\<rparr>"

definition event :: "engine \<Rightarrow> string \<Rightarrow> string \<Rightarrow> string \<Rightarrow> run_state \<Rightarrow> run_state" where
  "event e typ step msg s =
     pass_tick (append_event
       \<lparr>ev_at = eg_now e (rn_tick s), ev_type = typ, ev_step_id = step, ev_message = msg\<rparr> s)"

definition finish_step :: "string \<Rightarrow> run_state \<Rightarrow> run_state" where
  "finish_step sid s = s\<lparr>rn_finished := append_unique (rn_finished s) sid\<rparr>"

definition block_step :: "string \<Rightarrow> run_state \<Rightarrow> run_state" where
  "block_step sid s = s\<lparr>rn_blocked := append_unique (rn_blocked s) sid\<rparr>"

definition save :: "engine \<Rightarrow> run_state \<Rightarrow> run_state \<times> go_error option" where
  "save e s =
     (case eg_persister e of
        None \<Rightarrow> (s, None)
      | Some persist \<Rightarrow>
          (pass_tick (s\<lparr>rn_saved := rn_saved s @ [rn_state s]\<rparr>), persist (rn_tick s) (rn_state s)))"

definition terminal :: "engine \<Rightarrow> run_status \<Rightarrow> string \<Rightarrow> run_state \<Rightarrow> run_state \<times> go_error option" where
  "terminal e status typ s =
     (let now = eg_now e (rn_tick s);
          s1 = pass_tick (set_run_status status s);
          s2 = s1\<lparr>rn_state := (rn_state s1)\<lparr>ws_run := (ws_run (rn_state s1))\<lparr>wr_completed_at := Some now\<rparr>\<rparr>\<rparr>
      in save e (event e typ [] (run_status_string status) s2))"

definition return_terminal :: "engine \<Rightarrow> run_status \<Rightarrow> string \<Rightarrow> run_state \<Rightarrow> run_result" where
  "return_terminal e status typ s = (case terminal e status typ s of (s', er) \<Rightarrow> Returned s' er)"

definition fail_run :: "engine \<Rightarrow> string \<Rightarrow> string \<Rightarrow> go_error \<Rightarrow> run_state \<Rightarrow> run_result" where
  "fail_run e step cls er s =
     Returned
       (fst (save e (event e ''workflow_failed'' step (cls @ '': '' @ error_text er)
                       (set_run_status RunFailed s))))
       (Some er)"

definition pause_run :: "engine \<Rightarrow> string \<Rightarrow> run_state \<Rightarrow> run_result" where
  "pause_run e msg s =
     Returned (fst (save e (event e ''workflow_paused'' [] msg (set_run_status RunPaused s)))) None"

subsection \<open>Planning a wave\<close>

datatype plan_result =
    Planned run_state "step_plan list" bool
  | PlanStopped run_result

definition retained :: "wf_step \<Rightarrow> string \<Rightarrow> (string \<rightharpoonup> step_state) \<Rightarrow> bool" where
  "retained st hash steps \<longleftrightarrow>
     (case steps (st_id st) of
        None \<Rightarrow> False
      | Some existing \<Rightarrow>
          sr_status (ss_run existing) = StepSucceeded \<and>
          (\<not> st_rerun_on_input_change st \<or> ss_input_hash existing = hash))"

definition next_step_state ::
  "engine \<Rightarrow> wf_step \<Rightarrow> string \<Rightarrow> string \<Rightarrow> step_status \<Rightarrow> run_state \<Rightarrow> step_state \<times> run_state" where
  "next_step_state e st input hash status s =
     (transition_step (eg_sha e) (eg_new_id e (rn_tick s)) (rn_state s) st input hash status, pass_tick s)"

definition skip_step :: "engine \<Rightarrow> wf_step \<Rightarrow> string \<Rightarrow> string \<Rightarrow> run_state \<Rightarrow> run_state" where
  "skip_step e st input hash s =
     (case next_step_state e st input hash StepSkipped s of (ss, s1) \<Rightarrow>
        event e ''step_skipped'' (st_id st) ''condition was false''
          (finish_step (st_id st)
            (put_step (st_id st) (complete_step (eg_now e (rn_tick s1)) ss) (pass_tick s1))))"

definition await_approval :: "engine \<Rightarrow> wf_step \<Rightarrow> string \<Rightarrow> string \<Rightarrow> run_state \<Rightarrow> run_state" where
  "await_approval e st input hash s =
     (case next_step_state e st input hash StepAwaitingApproval s of (ss, s1) \<Rightarrow>
        event e ''approval_required'' (st_id st) ''approval is required before execution''
          (block_step (st_id st)
            (put_step (st_id st) (ss\<lparr>ss_run := (ss_run ss)\<lparr>sr_approval_state := ''pending''\<rparr>\<rparr>) s1)))"

definition plan_provider :: "wf_step \<Rightarrow> manifest \<Rightarrow> string" where
  "plan_provider st m =
     (let p1 = (if st_provider st = [] \<and> length (mf_supported_providers m) > 0
                then hd (mf_supported_providers m) else st_provider st)
      in if p1 = [] then st_capability st else p1)"

definition start_step ::
  "engine \<Rightarrow> wf_step \<Rightarrow> manifest \<Rightarrow> string \<Rightarrow> string \<Rightarrow> bool \<Rightarrow> run_state \<Rightarrow> step_plan \<times> run_state" where
  "start_step e st m input hash approved s =
     (case next_step_state e st input hash StepRunning s of (ss0, s1) \<Rightarrow>
        let ss = ss0\<lparr>ss_run := (ss_run ss0)\<lparr>sr_started_at := Some (eg_now e (rn_tick s1)),
                      sr_approval_state := (if approved then ''approved'' else ''not_required'')\<rparr>\<rparr>
        in (\<lparr>sp_definition = st, sp_state = ss, sp_input = input, sp_approved = approved,
             sp_provider = plan_provider st m, sp_parallel_share = 0\<rparr>,
            event e ''step_started'' (st_id st) ''capability execution started''
              (put_step (st_id st) ss (pass_tick s1))))"

datatype step_planning =
    StepDone run_state
  | StepPlan step_plan run_state
  | StepStopped run_result

text \<open>The approval of a step: an answer, the wait for one, or the end of the run.\<close>

definition plan_approved ::
  "engine \<Rightarrow> wf_step \<Rightarrow> manifest \<Rightarrow> string \<Rightarrow> string \<Rightarrow> run_state \<Rightarrow> step_planning" where
  "plan_approved e st m input hash s =
     (let start = (\<lambda>approved s. case start_step e st m input hash approved s of (p, s') \<Rightarrow> StepPlan p s')
      in if st_approval_required st \<or> mf_approval_required m then
           (case eg_approval e of
              None \<Rightarrow> StepDone (await_approval e st input hash s)
            | Some ask \<Rightarrow>
                (case ask (rn_tick s) st (mf_risk m) of
                   Inl er \<Rightarrow> StepStopped (fail_run e (st_id st) ''approval'' er (pass_tick s))
                 | Inr approved \<Rightarrow>
                     if \<not> approved
                     then StepStopped (fail_run e (st_id st) ''approval_rejected'' (Err ''approval rejected'') (pass_tick s))
                     else start True (pass_tick s)))
         else start False s)"

definition plan_step :: "engine \<Rightarrow> wf_step \<Rightarrow> run_state \<Rightarrow> step_planning" where
  "plan_step e st s =
     (case resolve_input (eg_json e) (eg_print e) st (ws_steps (rn_state s)) of
        None \<Rightarrow> StepStopped Panicked
      | Some (Inl er) \<Rightarrow> StepStopped (fail_run e (st_id st) ''input_resolution'' er s)
      | Some (Inr input) \<Rightarrow>
          let hash = input_hash (eg_sha e) input in
          if retained st hash (ws_steps (rn_state s))
          then StepDone (event e ''step_resumed'' (st_id st) ''previous successful result retained''
                           (finish_step (st_id st) s))
          else (case condition (eg_json e) (st_condition st) (ws_steps (rn_state s)) of
                  None \<Rightarrow> StepStopped Panicked
                | Some False \<Rightarrow> StepDone (skip_step e st input hash s)
                | Some True \<Rightarrow>
                    (case registry_get (eg_registry e) (st_capability st) of
                       None \<Rightarrow> StepStopped Panicked
                     | Some c \<Rightarrow> plan_approved e st (cap_manifest c) input hash s)))"

fun plan_wave :: "engine \<Rightarrow> nat \<Rightarrow> wf_step list \<Rightarrow> run_state \<Rightarrow> step_plan list \<Rightarrow> bool \<Rightarrow> plan_result" where
  "plan_wave e maxp [] s plans changed = Planned s plans changed"
| "plan_wave e maxp (st # ready) s plans changed =
     (if length plans \<ge> maxp then Planned s plans changed
      else (case plan_step e st s of
              StepStopped r \<Rightarrow> PlanStopped r
            | StepDone s' \<Rightarrow> plan_wave e maxp ready s' plans True
            | StepPlan p s' \<Rightarrow> plan_wave e maxp ready s' (plans @ [p]) True))"

subsection \<open>Recording the outcomes of a wave\<close>

definition outcome_state :: "step_outcome \<Rightarrow> step_state" where
  "outcome_state o1 =
     (let ss = so_state o1 in
      case so_err o1 of
        None \<Rightarrow> ss\<lparr>ss_run := (ss_run ss)\<lparr>sr_status := StepSucceeded,
                   sr_output := ar_output (rs_action (so_result o1))\<rparr>\<rparr>
      | Some er \<Rightarrow>
          if so_primary_failure o1
          then ss\<lparr>ss_run := (ss_run ss)\<lparr>sr_status := StepFailed,
                 sr_error_classification := execution_classification (so_result o1) (so_err o1),
                 sr_error_details := error_text er\<rparr>\<rparr>
          else ss\<lparr>ss_run := (ss_run ss)\<lparr>sr_status := StepCancelled,
                 sr_error_classification := ''cancelled'', sr_error_details := error_text er\<rparr>\<rparr>)"

definition set_summary :: "step_outcome \<Rightarrow> run_state \<Rightarrow> run_state" where
  "set_summary o1 s =
     (if st_capability (so_definition o1) = ''report.changes'' \<and> length (ar_output (rs_action (so_result o1))) > 0
      then s\<lparr>rn_state := (rn_state s)\<lparr>ws_run := (ws_run (rn_state s))
                           \<lparr>wr_summary := ar_output (rs_action (so_result o1))\<rparr>\<rparr>\<rparr>
      else s)"

definition record_outcome :: "engine \<Rightarrow> step_outcome \<Rightarrow> run_state \<Rightarrow> run_state" where
  "record_outcome e o1 s =
     (let sid = st_id (so_definition o1); s1 = put_step sid (outcome_state o1) s in
      case so_err o1 of
        None \<Rightarrow> event e ''step_succeeded'' sid (ar_summary (rs_action (so_result o1)))
                  (set_summary o1 (finish_step sid s1))
      | Some er \<Rightarrow>
          if so_primary_failure o1 then event e ''step_failed'' sid (error_text er) s1
          else event e ''step_cancelled'' sid ''cancelled because the workflow wave stopped'' s1)"

text \<open>Records and saves the outcomes one by one; \<open>Inl\<close> is the return on a failing save.\<close>

fun record_outcomes ::
  "engine \<Rightarrow> step_outcome list \<Rightarrow> step_outcome option \<Rightarrow> run_state \<Rightarrow> run_result + run_state \<times> step_outcome option" where
  "record_outcomes e [] primary s = Inr (s, primary)"
| "record_outcomes e (o1 # os) primary s =
     (case save e (record_outcome e o1 s) of
        (s', Some er) \<Rightarrow> Inl (Returned s' (Some er))
      | (s', None) \<Rightarrow>
          record_outcomes e os
            (if primary = None \<and> so_err o1 \<noteq> None \<and> so_primary_failure o1 then Some o1 else primary) s')"

subsection \<open>The loop\<close>

datatype iteration = Continue run_state | Stop run_result

definition rank_of :: "wf_step list \<Rightarrow> string \<Rightarrow> nat" where
  "rank_of seq sid = length (takeWhile (\<lambda>s. st_id s \<noteq> sid) seq)"

definition ready_steps :: "wf_step list \<Rightarrow> run_state \<Rightarrow> wf_step list" where
  "ready_steps seq s =
     filter (\<lambda>st. \<not> (st_id st \<in> set (rn_finished s) \<or> st_id st \<in> set (rn_blocked s)) \<and>
                  dependencies_succeeded st (ws_steps (rn_state s))) seq"

definition max_parallel :: "engine \<Rightarrow> nat" where
  "max_parallel e = (if eg_max_parallel e < 1 then 1 else nat (eg_max_parallel e))"

text \<open>The end of a run whose controls or context were cancelled.\<close>

definition cancel_run :: "engine \<Rightarrow> go_error option \<Rightarrow> run_state \<Rightarrow> run_result" where
  "cancel_run e ctx_err s =
     (case terminal e RunCancelled ''workflow_cancelled'' s of (s', er) \<Rightarrow>
        Returned s' (if ctx_err = None then er else join_errors [ctx_err, er]))"

definition run_wave :: "engine \<Rightarrow> task \<Rightarrow> wf_step list \<Rightarrow> step_plan list \<Rightarrow> run_state \<Rightarrow> iteration" where
  "run_wave e t seq plans0 s =
     (let plans = map (\<lambda>p. p\<lparr>sp_parallel_share := int (length plans0)\<rparr>) plans0;
          outcomes = sort_key (\<lambda>o1. rank_of seq (st_id (so_definition o1)))
                       (execute_wave e (rn_tick s) t (wr_id (ws_run (rn_state s))) plans);
          s1 = pass_tick (s\<lparr>rn_waves := rn_waves s @ [plans]\<rparr>)
      in case record_outcomes e outcomes None s1 of
           Inl r \<Rightarrow> Stop r
         | Inr (s2, primary) \<Rightarrow>
             let s3 = pass_tick s2; cancelled = eg_cancelled e (rn_tick s2); ctx_err = eg_ctx_err e (rn_tick s2) in
             if cancelled \<or> ctx_err \<noteq> None then Stop (cancel_run e ctx_err s3)
             else (case primary of
                     Some o1 \<Rightarrow>
                       Stop (fail_run e (st_id (so_definition o1))
                               (execution_classification (so_result o1) (so_err o1)) (the (so_err o1)) s3)
                   | None \<Rightarrow> Continue s3))"

definition iterate :: "engine \<Rightarrow> task \<Rightarrow> wf_step list \<Rightarrow> run_state \<Rightarrow> iteration" where
  "iterate e t seq s0 =
     (let paused = eg_paused e (rn_tick s0); cancelled = eg_cancelled e (rn_tick s0);
          ctx_err = eg_ctx_err e (rn_tick s0); s = pass_tick s0;
          ready = ready_steps seq s
      in if cancelled then Stop (return_terminal e RunCancelled ''workflow_cancelled'' s)
         else if ctx_err \<noteq> None then Stop (cancel_run e ctx_err s)
         else if paused then Stop (pause_run e ''pause requested'' s)
         else if ready = [] then
           (if length (rn_blocked s) > 0
            then Stop (pause_run e ''approval is required before execution can continue'' s)
            else Stop (fail_run e [] ''dependency'' (Err ''workflow has no runnable steps'') s))
         else (case plan_wave e (max_parallel e) ready s [] False of
                 PlanStopped r \<Rightarrow> Stop r
               | Planned s1 plans changed \<Rightarrow>
                   (case (if changed then save e s1 else (s1, None)) of
                      (s2, Some er) \<Rightarrow> Stop (Returned s2 (Some er))
                    | (s2, None) \<Rightarrow>
                        if plans = [] then Continue s2 else run_wave e t seq plans s2)))"

fun run_loop :: "engine \<Rightarrow> nat \<Rightarrow> task \<Rightarrow> wf_step list \<Rightarrow> run_state \<Rightarrow> run_result" where
  "run_loop e fuel t seq s =
     (if length (rn_finished s) \<ge> length seq
      then return_terminal e RunCompleted ''workflow_completed'' s
      else (case fuel of
              0 \<Rightarrow> OutOfFuel
            | Suc fuel' \<Rightarrow>
                (case iterate e t seq s of
                   Stop r \<Rightarrow> r
                 | Continue s' \<Rightarrow> run_loop e fuel' t seq s')))"

declare run_loop.simps [simp del]

subsection \<open>Run\<close>

definition start_run :: "engine \<Rightarrow> wf_definition \<Rightarrow> wf_state option \<Rightarrow> task \<Rightarrow> run_state" where
  "start_run e d state t =
     (let now = eg_now e 0 in
      case state of
        None \<Rightarrow>
          \<lparr>rn_state =
             \<lparr>ws_run = \<lparr>wr_id = eg_new_id e 1, wr_task_id = tk_id t, wr_workflow_definition_id = wd_id d,
                wr_workflow_version = wd_version d, wr_status = RunRunning, wr_started_at = Some now,
                wr_completed_at = None, wr_previous_run_id = None, wr_trigger_source = tk_requested_by t,
                wr_summary = ''{}''\<rparr>,
              ws_steps = Map.empty,
              ws_events = [\<lparr>ev_at = now, ev_type = ''workflow_started'', ev_step_id = [],
                            ev_message = ''workflow execution started''\<rparr>]\<rparr>,
           rn_tick = 2, rn_finished = [], rn_blocked = [], rn_saved = [], rn_waves = []\<rparr>
      | Some ws \<Rightarrow>
          append_event \<lparr>ev_at = now, ev_type = ''workflow_resumed'', ev_step_id = [],
                        ev_message = ''workflow execution resumed''\<rparr>
            \<lparr>rn_state = ws\<lparr>ws_run := (ws_run ws)\<lparr>wr_status := RunRunning, wr_completed_at := None\<rparr>\<rparr>,
             rn_tick = 2, rn_finished = [], rn_blocked = [], rn_saved = [], rn_waves = []\<rparr>)"

definition retain_step :: "engine \<Rightarrow> bool \<Rightarrow> wf_step \<Rightarrow> run_state \<Rightarrow> run_state" where
  "retain_step e resuming st s =
     (case ws_steps (rn_state s) (st_id st) of
        None \<Rightarrow> s
      | Some existing \<Rightarrow>
          if sr_status (ss_run existing) = StepSucceeded \<and> \<not> st_rerun_on_input_change st
          then (let s1 = finish_step (st_id st) s in
                if resuming then event e ''step_resumed'' (st_id st) ''previous successful result retained'' s1
                else s1)
          else s)"

definition run :: "engine \<Rightarrow> nat \<Rightarrow> wf_definition \<Rightarrow> wf_state option \<Rightarrow> task \<Rightarrow> run_result" where
  "run e fuel d state t =
     (case validate (eg_json e) (eg_iter e) (eg_registry e) d of
        Some er \<Rightarrow> Rejected er
      | None \<Rightarrow>
          (case save e (start_run e d state t) of
             (s, Some er) \<Rightarrow> Returned s (Some er)
           | (s, None) \<Rightarrow>
               (case topological (Suc (length (wd_steps d))) d of
                  None \<Rightarrow> OutOfFuel
                | Some seq \<Rightarrow>
                    run_loop e fuel t seq (fold (retain_step e (state \<noteq> None)) seq s))))"

subsection \<open>What the operations change\<close>

abbreviation steps_of :: "run_state \<Rightarrow> string \<rightharpoonup> step_state" where
  "steps_of s \<equiv> ws_steps (rn_state s)"

abbreviation events_of :: "run_state \<Rightarrow> wf_event list" where
  "events_of s \<equiv> ws_events (rn_state s)"

abbreviation run_of :: "run_state \<Rightarrow> workflow_run" where
  "run_of s \<equiv> ws_run (rn_state s)"

definition status_at :: "run_state \<Rightarrow> string \<Rightarrow> step_status option" where
  "status_at s sid = map_option (\<lambda>ss. sr_status (ss_run ss)) (steps_of s sid)"

definition settled_at :: "run_state \<Rightarrow> string \<Rightarrow> bool" where
  "settled_at s sid \<longleftrightarrow> status_at s sid = Some StepSucceeded \<or> status_at s sid = Some StepSkipped"

definition same_frame :: "run_state \<Rightarrow> run_state \<Rightarrow> bool" where
  "same_frame s s' \<longleftrightarrow>
     run_of s' = run_of s \<and> rn_saved s' = rn_saved s \<and> rn_waves s' = rn_waves s \<and> rn_tick s \<le> rn_tick s'"

named_theorems run_defs "the definitions of the operations on a run state"

declare put_step_def [run_defs] set_run_status_def [run_defs] append_event_def [run_defs]
  pass_tick_def [run_defs] event_def [run_defs] finish_step_def [run_defs] block_step_def [run_defs]
  same_frame_def [run_defs]

lemma dependencies_succeeded_iff:
  "dependencies_succeeded st (steps_of s) \<longleftrightarrow> (\<forall>d \<in> set (st_depends_on st). settled_at s d)"
  by (auto simp: dependencies_succeeded_def list_all_iff settled_at_def status_at_def split: option.splits)

definition logged :: "string \<Rightarrow> string \<Rightarrow> run_state \<Rightarrow> run_state \<Rightarrow> bool" where
  "logged typ sid s s' \<longleftrightarrow>
     (\<exists>ev. events_of s' = events_of s @ [ev] \<and> ev_type ev = typ \<and> ev_step_id ev = sid)"

text \<open>The three ways in which planning settles or postpones a step without executing it.\<close>

definition kept :: "wf_step \<Rightarrow> run_state \<Rightarrow> run_state \<Rightarrow> bool" where
  "kept st s s' \<longleftrightarrow>
     settled_at s (st_id st) \<and> steps_of s' = steps_of s \<and>
     rn_finished s' = append_unique (rn_finished s) (st_id st) \<and> rn_blocked s' = rn_blocked s \<and>
     logged ''step_resumed'' (st_id st) s s'"

definition skipped :: "wf_step \<Rightarrow> run_state \<Rightarrow> run_state \<Rightarrow> bool" where
  "skipped st s s' \<longleftrightarrow>
     (\<exists>ss. steps_of s' = (steps_of s)(st_id st \<mapsto> ss) \<and> sr_status (ss_run ss) = StepSkipped) \<and>
     rn_finished s' = append_unique (rn_finished s) (st_id st) \<and> rn_blocked s' = rn_blocked s \<and>
     logged ''step_skipped'' (st_id st) s s'"

definition awaiting :: "wf_step \<Rightarrow> run_state \<Rightarrow> run_state \<Rightarrow> bool" where
  "awaiting st s s' \<longleftrightarrow>
     (\<exists>ss. steps_of s' = (steps_of s)(st_id st \<mapsto> ss) \<and> sr_status (ss_run ss) = StepAwaitingApproval) \<and>
     rn_finished s' = rn_finished s \<and> rn_blocked s' = append_unique (rn_blocked s) (st_id st) \<and>
     logged ''approval_required'' (st_id st) s s'"

definition started :: "wf_step \<Rightarrow> step_plan \<Rightarrow> run_state \<Rightarrow> run_state \<Rightarrow> bool" where
  "started st p s s' \<longleftrightarrow>
     sp_definition p = st \<and> steps_of s' = (steps_of s)(st_id st \<mapsto> sp_state p) \<and>
     sr_status (ss_run (sp_state p)) = StepRunning \<and>
     rn_finished s' = rn_finished s \<and> rn_blocked s' = rn_blocked s \<and>
     logged ''step_started'' (st_id st) s s'"

definition approval_given :: "engine \<Rightarrow> wf_step \<Rightarrow> bool \<Rightarrow> bool" where
  "approval_given e st approved \<longleftrightarrow>
     (\<exists>c. registry_get (eg_registry e) (st_capability st) = Some c \<and>
        (if st_approval_required st \<or> mf_approval_required (cap_manifest c)
         then approved \<and> (\<exists>ask n. eg_approval e = Some ask \<and> ask n st (mf_risk (cap_manifest c)) = Inr True)
         else \<not> approved))"

lemma transition_step_status [simp]: "sr_status (ss_run (transition_step sha i ws st input hash status)) = status"
  by (simp add: transition_step_def new_step_def Let_def split: option.split)

lemma skip_step_effect: "skipped st s (skip_step e st input hash s) \<and> same_frame s (skip_step e st input hash s)"
  by (simp add: skip_step_def next_step_state_def skipped_def logged_def run_defs complete_step_def)
    (rule exI, rule conjI, rule refl, simp)

lemma await_approval_effect:
  "awaiting st s (await_approval e st input hash s) \<and> same_frame s (await_approval e st input hash s)"
  by (simp add: await_approval_def next_step_state_def awaiting_def logged_def run_defs)
    (rule exI, rule conjI, rule refl, simp)

lemma start_step_effect:
  "start_step e st m input hash approved s = (p, s') \<Longrightarrow>
     started st p s s' \<and> same_frame s s' \<and> sp_approved p = approved"
  by (auto simp: start_step_def next_step_state_def started_def logged_def run_defs Let_def)

lemma started_pass_tick: "started st p (pass_tick s) s' = started st p s s'"
  by (simp add: started_def logged_def run_defs)

lemma same_frame_pass_tick: "same_frame (pass_tick s) s' \<Longrightarrow> same_frame s s'"
  by (simp add: run_defs)

lemma plan_approved_effect:
  assumes "registry_get (eg_registry e) (st_capability st) = Some c"
  shows "case plan_approved e st (cap_manifest c) input hash s of
      StepDone s' \<Rightarrow> awaiting st s s' \<and> same_frame s s'
    | StepPlan p s' \<Rightarrow> started st p s s' \<and> same_frame s s' \<and> approval_given e st (sp_approved p)
    | StepStopped r \<Rightarrow> \<exists>cls er. r = fail_run e (st_id st) cls er (pass_tick s)"
proof (cases "st_approval_required st \<or> mf_approval_required (cap_manifest c)")
  case False
  obtain p s' where ps: "start_step e st (cap_manifest c) input hash False s = (p, s')" by fastforce
  then show ?thesis
    using start_step_effect [OF ps] False assms by (simp add: plan_approved_def approval_given_def)
next
  case need: True
  show ?thesis
  proof (cases "eg_approval e")
    case None
    then show ?thesis using need await_approval_effect by (simp add: plan_approved_def)
  next
    case (Some ask)
    obtain p s' where ps: "start_step e st (cap_manifest c) input hash True (pass_tick s) = (p, s')" by fastforce
    show ?thesis
      using start_step_effect [OF ps] need assms Some ps
      by (auto simp: plan_approved_def approval_given_def started_pass_tick same_frame_pass_tick
          split: sum.split)
  qed
qed

lemma plan_step_effect:
  "case plan_step e st s of
      StepDone s' \<Rightarrow> (kept st s s' \<or> skipped st s s' \<or> awaiting st s s') \<and> same_frame s s'
    | StepPlan p s' \<Rightarrow> started st p s s' \<and> same_frame s s' \<and> approval_given e st (sp_approved p)
    | StepStopped r \<Rightarrow> r = Panicked \<or> (\<exists>cls er. r = fail_run e (st_id st) cls er s \<or>
                                              r = fail_run e (st_id st) cls er (pass_tick s))"
proof -
  have kept: "kept st s (event e ''step_resumed'' (st_id st) msg (finish_step (st_id st) s)) \<and>
      same_frame s (event e ''step_resumed'' (st_id st) msg (finish_step (st_id st) s))"
    if "retained st hash (steps_of s)" for hash msg
    using that by (auto simp: retained_def kept_def settled_at_def status_at_def logged_def run_defs
        split: option.splits)
  have approved: "case plan_approved e st (cap_manifest c) input hash s of
      StepDone s' \<Rightarrow> (kept st s s' \<or> skipped st s s' \<or> awaiting st s s') \<and> same_frame s s'
    | StepPlan p s' \<Rightarrow> started st p s s' \<and> same_frame s s' \<and> approval_given e st (sp_approved p)
    | StepStopped r \<Rightarrow> r = Panicked \<or> (\<exists>cls er. r = fail_run e (st_id st) cls er s \<or>
                                              r = fail_run e (st_id st) cls er (pass_tick s))"
    if "registry_get (eg_registry e) (st_capability st) = Some c" for c input hash
    using plan_approved_effect [OF that, where input = input and hash = hash and s = s] by (auto split: step_planning.splits)
  show ?thesis
    using kept approved skip_step_effect [of st s e]
    by (auto simp: plan_step_def Let_def split: option.split sum.split bool.split)
qed

subsection \<open>The invariant of the loop\<close>

definition run_inv :: "wf_step list \<Rightarrow> run_state \<Rightarrow> bool" where
  "run_inv seq s \<longleftrightarrow>
     distinct (rn_finished s) \<and> distinct (rn_blocked s) \<and>
     set (rn_finished s) \<subseteq> st_id ` set seq \<and> set (rn_blocked s) \<subseteq> st_id ` set seq \<and>
     set (rn_finished s) \<inter> set (rn_blocked s) = {} \<and>
     (\<forall>sid \<in> set (rn_finished s). settled_at s sid) \<and>
     wr_status (run_of s) = RunRunning"

definition progress :: "run_state \<Rightarrow> nat" where
  "progress s = length (rn_finished s) + length (rn_blocked s)"

definition untouched :: "string \<Rightarrow> run_state \<Rightarrow> bool" where
  "untouched sid s \<longleftrightarrow> sid \<notin> set (rn_finished s) \<and> sid \<notin> set (rn_blocked s)"

lemma run_inv_progress: "run_inv seq s \<Longrightarrow> progress s \<le> length seq"
proof -
  assume inv: "run_inv seq s"
  have "progress s = card (set (rn_finished s) \<union> set (rn_blocked s))"
    using inv by (simp add: run_inv_def progress_def card_Un_disjoint distinct_card)
  also have "\<dots> \<le> card (st_id ` set seq)"
    using inv by (intro card_mono) (auto simp: run_inv_def)
  also have "\<dots> \<le> length seq"
    using card_length [of "map st_id seq"] by simp
  finally show ?thesis .
qed

lemma length_append_unique: "x \<notin> set xs \<Longrightarrow> length (append_unique xs x) = Suc (length xs)"
  by (simp add: append_unique_def)

lemma settled_at_upd:
  "steps_of s' = (steps_of s)(k \<mapsto> ss) \<Longrightarrow>
     settled_at s' sid = (if sid = k then settled (sr_status (ss_run ss)) else settled_at s sid)"
  by (auto simp: settled_at_def status_at_def settled_def)

lemma settled_at_same: "steps_of s' = steps_of s \<Longrightarrow> settled_at s' sid = settled_at s sid"
  by (simp add: settled_at_def status_at_def)

lemma settled_at_cong: "steps_of s' sid = steps_of s sid \<Longrightarrow> settled_at s' sid = settled_at s sid"
  by (simp add: settled_at_def status_at_def)

lemma finish_inv:
  assumes inv: "run_inv seq s" and sid: "sid \<in> st_id ` set seq" "untouched sid s"
    and fin: "rn_finished s' = append_unique (rn_finished s) sid" and blk: "rn_blocked s' = rn_blocked s"
    and other: "\<And>k. k \<noteq> sid \<Longrightarrow> steps_of s' k = steps_of s k" and set: "settled_at s' sid"
    and status: "wr_status (run_of s') = RunRunning"
  shows "run_inv seq s' \<and> progress s' = Suc (progress s) \<and> (\<forall>k. k \<noteq> sid \<longrightarrow> untouched k s' = untouched k s)"
proof -
  have "settled_at s' k" if "k \<in> set (rn_finished s)" for k
  proof -
    have "k \<noteq> sid" using that sid(2) by (auto simp: untouched_def)
    from settled_at_cong [OF other [OF this]] show ?thesis using inv that by (simp add: run_inv_def)
  qed
  then show ?thesis
    using inv sid set status
    by (simp add: run_inv_def fin blk untouched_def progress_def length_append_unique)
qed

lemma block_inv:
  assumes inv: "run_inv seq s" and sid: "sid \<in> st_id ` set seq" "untouched sid s"
    and fin: "rn_finished s' = rn_finished s" and blk: "rn_blocked s' = append_unique (rn_blocked s) sid"
    and other: "\<And>k. k \<noteq> sid \<Longrightarrow> steps_of s' k = steps_of s k"
    and status: "wr_status (run_of s') = RunRunning"
  shows "run_inv seq s' \<and> progress s' = Suc (progress s) \<and> (\<forall>k. k \<noteq> sid \<longrightarrow> untouched k s' = untouched k s)"
proof -
  have "settled_at s' k" if "k \<in> set (rn_finished s)" for k
  proof -
    have "k \<noteq> sid" using that sid(2) by (auto simp: untouched_def)
    from settled_at_cong [OF other [OF this]] show ?thesis using inv that by (simp add: run_inv_def)
  qed
  then show ?thesis
    using inv sid status
    by (simp add: run_inv_def fin blk untouched_def progress_def length_append_unique)
qed

lemma touch_inv:
  assumes inv: "run_inv seq s" and sid: "untouched sid s"
    and same: "rn_finished s' = rn_finished s" "rn_blocked s' = rn_blocked s"
    and other: "\<And>k. k \<noteq> sid \<Longrightarrow> steps_of s' k = steps_of s k"
    and status: "wr_status (run_of s') = RunRunning"
  shows "run_inv seq s' \<and> progress s' = progress s \<and> (\<forall>k. untouched k s' = untouched k s)"
proof -
  have "settled_at s' k" if "k \<in> set (rn_finished s)" for k
  proof -
    have "k \<noteq> sid" using that sid by (auto simp: untouched_def)
    from settled_at_cong [OF other [OF this]] show ?thesis using inv that by (simp add: run_inv_def)
  qed
  then show ?thesis using inv status by (simp add: run_inv_def same untouched_def progress_def)
qed

lemma planned_inv:
  assumes "run_inv seq s" and st: "st \<in> set seq" "untouched (st_id st) s" and "same_frame s s'"
    and "kept st s s' \<or> skipped st s s' \<or> awaiting st s s'"
  shows "run_inv seq s' \<and> progress s' = Suc (progress s) \<and>
    (\<forall>k. k \<noteq> st_id st \<longrightarrow> untouched k s' = untouched k s) \<and> (\<forall>k. k \<noteq> st_id st \<longrightarrow> steps_of s' k = steps_of s k)"
proof -
  have sid: "st_id st \<in> st_id ` set seq" using st(1) by simp
  have status: "wr_status (run_of s') = RunRunning" using assms(1,4) by (simp add: run_inv_def same_frame_def)
  from assms(5) show ?thesis
  proof (elim disjE)
    assume k: "kept st s s'"
    then have same: "steps_of s' = steps_of s" by (simp add: kept_def)
    have "settled_at s' (st_id st)" using k by (simp add: kept_def settled_at_same [OF same])
    then show ?thesis
      using finish_inv [OF assms(1) sid st(2) _ _ _ _ status] k same by (simp add: kept_def)
  next
    assume k: "skipped st s s'"
    then obtain ss where ss: "steps_of s' = (steps_of s)(st_id st \<mapsto> ss)" "sr_status (ss_run ss) = StepSkipped"
      by (auto simp: skipped_def)
    have "settled_at s' (st_id st)" by (simp add: settled_at_upd [OF ss(1)] ss(2) settled_def)
    then show ?thesis
      using finish_inv [OF assms(1) sid st(2) _ _ _ _ status] k ss by (simp add: skipped_def)
  next
    assume k: "awaiting st s s'"
    then obtain ss where ss: "steps_of s' = (steps_of s)(st_id st \<mapsto> ss)"
      by (auto simp: awaiting_def)
    then show ?thesis
      using block_inv [OF assms(1) sid st(2) _ _ _ status] k by (simp add: awaiting_def)
  qed
qed

lemma started_inv:
  assumes "run_inv seq s" and "untouched (st_id st) s" and "same_frame s s'" and "started st p s s'"
  shows "run_inv seq s' \<and> progress s' = progress s \<and> (\<forall>k. untouched k s' = untouched k s)"
proof (rule touch_inv [OF assms(1,2)])
  show "wr_status (run_of s') = RunRunning" using assms(1,3) by (simp add: run_inv_def same_frame_def)
qed (use assms(4) in \<open>simp_all add: started_def\<close>)

text \<open>The steps of a wave are a subsequence of the ready ones; none of them is finished or blocked.\<close>

definition wave_planned :: "engine \<Rightarrow> run_state \<Rightarrow> step_plan list \<Rightarrow> bool" where
  "wave_planned e s plans \<longleftrightarrow>
     list_all (\<lambda>p. untouched (st_id (sp_definition p)) s \<and>
                   steps_of s (st_id (sp_definition p)) = Some (sp_state p) \<and>
                   approval_given e (sp_definition p) (sp_approved p)) plans"

lemma same_frame_trans: "same_frame a b \<Longrightarrow> same_frame b c \<Longrightarrow> same_frame a c"
  by (simp add: same_frame_def)

lemma plan_wave_inv:
  "plan_wave e maxp ready s plans changed = Planned s' plans' changed' \<Longrightarrow>
     run_inv seq s \<Longrightarrow> set ready \<subseteq> set seq \<Longrightarrow> distinct (map st_id (map sp_definition plans @ ready)) \<Longrightarrow>
     \<forall>st \<in> set ready. untouched (st_id st) s \<Longrightarrow> wave_planned e s plans \<Longrightarrow> (plans \<noteq> [] \<longrightarrow> changed) \<Longrightarrow>
     run_inv seq s' \<and> same_frame s s' \<and> wave_planned e s' plans' \<and> (plans' \<noteq> [] \<longrightarrow> changed') \<and>
     (\<exists>new. plans' = plans @ new \<and> subseq (map sp_definition new) ready) \<and>
     length plans' \<le> max maxp (length plans) \<and>
     progress s + length plans \<le> progress s' + length plans' \<and>
     (ready \<noteq> [] \<and> length plans < maxp \<longrightarrow> progress s + length plans < progress s' + length plans')"
proof (induction e maxp ready s plans changed rule: plan_wave.induct)
  case (1 e maxp s plans changed)
  then show ?case by (simp add: same_frame_def)
next
  case (2 e maxp st ready s plans changed)
  show ?case
  proof (cases "length plans \<ge> maxp")
    case True
    then show ?thesis using "2.prems" by (simp add: same_frame_def)
  next
    case less: False
    have st: "st \<in> set seq" "untouched (st_id st) s" and ne: "\<forall>t \<in> set ready. st_id t \<noteq> st_id st"
      and nep: "\<forall>p \<in> set plans. st_id (sp_definition p) \<noteq> st_id st"
      using "2.prems"(3-5) by (auto simp: image_iff)
    note effect = plan_step_effect [where e = e and st = st and s = s]
    show ?thesis
    proof (cases "plan_step e st s")
      case (StepStopped r)
      then show ?thesis using "2.prems"(1) less by simp
    next
      case (StepDone t)
      then have t: "kept st s t \<or> skipped st s t \<or> awaiting st s t" "same_frame s t" using effect by simp_all
      note inv = planned_inv [OF "2.prems"(2) st t(2) t(1)]
      have "wave_planned e t plans"
        using "2.prems"(6) nep inv by (auto simp: wave_planned_def list_all_iff)
      moreover have "\<forall>u \<in> set ready. untouched (st_id u) t" using "2.prems"(5) ne inv by auto
      ultimately have ih: "run_inv seq s' \<and> same_frame t s' \<and> wave_planned e s' plans' \<and> (plans' \<noteq> [] \<longrightarrow> changed') \<and>
         (\<exists>new. plans' = plans @ new \<and> subseq (map sp_definition new) ready) \<and>
         length plans' \<le> max maxp (length plans) \<and>
         progress t + length plans \<le> progress s' + length plans' \<and>
         (ready \<noteq> [] \<and> length plans < maxp \<longrightarrow> progress t + length plans < progress s' + length plans')"
        using "2.prems"(1,3,4) less StepDone inv by (intro 2(1) [OF less StepDone]) auto
      then have "same_frame s s'" using t(2) by (blast intro: same_frame_trans)
      then show ?thesis using ih inv by (auto intro: list_emb_Cons)
    next
      case (StepPlan p t)
      then have t: "started st p s t" "same_frame s t" "approval_given e st (sp_approved p)" using effect by simp_all
      note inv = started_inv [OF "2.prems"(2) st(2) t(2) t(1)]
      have "wave_planned e t (plans @ [p])"
        using "2.prems"(6) nep inv t st(2) by (auto simp: wave_planned_def list_all_iff started_def)
      moreover have "\<forall>u \<in> set ready. untouched (st_id u) t" using "2.prems"(5) inv by auto
      moreover have def: "sp_definition p = st" using t(1) by (simp add: started_def)
      ultimately have ih: "run_inv seq s' \<and> same_frame t s' \<and> wave_planned e s' plans' \<and> (plans' \<noteq> [] \<longrightarrow> changed') \<and>
         (\<exists>new. plans' = (plans @ [p]) @ new \<and> subseq (map sp_definition new) ready) \<and>
         length plans' \<le> max maxp (length (plans @ [p])) \<and>
         progress t + length (plans @ [p]) \<le> progress s' + length plans' \<and>
         (ready \<noteq> [] \<and> length (plans @ [p]) < maxp \<longrightarrow> progress t + length (plans @ [p]) < progress s' + length plans')"
        using "2.prems"(1,3,4) less StepPlan inv by (intro 2(2) [OF less StepPlan]) auto
      then obtain new where new: "plans' = plans @ (p # new)" "subseq (map sp_definition new) ready" by auto
      have "subseq (map sp_definition (p # new)) (st # ready)" using new(2) def by simp
      moreover have "same_frame s s'" using t(2) ih by (blast intro: same_frame_trans)
      ultimately show ?thesis using ih inv less new(1) by auto
    qed
  qed
qed

subsection \<open>Recording outcomes\<close>

lemma save_fields:
  "save e s = (s', er) \<Longrightarrow>
     rn_state s' = rn_state s \<and> rn_finished s' = rn_finished s \<and> rn_blocked s' = rn_blocked s \<and>
     rn_waves s' = rn_waves s \<and> rn_tick s \<le> rn_tick s' \<and>
     rn_saved s' = (if eg_persister e = None then rn_saved s else rn_saved s @ [rn_state s])"
  by (auto simp: save_def run_defs split: option.splits)

lemma save_inv: "save e s = (s', er) \<Longrightarrow> run_inv seq s' = run_inv seq s \<and> progress s' = progress s \<and> untouched k s' = untouched k s"
  using save_fields [of e s s' er]
  by (simp add: run_inv_def progress_def untouched_def settled_at_def status_at_def)

lemma set_summary_fields:
  "steps_of (set_summary o1 s) = steps_of s \<and> events_of (set_summary o1 s) = events_of s \<and>
   wr_status (run_of (set_summary o1 s)) = wr_status (run_of s) \<and> wr_id (run_of (set_summary o1 s)) = wr_id (run_of s) \<and>
   rn_finished (set_summary o1 s) = rn_finished s \<and> rn_blocked (set_summary o1 s) = rn_blocked s \<and>
   rn_waves (set_summary o1 s) = rn_waves s \<and> rn_tick (set_summary o1 s) = rn_tick s \<and>
   rn_saved (set_summary o1 s) = rn_saved s"
  by (simp add: set_summary_def)

definition outcome_event :: "step_outcome \<Rightarrow> string" where
  "outcome_event o1 =
     (if so_err o1 = None then ''step_succeeded''
      else if so_primary_failure o1 then ''step_failed'' else ''step_cancelled'')"

lemma record_outcome_fields:
  "steps_of (record_outcome e o1 s) = (steps_of s)(st_id (so_definition o1) \<mapsto> outcome_state o1) \<and>
   logged (outcome_event o1) (st_id (so_definition o1)) s (record_outcome e o1 s) \<and>
   wr_status (run_of (record_outcome e o1 s)) = wr_status (run_of s) \<and>
   wr_id (run_of (record_outcome e o1 s)) = wr_id (run_of s) \<and>
   rn_finished (record_outcome e o1 s) =
     (if so_err o1 = None then append_unique (rn_finished s) (st_id (so_definition o1)) else rn_finished s) \<and>
   rn_blocked (record_outcome e o1 s) = rn_blocked s \<and>
   rn_waves (record_outcome e o1 s) = rn_waves s \<and> rn_saved (record_outcome e o1 s) = rn_saved s \<and>
   rn_tick s \<le> rn_tick (record_outcome e o1 s)"
proof (cases "so_err o1")
  case None
  then show ?thesis
    by (simp add: record_outcome_def Let_def logged_def outcome_event_def event_def pass_tick_def
        append_event_def set_summary_fields put_step_def finish_step_def)
next
  case (Some er)
  then show ?thesis
    by (simp add: record_outcome_def Let_def logged_def outcome_event_def event_def pass_tick_def
        append_event_def put_step_def)
qed

lemma outcome_state_settled: "settled (sr_status (ss_run (outcome_state o1))) = (so_err o1 = None)"
  by (auto simp: outcome_state_def settled_def Let_def split: option.split)

lemma record_outcome_inv:
  assumes "run_inv seq s" and sid: "st_id (so_definition o1) \<in> st_id ` set seq" "untouched (st_id (so_definition o1)) s"
  shows "run_inv seq (record_outcome e o1 s) \<and>
    progress (record_outcome e o1 s) = progress s + (if so_err o1 = None then 1 else 0) \<and>
    (\<forall>k. k \<noteq> st_id (so_definition o1) \<longrightarrow> untouched k (record_outcome e o1 s) = untouched k s)"
proof -
  let ?s = "record_outcome e o1 s"
  note fields = record_outcome_fields [where e = e and ?o1.0 = o1 and s = s]
  have status: "wr_status (run_of ?s) = RunRunning" using fields assms(1) by (simp add: run_inv_def)
  have other: "\<And>k. k \<noteq> st_id (so_definition o1) \<Longrightarrow> steps_of ?s k = steps_of s k" using fields by simp
  show ?thesis
  proof (cases "so_err o1")
    case None
    have "settled_at ?s (st_id (so_definition o1))"
      using fields None by (simp add: settled_at_upd outcome_state_settled)
    then show ?thesis
      using finish_inv [OF assms(1) sid _ _ other _ status] fields None by simp
  next
    case (Some er)
    then show ?thesis
      using touch_inv [OF assms(1) sid(2) _ _ other status] fields by simp
  qed
qed

lemma record_outcomes_inv:
  assumes "run_inv seq s" and "distinct (map (\<lambda>x. st_id (so_definition x)) os)"
    and "\<forall>o1 \<in> set os. st_id (so_definition o1) \<in> st_id ` set seq \<and> untouched (st_id (so_definition o1)) s"
  shows "case record_outcomes e os primary s of
      Inl r \<Rightarrow> \<exists>s' er. r = Returned s' (Some er) \<and> run_inv seq s' \<and> rn_waves s' = rn_waves s \<and> set (rn_saved s) \<subseteq> set (rn_saved s')
    | Inr (s', primary') \<Rightarrow>
        run_inv seq s' \<and> rn_waves s' = rn_waves s \<and> rn_tick s \<le> rn_tick s' \<and> set (rn_saved s) \<subseteq> set (rn_saved s') \<and>
        progress s' = progress s + length (filter (\<lambda>o1. so_err o1 = None) os) \<and>
        (primary' = None \<longrightarrow> (\<forall>o1 \<in> set os. so_err o1 \<noteq> None \<longrightarrow> \<not> so_primary_failure o1)) \<and>
        (primary \<noteq> None \<longrightarrow> primary' = primary)"
  using assms
proof (induction os arbitrary: primary s)
  case Nil
  then show ?case by simp
next
  case (Cons o1 os)
  let ?s1 = "record_outcome e o1 s"
  obtain s2 er where sv: "save e ?s1 = (s2, er)" by fastforce
  have inv1: "run_inv seq ?s1 \<and> progress ?s1 = progress s + (if so_err o1 = None then 1 else 0) \<and>
      (\<forall>k. k \<noteq> st_id (so_definition o1) \<longrightarrow> untouched k ?s1 = untouched k s)"
    using Cons.prems by (intro record_outcome_inv) auto
  then have inv2: "run_inv seq s2" "progress s2 = progress s + (if so_err o1 = None then 1 else 0)"
    "\<And>k. k \<noteq> st_id (so_definition o1) \<Longrightarrow> untouched k s2 = untouched k s"
    using save_inv [OF sv] by auto
  note fields = record_outcome_fields [where e = e and ?o1.0 = o1 and s = s] save_fields [OF sv]
  show ?case
  proof (cases er)
    case (Some err)
    then show ?thesis using sv inv2 fields by auto
  next
    case None
    let ?p = "if primary = None \<and> so_err o1 \<noteq> None \<and> so_primary_failure o1 then Some o1 else primary"
    have "\<forall>x \<in> set os. st_id (so_definition x) \<in> st_id ` set seq \<and> untouched (st_id (so_definition x)) s2"
    proof
      fix x assume x: "x \<in> set os"
      then have "st_id (so_definition x) \<noteq> st_id (so_definition o1)" using Cons.prems(2) by (auto simp: image_iff)
      then show "st_id (so_definition x) \<in> st_id ` set seq \<and> untouched (st_id (so_definition x)) s2"
        using Cons.prems(3) inv2(3) x by simp
    qed
    note ih = Cons.IH [OF inv2(1) _ this, of ?p]
    show ?thesis
      using ih Cons.prems(2) sv None inv2(2) fields
      by (cases "record_outcomes e os ?p s2") (auto split: if_splits)
  qed
qed

subsection \<open>A wave\<close>

definition proper_arrival :: "engine \<Rightarrow> bool" where
  "proper_arrival e \<longleftrightarrow> (\<forall>w xs. mset (eg_arrival e w xs) = mset xs)"

text \<open>
  The run's context ends only by a cancellation of the controls or of the caller's context, and
  neither is ever taken back.
\<close>

definition lasting_stop :: "engine \<Rightarrow> bool" where
  "lasting_stop e \<longleftrightarrow>
     (\<forall>w sid n. eg_stopped e w sid \<longrightarrow> w < n \<longrightarrow> eg_cancelled e n \<or> eg_ctx_err e n \<noteq> None)"

lemma execute_step_definition [simp]: "so_definition (execute_step e w t r p) = sp_definition p"
  by (simp add: execute_step_def Let_def split: option.split)

definition wave_outcome :: "engine \<Rightarrow> nat \<Rightarrow> task \<Rightarrow> string \<Rightarrow> step_plan \<Rightarrow> step_outcome" where
  "wave_outcome e w t r p =
     (let o1 = execute_step e w t r p in
      o1\<lparr>so_primary_failure := (so_err o1 \<noteq> None \<and> \<not> eg_stopped e w (st_id (so_definition o1)))\<rparr>)"

lemma wave_outcome_definition [simp]: "so_definition (wave_outcome e w t r p) = sp_definition p"
  by (simp add: wave_outcome_def Let_def)

lemma execute_wave_mset:
  "proper_arrival e \<Longrightarrow> mset (execute_wave e w t r plans) = mset (map (wave_outcome e w t r) plans)"
  unfolding execute_wave_def proper_arrival_def wave_outcome_def [abs_def] by simp

lemma rank_of_nth: "distinct (map st_id seq) \<Longrightarrow> i < length seq \<Longrightarrow> rank_of seq (st_id (seq ! i)) = i"
proof (induction seq arbitrary: i)
  case (Cons a seq)
  then show ?case
    by (cases i) (auto simp: rank_of_def)
qed simp

lemma sorted_rank: "distinct (map st_id seq) \<Longrightarrow> sorted_wrt (<) (map (\<lambda>s. rank_of seq (st_id s)) seq)"
  by (simp add: sorted_wrt_iff_nth_less rank_of_nth)

lemma sorted_wrt_subseq: "subseq xs ys \<Longrightarrow> sorted_wrt P ys \<Longrightarrow> sorted_wrt P xs"
proof (induction rule: list_emb.induct)
  case (list_emb_Cons xs ys y)
  then show ?case by simp
next
  case (list_emb_Cons2 x y xs ys)
  then show ?case by (auto dest: list_emb_set)
qed simp

text \<open>The outcomes are recorded in the order of the plans, however they arrive.\<close>

lemma wave_in_plan_order:
  assumes "proper_arrival e" and "distinct (map st_id seq)" and "subseq (map sp_definition plans) seq"
  shows "sort_key (\<lambda>o1. rank_of seq (st_id (so_definition o1))) (execute_wave e w t r plans)
    = map (wave_outcome e w t r) plans"
proof -
  let ?f = "\<lambda>o1. rank_of seq (st_id (so_definition o1))"
  have "subseq (map (\<lambda>s. rank_of seq (st_id s)) (map sp_definition plans)) (map (\<lambda>s. rank_of seq (st_id s)) seq)"
    using assms(3) by (rule subseq_map)
  then have strict: "sorted_wrt (<) (map ?f (map (wave_outcome e w t r) plans))"
    using sorted_wrt_subseq sorted_rank [OF assms(2)] by (fastforce simp: o_def)
  then have inj: "distinct (map ?f (map (wave_outcome e w t r) plans))" and "sorted (map ?f (map (wave_outcome e w t r) plans))"
    by (simp_all add: strict_sorted_iff)
  moreover have same: "mset (execute_wave e w t r plans) = mset (map (wave_outcome e w t r) plans)"
    using assms(1) by (rule execute_wave_mset)
  moreover have "inj_on ?f (set (map (wave_outcome e w t r) plans))"
    using distinct_map [THEN iffD1, OF inj] by blast
  ultimately show ?thesis by (metis mset_eq_setD sort_key_inj_key_eq)
qed

lemma subseq_set: "subseq xs ys \<Longrightarrow> set xs \<subseteq> set ys"
  by (induction rule: list_emb.induct) auto

lemma subseq_distinct: "subseq xs ys \<Longrightarrow> distinct ys \<Longrightarrow> distinct xs"
  by (induction rule: list_emb.induct) (auto dest: subseq_set)

subsection \<open>The waves of a run\<close>

definition wave_ok :: "engine \<Rightarrow> wf_step list \<Rightarrow> wf_state list \<Rightarrow> step_plan list \<Rightarrow> bool" where
  "wave_ok e seq saved ps \<longleftrightarrow>
     ps \<noteq> [] \<and> length ps \<le> max_parallel e \<and> subseq (map sp_definition ps) seq \<and>
     list_all (\<lambda>p. sp_parallel_share p = int (length ps) \<and> approval_given e (sp_definition p) (sp_approved p)) ps \<and>
     (eg_persister e \<noteq> None \<longrightarrow>
        (\<exists>ws \<in> set saved. list_all (\<lambda>p. ws_steps ws (st_id (sp_definition p)) = Some (sp_state p)) ps))"

definition waves_inv :: "engine \<Rightarrow> wf_step list \<Rightarrow> run_state \<Rightarrow> bool" where
  "waves_inv e seq s \<longleftrightarrow> list_all (wave_ok e seq (rn_saved s)) (rn_waves s)"

lemma wave_ok_mono: "wave_ok e seq saved ps \<Longrightarrow> set saved \<subseteq> set saved' \<Longrightarrow> wave_ok e seq saved' ps"
  by (auto simp: wave_ok_def)

lemma waves_inv_mono:
  "waves_inv e seq s \<Longrightarrow> rn_waves s' = rn_waves s \<Longrightarrow> set (rn_saved s) \<subseteq> set (rn_saved s') \<Longrightarrow> waves_inv e seq s'"
  by (auto simp: waves_inv_def list_all_iff intro: wave_ok_mono)

subsection \<open>The ended_as of a run\<close>

text \<open>What a return keeps: the steps, the waves, and everything saved so far.\<close>

definition ended_as :: "run_status \<Rightarrow> run_state \<Rightarrow> run_state \<Rightarrow> bool" where
  "ended_as status s s' \<longleftrightarrow>
     wr_status (run_of s') = status \<and> steps_of s' = steps_of s \<and> rn_waves s' = rn_waves s \<and>
     set (rn_saved s) \<subseteq> set (rn_saved s') \<and>
     (\<exists>ev. events_of s' = events_of s @ [ev] \<and> ev_type ev \<noteq> ''step_started'')"

lemma fail_run_ends: "\<exists>s'. fail_run e step cls er s = Returned s' (Some er) \<and> ended_as RunFailed s s'"
proof -
  let ?s = "event e ''workflow_failed'' step (cls @ '': '' @ error_text er) (set_run_status RunFailed s)"
  obtain s' x where sv: "save e ?s = (s', x)" by fastforce
  then show ?thesis
    using save_fields [OF sv] by (simp add: fail_run_def ended_as_def run_defs subset_insertI)
qed

lemma pause_run_ends: "\<exists>s'. pause_run e msg s = Returned s' None \<and> ended_as RunPaused s s'"
proof -
  let ?s = "event e ''workflow_paused'' [] msg (set_run_status RunPaused s)"
  obtain s' x where sv: "save e ?s = (s', x)" by fastforce
  then show ?thesis
    using save_fields [OF sv] by (simp add: pause_run_def ended_as_def run_defs subset_insertI)
qed

lemma terminal_ends:
  assumes "terminal e status evt s = (s', er)" and "evt \<noteq> ''step_started''"
  shows "ended_as status s s' \<and> (eg_persister e \<noteq> None \<longrightarrow> rn_saved s' \<noteq> [] \<and> last (rn_saved s') = rn_state s')"
  using assms save_fields [of e _ s' er]
  by (fastforce simp: terminal_def Let_def ended_as_def run_defs)

lemma cancel_run_ends: "\<exists>s' er. cancel_run e ctx s = Returned s' er \<and> ended_as RunCancelled s s'"
proof -
  obtain s' er where t: "terminal e RunCancelled ''workflow_cancelled'' s = (s', er)" by fastforce
  then show ?thesis using terminal_ends [OF t] by (simp add: cancel_run_def)
qed

lemma return_terminal_ends:
  "evt \<noteq> ''step_started'' \<Longrightarrow> \<exists>s' er. return_terminal e status evt s = Returned s' er \<and> ended_as status s s' \<and>
     (eg_persister e \<noteq> None \<longrightarrow> rn_saved s' \<noteq> [] \<and> last (rn_saved s') = rn_state s')"
  using terminal_ends [of e status evt s] by (cases "terminal e status evt s") (simp add: return_terminal_def)

lemma ends_waves: "ended_as status s s' \<Longrightarrow> waves_inv e seq s \<Longrightarrow> waves_inv e seq s'"
  using waves_inv_mono [of e seq s s'] by (simp add: ended_as_def)

lemma ends_pass_tick: "ended_as status (pass_tick s) s' = ended_as status s s'"
  by (simp add: ended_as_def pass_tick_def)

text \<open>A stop other than the completion of the run.\<close>

definition stop_ok :: "engine \<Rightarrow> wf_step list \<Rightarrow> run_result \<Rightarrow> bool" where
  "stop_ok e seq r \<longleftrightarrow>
     r = Panicked \<or>
     (\<exists>s' er. r = Returned s' er \<and> waves_inv e seq s' \<and> wr_status (run_of s') \<noteq> RunCompleted)"

lemma ends_stop_ok:
  "ended_as status s s' \<Longrightarrow> status \<noteq> RunCompleted \<Longrightarrow> waves_inv e seq s \<Longrightarrow> stop_ok e seq (Returned s' er)"
  using ends_waves [of status s s' e seq] by (simp add: stop_ok_def) (simp add: ended_as_def)

lemma fail_run_stop_ok: "waves_inv e seq s \<Longrightarrow> stop_ok e seq (fail_run e step cls er s)"
  using fail_run_ends [of e step cls er s] by (auto intro: ends_stop_ok)

lemma pause_run_stop_ok: "waves_inv e seq s \<Longrightarrow> stop_ok e seq (pause_run e msg s)"
  using pause_run_ends [of e msg s] by (auto intro: ends_stop_ok)

lemma cancel_run_stop_ok: "waves_inv e seq s \<Longrightarrow> stop_ok e seq (cancel_run e ctx s)"
  using cancel_run_ends [of e ctx s] by (auto intro: ends_stop_ok)

lemma waves_inv_pass_tick [simp]: "waves_inv e seq (pass_tick s) = waves_inv e seq s"
  by (simp add: waves_inv_def pass_tick_def)

lemma run_inv_pass_tick [simp]: "run_inv seq (pass_tick s) = run_inv seq s"
  by (simp add: run_inv_def pass_tick_def settled_at_def status_at_def)

lemma progress_pass_tick [simp]: "progress (pass_tick s) = progress s"
  by (simp add: progress_def pass_tick_def)

lemma untouched_pass_tick [simp]: "untouched k (pass_tick s) = untouched k s"
  by (simp add: untouched_def pass_tick_def)

subsection \<open>One pass of the loop\<close>

lemma run_wave_inv:
  assumes arr: "proper_arrival e" and dist: "distinct (map st_id seq)"
    and inv: "run_inv seq s" "waves_inv e seq s" and planned: "wave_planned e s plans"
    and sub: "subseq (map sp_definition plans) seq" and size: "plans \<noteq> []" "length plans \<le> max_parallel e"
    and saved: "eg_persister e \<noteq> None \<longrightarrow> rn_state s \<in> set (rn_saved s)"
  shows "case run_wave e t seq plans s of
      Continue s' \<Rightarrow> run_inv seq s' \<and> waves_inv e seq s' \<and>
        (lasting_stop e \<longrightarrow> progress s' = progress s + length plans)
    | Stop r \<Rightarrow> stop_ok e seq r"
proof -
  let ?plans = "map (\<lambda>p. p\<lparr>sp_parallel_share := int (length plans)\<rparr>) plans"
  let ?w = "rn_tick s" and ?rid = "wr_id (run_of s)"
  let ?outs = "map (wave_outcome e ?w t ?rid) ?plans"
  let ?s1 = "pass_tick (s\<lparr>rn_waves := rn_waves s @ [?plans]\<rparr>)"
  have defs: "map sp_definition ?plans = map sp_definition plans" by simp
  have order: "sort_key (\<lambda>o1. rank_of seq (st_id (so_definition o1))) (execute_wave e ?w t ?rid ?plans) = ?outs"
    by (rule wave_in_plan_order [OF arr dist]) (simp only: defs sub)
  have inv1: "run_inv seq ?s1" using inv(1) by (simp add: run_inv_def settled_at_def status_at_def pass_tick_def)
  have prog1: "progress ?s1 = progress s" by (simp add: progress_def pass_tick_def)
  have "wave_ok e seq (rn_saved s) ?plans"
    using size sub planned saved by (auto simp: wave_ok_def wave_planned_def list_all_iff defs o_def)
  then have waves1: "waves_inv e seq ?s1" using inv(2) by (simp add: waves_inv_def pass_tick_def)
  have ids: "map (\<lambda>x. st_id (so_definition x)) ?outs = map st_id (map sp_definition plans)" by simp
  have "distinct (map st_id (map sp_definition plans))"
    using subseq_distinct [OF subseq_map [OF sub, of st_id] dist] by simp
  then have dist': "distinct (map (\<lambda>x. st_id (so_definition x)) ?outs)" unfolding ids .
  have touched: "\<forall>o1 \<in> set ?outs. st_id (so_definition o1) \<in> st_id ` set seq \<and> untouched (st_id (so_definition o1)) ?s1"
    using planned subseq_set [OF sub]
    by (auto simp: wave_planned_def list_all_iff untouched_def pass_tick_def)
  note rec = record_outcomes_inv [OF inv1 dist' touched, where e = e and primary = None]
  show ?thesis
  proof (cases "record_outcomes e ?outs None ?s1")
    case (Inl r)
    then obtain s' er where r: "r = Returned s' (Some er)" "run_inv seq s'" "rn_waves s' = rn_waves ?s1"
        "set (rn_saved ?s1) \<subseteq> set (rn_saved s')"
      using rec by auto
    have "waves_inv e seq s'" using waves1 r(3,4) by (rule waves_inv_mono)
    then have "stop_ok e seq r" using r(1,2) by (simp add: stop_ok_def run_inv_def)
    then show ?thesis using Inl order by (simp add: run_wave_def Let_def o_def)
  next
    case (Inr res)
    obtain s2 prim where res: "res = (s2, prim)" by fastforce
    have r: "run_inv seq s2" "rn_waves s2 = rn_waves ?s1" "rn_tick ?s1 \<le> rn_tick s2" "set (rn_saved ?s1) \<subseteq> set (rn_saved s2)"
      "progress s2 = progress ?s1 + length (filter (\<lambda>o1. so_err o1 = None) ?outs)"
      "prim = None \<longrightarrow> (\<forall>o1 \<in> set ?outs. so_err o1 \<noteq> None \<longrightarrow> \<not> so_primary_failure o1)"
      using rec Inr res by auto
    have waves2: "waves_inv e seq s2" using waves1 r(2,4) by (rule waves_inv_mono)
    show ?thesis
    proof (cases "eg_cancelled e (rn_tick s2) \<or> eg_ctx_err e (rn_tick s2) \<noteq> None")
      case True
      then have "run_wave e t seq plans s = Stop (cancel_run e (eg_ctx_err e (rn_tick s2)) (pass_tick s2))"
        using Inr res order by (simp add: run_wave_def Let_def o_def)
      then show ?thesis using waves2 by (simp add: cancel_run_stop_ok)
    next
      case live: False
      show ?thesis
      proof (cases prim)
        case (Some o1)
        then have "\<exists>step cls er. run_wave e t seq plans s = Stop (fail_run e step cls er (pass_tick s2))"
          using Inr res order live by (simp add: run_wave_def Let_def o_def) blast
        then show ?thesis using waves2 by (auto simp: fail_run_stop_ok)
      next
        case None
        have cont: "run_wave e t seq plans s = Continue (pass_tick s2)"
          using Inr res order live None by (simp add: run_wave_def Let_def o_def)
        have "so_err o1 = None" if "lasting_stop e" "o1 \<in> set ?outs" for o1
        proof (rule ccontr)
          assume er: "so_err o1 \<noteq> None"
          then have "\<not> so_primary_failure o1" using r(6) None that(2) by blast
          then have "\<exists>sid. eg_stopped e ?w sid"
            using that(2) er by (auto simp: wave_outcome_def Let_def)
          moreover have "?w < rn_tick s2" using r(3) by (simp add: pass_tick_def)
          ultimately show False using live that(1) unfolding lasting_stop_def by blast
        qed
        then have "lasting_stop e \<longrightarrow> filter (\<lambda>o1. so_err o1 = None) ?outs = ?outs"
          by (auto simp: filter_id_conv)
        then have "lasting_stop e \<longrightarrow> progress s2 = progress s + length plans"
          using r(5) unfolding prog1 by (metis length_map)
        then show ?thesis using cont r(1) waves2 by simp
      qed
    qed
  qed
qed

lemma ready_steps_subseq: "subseq (ready_steps seq s) seq"
  by (simp add: ready_steps_def)

lemma ready_steps_untouched:
  "st \<in> set (ready_steps seq s) \<Longrightarrow> untouched (st_id st) s \<and> (\<forall>d \<in> set (st_depends_on st). settled_at s d)"
  by (auto simp: ready_steps_def untouched_def dependencies_succeeded_iff)

lemma iterate_inv:
  assumes arr: "proper_arrival e" and dist: "distinct (map st_id seq)"
    and inv: "run_inv seq s0" "waves_inv e seq s0"
  shows "case iterate e t seq s0 of
      Continue s' \<Rightarrow> run_inv seq s' \<and> waves_inv e seq s' \<and> (lasting_stop e \<longrightarrow> progress s0 < progress s')
    | Stop r \<Rightarrow> stop_ok e seq r"
proof -
  let ?s = "pass_tick s0"
  let ?ready = "ready_steps seq ?s"
  have inv': "run_inv seq ?s" "waves_inv e seq ?s" using inv by simp_all
  show ?thesis
  proof (cases "eg_cancelled e (rn_tick s0) \<or> eg_ctx_err e (rn_tick s0) \<noteq> None \<or> eg_paused e (rn_tick s0) \<or> ?ready = []")
    case True
    have "stop_ok e seq (return_terminal e RunCancelled ''workflow_cancelled'' ?s)"
      using return_terminal_ends [of "''workflow_cancelled''" e RunCancelled ?s]
        ends_stop_ok [of RunCancelled ?s _ e seq] inv'(2)
      by auto
    then show ?thesis
      using True inv'(2)
      by (auto simp: iterate_def Let_def cancel_run_stop_ok pause_run_stop_ok fail_run_stop_ok)
  next
    case False
    then have body: "iterate e t seq s0 =
        (case plan_wave e (max_parallel e) ?ready ?s [] False of
                 PlanStopped r \<Rightarrow> Stop r
               | Planned s1 plans changed \<Rightarrow>
                   (case (if changed then save e s1 else (s1, None)) of
                      (s2, Some er) \<Rightarrow> Stop (Returned s2 (Some er))
                    | (s2, None) \<Rightarrow>
                        if plans = [] then Continue s2 else run_wave e t seq plans s2))"
      by (simp add: iterate_def Let_def)
    have ready: "?ready \<noteq> []" using False by simp
    have pos: "0 < max_parallel e" by (simp add: max_parallel_def)
    show ?thesis
    proof (cases "plan_wave e (max_parallel e) ?ready ?s [] False")
      case (PlanStopped r)
      have "stop_ok e seq r" if "plan_wave e maxp rs u ps c = PlanStopped r" "waves_inv e seq u" for maxp rs u ps c
        using that
      proof (induction e maxp rs u ps c rule: plan_wave.induct)
        case (2 e maxp st rs u ps c)
        note effect = plan_step_effect [where e = e and st = st and s = u]
        have less: "\<not> maxp \<le> length ps" using "2.prems"(1) by (auto split: if_splits)
        show ?case
        proof (cases "plan_step e st u")
          case (StepStopped r')
          then have "r' = r" using "2.prems"(1) less by simp
          then show ?thesis
            using effect StepStopped "2.prems"(2) by (auto simp: fail_run_stop_ok) (simp add: stop_ok_def)
        next
          case (StepDone u')
          then have "waves_inv e seq u'"
            using effect "2.prems"(2) by (auto simp: same_frame_def waves_inv_def)
          then show ?thesis using 2(1) [OF less StepDone] "2.prems"(1) less StepDone by simp
        next
          case (StepPlan p u')
          then have "waves_inv e seq u'"
            using effect "2.prems"(2) by (auto simp: same_frame_def waves_inv_def)
          then show ?thesis using 2(2) [OF less StepPlan] "2.prems"(1) less StepPlan by simp
        qed
      qed simp
      then show ?thesis using body PlanStopped inv'(2) by simp
    next
      case (Planned s1 plans changed)
      have "distinct (map st_id ?ready)"
        by (rule subseq_distinct [OF subseq_map [OF ready_steps_subseq] dist])
      then have pl: "run_inv seq s1" "same_frame ?s s1" "wave_planned e s1 plans" "plans \<noteq> [] \<longrightarrow> changed"
        "subseq (map sp_definition plans) ?ready" "length plans \<le> max_parallel e"
        "progress ?s < progress s1 + length plans"
        using plan_wave_inv [OF Planned inv'(1) subseq_set [OF ready_steps_subseq]] ready pos
          ready_steps_untouched [of _ seq ?s]
        by (auto simp: wave_planned_def)
      have waves1: "waves_inv e seq s1"
        using pl(2) inv'(2) by (auto simp: same_frame_def waves_inv_def)
      obtain s2 er where sv: "(if changed then save e s1 else (s1, None)) = (s2, er)" by fastforce
      then have s2: "run_inv seq s2" "waves_inv e seq s2" "progress s2 = progress s1" "rn_state s2 = rn_state s1"
        "wave_planned e s2 plans" "plans \<noteq> [] \<longrightarrow> eg_persister e \<noteq> None \<longrightarrow> rn_state s2 \<in> set (rn_saved s2)"
        using pl(1,3,4) waves1 save_inv [of e s1 s2 er] save_fields [of e s1 s2 er]
          waves_inv_mono [OF waves1, of s2]
        by (auto simp: wave_planned_def split: if_splits)
      show ?thesis
      proof (cases er)
        case (Some err)
        then show ?thesis using body Planned sv s2(1,2) by (simp add: stop_ok_def run_inv_def)
      next
        case None
        show ?thesis
        proof (cases "plans = []")
          case True
          then show ?thesis using body Planned sv None s2 pl(7) by simp
        next
          case ne: False
          have sub: "subseq (map sp_definition plans) seq"
            using pl(5) ready_steps_subseq by (rule subseq_order.trans)
          have saved: "eg_persister e \<noteq> None \<longrightarrow> rn_state s2 \<in> set (rn_saved s2)" using s2(6) ne by blast
          have "iterate e t seq s0 = run_wave e t seq plans s2" using body Planned sv None ne by simp
          then show ?thesis
            using run_wave_inv [OF arr dist s2(1,2,5) sub ne pl(6) saved, of t] s2(3) pl(7)
            by (auto split: iteration.splits)
        qed
      qed
    qed
  qed
qed

subsection \<open>The loop\<close>

definition result_ok :: "engine \<Rightarrow> wf_step list \<Rightarrow> run_result \<Rightarrow> bool" where
  "result_ok e seq r \<longleftrightarrow>
     (case r of
        Returned s' er \<Rightarrow>
          waves_inv e seq s' \<and>
          (wr_status (run_of s') = RunCompleted \<longrightarrow>
             (\<forall>st \<in> set seq. settled_at s' (st_id st)) \<and>
             (eg_persister e \<noteq> None \<longrightarrow> rn_saved s' \<noteq> [] \<and> last (rn_saved s') = rn_state s'))
      | _ \<Rightarrow> True)"

lemma stop_ok_result_ok: "stop_ok e seq r \<Longrightarrow> result_ok e seq r"
  by (auto simp: stop_ok_def result_ok_def)

lemma finished_all_settled:
  assumes "run_inv seq s" and "distinct (map st_id seq)" and "length seq \<le> length (rn_finished s)"
  shows "\<forall>st \<in> set seq. settled_at s (st_id st)"
proof -
  have ids: "card (st_id ` set seq) = length seq"
    using distinct_card [OF assms(2)] by simp
  have fin: "card (set (rn_finished s)) = length (rn_finished s)" and sub: "set (rn_finished s) \<subseteq> st_id ` set seq"
    using assms(1) by (simp_all add: run_inv_def distinct_card)
  have "card (set (rn_finished s)) \<le> card (st_id ` set seq)" using sub by (intro card_mono) simp_all
  then have "card (set (rn_finished s)) = card (st_id ` set seq)" using ids fin assms(3) by simp
  then have "set (rn_finished s) = st_id ` set seq" using sub by (intro card_subset_eq) simp_all
  then show ?thesis using assms(1) by (simp add: run_inv_def)
qed

lemma run_loop_ok:
  assumes "proper_arrival e" and "distinct (map st_id seq)"
  shows "run_inv seq s \<Longrightarrow> waves_inv e seq s \<Longrightarrow> result_ok e seq (run_loop e fuel t seq s)"
proof (induction fuel arbitrary: s)
  case (0 s)
  show ?case
  proof (cases "length seq \<le> length (rn_finished s)")
    case True
    then show ?thesis
      using return_terminal_ends [of "''workflow_completed''" e RunCompleted s] 0
        finished_all_settled [OF 0(1) assms(2)] ends_waves [of RunCompleted s _ e seq]
      by (auto simp: run_loop.simps [of e 0] result_ok_def ended_as_def settled_at_def status_at_def)
  qed (simp add: run_loop.simps [of e 0] result_ok_def)
next
  case (Suc fuel)
  show ?case
  proof (cases "length seq \<le> length (rn_finished s)")
    case True
    then show ?thesis
      using return_terminal_ends [of "''workflow_completed''" e RunCompleted s] Suc.prems
        finished_all_settled [OF Suc.prems(1) assms(2)] ends_waves [of RunCompleted s _ e seq]
      by (auto simp: run_loop.simps [of e "Suc fuel"] result_ok_def ended_as_def settled_at_def status_at_def)
  next
    case False
    note it = iterate_inv [OF assms Suc.prems, of t]
    show ?thesis
      using it False Suc.IH
      by (cases "iterate e t seq s") (simp_all add: run_loop.simps [of e "Suc fuel"] stop_ok_result_ok)
  qed
qed

lemma run_loop_fuel:
  assumes "proper_arrival e" and "lasting_stop e" and "distinct (map st_id seq)"
  shows "run_inv seq s \<Longrightarrow> waves_inv e seq s \<Longrightarrow> length seq < progress s + fuel \<Longrightarrow>
    run_loop e fuel t seq s \<noteq> OutOfFuel"
proof (induction fuel arbitrary: s)
  case (0 s)
  then show ?case using run_inv_progress [of seq s] by simp
next
  case (Suc fuel)
  show ?case
  proof (cases "length seq \<le> length (rn_finished s)")
    case True
    then show ?thesis
      using return_terminal_ends [of "''workflow_completed''" e RunCompleted s]
      by (auto simp: run_loop.simps [of e "Suc fuel"])
  next
    case False
    note it = iterate_inv [OF assms(1,3) Suc.prems(1,2), of t]
    show ?thesis
    proof (cases "iterate e t seq s")
      case (Continue s')
      then show ?thesis
        using it False Suc.IH [of s'] Suc.prems(3) assms(2) by (simp add: run_loop.simps [of e "Suc fuel"])
    next
      case (Stop r)
      then show ?thesis using it False by (auto simp: run_loop.simps [of e "Suc fuel"] stop_ok_def)
    qed
  qed
qed

subsection \<open>The order of events in a fresh run\<close>

definition done_in :: "wf_event list \<Rightarrow> string \<Rightarrow> bool" where
  "done_in evs d \<longleftrightarrow>
     (\<exists>ev \<in> set evs. ev_step_id ev = d \<and> (ev_type ev = ''step_succeeded'' \<or> ev_type ev = ''step_skipped''))"

definition start_allowed :: "wf_step list \<Rightarrow> wf_event list \<Rightarrow> wf_event \<Rightarrow> bool" where
  "start_allowed seq before ev \<longleftrightarrow>
     ev_type ev \<noteq> ''step_started'' \<or>
     (\<exists>st \<in> set seq. st_id st = ev_step_id ev \<and> (\<forall>d \<in> set (st_depends_on st). done_in before d))"

definition starts_ok :: "wf_step list \<Rightarrow> wf_event list \<Rightarrow> bool" where
  "starts_ok seq evs \<longleftrightarrow> (\<forall>i < length evs. start_allowed seq (take i evs) (evs ! i))"

lemma starts_ok_snoc [simp]: "starts_ok seq (evs @ [ev]) \<longleftrightarrow> starts_ok seq evs \<and> start_allowed seq evs ev"
  by (auto simp: starts_ok_def nth_append less_Suc_eq)

lemma done_in_snoc:
  "done_in (evs @ [ev]) d \<longleftrightarrow>
     done_in evs d \<or> (ev_step_id ev = d \<and> (ev_type ev = ''step_succeeded'' \<or> ev_type ev = ''step_skipped''))"
  by (auto simp: done_in_def)

definition fresh_inv :: "wf_step list \<Rightarrow> run_state \<Rightarrow> bool" where
  "fresh_inv seq s \<longleftrightarrow>
     (\<forall>sid. settled_at s sid \<longrightarrow> sid \<in> set (rn_finished s) \<and> done_in (events_of s) sid) \<and>
     starts_ok seq (events_of s)"

lemma fresh_starts: "fresh_inv seq s \<Longrightarrow> starts_ok seq (events_of s)"
  by (simp add: fresh_inv_def)

lemma fresh_inv_settle:
  assumes "fresh_inv seq s" and "steps_of s' = (steps_of s)(sid \<mapsto> ss)"
    and "rn_finished s' = append_unique (rn_finished s) sid"
    and "logged kind sid s s'" and "kind = ''step_succeeded'' \<or> kind = ''step_skipped''"
  shows "fresh_inv seq s'"
  using assms by (auto simp: fresh_inv_def logged_def settled_at_upd done_in_snoc start_allowed_def)

lemma fresh_inv_touch:
  assumes "fresh_inv seq s" and "steps_of s' = (steps_of s)(sid \<mapsto> ss)" and "\<not> settled (sr_status (ss_run ss))"
    and "rn_finished s' = rn_finished s"
    and "events_of s' = events_of s @ [ev]" and "start_allowed seq (events_of s) ev"
  shows "fresh_inv seq s'"
  using assms by (auto simp: fresh_inv_def settled_at_upd done_in_snoc)

lemma planned_fresh:
  assumes "fresh_inv seq s" and "untouched (st_id st) s"
    and "kept st s s' \<or> skipped st s s' \<or> awaiting st s s'"
  shows "fresh_inv seq s' \<and> (\<exists>ev. events_of s' = events_of s @ [ev])"
  using assms(3)
proof (elim disjE)
  assume "kept st s s'"
  then have "settled_at s (st_id st)" by (simp add: kept_def)
  then show ?thesis using assms(1,2) by (simp add: fresh_inv_def untouched_def)
next
  assume k: "skipped st s s'"
  then obtain ss where ss: "steps_of s' = (steps_of s)(st_id st \<mapsto> ss)" by (auto simp: skipped_def)
  have "rn_finished s' = append_unique (rn_finished s) (st_id st)" and log: "logged ''step_skipped'' (st_id st) s s'"
    using k by (simp_all add: skipped_def)
  then have "fresh_inv seq s'" using fresh_inv_settle [OF assms(1) ss] by blast
  then show ?thesis using log by (auto simp: logged_def)
next
  assume k: "awaiting st s s'"
  then obtain ss where ss: "steps_of s' = (steps_of s)(st_id st \<mapsto> ss)" "sr_status (ss_run ss) = StepAwaitingApproval"
    by (auto simp: awaiting_def)
  obtain ev where ev: "events_of s' = events_of s @ [ev]" "ev_type ev = ''approval_required''"
    using k by (auto simp: awaiting_def logged_def)
  have "fresh_inv seq s'"
    using k by (intro fresh_inv_touch [OF assms(1) ss(1) _ _ ev(1)])
      (simp_all add: ss(2) settled_def awaiting_def start_allowed_def ev(2))
  then show ?thesis using ev(1) by blast
qed

lemma started_fresh:
  assumes "fresh_inv seq s" and "st \<in> set seq" and "\<forall>d \<in> set (st_depends_on st). done_in (events_of s) d"
    and "started st p s s'"
  shows "fresh_inv seq s' \<and> (\<exists>ev. events_of s' = events_of s @ [ev])"
proof -
  obtain ev where ev: "events_of s' = events_of s @ [ev]" "ev_step_id ev = st_id st"
    using assms(4) by (auto simp: started_def logged_def)
  have "start_allowed seq (events_of s) ev" using assms(2,3) ev(2) by (auto simp: start_allowed_def)
  then have "fresh_inv seq s'"
    using assms(4) by (intro fresh_inv_touch [OF assms(1) _ _ _ ev(1)]) (auto simp: started_def settled_def)
  then show ?thesis using ev(1) by blast
qed

definition stopped_fresh :: "wf_step list \<Rightarrow> run_result \<Rightarrow> bool" where
  "stopped_fresh seq r \<longleftrightarrow> (case r of Returned s' er \<Rightarrow> starts_ok seq (events_of s') | _ \<Rightarrow> True)"

lemma ended_fresh: "ended_as status s s' \<Longrightarrow> starts_ok seq (events_of s) \<Longrightarrow> starts_ok seq (events_of s')"
  by (auto simp: ended_as_def start_allowed_def)

lemma fail_run_fresh: "starts_ok seq (events_of s) \<Longrightarrow> stopped_fresh seq (fail_run e step cls er s)"
  using fail_run_ends [of e step cls er s] ended_fresh by (auto simp: stopped_fresh_def)

lemma pause_run_fresh: "starts_ok seq (events_of s) \<Longrightarrow> stopped_fresh seq (pause_run e msg s)"
  using pause_run_ends [of e msg s] ended_fresh by (auto simp: stopped_fresh_def)

lemma cancel_run_fresh: "starts_ok seq (events_of s) \<Longrightarrow> stopped_fresh seq (cancel_run e ctx s)"
  using cancel_run_ends [of e ctx s] ended_fresh by (auto simp: stopped_fresh_def)

lemma return_terminal_fresh:
  "starts_ok seq (events_of s) \<Longrightarrow> evt \<noteq> ''step_started'' \<Longrightarrow> stopped_fresh seq (return_terminal e status evt s)"
  using return_terminal_ends [of evt e status s] ended_fresh by (auto simp: stopped_fresh_def)

lemma events_pass_tick [simp]: "events_of (pass_tick s) = events_of s"
  by (simp add: pass_tick_def)

lemma fresh_inv_pass_tick [simp]: "fresh_inv seq (pass_tick s) = fresh_inv seq s"
  by (simp add: fresh_inv_def settled_at_def status_at_def pass_tick_def)

lemma plan_wave_fresh:
  "run_inv seq s \<Longrightarrow> fresh_inv seq s \<Longrightarrow> set ready \<subseteq> set seq \<Longrightarrow> distinct (map st_id ready) \<Longrightarrow>
     \<forall>st \<in> set ready. untouched (st_id st) s \<and> (\<forall>d \<in> set (st_depends_on st). done_in (events_of s) d) \<Longrightarrow>
     case plan_wave e maxp ready s plans changed of
       Planned s' plans' changed' \<Rightarrow> fresh_inv seq s'
     | PlanStopped r \<Rightarrow> stopped_fresh seq r"
proof (induction e maxp ready s plans changed rule: plan_wave.induct)
  case (1 e maxp s plans changed)
  then show ?case by simp
next
  case (2 e maxp st ready s plans changed)
  note effect = plan_step_effect [where e = e and st = st and s = s]
  show ?case
  proof (cases "length plans \<ge> maxp")
    case True
    then show ?thesis using "2.prems" by simp
  next
    case less: False
    have st: "st \<in> set seq" "untouched (st_id st) s" "\<forall>d \<in> set (st_depends_on st). done_in (events_of s) d"
      and ne: "\<forall>u \<in> set ready. st_id u \<noteq> st_id st"
      using "2.prems"(3-5) by (auto simp: image_iff)
    show ?thesis
    proof (cases "plan_step e st s")
      case (StepStopped r)
      have "starts_ok seq (events_of s)" using "2.prems"(2) by (simp add: fresh_inv_def)
      then show ?thesis
        using effect StepStopped less by (auto simp: fail_run_fresh) (simp add: stopped_fresh_def)
    next
      case (StepDone t)
      then have t: "kept st s t \<or> skipped st s t \<or> awaiting st s t" "same_frame s t" using effect by simp_all
      note inv = planned_inv [OF "2.prems"(1) st(1,2) t(2) t(1)] and fr = planned_fresh [OF "2.prems"(2) st(2) t(1)]
      have "\<forall>u \<in> set ready. untouched (st_id u) t \<and> (\<forall>d \<in> set (st_depends_on u). done_in (events_of t) d)"
        using "2.prems"(5) ne inv fr by (auto simp: done_in_snoc)
      then show ?thesis using 2(1) [OF less StepDone] inv fr "2.prems"(3,4) StepDone less by simp
    next
      case (StepPlan p t)
      then have t: "started st p s t" "same_frame s t" using effect by simp_all
      note inv = started_inv [OF "2.prems"(1) st(2) t(2) t(1)] and fr = started_fresh [OF "2.prems"(2) st(1,3) t(1)]
      have "\<forall>u \<in> set ready. untouched (st_id u) t \<and> (\<forall>d \<in> set (st_depends_on u). done_in (events_of t) d)"
        using "2.prems"(5) inv fr by (auto simp: done_in_snoc)
      then show ?thesis using 2(2) [OF less StepPlan] inv fr "2.prems"(3,4) StepPlan less by simp
    qed
  qed
qed

lemma record_outcome_fresh: "fresh_inv seq s \<Longrightarrow> fresh_inv seq (record_outcome e o1 s)"
proof -
  assume fresh: "fresh_inv seq s"
  note fields = record_outcome_fields [where e = e and ?o1.0 = o1 and s = s]
  show ?thesis
  proof (cases "so_err o1")
    case None
    then show ?thesis
      using fields fresh_inv_settle [OF fresh, of "record_outcome e o1 s" "st_id (so_definition o1)" "outcome_state o1" "''step_succeeded''"]
      by (simp add: outcome_event_def)
  next
    case (Some er)
    then obtain ev where "events_of (record_outcome e o1 s) = events_of s @ [ev]" "ev_type ev = outcome_event o1"
      using fields by (auto simp: logged_def)
    then show ?thesis
      using fields Some outcome_state_settled [of o1]
      by (intro fresh_inv_touch [OF fresh]) (auto simp: start_allowed_def outcome_event_def split: if_splits)
  qed
qed

lemma save_fresh: "save e s = (s', er) \<Longrightarrow> fresh_inv seq s' = fresh_inv seq s"
  using save_fields [of e s s' er] by (simp add: fresh_inv_def settled_at_def status_at_def)

lemma record_outcomes_fresh:
  "fresh_inv seq s \<Longrightarrow>
     case record_outcomes e os primary s of Inl r \<Rightarrow> stopped_fresh seq r | Inr (s', p) \<Rightarrow> fresh_inv seq s'"
proof (induction os arbitrary: primary s)
  case (Cons o1 os)
  obtain s2 er where sv: "save e (record_outcome e o1 s) = (s2, er)" by fastforce
  have "fresh_inv seq s2" using save_fresh [OF sv] record_outcome_fresh [OF Cons.prems] by simp
  then show ?case
    using sv Cons.IH [of s2] by (cases er) (auto simp: stopped_fresh_def fresh_inv_def)
qed simp

lemma run_wave_fresh:
  "fresh_inv seq s \<Longrightarrow>
     case run_wave e t seq plans s of Stop r \<Rightarrow> stopped_fresh seq r | Continue s' \<Rightarrow> fresh_inv seq s'"
proof -
  assume fresh: "fresh_inv seq s"
  let ?plans = "map (\<lambda>p. p\<lparr>sp_parallel_share := int (length plans)\<rparr>) plans"
  let ?s1 = "pass_tick (s\<lparr>rn_waves := rn_waves s @ [?plans]\<rparr>)"
  let ?outs = "sort_key (\<lambda>o1. rank_of seq (st_id (so_definition o1)))
      (execute_wave e (rn_tick s) t (wr_id (run_of s)) ?plans)"
  have "fresh_inv seq ?s1" using fresh by (simp add: fresh_inv_def settled_at_def status_at_def pass_tick_def)
  from record_outcomes_fresh [OF this, of e ?outs None] show ?thesis
    by (cases "record_outcomes e ?outs None ?s1")
      (auto simp: run_wave_def Let_def cancel_run_fresh fail_run_fresh fresh_starts split: option.splits)
qed

lemma iterate_fresh:
  assumes "distinct (map st_id seq)" and "run_inv seq s0" and "fresh_inv seq s0"
  shows "case iterate e t seq s0 of Stop r \<Rightarrow> stopped_fresh seq r | Continue s' \<Rightarrow> fresh_inv seq s'"
proof -
  let ?s = "pass_tick s0"
  let ?ready = "ready_steps seq ?s"
  have fresh: "fresh_inv seq ?s" and inv: "run_inv seq ?s" using assms by simp_all
  have dist: "distinct (map st_id ?ready)"
    by (rule subseq_distinct [OF subseq_map [OF ready_steps_subseq] assms(1)])
  have deps: "\<forall>st \<in> set ?ready. untouched (st_id st) ?s \<and> (\<forall>d \<in> set (st_depends_on st). done_in (events_of ?s) d)"
    using ready_steps_untouched [of _ seq ?s] fresh by (auto simp: fresh_inv_def)
  note pl = plan_wave_fresh [OF inv fresh subseq_set [OF ready_steps_subseq] dist deps,
      where e = e and maxp = "max_parallel e" and plans = "[]" and changed = False]
  show ?thesis
  proof (cases "plan_wave e (max_parallel e) ?ready ?s [] False")
    case (PlanStopped r)
    then show ?thesis
      using pl fresh_starts [OF assms(3)]
      by (auto simp: iterate_def Let_def return_terminal_fresh cancel_run_fresh pause_run_fresh fail_run_fresh)
  next
    case (Planned s1 plans changed)
    obtain s2 er where sv: "(if changed then save e s1 else (s1, None)) = (s2, er)" by fastforce
    then have s2: "fresh_inv seq s2" using pl Planned save_fresh [of e s1 s2 er] by (auto split: if_splits)
    show ?thesis
      using Planned sv s2 run_wave_fresh [OF s2, of e t plans] fresh_starts [OF assms(3)] fresh_starts [OF s2]
      by (cases er)
        (auto simp: iterate_def Let_def return_terminal_fresh cancel_run_fresh pause_run_fresh fail_run_fresh
          stopped_fresh_def [of seq "Returned _ _"])
  qed
qed

lemma run_loop_fresh:
  assumes "proper_arrival e" and "distinct (map st_id seq)"
  shows "run_inv seq s \<Longrightarrow> waves_inv e seq s \<Longrightarrow> fresh_inv seq s \<Longrightarrow> stopped_fresh seq (run_loop e fuel t seq s)"
proof (induction fuel arbitrary: s)
  case (0 s)
  then show ?case
    by (simp add: run_loop.simps [of e 0] return_terminal_fresh fresh_starts) (simp add: stopped_fresh_def)
next
  case (Suc fuel)
  show ?case
  proof (cases "length seq \<le> length (rn_finished s)")
    case True
    then show ?thesis
      using Suc.prems(3) by (simp add: run_loop.simps [of e "Suc fuel"] return_terminal_fresh fresh_starts)
  next
    case False
    show ?thesis
      using iterate_inv [OF assms Suc.prems(1,2), of t] iterate_fresh [OF assms(2) Suc.prems(1,3), of e t]
        False Suc.IH
      by (cases "iterate e t seq s") (simp_all add: run_loop.simps [of e "Suc fuel"])
  qed
qed

subsection \<open>Properties of a run\<close>

text \<open>
  What is assumed of the surroundings: a wave delivers each outcome once, the iteration order of
  a map is a permutation of its keys, and a cancellation is never taken back.
\<close>

definition sound_engine :: "engine \<Rightarrow> bool" where
  "sound_engine e \<longleftrightarrow> proper_arrival e \<and> (\<forall>ids. mset (eg_iter e ids) = mset ids)"

lemma start_run_inv:
  "run_inv seq (start_run e d state t) \<and> waves_inv e seq (start_run e d state t) \<and>
   rn_blocked (start_run e d state t) = [] \<and> rn_waves (start_run e d state t) = []"
  by (auto simp: start_run_def run_inv_def waves_inv_def append_event_def Let_def split: option.split)

lemma start_run_fresh: "fresh_inv seq (start_run e d None t)"
  by (simp add: start_run_def fresh_inv_def settled_at_def status_at_def Let_def starts_ok_def start_allowed_def)

lemma event_inv [simp]:
  "run_inv seq (event e k i m s) = run_inv seq s"
  "rn_blocked (event e k i m s) = rn_blocked s" "rn_waves (event e k i m s) = rn_waves s"
  by (simp_all add: run_inv_def run_defs settled_at_def status_at_def)

lemma retain_step_inv:
  assumes "run_inv seq s" and "st \<in> set seq" and "rn_blocked s = []" and "rn_waves s = []"
  shows "run_inv seq (retain_step e b st s) \<and> rn_blocked (retain_step e b st s) = [] \<and>
    rn_waves (retain_step e b st s) = []"
proof (cases "steps_of s (st_id st)")
  case None
  then show ?thesis using assms by (simp add: retain_step_def)
next
  case (Some ex)
  show ?thesis
  proof (cases "sr_status (ss_run ex) = StepSucceeded \<and> \<not> st_rerun_on_input_change st")
    case False
    then show ?thesis using assms Some by (auto simp: retain_step_def)
  next
    case True
    have "settled_at s (st_id st)" using Some True by (simp add: settled_at_def status_at_def)
    then have "run_inv seq (finish_step (st_id st) s)"
      using assms by (auto simp: run_inv_def finish_step_def settled_at_def status_at_def)
    moreover have "rn_blocked (finish_step (st_id st) s) = []" "rn_waves (finish_step (st_id st) s) = []"
      using assms(3,4) by (simp_all add: finish_step_def)
    ultimately show ?thesis using Some True by (simp add: retain_step_def Let_def)
  qed
qed

lemma retain_steps_inv:
  "run_inv seq s \<Longrightarrow> set xs \<subseteq> set seq \<Longrightarrow> rn_blocked s = [] \<Longrightarrow> rn_waves s = [] \<Longrightarrow>
     run_inv seq (fold (retain_step e b) xs s) \<and> rn_waves (fold (retain_step e b) xs s) = []"
proof (induction xs arbitrary: s)
  case (Cons x xs)
  then show ?case using retain_step_inv [of seq s x e b] by simp
qed simp

lemma retain_nothing: "steps_of s = Map.empty \<Longrightarrow> fold (retain_step e b) xs s = s"
  by (induction xs) (simp_all add: retain_step_def)

lemma loop_start:
  assumes "sound_engine e" and "validate (eg_json e) (eg_iter e) (eg_registry e) d = None"
    and sv: "save e (start_run e d state t) = (s0, er)"
  obtains seq where "topological (Suc (length (wd_steps d))) d = Some seq"
    "set seq = set (wd_steps d)" "distinct (map st_id seq)" "length seq \<le> length (wd_steps d)"
    "run_inv seq (fold (retain_step e (state \<noteq> None)) seq s0)"
    "waves_inv e seq (fold (retain_step e (state \<noteq> None)) seq s0)"
proof -
  have "mset (eg_iter e (map st_id (wd_steps d))) = mset (map st_id (wd_steps d))"
    using assms(1) by (simp add: sound_engine_def)
  from mset_eq_setD [OF this] have valid: "valid_definition (eg_json e) (eg_registry e) d"
    using validate_None_iff [THEN iffD1] assms(2) by blast
  obtain seq where seq: "topological (Suc (length (wd_steps d))) d = Some seq"
    "set seq = set (wd_steps d)" "distinct (map st_id seq)"
    using topological_Some [OF valid, of "Suc (length (wd_steps d))"] by auto
  have "length seq = card (set seq)" using seq(3) by (simp add: distinct_card distinct_map)
  then have len: "length seq \<le> length (wd_steps d)" using seq(2) card_length [of "wd_steps d"] by simp
  note start = start_run_inv [of seq e d state t]
  have s: "run_inv seq s0" "rn_blocked s0 = []" "rn_waves s0 = []"
    using start save_inv [OF sv] save_fields [OF sv] by auto
  have inv: "run_inv seq (fold (retain_step e (state \<noteq> None)) seq s0)"
    "rn_waves (fold (retain_step e (state \<noteq> None)) seq s0) = []"
    using retain_steps_inv [OF s(1) subset_refl s(2,3)] by auto
  then have "waves_inv e seq (fold (retain_step e (state \<noteq> None)) seq s0)" by (simp add: waves_inv_def)
  then show thesis using that [OF seq len inv(1)] by blast
qed

lemma run_cases:
  assumes "sound_engine e"
  obtains (rejected) er where "run e fuel d state t = Rejected er"
  | (unsaved) s er where "run e fuel d state t = Returned s (Some er)" "s = fst (save e (start_run e d state t))"
  | (loop) seq s where "run e fuel d state t = run_loop e fuel t seq s"
      "s = fold (retain_step e (state \<noteq> None)) seq (fst (save e (start_run e d state t)))"
      "run_inv seq s" "waves_inv e seq s" "set seq = set (wd_steps d)" "distinct (map st_id seq)"
      "length seq \<le> length (wd_steps d)"
proof (cases "validate (eg_json e) (eg_iter e) (eg_registry e) d")
  case (Some er)
  then show ?thesis using rejected by (simp add: run_def)
next
  case None
  obtain s er where sv: "save e (start_run e d state t) = (s, er)" by fastforce
  show ?thesis
  proof (cases er)
    case (Some x)
    show ?thesis by (rule unsaved [of s x]) (simp_all add: run_def None sv Some)
  next
    case saved: None
    from loop_start [OF assms None sv] obtain seq where seq:
      "topological (Suc (length (wd_steps d))) d = Some seq"
      "set seq = set (wd_steps d)" "distinct (map st_id seq)" "length seq \<le> length (wd_steps d)"
      "run_inv seq (fold (retain_step e (state \<noteq> None)) seq s)"
      "waves_inv e seq (fold (retain_step e (state \<noteq> None)) seq s)" by blast
    show ?thesis
      using seq by (intro loop [of seq "fold (retain_step e (state \<noteq> None)) seq s"])
        (simp_all add: run_def None saved sv)
  qed
qed

text \<open>
  C7: The loop of Run ends within one pass more than the definition has steps, for a fresh run and
  for any resumed state: every pass settles or blocks a step or returns.
\<close>

theorem run_terminates:
  assumes "sound_engine e" and "lasting_stop e" and "length (wd_steps d) < fuel"
  shows "run e fuel d state t \<noteq> OutOfFuel"
  using assms(1)
proof (cases rule: run_cases [where fuel = fuel and d = d and state = state and t = t])
  case (loop seq s)
  have "run_loop e fuel t seq s \<noteq> OutOfFuel"
    using assms loop by (intro run_loop_fuel) (simp_all add: sound_engine_def)
  then show ?thesis by (simp add: loop(1))
qed simp_all

lemma start_run_status: "wr_status (run_of (start_run e d state t)) = RunRunning"
  by (simp add: start_run_def append_event_def Let_def split: option.split)

text \<open>
  C20: A run that is returned as completed has a stored state for every step of the definition,
  each succeeded or skipped, and the state handed to the persister last is the one returned.
\<close>

theorem completed_run_settled_every_step:
  assumes "sound_engine e" and "run e fuel d state t = Returned s er" and "wr_status (run_of s) = RunCompleted"
  shows "(\<forall>st \<in> set (wd_steps d). \<exists>ss. steps_of s (st_id st) = Some ss \<and> settled (sr_status (ss_run ss))) \<and>
    (eg_persister e = None \<or> (rn_saved s \<noteq> [] \<and> last (rn_saved s) = rn_state s))"
  using assms(1)
proof (cases rule: run_cases [where fuel = fuel and d = d and state = state and t = t])
  case (rejected er')
  then show ?thesis using assms(2) by simp
next
  case (unsaved s0 er')
  obtain s1 x where sv: "save e (start_run e d state t) = (s1, x)" by fastforce
  then have "wr_status (run_of s) = RunRunning"
    using unsaved assms(2) save_fields [OF sv] start_run_status by simp
  then show ?thesis using assms(3) by simp
next
  case (loop seq s0)
  have "result_ok e seq (run_loop e fuel t seq s0)"
    using assms(1) loop by (intro run_loop_ok) (simp_all add: sound_engine_def)
  then show ?thesis
    using assms(2,3) loop(1,5)
    by (fastforce simp: result_ok_def settled_at_def status_at_def settled_def)
qed

text \<open>
  C21: Every wave that is executed is not empty and no larger than the parallelism, each of its
  steps belongs to the definition, carries the wave size as its share and was approved when it or
  its capability asks for approval, and a state that records exactly these executions was saved.
\<close>

theorem waves_are_bounded_approved_and_recorded:
  assumes "sound_engine e" and "run e fuel d state t = Returned s er" and "wave \<in> set (rn_waves s)"
  shows "wave \<noteq> [] \<and> length wave \<le> max_parallel e \<and>
    list_all (\<lambda>p. sp_definition p \<in> set (wd_steps d) \<and> sp_parallel_share p = int (length wave) \<and>
      approval_given e (sp_definition p) (sp_approved p)) wave \<and>
    (eg_persister e = None \<or>
     list_ex (\<lambda>ws. list_all (\<lambda>p. ws_steps ws (st_id (sp_definition p)) = Some (sp_state p)) wave) (rn_saved s))"
  using assms(1)
proof (cases rule: run_cases [where fuel = fuel and d = d and state = state and t = t])
  case (rejected er')
  then show ?thesis using assms(2) by simp
next
  case (unsaved s0 er')
  obtain s1 x where sv: "save e (start_run e d state t) = (s1, x)" by fastforce
  then have "rn_waves s = []"
    using unsaved assms(2) save_fields [OF sv] start_run_inv [of "[]" e d state t] by simp
  then show ?thesis using assms(3) by simp
next
  case (loop seq s0)
  have "result_ok e seq (run_loop e fuel t seq s0)"
    using assms(1) loop by (intro run_loop_ok) (simp_all add: sound_engine_def)
  then have "wave_ok e seq (rn_saved s) wave"
    using assms(2,3) loop(1) by (simp add: result_ok_def waves_inv_def list_all_iff)
  then show ?thesis
    using subseq_set [of "map sp_definition wave" seq] loop(5)
    by (auto simp: wave_ok_def list_all_iff list_ex_iff)
qed

text \<open>
  C6: In a run that starts from nothing every step_started event of a step comes after a
  step_succeeded or step_skipped event of each of its dependencies, whatever the executor, the
  approvals, the persister and the scheduler do.
\<close>

theorem fresh_run_starts_steps_after_their_dependencies:
  assumes "sound_engine e" and "run e fuel d None t = Returned s er"
    and "events_of s = before @ ev # after" and "ev_type ev = ''step_started''"
  shows "\<exists>st \<in> set (wd_steps d). st_id st = ev_step_id ev \<and> (\<forall>dep \<in> set (st_depends_on st). done_in before dep)"
proof -
  have "\<exists>seq. starts_ok seq (events_of s) \<and> set seq = set (wd_steps d)"
    using assms(1)
  proof (cases rule: run_cases [where fuel = fuel and d = d and state = None and t = t])
    case (rejected er')
    then show ?thesis using assms(2) by simp
  next
    case (unsaved s0 er')
    obtain s1 x where sv: "save e (start_run e d None t) = (s1, x)" by fastforce
    then have "rn_state s = rn_state (start_run e d None t)" using unsaved assms(2) save_fields [OF sv] by simp
    then show ?thesis using start_run_fresh [of "wd_steps d" e d t] by (auto simp: fresh_inv_def)
  next
    case (loop seq s0)
    obtain s1 x where sv: "save e (start_run e d None t) = (s1, x)" by fastforce
    have "steps_of s1 = Map.empty" using save_fields [OF sv] by (simp add: start_run_def Let_def)
    then have "s0 = s1" using loop(2) sv retain_nothing by simp
    then have "fresh_inv seq s0" using start_run_fresh save_fresh [OF sv] by simp
    then have "stopped_fresh seq (run_loop e fuel t seq s0)"
      using assms(1) loop by (intro run_loop_fresh) (simp_all add: sound_engine_def)
    then show ?thesis using assms(2) loop(1,5) by (auto simp: stopped_fresh_def)
  qed
  then obtain seq where seq: "starts_ok seq (events_of s)" "set seq = set (wd_steps d)" by blast
  have "start_allowed seq (take (length before) (events_of s)) (events_of s ! length before)"
    using seq(1) assms(3) unfolding starts_ok_def by (metis length_append length_Cons less_add_same_cancel1 zero_less_Suc)
  then show ?thesis using assms(3,4) seq(2) by (simp add: start_allowed_def)
qed

subsection \<open>Concurrency does not show\<close>

text \<open>Nothing but the delivery of a wave's outcomes depends on \<open>eg_arrival\<close>.\<close>

named_theorems arrival "operations that do not depend on the arrival of outcomes"

lemmas branch_congs = if_cong option.case_cong sum.case_cong prod.case_cong step_planning.case_cong
  plan_result.case_cong iteration.case_cong bool.case_cong nat.case_cong

lemma save_arrival [arrival]: "save (e\<lparr>eg_arrival := a\<rparr>) = save e"
  by (simp add: save_def [abs_def])

lemma event_arrival [arrival]: "event (e\<lparr>eg_arrival := a\<rparr>) = event e"
  by (simp add: event_def [abs_def])

lemma ends_arrival [arrival]:
  "terminal (e\<lparr>eg_arrival := a\<rparr>) = terminal e"
  "return_terminal (e\<lparr>eg_arrival := a\<rparr>) = return_terminal e"
  "cancel_run (e\<lparr>eg_arrival := a\<rparr>) = cancel_run e"
  "fail_run (e\<lparr>eg_arrival := a\<rparr>) = fail_run e"
  "pause_run (e\<lparr>eg_arrival := a\<rparr>) = pause_run e"
  by (simp_all add: terminal_def [abs_def] return_terminal_def [abs_def] cancel_run_def [abs_def]
      fail_run_def [abs_def] pause_run_def [abs_def] arrival cong: branch_congs)

lemma planning_arrival [arrival]:
  "skip_step (e\<lparr>eg_arrival := a\<rparr>) = skip_step e"
  "await_approval (e\<lparr>eg_arrival := a\<rparr>) = await_approval e"
  "start_step (e\<lparr>eg_arrival := a\<rparr>) = start_step e"
  by (simp_all add: skip_step_def [abs_def] await_approval_def [abs_def] start_step_def [abs_def]
      next_step_state_def [abs_def] arrival cong: branch_congs)

lemma plan_step_arrival [arrival]:
  "plan_approved (e\<lparr>eg_arrival := a\<rparr>) = plan_approved e"
  "plan_step (e\<lparr>eg_arrival := a\<rparr>) = plan_step e"
proof -
  show pa: "plan_approved (e\<lparr>eg_arrival := a\<rparr>) = plan_approved e"
    by (simp add: plan_approved_def [abs_def] arrival cong: branch_congs)
  show "plan_step (e\<lparr>eg_arrival := a\<rparr>) = plan_step e"
    by (simp add: plan_step_def [abs_def] arrival pa cong: branch_congs)
qed

lemma plan_wave_arrival [arrival]:
  "plan_wave (e\<lparr>eg_arrival := a\<rparr>) maxp ready s plans changed = plan_wave e maxp ready s plans changed"
proof (induction ready arbitrary: s plans changed)
  case (Cons st ready)
  then show ?case by (simp add: arrival cong: branch_congs)
qed simp

lemma record_arrival [arrival]: "record_outcome (e\<lparr>eg_arrival := a\<rparr>) = record_outcome e"
  by (simp add: record_outcome_def [abs_def] arrival cong: branch_congs)

lemma records_arrival [arrival]:
  "record_outcomes (e\<lparr>eg_arrival := a\<rparr>) os primary s = record_outcomes e os primary s"
proof (induction os arbitrary: primary s)
  case (Cons o1 os)
  then show ?case by (simp add: arrival cong: branch_congs)
qed simp

lemma attempt_request_arrival [arrival]: "attempt_request (e\<lparr>eg_arrival := a\<rparr>) = attempt_request e"
  by (simp add: attempt_request_def [abs_def])

declare run_attempts.simps [simp del]

lemma run_attempts_arrival:
  "run_attempts (e\<lparr>eg_arrival := a\<rparr>) w t r p n m = run_attempts e w t r p n m"
proof (induction m arbitrary: n)
  case 0
  show ?case
    by (cases "eg_execute e w (st_id (sp_definition p)) n (attempt_request e w t r p n)")
      (simp add: run_attempts.simps [of _ w t r p n 0] arrival Let_def)
next
  case (Suc m)
  then show ?case
    by (cases "eg_execute e w (st_id (sp_definition p)) n (attempt_request e w t r p n)")
      (simp add: run_attempts.simps [of _ w t r p n "Suc m"] arrival Let_def split: option.split)
qed

lemma wave_outcome_arrival [arrival]: "wave_outcome (e\<lparr>eg_arrival := a\<rparr>) w t r = wave_outcome e w t r"
  by (simp add: fun_eq_iff wave_outcome_def execute_step_def step_attempts_def run_attempts_arrival
      step_budget_request_def Let_def cong: branch_congs)

lemma run_wave_arrival:
  assumes "proper_arrival e" and "proper_arrival (e\<lparr>eg_arrival := a\<rparr>)" and "distinct (map st_id seq)"
    and "subseq (map sp_definition plans) seq"
  shows "run_wave (e\<lparr>eg_arrival := a\<rparr>) t seq plans s = run_wave e t seq plans s"
proof -
  let ?plans = "map (\<lambda>p. p\<lparr>sp_parallel_share := int (length plans)\<rparr>) plans"
  have sub: "subseq (map sp_definition ?plans) seq" using assms(4) by (simp add: o_def)
  show ?thesis
    using wave_in_plan_order [OF assms(1,3) sub, of "rn_tick s" t "wr_id (run_of s)"]
      wave_in_plan_order [OF assms(2,3) sub, of "rn_tick s" t "wr_id (run_of s)"]
    by (simp add: run_wave_def Let_def arrival cong: branch_congs)
qed

lemma iterate_arrival:
  assumes "proper_arrival e" and "proper_arrival (e\<lparr>eg_arrival := a\<rparr>)" and "distinct (map st_id seq)"
    and "run_inv seq s0"
  shows "iterate (e\<lparr>eg_arrival := a\<rparr>) t seq s0 = iterate e t seq s0"
proof -
  let ?s = "pass_tick s0"
  let ?ready = "ready_steps seq ?s"
  have "run_wave (e\<lparr>eg_arrival := a\<rparr>) t seq plans s2 = run_wave e t seq plans s2"
    if "plan_wave e (max_parallel e) ?ready ?s [] False = Planned s1 plans changed" for s1 s2 plans changed
  proof (rule run_wave_arrival [OF assms(1-3)])
    have "distinct (map st_id ?ready)"
      by (rule subseq_distinct [OF subseq_map [OF ready_steps_subseq] assms(3)])
    then have "subseq (map sp_definition plans) ?ready"
      using plan_wave_inv [OF that _ subseq_set [OF ready_steps_subseq]] assms(4)
        ready_steps_untouched [of _ seq ?s]
      by (auto simp: wave_planned_def)
    then show "subseq (map sp_definition plans) seq" using ready_steps_subseq by (rule subseq_order.trans)
  qed
  then show ?thesis
    by (simp add: iterate_def Let_def arrival max_parallel_def split: plan_result.split prod.split option.split)
qed

lemma run_loop_arrival:
  assumes "proper_arrival e" and "proper_arrival (e\<lparr>eg_arrival := a\<rparr>)" and "distinct (map st_id seq)"
  shows "run_inv seq s \<Longrightarrow> waves_inv e seq s \<Longrightarrow>
    run_loop (e\<lparr>eg_arrival := a\<rparr>) fuel t seq s = run_loop e fuel t seq s"
proof (induction fuel arbitrary: s)
  case (0 s)
  then show ?case by (simp add: run_loop.simps [of _ 0] arrival)
next
  case (Suc fuel)
  show ?case
    using iterate_inv [OF assms(1,3) Suc.prems, of t] iterate_arrival [OF assms Suc.prems(1), of t] Suc.IH
    by (cases "iterate e t seq s") (simp_all add: run_loop.simps [of _ "Suc fuel"] arrival)
qed

lemma retain_step_arrival: "retain_step (e\<lparr>eg_arrival := a\<rparr>) = retain_step e"
  by (simp add: retain_step_def [abs_def] arrival cong: branch_congs)

text \<open>
  C23: The result of a run, its state, events and saved states do not depend on the order in which
  the concurrent steps of a wave finish.
\<close>

theorem run_independent_of_scheduling:
  assumes "sound_engine e" and "\<And>wave outcomes. mset (arrive wave outcomes) = mset outcomes"
  shows "run (e\<lparr>eg_arrival := arrive\<rparr>) fuel d state t = run e fuel d state t"
proof -
  have start: "start_run (e\<lparr>eg_arrival := arrive\<rparr>) d state t = start_run e d state t"
    by (simp add: start_run_def Let_def cong: branch_congs)
  have arr: "proper_arrival e" "proper_arrival (e\<lparr>eg_arrival := arrive\<rparr>)"
    using assms by (simp_all add: sound_engine_def proper_arrival_def)
  show ?thesis
  proof (cases "validate (eg_json e) (eg_iter e) (eg_registry e) d")
    case (Some er)
    then show ?thesis by (simp add: run_def)
  next
    case None
    obtain s er where sv: "save e (start_run e d state t) = (s, er)" by fastforce
    from loop_start [OF assms(1) None sv] obtain seq where seq:
      "topological (Suc (length (wd_steps d))) d = Some seq" "distinct (map st_id seq)"
      "run_inv seq (fold (retain_step e (state \<noteq> None)) seq s)"
      "waves_inv e seq (fold (retain_step e (state \<noteq> None)) seq s)" by blast
    show ?thesis
      using run_loop_arrival [OF arr seq(2-4)] None sv start seq(1)
      by (cases er) (simp_all add: run_def arrival retain_step_arrival)
  qed
qed

subsection \<open>A run to look at\<close>

definition run_json :: json_parser where
  "run_json s =
     (if s = ''{}'' then Some (JObj [])
      else if s = ''D'' then Some (JObj [(''domains'', JArr [JStr ''a.example''])])
      else if s = ''null'' then Some JNull else None)"

definition run_print :: json_printer where
  "run_print v = (case v of JObj [] \<Rightarrow> ''{}'' | JNull \<Rightarrow> ''null'' | _ \<Rightarrow> ''D'')"

definition sample_task :: task where
  "sample_task =
     \<lparr>tk_id = ''t'', tk_program_id = ''p'', tk_objective = [], tk_workflow_definition_id = ''d'',
      tk_status = TaskRunning, tk_requested_by = ''operator'', tk_created_at = 0, tk_updated_at = 0,
      tk_schedule_reference = None, tk_cancelled_at = None, tk_cancellation_reason = []\<rparr>"

definition succeed_with :: "string \<Rightarrow> cap_result" where
  "succeed_with out = zero_result\<lparr>rs_action := zero_action_result\<lparr>ar_output := out\<rparr>\<rparr>"

definition sample_engine :: engine where
  "sample_engine =
     \<lparr>eg_registry = sample_registry, eg_policy = demo_policy, eg_scope = None, eg_max_parallel = 2,
      eg_json = run_json, eg_print = run_print, eg_sha = (\<lambda>s. s), eg_parse_url = (\<lambda>_. None),
      eg_split_host_port = (\<lambda>_. None), eg_parse_ip = (\<lambda>_. None), eg_iter = rev, eg_now = int,
      eg_new_id = (\<lambda>n. replicate n (CHR ''i'')), eg_persister = Some (\<lambda>_ _. None),
      eg_paused = (\<lambda>_. False), eg_cancelled = (\<lambda>_. False), eg_ctx_err = (\<lambda>_. None),
      eg_approval = None, eg_budget = None, eg_execute = (\<lambda>_ _ _ _. (succeed_with ''D'', None)),
      eg_action_id = (\<lambda>_ _ _. ''a''), eg_interrupted = (\<lambda>_ _ _. None), eg_completed_at = (\<lambda>n _. int n),
      eg_stopped = (\<lambda>_ _. False), eg_arrival = (\<lambda>_. rev)\<rparr>"

lemma sample_engine_sound: "sound_engine sample_engine" and sample_engine_lasting: "lasting_stop sample_engine"
  by (simp_all add: sound_engine_def proper_arrival_def lasting_stop_def sample_engine_def)

definition one_step_definition :: wf_definition where
  "one_step_definition = sample_definition\<lparr>wd_steps := [sample_step ''enumerate'' ''subdomain.enumerate'']\<rparr>"

definition run_summary ::
  "run_result \<Rightarrow> (run_status \<times> (string \<times> string) list \<times> string list list) option" where
  "run_summary r =
     (case r of
        Returned s er \<Rightarrow>
          Some (wr_status (run_of s), map (\<lambda>ev. (ev_type ev, ev_step_id ev)) (events_of s),
                map (map (\<lambda>p. st_id (sp_definition p))) (rn_waves s))
      | _ \<Rightarrow> None)"

lemma one_step_run:
  "run_summary (run sample_engine 2 one_step_definition None sample_task) =
     Some (RunCompleted,
           [(''workflow_started'', []), (''step_started'', ''enumerate''), (''step_succeeded'', ''enumerate''),
            (''workflow_completed'', [])],
           [[''enumerate'']])"
  by code_simp

lemma one_step_returned:
  obtains s er where "run sample_engine 2 one_step_definition None sample_task = Returned s er"
    "wr_status (run_of s) = RunCompleted"
    "map (\<lambda>ev. (ev_type ev, ev_step_id ev)) (events_of s) =
       [(''workflow_started'', []), (''step_started'', ''enumerate''), (''step_succeeded'', ''enumerate''),
        (''workflow_completed'', [])]"
    "map (map (\<lambda>p. st_id (sp_definition p))) (rn_waves s) = [[''enumerate'']]"
  using one_step_run by (auto simp: run_summary_def split: run_result.splits)

lemma run_terminates_witness: "run sample_engine 3 sample_definition None sample_task \<noteq> OutOfFuel"
  by (rule run_terminates [OF sample_engine_sound sample_engine_lasting])
    (simp add: sample_definition_def sample_steps_def)

lemma completed_run_settled_every_step_witness:
  "\<exists>s er. run sample_engine 2 one_step_definition None sample_task = Returned s er \<and>
     (\<exists>ss. steps_of s ''enumerate'' = Some ss \<and> settled (sr_status (ss_run ss)))"
proof -
  obtain s er where r: "run sample_engine 2 one_step_definition None sample_task = Returned s er"
    "wr_status (run_of s) = RunCompleted" by (rule one_step_returned)
  then show ?thesis
    using completed_run_settled_every_step [OF sample_engine_sound r]
    by (simp add: one_step_definition_def sample_step_def)
qed

lemma waves_are_bounded_approved_and_recorded_witness:
  "\<exists>s er wave. run sample_engine 2 one_step_definition None sample_task = Returned s er \<and>
     wave \<in> set (rn_waves s) \<and> length wave \<le> 2"
proof -
  obtain s er where r: "run sample_engine 2 one_step_definition None sample_task = Returned s er"
    "map (map (\<lambda>p. st_id (sp_definition p))) (rn_waves s) = [[''enumerate'']]" by (rule one_step_returned)
  then obtain wave where w: "wave \<in> set (rn_waves s)" by (cases "rn_waves s") auto
  have "max_parallel sample_engine = 2" by (simp add: max_parallel_def sample_engine_def)
  then show ?thesis
    using waves_are_bounded_approved_and_recorded [OF sample_engine_sound r(1) w] r(1) w by auto
qed

lemma fresh_run_starts_steps_after_their_dependencies_witness:
  "\<exists>s er before ev after. run sample_engine 2 one_step_definition None sample_task = Returned s er \<and>
     events_of s = before @ ev # after \<and> ev_type ev = ''step_started'' \<and>
     (\<exists>st \<in> set (wd_steps one_step_definition). st_id st = ev_step_id ev)"
proof -
  obtain s er where r: "run sample_engine 2 one_step_definition None sample_task = Returned s er"
    "map (\<lambda>ev. (ev_type ev, ev_step_id ev)) (events_of s) =
       [(''workflow_started'', []), (''step_started'', ''enumerate''), (''step_succeeded'', ''enumerate''),
        (''workflow_completed'', [])]" by (rule one_step_returned)
  then obtain e1 e2 rest where ev: "events_of s = [e1] @ e2 # rest" "ev_type e2 = ''step_started''"
    by (auto simp: map_eq_Cons_conv)
  show ?thesis
    using fresh_run_starts_steps_after_their_dependencies [OF sample_engine_sound r(1) ev] r(1) ev by blast
qed

lemma run_independent_of_scheduling_witness:
  "run (sample_engine\<lparr>eg_arrival := \<lambda>_ xs. xs\<rparr>) 3 sample_definition None sample_task =
   run sample_engine 3 sample_definition None sample_task"
  by (rule run_independent_of_scheduling [OF sample_engine_sound]) simp

subsection \<open>Resuming\<close>

definition keeps :: "string set \<Rightarrow> run_state \<Rightarrow> bool" where
  "keeps F s \<longleftrightarrow>
     F \<subseteq> set (rn_finished s) \<and>
     list_all (list_all (\<lambda>p. st_id (sp_definition p) \<notin> F)) (rn_waves s)"

definition stopped_keeps :: "string set \<Rightarrow> run_result \<Rightarrow> bool" where
  "stopped_keeps F r \<longleftrightarrow>
     (case r of
        Returned s er \<Rightarrow> list_all (list_all (\<lambda>p. st_id (sp_definition p) \<notin> F)) (rn_waves s)
      | _ \<Rightarrow> True)"

lemma keeps_pass_tick [simp]: "keeps F (pass_tick s) = keeps F s"
  by (simp add: keeps_def pass_tick_def)

lemma ended_keeps: "ended_as status s s' \<Longrightarrow> keeps F s \<Longrightarrow> stopped_keeps F (Returned s' er)"
  by (simp add: ended_as_def keeps_def stopped_keeps_def)

lemma ends_keep:
  assumes "keeps F s"
  shows "stopped_keeps F (fail_run e step cls er s)" and "stopped_keeps F (pause_run e msg s)"
    and "stopped_keeps F (cancel_run e ctx s)"
    and "evt \<noteq> ''step_started'' \<Longrightarrow> stopped_keeps F (return_terminal e status evt s)"
  using fail_run_ends [of e step cls er s] pause_run_ends [of e msg s] cancel_run_ends [of e ctx s]
    return_terminal_ends [of evt e status s] assms
  by (auto intro: ended_keeps)

lemma plan_wave_keeps:
  "keeps F s \<Longrightarrow>
     case plan_wave e maxp ready s plans changed of
       Planned s' plans' changed' \<Rightarrow> keeps F s'
     | PlanStopped r \<Rightarrow> stopped_keeps F r"
proof (induction e maxp ready s plans changed rule: plan_wave.induct)
  case (2 e maxp st ready s plans changed)
  note effect = plan_step_effect [where e = e and st = st and s = s]
  show ?case
  proof (cases "length plans \<ge> maxp")
    case True
    then show ?thesis using "2.prems" by simp
  next
    case less: False
    show ?thesis
    proof (cases "plan_step e st s")
      case (StepStopped r)
      then show ?thesis
        using effect less "2.prems" by (auto intro: ends_keep) (simp add: stopped_keeps_def)
    next
      case (StepDone t)
      then have "keeps F t"
        using effect "2.prems"
        by (auto simp: keeps_def same_frame_def kept_def skipped_def awaiting_def)
      then show ?thesis using 2(1) [OF less StepDone] StepDone less by simp
    next
      case (StepPlan p t)
      then have "keeps F t" using effect "2.prems" by (auto simp: keeps_def same_frame_def started_def)
      then show ?thesis using 2(2) [OF less StepPlan] StepPlan less by simp
    qed
  qed
qed simp

lemma save_keeps: "save e s = (s', er) \<Longrightarrow> keeps F s' = keeps F s"
  using save_fields [of e s s' er] by (simp add: keeps_def)

lemma record_outcomes_keeps:
  "keeps F s \<Longrightarrow>
     case record_outcomes e os primary s of Inl r \<Rightarrow> stopped_keeps F r | Inr (s', p) \<Rightarrow> keeps F s'"
proof (induction os arbitrary: primary s)
  case (Cons o1 os)
  obtain s2 er where sv: "save e (record_outcome e o1 s) = (s2, er)" by fastforce
  have "keeps F (record_outcome e o1 s)"
    using record_outcome_fields [where e = e and ?o1.0 = o1 and s = s] Cons.prems by (auto simp: keeps_def)
  then have "keeps F s2" using save_keeps [OF sv] by simp
  then show ?case
    using sv Cons.IH [of s2] by (cases er) (auto simp: stopped_keeps_def keeps_def)
qed simp

lemma run_wave_keeps:
  assumes "keeps F s" and "wave_planned e s plans"
  shows "case run_wave e t seq plans s of Stop r \<Rightarrow> stopped_keeps F r | Continue s' \<Rightarrow> keeps F s'"
proof -
  let ?plans = "map (\<lambda>p. p\<lparr>sp_parallel_share := int (length plans)\<rparr>) plans"
  let ?s1 = "pass_tick (s\<lparr>rn_waves := rn_waves s @ [?plans]\<rparr>)"
  let ?outs = "sort_key (\<lambda>o1. rank_of seq (st_id (so_definition o1)))
      (execute_wave e (rn_tick s) t (wr_id (run_of s)) ?plans)"
  have "keeps F ?s1"
    using assms by (auto simp: keeps_def wave_planned_def untouched_def list_all_iff pass_tick_def)
  from record_outcomes_keeps [OF this, of e ?outs None] show ?thesis
    by (cases "record_outcomes e ?outs None ?s1")
      (auto simp: run_wave_def Let_def ends_keep split: option.splits)
qed

lemma iterate_keeps:
  assumes "distinct (map st_id seq)" and "run_inv seq s0" and "keeps F s0"
  shows "case iterate e t seq s0 of Stop r \<Rightarrow> stopped_keeps F r | Continue s' \<Rightarrow> keeps F s'"
proof -
  let ?s = "pass_tick s0"
  let ?ready = "ready_steps seq ?s"
  have keep: "keeps F ?s" and inv: "run_inv seq ?s" using assms by simp_all
  have dist: "distinct (map st_id ?ready)"
    by (rule subseq_distinct [OF subseq_map [OF ready_steps_subseq] assms(1)])
  note pl = plan_wave_keeps [OF keep, where e = e and maxp = "max_parallel e" and ready = ?ready
      and plans = "[]" and changed = False]
  show ?thesis
  proof (cases "plan_wave e (max_parallel e) ?ready ?s [] False")
    case (PlanStopped r)
    then show ?thesis
      using pl assms(3) by (auto simp: iterate_def Let_def ends_keep)
  next
    case (Planned s1 plans changed)
    obtain s2 er where sv: "(if changed then save e s1 else (s1, None)) = (s2, er)" by fastforce
    then have s2: "keeps F s2" using pl Planned save_keeps [of e s1 s2 er] by (auto split: if_splits)
    have "wave_planned e s1 plans"
      using plan_wave_inv [OF Planned inv subseq_set [OF ready_steps_subseq]] dist ready_steps_untouched [of _ seq ?s]
      by (auto simp: wave_planned_def)
    then have "wave_planned e s2 plans"
      using sv save_inv [of e s1 s2 er] save_fields [of e s1 s2 er]
      by (auto simp: wave_planned_def split: if_splits)
    from run_wave_keeps [OF s2 this, of t seq] show ?thesis
      using Planned sv s2 assms(3)
      by (cases er) (auto simp: iterate_def Let_def ends_keep, auto simp: stopped_keeps_def keeps_def)
  qed
qed

lemma run_loop_keeps:
  assumes "proper_arrival e" and "distinct (map st_id seq)"
  shows "run_inv seq s \<Longrightarrow> waves_inv e seq s \<Longrightarrow> keeps F s \<Longrightarrow> stopped_keeps F (run_loop e fuel t seq s)"
proof (induction fuel arbitrary: s)
  case (0 s)
  then show ?case by (simp add: run_loop.simps [of e 0] ends_keep) (simp add: stopped_keeps_def)
next
  case (Suc fuel)
  show ?case
    using iterate_inv [OF assms Suc.prems(1,2), of t] iterate_keeps [OF assms(2) Suc.prems(1,3), of e t]
      Suc.IH Suc.prems(3)
    by (cases "iterate e t seq s") (simp_all add: run_loop.simps [of e "Suc fuel"] ends_keep)
qed

lemma retain_step_finished:
  "set (rn_finished s) \<subseteq> set (rn_finished (retain_step e b st s))"
  "steps_of (retain_step e b st s) = steps_of s"
  by (auto simp: retain_step_def Let_def run_defs split: option.split)

lemma retain_steps_finished:
  "st \<in> set xs \<Longrightarrow> steps_of s (st_id st) = Some ss \<Longrightarrow> sr_status (ss_run ss) = StepSucceeded \<Longrightarrow>
     \<not> st_rerun_on_input_change st \<Longrightarrow> st_id st \<in> set (rn_finished (fold (retain_step e b) xs s))"
proof (induction xs arbitrary: s)
  case (Cons x xs)
  have mono: "set (rn_finished u) \<subseteq> set (rn_finished (fold (retain_step e b) ys u))" for ys u
  proof (induction ys arbitrary: u)
    case (Cons y ys)
    show ?case using subset_trans [OF retain_step_finished(1) Cons.IH] by simp
  qed simp
  show ?case
  proof (cases "x = st")
    case True
    have "st_id st \<in> set (rn_finished (retain_step e b st s))"
      using Cons.prems by (simp add: retain_step_def Let_def run_defs)
    then show ?thesis using True mono by auto
  next
    case False
    then show ?thesis using Cons by (simp add: retain_step_finished)
  qed
qed simp

text \<open>
  C22: A resumed run never executes a step again that succeeded before, unless the step asks to be
  run again when its input changes.
\<close>

theorem resume_never_repeats_a_success:
  assumes "sound_engine e" and "run e fuel d (Some ws) t = Returned s er" and "st \<in> set (wd_steps d)"
    and "ws_steps ws (st_id st) = Some ss" and "sr_status (ss_run ss) = StepSucceeded"
    and "\<not> st_rerun_on_input_change st"
  shows "list_all (list_all (\<lambda>p. st_id (sp_definition p) \<noteq> st_id st)) (rn_waves s)"
  using assms(1)
proof (cases rule: run_cases [where fuel = fuel and d = d and state = "Some ws" and t = t])
  case (rejected er')
  then show ?thesis using assms(2) by simp
next
  case (unsaved s0 er')
  obtain s1 x where sv: "save e (start_run e d (Some ws) t) = (s1, x)" by fastforce
  then have "rn_waves s = []"
    using unsaved assms(2) save_fields [OF sv] start_run_inv [of "[]" e d "Some ws" t] by simp
  then show ?thesis by simp
next
  case (loop seq s0)
  obtain s1 x where sv: "save e (start_run e d (Some ws) t) = (s1, x)" by fastforce
  have "steps_of s1 = ws_steps ws"
    using save_fields [OF sv] by (simp add: start_run_def append_event_def Let_def)
  then have "st_id st \<in> set (rn_finished s0)"
    using loop(2,5) sv assms(3-6) by (auto intro: retain_steps_finished)
  moreover have "rn_waves s0 = []"
  proof -
    have "rn_waves (fold (retain_step e b) ys u) = rn_waves u" for b ys u
      by (induction ys arbitrary: u) (simp_all add: retain_step_def Let_def run_defs split: option.split)
    then show ?thesis using loop(2) sv save_fields [OF sv] start_run_inv [of "[]" e d "Some ws" t] by simp
  qed
  ultimately have "keeps {st_id st} s0" by (simp add: keeps_def)
  then have "stopped_keeps {st_id st} (run_loop e fuel t seq s0)"
    using assms(1) loop by (intro run_loop_keeps) (simp_all add: sound_engine_def)
  then show ?thesis using assms(2) loop(1) by (simp add: stopped_keeps_def)
qed

text \<open>
  Resuming with a step that runs again: \<open>scan\<close> depends on \<open>enumerate\<close>, which succeeded in the
  interrupted run and is marked to run again when its input changes. Its old success counts as a
  met dependency while the new execution is planned, so both start in one wave.
\<close>

definition rerun_definition :: wf_definition where
  "rerun_definition = sample_definition\<lparr>wd_steps :=
     [(sample_step ''enumerate'' ''subdomain.enumerate'')\<lparr>st_rerun_on_input_change := True\<rparr>,
      (sample_step ''scan'' ''http.probe'')\<lparr>st_depends_on := [''enumerate'']\<rparr>]\<rparr>"

definition interrupted_state :: wf_state where
  "interrupted_state =
     (let ws = rn_state (start_run sample_engine rerun_definition None sample_task);
          done1 = new_step (\<lambda>s. s) ''old'' ws (sample_step ''enumerate'' ''subdomain.enumerate'') ''{}'' ''old hash'' StepSucceeded
      in ws\<lparr>ws_steps := [''enumerate'' \<mapsto> done1\<lparr>ss_run := (ss_run done1)\<lparr>sr_output := ''D''\<rparr>\<rparr>]\<rparr>)"

definition planned_on_resume :: "wf_definition \<Rightarrow> wf_state \<Rightarrow> string list" where
  "planned_on_resume d ws =
     (case topological (Suc (length (wd_steps d))) d of
        None \<Rightarrow> []
      | Some seq \<Rightarrow>
          let s = fold (retain_step sample_engine True) seq
                    (fst (save sample_engine (start_run sample_engine d (Some ws) sample_task)))
          in (case plan_wave sample_engine (max_parallel sample_engine) (ready_steps seq s) s [] False of
                PlanStopped r \<Rightarrow> []
              | Planned s' plans changed \<Rightarrow> map (\<lambda>p. st_id (sp_definition p)) plans))"

lemma resumed_run_starts_a_step_beside_its_dependency:
  "validate run_json rev sample_registry rerun_definition = None \<and>
   planned_on_resume rerun_definition interrupted_state = [''enumerate'', ''scan'']"
proof
  show "validate run_json rev sample_registry rerun_definition = None" by code_simp
  show "planned_on_resume rerun_definition interrupted_state = [''enumerate'', ''scan'']" by code_simp
qed

lemma resume_never_repeats_a_success_witness:
  "\<exists>s er. run sample_engine 2 one_step_definition (Some interrupted_state) sample_task = Returned s er \<and>
     list_all (list_all (\<lambda>p. st_id (sp_definition p) \<noteq> ''enumerate'')) (rn_waves s)"
proof -
  have "run_summary (run sample_engine 2 one_step_definition (Some interrupted_state) sample_task) \<noteq> None"
    by code_simp
  then obtain s er where r: "run sample_engine 2 one_step_definition (Some interrupted_state) sample_task = Returned s er"
    by (auto simp: run_summary_def split: run_result.splits)
  obtain ss where "ws_steps interrupted_state ''enumerate'' = Some ss" "sr_status (ss_run ss) = StepSucceeded"
    by (simp add: interrupted_state_def Let_def new_step_def)
  then have "list_all (list_all (\<lambda>p. st_id (sp_definition p) \<noteq> st_id (sample_step ''enumerate'' ''subdomain.enumerate'')))
      (rn_waves s)"
    by (intro resume_never_repeats_a_success [OF sample_engine_sound r])
      (simp_all add: one_step_definition_def sample_step_def zero_step_def)
  then show ?thesis using r by (simp add: sample_step_def)
qed

definition failing_engine :: engine where
  "failing_engine = sample_engine\<lparr>eg_execute := \<lambda>_ _ attempt _.
     (zero_result\<lparr>rs_action := zero_action_result\<lparr>ar_error :=
        Some \<lparr>se_classification = ''network'', se_message = ''reset'', se_retryable = True\<rparr>\<rparr>\<rparr>,
      if attempt < 3 then Some (Err ''reset'') else None)\<rparr>"

definition sample_plan :: step_plan where
  "sample_plan =
     \<lparr>sp_definition = (sample_step ''scan'' ''http.probe'')\<lparr>st_max_attempts := 5, st_base_delay := second\<rparr>,
      sp_state = new_step (\<lambda>s. s) ''i'' sample_state (sample_step ''scan'' ''http.probe'') ''{}'' ''h'' StepRunning,
      sp_input = ''{}'', sp_approved = False, sp_provider = ''http.probe'', sp_parallel_share = 1\<rparr>"

lemma retries_are_bounded_and_repeat_one_request_witness:
  "at_count (step_attempts failing_engine 0 sample_task ''r'' sample_plan) = 3 \<and>
   length (at_requests (step_attempts failing_engine 0 sample_task ''r'' sample_plan)) = 3 \<and>
   at_delays (step_attempts failing_engine 0 sample_task ''r'' sample_plan) = [second, 2 * second]"
proof -
  have "at_count (step_attempts failing_engine 0 sample_task ''r'' sample_plan) = 3 \<and>
    at_delays (step_attempts failing_engine 0 sample_task ''r'' sample_plan) = [second, 2 * second]"
    by code_simp
  then show ?thesis
    using retries_are_bounded_and_repeat_one_request [OF refl, of failing_engine 0 sample_task "''r''" sample_plan]
    by simp
qed

subsection \<open>Cancellation of the controls\<close>

text \<open>Any number of goroutines calls the methods of one \<^verbatim>\<open>Controls\<close>; each call is atomic.\<close>

inductive controls_step :: "controls \<Rightarrow> controls \<Rightarrow> bool" where
  pause: "controls_step c (controls_pause c)"
| resume: "controls_step c (controls_resume c)"
| cancel: "controls_step c (controls_cancel c)"
| listen: "controls_step c (fst (controls_done c))"

inductive controls_reach :: "controls \<Rightarrow> controls \<Rightarrow> bool" for start where
  here: "controls_reach start start"
| there: "controls_reach start c \<Longrightarrow> controls_step c c' \<Longrightarrow> controls_reach start c'"

inductive_cases controls_stepE: "controls_step c c'"

lemmas controls_defs = controls_pause_def controls_resume_def controls_cancel_def controls_done_def

lemma controls_step_inv:
  "controls_step c c' \<Longrightarrow> ct_done c \<in> {None, Some (ct_cancelled c)} \<Longrightarrow> (ct_cancelled c \<longrightarrow> ct_done c \<noteq> None) \<Longrightarrow>
     ct_done c' \<in> {None, Some (ct_cancelled c')} \<and> (ct_cancelled c' \<longrightarrow> ct_done c' \<noteq> None) \<and>
     (ct_cancelled c \<longrightarrow> ct_cancelled c')"
  by (erule controls_stepE) (auto simp: controls_defs split: option.split)

lemma controls_reach_inv:
  "controls_reach new_controls c \<Longrightarrow>
     ct_done c \<in> {None, Some (ct_cancelled c)} \<and> (ct_cancelled c \<longrightarrow> ct_done c \<noteq> None)"
proof (induction rule: controls_reach.induct)
  case here
  show ?case by (simp add: new_controls_def)
next
  case (there c c')
  then show ?case using controls_step_inv by blast
qed

text \<open>
  However pauses, resumptions, cancellations and listeners interleave, a cancellation is
  never lost, the channel that is handed out is closed exactly when the controls are cancelled,
  and it is never closed twice.
\<close>

theorem cancellation_is_final:
  assumes "controls_reach new_controls c" and "controls_reach c c'"
  shows "(ct_cancelled c \<longrightarrow> ct_cancelled c') \<and> snd (controls_done c') = ct_cancelled c' \<and>
    (ct_done c' = Some True \<longrightarrow> controls_cancel c' = c')"
proof -
  have "ct_done c' \<in> {None, Some (ct_cancelled c')} \<and> (ct_cancelled c' \<longrightarrow> ct_done c' \<noteq> None) \<and>
      (ct_cancelled c \<longrightarrow> ct_cancelled c')"
    using assms(2)
  proof (induction rule: controls_reach.induct)
    case here
    then show ?case using controls_reach_inv [OF assms(1)] by blast
  next
    case (there d d')
    then show ?case using controls_step_inv [of d d'] by blast
  qed
  then show ?thesis by (auto simp: controls_done_def controls_cancel_def split: option.split)
qed

lemma cancellation_is_final_witness:
  "snd (controls_done (controls_resume (controls_cancel (controls_pause new_controls)))) = True"
proof -
  let ?c = "controls_cancel (controls_pause new_controls)"
  have "controls_reach new_controls (controls_pause new_controls)"
    by (rule controls_reach.there [OF controls_reach.here controls_step.pause])
  then have "controls_reach new_controls ?c" by (rule controls_reach.there) (rule controls_step.cancel)
  moreover have "controls_reach ?c (controls_resume ?c)"
    by (rule controls_reach.there [OF controls_reach.here controls_step.resume])
  moreover have "ct_cancelled ?c" by (simp add: controls_defs new_controls_def)
  ultimately show ?thesis using cancellation_is_final by blast
qed

end
