(* ===== verification/GoFiles.thy ===== *)
theory GoFiles
  imports GoData
begin

text \<open>
  The parts of \<^verbatim>\<open>path/filepath\<close> (on a Unix system) and of \<^verbatim>\<open>os\<close> that the stores use. A cleaned path
  is the list of its components; the file system is a map from the absolute ones. What the
  machine refuses (a full disk, missing permissions) is a record of \<open>faults\<close>, so every call can
  fail, and a failing write leaves whatever it had written. Links and permissions are not
  modelled.
\<close>

subsection \<open>Paths\<close>

definition rooted :: "string \<Rightarrow> bool" where
  "rooted p \<longleftrightarrow> has_prefix p ''/''"

text \<open>One component of \<^verbatim>\<open>Clean\<close>, on the stack of the components kept so far (the last one first).\<close>

definition push_part :: "bool \<Rightarrow> string list \<Rightarrow> string \<Rightarrow> string list" where
  "push_part absolute acc p =
     (if p = [] \<or> p = ''.'' then acc
      else if p = ''..'' then
        (case acc of
           [] \<Rightarrow> if absolute then [] else [p]
         | q # qs \<Rightarrow> if q = ''..'' then p # acc else qs)
      else p # acc)"

definition clean_parts :: "bool \<Rightarrow> string list \<Rightarrow> string list \<Rightarrow> string list" where
  "clean_parts absolute acc ps = rev (foldl (push_part absolute) acc ps)"

definition path_parts :: "string \<Rightarrow> string list" where
  "path_parts p = clean_parts (rooted p) [] (split_on (CHR ''/'') p)"

definition path_text :: "bool \<Rightarrow> string list \<Rightarrow> string" where
  "path_text absolute ps =
     (if absolute then ''/'' @ join_with ''/'' ps
      else if ps = [] then ''.'' else join_with ''/'' ps)"

definition clean_path :: "string \<Rightarrow> string" where
  "clean_path p = path_text (rooted p) (path_parts p)"

definition join_path :: "string list \<Rightarrow> string" where
  "join_path ps =
     (case dropWhile (\<lambda>p. p = []) ps of [] \<Rightarrow> [] | qs \<Rightarrow> clean_path (join_with ''/'' qs))"

definition base_name :: "string \<Rightarrow> string" where
  "base_name p =
     (if p = [] then ''.''
      else case trim_right (\<lambda>c. c = CHR ''/'') p of
             [] \<Rightarrow> ''/'' | q \<Rightarrow> last (split_on (CHR ''/'') q))"

text \<open>\<^verbatim>\<open>filepath.Abs\<close>, on the outcome of \<^verbatim>\<open>os.Getwd\<close>.\<close>

definition abs_path :: "string res \<Rightarrow> string \<Rightarrow> string res" where
  "abs_path getwd p =
     (if rooted p then Inr (clean_path p) else bind_res getwd (\<lambda>cwd. Inr (join_path [cwd, p])))"

text \<open>The file a path names: a relative one is read in the working directory.\<close>

definition resolve :: "string \<Rightarrow> string \<Rightarrow> string list" where
  "resolve cwd p = path_parts (if rooted p then p else cwd @ ''/'' @ p)"

fun strip_common :: "'a list \<Rightarrow> 'a list \<Rightarrow> 'a list \<times> 'a list" where
  "strip_common (x # xs) (y # ys) = (if x = y then strip_common xs ys else (x # xs, y # ys))"
| "strip_common xs ys = (xs, ys)"

definition rel_path :: "string \<Rightarrow> string \<Rightarrow> string res" where
  "rel_path base target =
     (if rooted base \<noteq> rooted target
      then Inl (Err (''Rel: can't make '' @ target @ '' relative to '' @ base))
      else (case strip_common (path_parts base) (path_parts target) of
        (up, down) \<Rightarrow>
          if up \<noteq> [] \<and> hd up = ''..''
          then Inl (Err (''Rel: can't make '' @ target @ '' relative to '' @ base))
          else Inr (path_text False (map (\<lambda>_. ''..'') up @ down))))"

subsection \<open>Files\<close>

datatype node = Dir | File string

type_synonym file_system = "string list \<rightharpoonup> node"

record faults =
  mkdir_fault :: "string list \<Rightarrow> (go_error \<times> nat) option"
  write_fault :: "string list \<Rightarrow> string \<Rightarrow> (go_error \<times> string) option"
  rename_fault :: "string list \<Rightarrow> string list \<Rightarrow> go_error option"
  remove_fault :: "string list \<Rightarrow> go_error option"
  read_fault :: "string list \<Rightarrow> go_error option"

definition no_faults :: faults where
  "no_faults =
     \<lparr>mkdir_fault = (\<lambda>p. None), write_fault = (\<lambda>p d. None), rename_fault = (\<lambda>p q. None),
      remove_fault = (\<lambda>p. None), read_fault = (\<lambda>p. None)\<rparr>"

definition not_exist :: go_error where
  "not_exist = Err ''no such file or directory''"

definition not_directory :: go_error where
  "not_directory = Err ''not a directory''"

definition is_directory :: go_error where
  "is_directory = Err ''is a directory''"

definition is_file :: "file_system \<Rightarrow> string list \<Rightarrow> bool" where
  "is_file fs p = (case fs p of Some (File d) \<Rightarrow> True | _ \<Rightarrow> False)"

definition ancestors :: "string list \<Rightarrow> string list list" where
  "ancestors p = map (\<lambda>n. take n p) [0..<length p]"

definition missing :: "file_system \<Rightarrow> string list \<Rightarrow> go_error" where
  "missing fs p = (if list_ex (is_file fs) (ancestors p) then not_directory else not_exist)"

text \<open>\<open>make_dirs\<close> makes a directory of each of the given paths that does not exist yet.\<close>

definition make_dirs :: "string list list \<Rightarrow> file_system \<Rightarrow> file_system" where
  "make_dirs ps fs = (\<lambda>q. if q \<in> set ps \<and> fs q = None then Some Dir else fs q)"

definition mkdir_all :: "faults \<Rightarrow> string list \<Rightarrow> file_system \<Rightarrow> file_system \<times> go_error option" where
  "mkdir_all w p fs =
     (if list_ex (is_file fs) (ancestors p @ [p]) then (fs, Some not_directory)
      else case mkdir_fault w p of
             Some (e, n) \<Rightarrow> (make_dirs (take n (ancestors p)) fs, Some e)
           | None \<Rightarrow> (make_dirs (ancestors p @ [p]) fs, None))"

definition write_file ::
  "faults \<Rightarrow> string list \<Rightarrow> string \<Rightarrow> file_system \<Rightarrow> file_system \<times> go_error option" where
  "write_file w p d fs =
     (if p = [] \<or> fs p = Some Dir then (fs, Some is_directory)
      else if fs (butlast p) \<noteq> Some Dir then (fs, Some (missing fs p))
      else case write_fault w p d of
             Some (e, left) \<Rightarrow> (fs(p \<mapsto> File left), Some e)
           | None \<Rightarrow> (fs(p \<mapsto> File d), None))"

text \<open>Only files are renamed by the program.\<close>

definition rename_file ::
  "faults \<Rightarrow> string list \<Rightarrow> string list \<Rightarrow> file_system \<Rightarrow> file_system \<times> go_error option" where
  "rename_file w p q fs =
     (case fs p of
        Some (File d) \<Rightarrow>
          (if fs q = Some Dir then (fs, Some (Err ''file exists''))
           else if fs (butlast q) \<noteq> Some Dir then (fs, Some (missing fs q))
           else case rename_fault w p q of
                  Some e \<Rightarrow> (fs, Some e)
                | None \<Rightarrow> ((fs(p := None))(q \<mapsto> File d), None))
      | _ \<Rightarrow> (fs, Some (missing fs p)))"

text \<open>Whether a directory is empty, so that it may be removed, is left to the fault record.\<close>

definition remove_file :: "faults \<Rightarrow> string list \<Rightarrow> file_system \<Rightarrow> file_system \<times> go_error option" where
  "remove_file w p fs =
     (case fs p of
        None \<Rightarrow> (fs, Some (missing fs p))
      | Some nd \<Rightarrow>
          (case remove_fault w p of
             Some e \<Rightarrow> (fs, Some (Wrapped ''remove: '' e))
           | None \<Rightarrow> (fs(p := None), None)))"

definition read_file :: "faults \<Rightarrow> string list \<Rightarrow> file_system \<Rightarrow> string res" where
  "read_file w p fs =
     (case fs p of
        None \<Rightarrow> Inl (missing fs p)
      | Some Dir \<Rightarrow> Inl is_directory
      | Some (File d) \<Rightarrow> (case read_fault w p of Some e \<Rightarrow> Inl e | None \<Rightarrow> Inr d))"

lemma missing_make_dirs [simp]: "missing (make_dirs ps fs) q = missing fs q"
proof -
  have "is_file (make_dirs ps fs) = is_file fs"
    by (rule ext) (simp add: is_file_def make_dirs_def split: option.splits)
  then show ?thesis by (simp add: missing_def)
qed

lemma read_make_dirs:
  assumes "p \<notin> set ps"
  shows "read_file w p (make_dirs ps fs) = read_file w p fs"
proof -
  have "make_dirs ps fs p = fs p" using assms by (simp add: make_dirs_def)
  then show ?thesis unfolding read_file_def missing_make_dirs by simp
qed

text \<open>Writing beside a file, at a path that is not above it, does not change what the file reads as.\<close>

lemma missing_update:
  assumes "q \<notin> set (ancestors p)"
  shows "missing (fs(q := nd)) p = missing fs p"
proof -
  have "list_ex (is_file (fs(q := nd))) (ancestors p) = list_ex (is_file fs) (ancestors p)"
    using assms by (auto simp: list_ex_iff is_file_def)
  then show ?thesis by (simp add: missing_def)
qed

lemma read_update:
  "q \<notin> set (ancestors p) \<Longrightarrow> q \<noteq> p \<Longrightarrow> read_file w p (fs(q := nd)) = read_file w p fs"
  by (simp add: read_file_def missing_update split: option.splits node.splits)

lemma ancestors_length: "q \<in> set (ancestors p) \<Longrightarrow> length q < length p"
  by (auto simp: ancestors_def)

subsection \<open>Facts on paths\<close>

definition plain_part :: "string \<Rightarrow> bool" where
  "plain_part p \<longleftrightarrow> p \<noteq> [] \<and> p \<noteq> ''.'' \<and> p \<noteq> ''..'' \<and> CHR ''/'' \<notin> set p"

lemma split_on_single [simp]: "sep \<notin> set p \<Longrightarrow> split_on sep p = [p]"
  by (induction sep p rule: split_on.induct) auto

lemma join_with_snoc:
  "join_with sep (ps @ [p @ q]) = join_with sep (ps @ [p]) @ q"
  by (induction sep ps rule: join_with.induct) auto

lemma split_on_append: "split_on sep (a @ sep # b) = split_on sep a @ split_on sep b"
  by (induction sep a rule: split_on.induct) (auto split: list.splits)

lemma split_on_join:
  "ps \<noteq> [] \<Longrightarrow> (\<And>p. p \<in> set ps \<Longrightarrow> sep \<notin> set p) \<Longrightarrow> split_on sep (join_with [sep] ps) = ps"
  by (induction "[sep]" ps rule: join_with.induct) (auto simp: split_on_append)

lemma clean_parts_append:
  "clean_parts a acc (xs @ ys) = clean_parts a (rev (clean_parts a acc xs)) ys"
  by (simp add: clean_parts_def)

lemma clean_parts_Nil [simp]: "clean_parts a acc [] = rev acc"
  by (simp add: clean_parts_def)

lemma clean_parts_Cons: "clean_parts a acc (p # ps) = clean_parts a (push_part a acc p) ps"
  by (simp add: clean_parts_def)

lemma clean_parts_skip [simp]: "clean_parts a acc ([] # ps) = clean_parts a acc ps"
  by (simp add: clean_parts_def push_part_def)

lemma clean_parts_snoc: "clean_parts a acc (xs @ [p]) = rev (push_part a (rev (clean_parts a acc xs)) p)"
  by (simp add: clean_parts_def)

lemma push_plain: "plain_part p \<Longrightarrow> push_part a acc p = p # acc"
  by (auto simp: push_part_def plain_part_def)

lemma push_pop: "p \<noteq> ''..'' \<Longrightarrow> push_part a (p # acc) ''..'' = acc"
  by (simp add: push_part_def)

lemma clean_parts_plain:
  "(\<And>p. p \<in> set ps \<Longrightarrow> plain_part p) \<Longrightarrow> clean_parts a acc ps = rev acc @ ps"
  by (induction ps arbitrary: acc) (simp_all add: clean_parts_Cons push_plain)

lemma push_absolute_plain:
  assumes "\<And>p. p \<in> set acc \<Longrightarrow> plain_part p" and "CHR ''/'' \<notin> set p" and "q \<in> set (push_part True acc p)"
  shows "plain_part q"
  using assms by (cases acc) (auto simp: push_part_def plain_part_def split: if_splits)

lemma clean_parts_absolute:
  assumes "\<And>p. p \<in> set acc \<Longrightarrow> plain_part p" and "\<And>p. p \<in> set ps \<Longrightarrow> CHR ''/'' \<notin> set p"
    and "q \<in> set (clean_parts True acc ps)"
  shows "plain_part q"
  using assms
proof (induction ps arbitrary: acc)
  case (Cons p ps)
  show ?case
    by (rule Cons.IH [of "push_part True acc p"])
      (use Cons.prems push_absolute_plain [of acc p] in \<open>auto simp: clean_parts_Cons\<close>)
qed simp

lemma plain_parts_absolute: "rooted p \<Longrightarrow> q \<in> set (path_parts p) \<Longrightarrow> plain_part q"
  unfolding path_parts_def
  by (rule clean_parts_absolute [of "[]" "split_on (CHR ''/'') p"]) (auto dest: split_on_no_sep)

lemma path_parts_text:
  assumes "\<And>p. p \<in> set ps \<Longrightarrow> plain_part p"
  shows "path_parts (path_text True ps) = ps"
proof -
  have "split_on (CHR ''/'') (join_with ''/'' ps) = (if ps = [] then [[]] else ps)"
    using assms by (auto simp: plain_part_def intro: split_on_join)
  then have "clean_parts True [] (split_on (CHR ''/'') (path_text True ps)) = ps"
    using assms by (auto simp: path_text_def clean_parts_plain)
  then show ?thesis by (simp add: path_parts_def rooted_def path_text_def)
qed

lemma path_parts_clean: "rooted p \<Longrightarrow> path_parts (clean_path p) = path_parts p"
  by (auto simp: clean_path_def intro: path_parts_text plain_parts_absolute)

lemma rooted_append [simp]: "rooted p \<Longrightarrow> rooted (p @ q)"
  by (auto simp: rooted_def has_prefix_iff)

lemma rooted_clean [simp]: "rooted p \<Longrightarrow> rooted (clean_path p)"
  by (simp add: clean_path_def path_text_def rooted_def)

lemma path_parts_slash:
  assumes "rooted d"
  shows "path_parts (d @ ''/'' @ p) = clean_parts True (rev (path_parts d)) (split_on (CHR ''/'') p)"
  using assms by (simp add: path_parts_def split_on_append clean_parts_append)

lemma path_parts_child:
  "rooted d \<Longrightarrow> plain_part n \<Longrightarrow> path_parts (d @ ''/'' @ n) = path_parts d @ [n]"
  by (simp add: path_parts_slash [simplified] clean_parts_Cons push_plain plain_part_def [of n])

text \<open>Cleaning a relative path first does not change what it names below a directory.\<close>

lemma clean_parts_proper:
  assumes "q \<in> set (clean_parts a [] ps)"
  shows "q \<noteq> [] \<and> q \<noteq> ''.''"
  using assms
proof (induction ps arbitrary: q rule: rev_induct)
  case (snoc p ps)
  then show ?case
    by (cases "rev (clean_parts a [] ps)") (auto simp: clean_parts_snoc push_part_def split: if_splits)
qed simp

lemma clean_parts_relative: "clean_parts True acc (clean_parts False [] ps) = clean_parts True acc ps"
proof (induction ps rule: rev_induct)
  case (snoc p ps)
  let ?r = "clean_parts False [] ps" and ?t = "clean_parts True acc ps"
  have ih: "clean_parts True acc ?r = ?t" using snoc by simp
  show ?case
  proof (cases "p = ''..'' \<and> ?r \<noteq> [] \<and> last ?r \<noteq> ''..''")
    case True
    then obtain rs q where r: "?r = rs @ [q]" and q: "q \<noteq> ''..''" by (metis append_butlast_last_id)
    have "q \<noteq> [] \<and> q \<noteq> ''.''" using r by (intro clean_parts_proper [of q False ps]) simp
    with q have "?t = clean_parts True acc rs @ [q]"
      unfolding ih [symmetric] r by (simp add: clean_parts_snoc push_part_def)
    with True r q show ?thesis by (simp add: clean_parts_snoc push_pop)
  next
    case False
    then have "clean_parts False [] (ps @ [p]) = (if p = [] \<or> p = ''.'' then ?r else ?r @ [p])"
      by (cases "rev ?r") (auto simp: clean_parts_snoc push_part_def)
    then show ?thesis using ih by (simp add: clean_parts_snoc push_part_def)
  qed
qed simp

lemma split_join_parts:
  "(\<And>p. p \<in> set ps \<Longrightarrow> CHR ''/'' \<notin> set p) \<Longrightarrow>
     clean_parts a acc (split_on (CHR ''/'') (join_with ''/'' ps)) = clean_parts a acc ps"
  by (cases "ps = []") (simp_all add: split_on_join)

lemma clean_parts_slashless:
  assumes "q \<in> set (clean_parts a [] (split_on (CHR ''/'') p))"
  shows "CHR ''/'' \<notin> set q"
proof -
  have "\<forall>q \<in> set (clean_parts a [] ps). CHR ''/'' \<notin> set q" if "\<forall>p \<in> set ps. CHR ''/'' \<notin> set p" for ps
    using that
  proof (induction ps rule: rev_induct)
    case (snoc p ps)
    then show ?case
      by (cases "rev (clean_parts a [] ps)") (auto simp: clean_parts_snoc push_part_def)
  qed simp
  with assms show ?thesis by (blast dest: split_on_no_sep)
qed

text \<open>A file below a directory is the same file whether the directory was made absolute first or
  the joined path is read in the working directory.\<close>

lemma resolve_child:
  assumes cwd: "rooted cwd" and n: "plain_part n" and abs: "abs_path (Inr cwd) d = Inr a"
  shows "rooted a" and "path_parts (join_path [a, n]) = path_parts a @ [n]"
    and "resolve cwd (join_path [d, n]) = path_parts a @ [n]"
proof -
  have cwd_not: "cwd \<noteq> []" using cwd by (auto simp: rooted_def)
  have n_not: "n \<noteq> []" and n_rooted: "\<not> rooted n"
    using n by (cases n; auto simp: plain_part_def rooted_def)+
  have join2: "join_path [p, n] = clean_path (if p = [] then n else p @ ''/'' @ n)" for p
    using n_not by (simp add: join_path_def)
  have below: "path_parts (clean_path (p @ ''/'' @ n)) = path_parts p @ [n]" if "rooted p" for p
    using that n by (simp only: path_parts_clean rooted_append path_parts_child)
  show a: "rooted a"
    using abs cwd cwd_not by (cases d) (auto simp: abs_path_def join_path_def rooted_clean split: if_splits)
  then have "a \<noteq> []" by (auto simp: rooted_def)
  then show "path_parts (join_path [a, n]) = path_parts a @ [n]" unfolding join2 using a below by simp
  show "resolve cwd (join_path [d, n]) = path_parts a @ [n]"
  proof (cases "rooted d")
    case True
    then have "d \<noteq> []" by (auto simp: rooted_def)
    then show ?thesis
      using True abs below [OF True] unfolding join2 by (simp add: resolve_def abs_path_def) (metis path_parts_clean)
  next
    case False
    let ?dn = "if d = [] then n else d @ ''/'' @ n"
    have rel: "\<not> rooted ?dn" using False n_rooted by (cases d) (auto simp: rooted_def)
    let ?ps = "clean_parts False [] (split_on (CHR ''/'') ?dn)"
    let ?c = "rev (path_parts cwd)"
    have txt_eq: "clean_path ?dn = path_text False ?ps" using rel by (simp add: clean_path_def path_parts_def)
    have not_rooted: "\<not> rooted (path_text False ?ps)"
    proof (cases ?ps)
      case Nil
      then show ?thesis by (simp add: path_text_def rooted_def)
    next
      case (Cons p ps)
      then have "p \<noteq> []" and "CHR ''/'' \<notin> set p"
        using clean_parts_proper [of p False "split_on (CHR ''/'') ?dn"] clean_parts_slashless [of p False ?dn]
        by simp_all
      then show ?thesis using Cons by (cases ps; cases p) (auto simp: path_text_def rooted_def)
    qed
    have "clean_parts True ?c (split_on (CHR ''/'') (path_text False ?ps)) = clean_parts True ?c ?ps"
    proof (cases "?ps = []")
      case True
      then show ?thesis by (simp add: path_text_def clean_parts_Cons push_part_def)
    next
      case False
      then show ?thesis
        unfolding path_text_def by (simp add: split_join_parts clean_parts_slashless)
    qed
    then have "resolve cwd (clean_path ?dn) = clean_parts True ?c (split_on (CHR ''/'') ?dn)"
      unfolding txt_eq resolve_def using not_rooted cwd
      by (simp only: path_parts_slash clean_parts_relative if_False)
    also have "\<dots> = path_parts (cwd @ ''/'' @ ?dn)" using cwd by (simp only: path_parts_slash)
    also have "\<dots> = path_parts (cwd @ ''/'' @ d) @ [n]"
    proof (cases "d = []")
      case True
      have "path_parts (cwd @ ''/'' @ []) = path_parts cwd" using cwd by (simp only: path_parts_slash) simp
      then show ?thesis using path_parts_child [OF cwd n] by (simp add: True)
    next
      case False
      have "cwd @ ''/'' @ d @ ''/'' @ n = (cwd @ ''/'' @ d) @ ''/'' @ n" by simp
      then show ?thesis using False cwd n
        by (simp only: if_False) (metis path_parts_child rooted_append)
    qed
    also have "path_parts (cwd @ ''/'' @ d) = path_parts a"
    proof -
      have "a = clean_path (cwd @ ''/'' @ d)" using abs False cwd_not by (simp add: abs_path_def join_path_def)
      then show ?thesis using cwd by (simp only: path_parts_clean rooted_append)
    qed
    finally show ?thesis unfolding join2 .
  qed
qed

end
