(* ===== verification/WorkflowFiles.thy ===== *)
theory WorkflowFiles
  imports GoFiles WorkflowStep
begin

text \<open>
  \<^verbatim>\<open>internal/workflow/file_store.go\<close>: run states as JSON files below a directory. Parameters: the
  working directory, the faults of the machine, and \<open>encode\<close> and \<open>decode\<close> for \<^verbatim>\<open>json.MarshalIndent\<close>
  and \<^verbatim>\<open>json.Unmarshal\<close> at the type \<^verbatim>\<open>State\<close>.
\<close>

definition save_write ::
  "faults \<Rightarrow> (wf_state \<Rightarrow> string res) \<Rightarrow> string \<Rightarrow> wf_state \<Rightarrow> file_system \<Rightarrow>
     file_system \<times> go_error option" where
  "save_write w encode dir st fs =
     (let target = join_path [dir, wr_id (ws_run st) @ ''.json''] in
      if (case rel_path dir target of Inl e \<Rightarrow> True | Inr rel \<Rightarrow> has_prefix rel ''..'')
      then (fs, Some (Err ''run state path escapes root''))
      else case encode st of
             Inl e \<Rightarrow> (fs, Some e)
           | Inr d \<Rightarrow>
               (let tmp = target @ ''.tmp'' in
                case write_file w (path_parts tmp) d fs of
                  (fs2, Some e) \<Rightarrow> (fs2, Some e)
                | (fs2, None) \<Rightarrow> rename_file w (path_parts tmp) (path_parts target) fs2))"

definition save_state ::
  "string res \<Rightarrow> faults \<Rightarrow> (wf_state \<Rightarrow> string res) \<Rightarrow> string \<Rightarrow> wf_state option \<Rightarrow> file_system \<Rightarrow>
     file_system \<times> go_error option" where
  "save_state getwd w encode rdir st fs =
     (case st of
        None \<Rightarrow> (fs, Some (Err ''run state id is required''))
      | Some s \<Rightarrow>
          if wr_id (ws_run s) = [] then (fs, Some (Err ''run state id is required''))
          else case abs_path getwd rdir of
                 Inl e \<Rightarrow> (fs, Some e)
               | Inr dir \<Rightarrow>
                   (case mkdir_all w (path_parts dir) fs of
                      (fs1, Some e) \<Rightarrow> (fs1, Some e)
                    | (fs1, None) \<Rightarrow> save_write w encode dir s fs1))"

definition load_state ::
  "string \<Rightarrow> faults \<Rightarrow> (string \<Rightarrow> wf_state res) \<Rightarrow> string \<Rightarrow> string \<Rightarrow> file_system \<Rightarrow> wf_state res" where
  "load_state cwd w decode rdir run_id fs =
     bind_res (read_file w (resolve cwd (join_path [rdir, base_name run_id @ ''.json''])) fs) decode"

lemma state_file_plain:
  assumes "CHR ''/'' \<notin> set i"
  shows "plain_part (i @ ''.json'')" and "plain_part (i @ ''.json.tmp'')"
  using assms by (auto simp: plain_part_def append_eq_Cons_conv)

lemma base_name_plain: "i \<noteq> [] \<Longrightarrow> CHR ''/'' \<notin> set i \<Longrightarrow> base_name i = i"
proof -
  assume i: "i \<noteq> []" "CHR ''/'' \<notin> set i"
  then have "dropWhile (\<lambda>c. c = CHR ''/'') (rev i) = rev i"
    by (metis dropWhile_eq_self_iff last_in_set hd_rev)
  then have "trim_right (\<lambda>c. c = CHR ''/'') i = i" by (simp add: trim_right_def)
  then have "base_name i = last (split_on (CHR ''/'') i)"
    using i(1) unfolding base_name_def by (cases i) simp_all
  also have "\<dots> = i" by (simp only: split_on_single [OF i(2)]) simp
  finally show ?thesis .
qed

text \<open>What saving does to the file of the run: nothing before the rename, everything at it.\<close>

lemma save_write_reads:
  assumes dir: "rooted dir" and i: "CHR ''/'' \<notin> set (wr_id (ws_run st))"
    and parts: "path_parts (join_path [dir, wr_id (ws_run st) @ ''.json'']) = path_parts dir @ [wr_id (ws_run st) @ ''.json'']"
    and res: "save_write w encode dir st fs = (fs', e)"
  defines "p \<equiv> path_parts dir @ [wr_id (ws_run st) @ ''.json'']"
  shows "(e = None \<longrightarrow> (\<exists>d. encode st = Inr d \<and> fs' p = Some (File d))) \<and>
         (e \<noteq> None \<longrightarrow> read_file w p fs' = read_file w p fs)"
proof -
  let ?i = "wr_id (ws_run st)"
  let ?target = "join_path [dir, ?i @ ''.json'']" and ?q = "path_parts dir @ [?i @ ''.json.tmp'']"
  have "?target = clean_path (dir @ ''/'' @ ?i @ ''.json'')"
    using dir by (auto simp: join_path_def rooted_def)
  then have "path_parts (?target @ ''.tmp'') = ?q"
  proof -
    have "?target = path_text True p"
      unfolding p_def parts [symmetric] unfolding \<open>?target = _\<close>
      using dir by (simp only: path_parts_clean rooted_append) (simp add: clean_path_def)
    then have "?target @ ''.tmp'' = path_text True ?q"
      using join_with_snoc [of "''/''" "path_parts dir" "?i @ ''.json''" "''.tmp''"]
      by (simp add: p_def path_text_def)
    moreover have "path_parts (path_text True ?q) = ?q"
      using dir state_file_plain(2) [OF i] by (auto intro!: path_parts_text dest: plain_parts_absolute)
    ultimately show ?thesis by simp
  qed
  moreover have "?q \<notin> set (ancestors p)" using ancestors_length [of ?q p] by (auto simp: p_def)
  moreover have "?q \<noteq> p" by (simp add: p_def)
  ultimately show ?thesis
    using res parts [folded p_def]
    by (auto simp: save_write_def Let_def write_file_def rename_file_def read_update
        split: if_splits sum.splits option.splits node.splits prod.splits)
qed

text \<open>
  C31: Loading the id of a saved state returns that state when Save reported no error, and what it
  returned before the call when Save failed, at whichever file operation it failed; the run id
  contains no slash, the files can be read and the decoder inverts the encoder.
\<close>

theorem save_is_atomic_and_load_returns_it:
  assumes codec: "\<And>d. encode st = Inr d \<Longrightarrow> decode d = Inr st"
    and cwd: "rooted cwd" and i: "CHR ''/'' \<notin> set (wr_id (ws_run st))"
    and readable: "\<And>p. read_fault w p = None"
    and res: "save_state (Inr cwd) w encode rdir (Some st) fs = (fs', e)"
  shows "load_state cwd w decode rdir (wr_id (ws_run st)) fs' =
    (if e = None then Inr st else load_state cwd w decode rdir (wr_id (ws_run st)) fs)"
proof (cases "wr_id (ws_run st) = []")
  case True
  then show ?thesis using res by (auto simp: save_state_def)
next
  case False
  let ?i = "wr_id (ws_run st)"
  have plain: "plain_part (?i @ ''.json'')" using i by (rule state_file_plain)
  have base: "base_name ?i = ?i" using False i by (rule base_name_plain)
  obtain dir where dir: "abs_path (Inr cwd) rdir = Inr dir" by (cases "rooted rdir") (simp_all add: abs_path_def)
  note child = resolve_child [OF cwd plain dir]
  let ?p = "path_parts dir @ [?i @ ''.json'']"
  have load: "load_state cwd w decode rdir ?i f = bind_res (read_file w ?p f) decode" for f
    unfolding load_state_def base child(3) ..
  obtain fs1 e1 where mk: "mkdir_all w (path_parts dir) fs = (fs1, e1)" by (cases "mkdir_all w (path_parts dir) fs")
  have same: "read_file w ?p fs1 = read_file w ?p fs"
  proof -
    have "?p \<notin> set (ancestors (path_parts dir) @ [path_parts dir])"
      by (auto dest: ancestors_length)
    then have "?p \<notin> set (take n (ancestors (path_parts dir)))" for n by (auto dest: in_set_takeD)
    with \<open>?p \<notin> set (ancestors (path_parts dir) @ [path_parts dir])\<close> show ?thesis using mk
      by (auto simp: mkdir_all_def read_make_dirs split: if_splits option.splits)
  qed
  show ?thesis
  proof (cases e1)
    case (Some x)
    then have "fs' = fs1 \<and> e \<noteq> None" using res False dir mk by (auto simp: save_state_def)
    then show ?thesis by (auto simp: load same)
  next
    case None
    then have "save_write w encode dir st fs1 = (fs', e)" using res False dir mk by (simp add: save_state_def)
    note reads = save_write_reads [OF child(1) i child(2) this]
    show ?thesis
    proof (cases e)
      case None
      then obtain d where "encode st = Inr d" and d: "fs' ?p = Some (File d)" using reads by blast
      then have "decode d = Inr st" by (intro codec)
      moreover have "read_file w ?p fs' = Inr d" using d readable by (simp add: read_file_def)
      ultimately show ?thesis using None by (simp add: load)
    next
      case (Some x)
      then show ?thesis using reads same by (simp add: load)
    qed
  qed
qed


lemma save_is_atomic_and_load_returns_it_witness:
  "\<exists>st fs'. wr_id (ws_run st) = ''run-1'' \<and>
     save_state (Inr ''/srv'') no_faults (\<lambda>s. Inr ''{}'') ''data/./runs'' (Some st) (\<lambda>p. None) = (fs', None) \<and>
     load_state ''/srv'' no_faults (\<lambda>d. Inr st) ''data/./runs'' ''run-1'' fs' = Inr st"
proof -
  let ?st = "\<lparr>ws_run = \<lparr>wr_id = ''run-1'', wr_task_id = [], wr_workflow_definition_id = [],
      wr_workflow_version = [], wr_status = RunPending, wr_started_at = None, wr_completed_at = None,
      wr_previous_run_id = None, wr_trigger_source = [], wr_summary = []\<rparr>,
    ws_steps = Map.empty, ws_events = []\<rparr>"
  obtain fs' where saved: "save_state (Inr ''/srv'') no_faults (\<lambda>s. Inr ''{}'') ''data/./runs'' (Some ?st)
      (\<lambda>p. None) = (fs', None)"
    by (simp add: save_state_def save_write_def abs_path_def rooted_def join_path_def clean_path_def
        path_parts_def clean_parts_def push_part_def path_text_def rel_path_def mkdir_all_def
        write_file_def rename_file_def no_faults_def make_dirs_def ancestors_def is_file_def Let_def)
  have "load_state ''/srv'' no_faults (\<lambda>d. Inr ?st) ''data/./runs'' ''run-1'' fs' = Inr ?st"
    using save_is_atomic_and_load_returns_it [of "\<lambda>s. Inr ''{}''" ?st "\<lambda>d. Inr ?st", OF _ _ _ _ saved]
    by (simp add: rooted_def no_faults_def)
  with saved show ?thesis by (intro exI [of _ ?st] exI [of _ fs']) simp
qed

end
