(* ===== verification/Artifacts.thy ===== *)
theory Artifacts
  imports GoFiles Domain
begin

text \<open>
  \<^verbatim>\<open>internal/artifact/local.go\<close> and \<^verbatim>\<open>internal/artifact/retention.go\<close>: the local artifact store and the
  purge of expired artifacts. Parameters: the faults of the machine, \<open>redact\<close> for the text of the
  redactor, \<open>sha\<close> for the hexadecimal SHA-256 digest, the clock and the random bytes of a new
  identifier.
\<close>

subsection \<open>Storing and deleting content\<close>

record put_request =
  pr_program_id :: string
  pr_task_id :: string
  pr_workflow_run_id :: string
  pr_step_run_id :: string
  pr_tool_run_id :: string
  pr_type :: string
  pr_content_type :: string
  pr_name :: string
  pr_sensitive :: bool
  pr_retention :: int
  pr_data :: string

record local_store =
  lc_root :: string
  lc_redact :: "string \<Rightarrow> string"

definition new_local_store :: "string res \<Rightarrow> string \<Rightarrow> (string \<Rightarrow> string) \<Rightarrow> local_store res" where
  "new_local_store getwd base redact =
     bind_res (abs_path getwd base) (\<lambda>a. Inr \<lparr>lc_root = a, lc_redact = redact\<rparr>)"

definition within_root :: "string \<Rightarrow> string \<Rightarrow> bool" where
  "within_root base target =
     (case rel_path base target of
        Inl e \<Rightarrow> False
      | Inr rel \<Rightarrow> rel \<noteq> ''..'' \<and> \<not> has_prefix rel ''../'')"

definition artifact_dir :: "local_store \<Rightarrow> put_request \<Rightarrow> string" where
  "artifact_dir l r =
     join_path
       ([lc_root l, ''programs'', pr_program_id r, ''tasks'', pr_task_id r, ''runs'', pr_workflow_run_id r,
         ''steps'', pr_step_run_id r, ''tool-runs'', pr_tool_run_id r]
        @ (if pr_sensitive r then [''sensitive''] else []))"

definition stored_data :: "local_store \<Rightarrow> put_request \<Rightarrow> string" where
  "stored_data l r = (if pr_sensitive r then pr_data r else lc_redact l (pr_data r))"

definition artifact_of ::
  "(string \<Rightarrow> string) \<Rightarrow> int \<Rightarrow> 8 word list \<Rightarrow> put_request \<Rightarrow> string \<Rightarrow> string \<Rightarrow> artifact" where
  "artifact_of sha now random r location d =
     \<lparr>art_id = new_id random, art_task_id = pr_task_id r, art_workflow_run_id = pr_workflow_run_id r,
      art_step_run_id = pr_step_run_id r, art_tool_run_id = pr_tool_run_id r, art_type = pr_type r,
      art_content_type = pr_content_type r, art_size = int (length d), art_sha256 = sha d,
      art_storage_location = location, art_created_at = now,
      art_expires_at = (if pr_retention r > 0 then Some (now + pr_retention r) else None),
      art_redaction_state = (if pr_sensitive r then ''sensitive-separated'' else ''redacted''),
      art_sensitive = pr_sensitive r\<rparr>"

definition put_artifact ::
  "faults \<Rightarrow> (string \<Rightarrow> string) \<Rightarrow> int \<Rightarrow> 8 word list \<Rightarrow> local_store \<Rightarrow> put_request \<Rightarrow> file_system \<Rightarrow>
     file_system \<times> artifact res" where
  "put_artifact w sha now random l r fs =
     (if pr_program_id r = [] \<or> pr_task_id r = [] \<or> pr_workflow_run_id r = [] \<or> pr_step_run_id r = [] \<or>
         pr_tool_run_id r = []
      then (fs, Inl (Err ''complete artifact lineage is required''))
      else
        let name0 = base_name (pr_name r);
            name = (if name0 = ''.'' \<or> name0 = [] then ''artifact.bin'' else name0);
            dir = artifact_dir l r
        in if \<not> within_root (lc_root l) dir
           then (fs, Inl (Err ''artifact path escapes storage root''))
           else case mkdir_all w (path_parts dir) fs of
                  (fs1, Some e) \<Rightarrow> (fs1, Inl e)
                | (fs1, None) \<Rightarrow>
                    let d = stored_data l r; location = join_path [dir, name]
                    in case write_file w (path_parts location) d fs1 of
                         (fs2, Some e) \<Rightarrow> (fs2, Inl e)
                       | (fs2, None) \<Rightarrow> (fs2, Inr (artifact_of sha now random r location d)))"

definition delete_artifact ::
  "string res \<Rightarrow> faults \<Rightarrow> local_store \<Rightarrow> artifact \<Rightarrow> file_system \<Rightarrow> file_system \<times> go_error option" where
  "delete_artifact getwd w l a fs =
     (case abs_path getwd (art_storage_location a) of
        Inl e \<Rightarrow> (fs, Some e)
      | Inr location \<Rightarrow>
          if \<not> within_root (lc_root l) location then (fs, Some (Err ''artifact path escapes storage root''))
          else case remove_file w (path_parts location) fs of
                 (fs1, Some e) \<Rightarrow> (fs1, if e = not_exist then None else Some e)
               | (fs1, None) \<Rightarrow> (fs1, None))"

subsection \<open>Retention\<close>

text \<open>The world \<open>'w\<close> holds the content and the rows; \<open>del\<close> and \<open>del_row\<close> are the two interfaces.\<close>

fun purge_items ::
  "(artifact \<Rightarrow> 'w \<Rightarrow> 'w \<times> go_error option) \<Rightarrow> (string \<Rightarrow> 'w \<Rightarrow> 'w \<times> go_error option) \<Rightarrow>
     artifact list \<Rightarrow> nat \<Rightarrow> 'w \<Rightarrow> 'w \<times> nat \<times> go_error option" where
  "purge_items del del_row [] n w = (w, n, None)"
| "purge_items del del_row (a # items) n w =
     (case del a w of
        (w1, Some e) \<Rightarrow> (w1, n, Some (Wrapped (''delete artifact content '' @ art_id a @ '': '') e))
      | (w1, None) \<Rightarrow>
          (case del_row (art_id a) w1 of
             (w2, Some e) \<Rightarrow> (w2, n, Some (Wrapped (''delete artifact metadata '' @ art_id a @ '': '') e))
           | (w2, None) \<Rightarrow> purge_items del del_row items (Suc n) w2))"

definition purge_expired ::
  "(int \<Rightarrow> 'w \<Rightarrow> artifact list res) option \<Rightarrow> (string \<Rightarrow> 'w \<Rightarrow> 'w \<times> go_error option) \<Rightarrow>
     (artifact \<Rightarrow> 'w \<Rightarrow> 'w \<times> go_error option) option \<Rightarrow> int \<Rightarrow> 'w \<Rightarrow> 'w \<times> nat \<times> go_error option" where
  "purge_expired expired del_row storage max_items w =
     (case (expired, storage) of
        (Some ex, Some del) \<Rightarrow>
          if max_items < 1 then (w, 0, Some (Err ''retention purge limit must be positive''))
          else (case ex max_items w of
                  Inl e \<Rightarrow> (w, 0, Some e)
                | Inr items \<Rightarrow> purge_items del del_row items 0 w)
      | _ \<Rightarrow> (w, 0, Some (Err ''retention store and artifact deleter are required'')))"

text \<open>The contract of the two stores a purge works on: \<open>gone\<close> content, and rows that name it.\<close>

locale retention_stores =
  fixes del :: "artifact \<Rightarrow> 'w \<Rightarrow> 'w \<times> go_error option"
    and del_row :: "string \<Rightarrow> 'w \<Rightarrow> 'w \<times> go_error option"
    and gone :: "artifact \<Rightarrow> 'w \<Rightarrow> bool"
    and has_row :: "string \<Rightarrow> 'w \<Rightarrow> bool"
  assumes del_gone: "del a w = (w', None) \<Longrightarrow> gone a w'"
    and del_keeps: "del a w = (w', e) \<Longrightarrow> gone b w \<Longrightarrow> gone b w'"
    and del_rows: "del a w = (w', e) \<Longrightarrow> has_row i w' = has_row i w"
    and row_gone: "del_row i w = (w', e) \<Longrightarrow> gone b w' = gone b w"
    and row_only: "del_row i w = (w', e) \<Longrightarrow> has_row j w' = (has_row j w \<and> \<not> (e = None \<and> j = i))"
begin

lemma purge_keeps_gone: "purge_items del del_row items n w = (w', m, e) \<Longrightarrow> gone b w \<Longrightarrow> gone b w'"
proof (induction items arbitrary: n w)
  case (Cons a items)
  obtain w1 e1 where d: "del a w = (w1, e1)" by fastforce
  obtain w2 e2 where r: "del_row (art_id a) w1 = (w2, e2)" by fastforce
  have "gone b w1" and "gone b w2" using Cons.prems(2) del_keeps [OF d] row_gone [OF r] by auto
  then show ?case using Cons.prems(1) Cons.IH d r by (cases e1; cases e2) auto
qed simp

lemma purge_only_drops: "purge_items del del_row items n w = (w', m, e) \<Longrightarrow> has_row i w' \<Longrightarrow> has_row i w"
proof (induction items arbitrary: n w)
  case (Cons a items)
  obtain w1 e1 where d: "del a w = (w1, e1)" by fastforce
  obtain w2 e2 where r: "del_row (art_id a) w1 = (w2, e2)" by fastforce
  have older: "has_row i w2 \<Longrightarrow> has_row i w1" "has_row i w1 \<Longrightarrow> has_row i w"
    using del_rows [OF d] row_only [OF r] by auto
  then show ?case using Cons.prems Cons.IH d r by (cases e1; cases e2) auto
qed simp

lemma purge_items_spec:
  assumes "purge_items del del_row items n w = (w', m, e)" and "distinct (map art_id items)"
  shows "(\<forall>a \<in> set items. has_row (art_id a) w \<and> \<not> has_row (art_id a) w' \<longrightarrow> gone a w') \<and>
    (\<forall>i. i \<notin> art_id ` set items \<longrightarrow> has_row i w' = has_row i w) \<and>
    (e = None \<longrightarrow> m = n + length items \<and> (\<forall>a \<in> set items. gone a w' \<and> \<not> has_row (art_id a) w'))"
  using assms
proof (induction items arbitrary: n w)
  case (Cons a items)
  obtain w1 e1 where d: "del a w = (w1, e1)" by fastforce
  obtain w2 e2 where r: "del_row (art_id a) w1 = (w2, e2)" by fastforce
  show ?case
  proof (cases "e1 = None \<and> e2 = None")
    case False
    then have "(w' = w1 \<or> e1 = None \<and> e2 \<noteq> None \<and> w' = w2) \<and> e \<noteq> None"
      using Cons.prems(1) d r by (cases e1; cases e2) auto
    then have "has_row i w' = has_row i w" for i using del_rows [OF d] row_only [OF r] by auto
    then show ?thesis using \<open>(w' = w1 \<or> _) \<and> _\<close> by auto
  next
    case True
    then have rest: "purge_items del del_row items (Suc n) w2 = (w', m, e)" using Cons.prems(1) d r by simp
    note ih = Cons.IH [OF rest] 
    have "gone a w2" using del_gone d row_gone [OF r] True by auto
    then have "gone a w'" using purge_keeps_gone [OF rest] by simp
    moreover have "has_row i w2 = (has_row i w \<and> i \<noteq> art_id a)" for i
      using del_rows [OF d] row_only [OF r] True by auto
    moreover from this have "\<not> has_row (art_id a) w'" using purge_only_drops [OF rest] by blast
    ultimately show ?thesis using ih Cons.prems(2) by (auto simp: image_iff)
  qed
qed simp

end

text \<open>The local store beside a table of rows, whose deletions may fail.\<close>

definition delete_content ::
  "string res \<Rightarrow> faults \<Rightarrow> local_store \<Rightarrow> artifact \<Rightarrow> file_system \<times> string set \<Rightarrow>
     (file_system \<times> string set) \<times> go_error option" where
  "delete_content getwd w l a s =
     (case delete_artifact getwd w l a (fst s) of (fs', e) \<Rightarrow> ((fs', snd s), e))"

definition delete_row ::
  "(string \<Rightarrow> go_error option) \<Rightarrow> string \<Rightarrow> file_system \<times> string set \<Rightarrow>
     (file_system \<times> string set) \<times> go_error option" where
  "delete_row row_fault i s =
     (case row_fault i of Some e \<Rightarrow> (s, Some e) | None \<Rightarrow> ((fst s, snd s - {i}), None))"

definition content_gone :: "string res \<Rightarrow> artifact \<Rightarrow> file_system \<times> string set \<Rightarrow> bool" where
  "content_gone getwd a s =
     (case abs_path getwd (art_storage_location a) of
        Inl e \<Rightarrow> False | Inr location \<Rightarrow> fst s (path_parts location) = None)"

lemma remove_file_gone:
  "remove_file w p fs = (fs', e) \<Longrightarrow> e = None \<or> e = Some not_exist \<Longrightarrow> fs' p = None"
  by (auto simp: remove_file_def missing_def not_exist_def split: option.splits)

lemma remove_file_keeps: "remove_file w p fs = (fs', e) \<Longrightarrow> fs q = None \<Longrightarrow> fs' q = None"
  by (auto simp: remove_file_def split: option.splits if_splits)

interpretation local_retention:
  retention_stores "delete_content getwd w l" "delete_row row_fault" "content_gone getwd" "\<lambda>i s. i \<in> snd s"
  for getwd w l row_fault
proof
  fix a s s' assume "delete_content getwd w l a s = (s', None)"
  then show "content_gone getwd a s'"
    by (auto simp: delete_content_def delete_artifact_def content_gone_def intro: remove_file_gone
        split: sum.splits if_splits prod.splits option.splits)
next
  fix a b s s' e assume "delete_content getwd w l a s = (s', e)" and "content_gone getwd b s"
  then show "content_gone getwd b s'"
    by (auto simp: delete_content_def delete_artifact_def content_gone_def intro: remove_file_keeps
        split: sum.splits if_splits prod.splits option.splits)
qed (auto simp: delete_content_def delete_row_def content_gone_def split: prod.splits option.splits sum.splits)

subsection \<open>Facts\<close>

lemma strip_common_Nil: "strip_common xs ys = ([], zs) \<Longrightarrow> ys = xs @ zs"
  by (induction xs ys rule: strip_common.induct) (auto split: if_splits)

lemma within_root_below:
  assumes "within_root base target"
  shows "\<exists>ps. path_parts target = path_parts base @ ps"
proof -
  obtain up down where sc: "strip_common (path_parts base) (path_parts target) = (up, down)" by fastforce
  have "up = []"
  proof (rule ccontr)
    assume up: "up \<noteq> []"
    then have rel: "path_text False (map (\<lambda>_. ''..'') up @ down) = ''..'' \<or>
        has_prefix (path_text False (map (\<lambda>_. ''..'') up @ down)) ''../''"
      by (cases "map (\<lambda>_. ''..'') (tl up) @ down"; cases up) (simp_all add: path_text_def)
    with assms sc show False by (auto simp: within_root_def rel_path_def split: if_splits)
  qed
  with sc strip_common_Nil show ?thesis by blast
qed

lemma mkdir_all_made:
  assumes "mkdir_all w p fs = (fs', None)" and "q = p \<or> q \<in> set (ancestors p)"
  shows "fs' q = Some Dir"
proof -
  have "\<not> is_file fs q" and q: "q \<in> set (ancestors p @ [p])"
    and fs': "fs' = make_dirs (ancestors p @ [p]) fs"
    using assms by (auto simp: mkdir_all_def list_ex_iff split: if_splits option.splits)
  then show ?thesis by (cases "fs q") (auto simp: make_dirs_def is_file_def split: node.splits)
qed

lemma mkdir_all_only_dirs:
  assumes "mkdir_all w p fs = (fs', e)" and "fs' q \<noteq> fs q"
  shows "fs q = None \<and> fs' q = Some Dir"
  using assms by (auto simp: mkdir_all_def make_dirs_def split: if_splits option.splits)

lemma base_name_shape: "base_name p = ''/'' \<or> CHR ''/'' \<notin> set (base_name p)"
proof (cases "p = []")
  case False
  let ?q = "trim_right (\<lambda>c. c = CHR ''/'') p"
  have "CHR ''/'' \<notin> set (last (split_on (CHR ''/'') ?q))"
    by (rule split_on_no_sep) (rule last_in_set, simp)
  with False show ?thesis by (cases ?q) (simp_all add: base_name_def)
qed (simp add: base_name_def)

text \<open>The location of an artifact is a new file below its directory, or is a directory that exists.\<close>

lemma location_parts:
  assumes dir: "rooted dir" and name: "name \<noteq> []" "name \<noteq> ''.''" "name = ''/'' \<or> CHR ''/'' \<notin> set name"
  shows "(path_parts (join_path [dir, name]) = path_parts dir @ [name]) \<or>
         path_parts (join_path [dir, name]) = path_parts dir \<or>
         path_parts (join_path [dir, name]) \<in> set (ancestors (path_parts dir))"
proof -
  have "dir \<noteq> []" using dir by (auto simp: rooted_def)
  then have "join_path [dir, name] = clean_path (dir @ ''/'' @ name)"
    by (simp add: join_path_def)
  then have parts: "path_parts (join_path [dir, name]) = path_parts (dir @ ''/'' @ name)"
    using dir by (simp only: path_parts_clean rooted_append)
  consider (slash) "name = ''/''" | (up) "name = ''..''" | (plain) "plain_part name"
    using name unfolding plain_part_def by blast
  then show ?thesis
  proof cases
    case slash
    have "path_parts (dir @ ''/'' @ ''/'') = path_parts dir"
      using dir by (simp only: path_parts_slash) simp
    then show ?thesis using parts slash by simp
  next
    case up
    have parents: "path_parts (dir @ ''/'' @ ''..'') = rev (push_part True (rev (path_parts dir)) ''..'')"
      using dir by (simp only: path_parts_slash) (simp add: clean_parts_Cons)
    show ?thesis
    proof (cases "path_parts dir = []")
      case True
      then show ?thesis using parents parts up by (simp add: push_part_def)
    next
      case False
      then obtain ps p where ps: "path_parts dir = ps @ [p]" by (metis append_butlast_last_id)
      then have "plain_part p" using plain_parts_absolute [OF dir, of p] by simp
      then have "path_parts (join_path [dir, name]) = ps"
        using parents parts up ps by (simp add: push_pop plain_part_def)
      moreover have "ps \<in> set (ancestors (path_parts dir))"
        unfolding ancestors_def ps by (auto intro!: image_eqI [of _ _ "length ps"])
      ultimately show ?thesis by simp
    qed
  next
    case plain
    then show ?thesis using parts path_parts_child [OF dir plain] by simp
  qed
qed

text \<open>
  C29: Storing an artifact changes no file outside the storage root, whatever the ids and the name
  of the request contain; what is stored is the redacted content unless the artifact is sensitive,
  and the record that is returned locates and digests exactly these bytes.
\<close>

theorem artifacts_are_stored_below_the_root:
  assumes l: "rooted (lc_root l)" and put: "put_artifact w sha now random l r fs = (fs', res)"
  shows "(\<forall>p. fs' p \<noteq> fs p \<and> fs' p \<noteq> Some Dir \<longrightarrow>
        (\<exists>ps. ps \<noteq> [] \<and> p = path_parts (lc_root l) @ ps)) \<and>
    (\<forall>a. res = Inr a \<longrightarrow>
        fs' (path_parts (art_storage_location a)) = Some (File (stored_data l r)) \<and>
        art_size a = int (length (stored_data l r)) \<and> art_sha256 a = sha (stored_data l r) \<and>
        art_redaction_state a = (if pr_sensitive r then ''sensitive-separated'' else ''redacted''))"
proof -
  let ?name0 = "base_name (pr_name r)" and ?dir = "artifact_dir l r" and ?d = "stored_data l r"
  define name where "name = (if ?name0 = ''.'' \<or> ?name0 = [] then ''artifact.bin'' else ?name0)"
  let ?p = "path_parts (join_path [?dir, name])"
  have dir: "rooted ?dir"
  proof -
    have "lc_root l \<noteq> []" using l by (auto simp: rooted_def)
    then show ?thesis using l by (auto simp: artifact_dir_def join_path_def intro!: rooted_clean rooted_append)
  qed
  have name: "name \<noteq> []" "name \<noteq> ''.''" "name = ''/'' \<or> CHR ''/'' \<notin> set name"
    using base_name_shape [of "pr_name r"] by (auto simp: name_def)
  consider (refused) "fs' = fs" "\<exists>e. res = Inl e"
    | (no_dir) e where "mkdir_all w (path_parts ?dir) fs = (fs', Some e)" "res = Inl e"
    | (stored) fs1 e where "within_root (lc_root l) ?dir" "mkdir_all w (path_parts ?dir) fs = (fs1, None)"
        "write_file w ?p ?d fs1 = (fs', e)"
        "res = (case e of None \<Rightarrow> Inr (artifact_of sha now random r (join_path [?dir, name]) ?d) | Some x \<Rightarrow> Inl x)"
    using put unfolding put_artifact_def Let_def name_def [symmetric]
    by (auto split: if_splits prod.splits option.splits)
  then show ?thesis
  proof cases
    case refused
    then show ?thesis by auto
  next
    case no_dir
    then show ?thesis using mkdir_all_only_dirs by fastforce
  next
    case stored
    obtain ps where ps: "path_parts ?dir = path_parts (lc_root l) @ ps" using within_root_below [OF stored(1)] by blast
    have written: "(?p = path_parts ?dir @ [name] \<and> (\<exists>n. fs' = fs1(?p \<mapsto> File n))) \<or> fs' = fs1"
      using location_parts [OF dir name] mkdir_all_made [OF stored(2)] stored(3)
      by (auto simp: write_file_def split: if_splits option.splits prod.splits)
    have put_there: "fs' ?p = Some (File ?d)" if "e = None"
      using stored(3) that by (auto simp: write_file_def split: if_splits option.splits prod.splits)
    have "p = path_parts (lc_root l) @ (ps @ [name])" if "fs' p \<noteq> fs p" "fs' p \<noteq> Some Dir" for p
      using that written mkdir_all_only_dirs [OF stored(2), of p] by (auto simp: ps split: if_splits)
    moreover have "res = Inr a \<Longrightarrow> e = None \<and> a = artifact_of sha now random r (join_path [?dir, name]) ?d" for a
      using stored(4) by (auto split: option.splits)
    ultimately show ?thesis using put_there by (auto simp: artifact_of_def)
  qed
qed

text \<open>
  A purge removes a metadata row only after the content it locates is gone, touches no other
  row, and when it reports no error every listed artifact is gone with its row; an interrupted
  purge can thus be repeated.
\<close>

theorem purge_deletes_content_before_metadata:
  assumes purge: "purge_expired (Some expired) (delete_row row_fault) (Some (delete_content getwd w l)) max_items s =
      (s', n, e)"
    and items: "expired max_items s = Inr items" and ids: "distinct (map art_id items)"
  shows "(\<forall>a \<in> set items. art_id a \<in> snd s \<and> art_id a \<notin> snd s' \<longrightarrow> content_gone getwd a s') \<and>
    (\<forall>i. i \<notin> art_id ` set items \<longrightarrow> (i \<in> snd s') = (i \<in> snd s)) \<and>
    (e = None \<longrightarrow> n = length items \<and> (\<forall>a \<in> set items. content_gone getwd a s' \<and> art_id a \<notin> snd s'))"
proof (cases "max_items < 1")
  case True
  then show ?thesis using purge by (auto simp: purge_expired_def)
next
  case False
  then have "purge_items (delete_content getwd w l) (delete_row row_fault) items 0 s = (s', n, e)"
    using purge items by (simp add: purge_expired_def)
  from local_retention.purge_items_spec [OF this ids] show ?thesis by simp
qed

definition sample_put :: put_request where
  "sample_put =
     \<lparr>pr_program_id = ''p'', pr_task_id = ''t'', pr_workflow_run_id = ''r'', pr_step_run_id = ''..'',
      pr_tool_run_id = ''u'', pr_type = ''log'', pr_content_type = ''text/plain'',
      pr_name = ''../../tool.log'', pr_sensitive = False, pr_retention = 0, pr_data = ''token=x''\<rparr>"

definition sample_local :: local_store where
  "sample_local = \<lparr>lc_root = ''/data'', lc_redact = (\<lambda>s. ''<redacted>'')\<rparr>"

lemma sample_put_dir: "artifact_dir sample_local sample_put = ''/data/programs/p/tasks/t/runs/r/tool-runs/u''"
  by (simp add: artifact_dir_def sample_put_def sample_local_def join_path_def clean_path_def path_parts_def
      rooted_def clean_parts_def push_part_def path_text_def)

lemma sample_put_stored:
  "\<exists>fs' a. put_artifact no_faults (\<lambda>d. ''00'') 0 (replicate 16 0) sample_local sample_put Map.empty = (fs', Inr a)"
proof -
  have "base_name (pr_name sample_put) = ''tool.log''" by (simp add: sample_put_def base_name_def trim_right_def)
  then show ?thesis
    unfolding put_artifact_def sample_put_dir
    by (simp add: sample_put_def sample_local_def within_root_def rel_path_def path_parts_def rooted_def
      clean_parts_def push_part_def path_text_def mkdir_all_def ancestors_def is_file_def no_faults_def
      write_file_def make_dirs_def join_path_def clean_path_def Let_def)
qed

lemma artifacts_are_stored_below_the_root_witness:
  "\<exists>fs' a. put_artifact no_faults (\<lambda>d. ''00'') 0 (replicate 16 0) sample_local sample_put Map.empty = (fs', Inr a) \<and>
     fs' (path_parts (art_storage_location a)) = Some (File ''<redacted>'')"
proof -
  obtain fs' a where put:
    "put_artifact no_faults (\<lambda>d. ''00'') 0 (replicate 16 0) sample_local sample_put Map.empty = (fs', Inr a)"
    using sample_put_stored by blast
  have "fs' (path_parts (art_storage_location a)) = Some (File (stored_data sample_local sample_put))"
    using artifacts_are_stored_below_the_root [OF _ put] by (simp add: sample_local_def rooted_def)
  with put show ?thesis by (auto simp: stored_data_def sample_local_def sample_put_def)
qed

definition sample_artifact :: "string \<Rightarrow> string \<Rightarrow> artifact" where
  "sample_artifact i location =
     \<lparr>art_id = i, art_task_id = [], art_workflow_run_id = [], art_step_run_id = [], art_tool_run_id = [],
      art_type = [], art_content_type = [], art_size = 0, art_sha256 = [], art_storage_location = location,
      art_created_at = 0, art_expires_at = Some 1, art_redaction_state = [], art_sensitive = False\<rparr>"

lemma purge_deletes_content_before_metadata_witness:
  "\<exists>s' n e.
     purge_expired (Some (\<lambda>k s. Inr [sample_artifact ''a'' ''/data/x'', sample_artifact ''b'' ''/etc/y'']))
       (delete_row (\<lambda>i. None)) (Some (delete_content (Inr ''/'') no_faults sample_local)) 10
       ([[''data'', ''x''] \<mapsto> File [], [''etc'', ''y''] \<mapsto> File []], {''a'', ''b'', ''c''}) = (s', n, e) \<and>
     e \<noteq> None \<and> ''a'' \<notin> snd s' \<and> content_gone (Inr ''/'') (sample_artifact ''a'' ''/data/x'') s' \<and> ''c'' \<in> snd s'"
proof -
  let ?items = "[sample_artifact ''a'' ''/data/x'', sample_artifact ''b'' ''/etc/y'']"
  let ?s = "([[''data'', ''x''] \<mapsto> File [], [''etc'', ''y''] \<mapsto> File []], {''a'', ''b'', ''c''})"
  let ?run = "purge_expired (Some (\<lambda>k s. Inr ?items)) (delete_row (\<lambda>i. None))
    (Some (delete_content (Inr ''/'') no_faults sample_local)) 10 ?s"
  obtain s' n e where run: "?run = (s', n, e)" by (cases ?run)
  have "e \<noteq> None \<and> ''a'' \<notin> snd s'"
    using run by (auto simp: purge_expired_def delete_row_def delete_content_def delete_artifact_def
      sample_artifact_def sample_local_def abs_path_def rooted_def clean_path_def path_parts_def clean_parts_def
      push_part_def path_text_def within_root_def rel_path_def remove_file_def no_faults_def)
  moreover have "content_gone (Inr ''/'') (sample_artifact ''a'' ''/data/x'') s'" and "''c'' \<in> snd s'"
    using purge_deletes_content_before_metadata [OF run] calculation by (auto simp: sample_artifact_def)
  ultimately show ?thesis using run by blast
qed

end
