(* ===== verification/Execution.thy ===== *)
theory Execution
  imports Artifacts Capability
begin

text \<open>
  \<^verbatim>\<open>internal/execution/service.go\<close>: executing a capability through the registry and persisting what
  it did. The result store and the artifact storage are interfaces: a record of their answers. The
  calls are returned as a trace of \<open>exec_event\<close>s beside the result, and \<open>None\<close> is a panic.
  Parameters: \<open>jp\<close> and \<open>js\<close> (JSON), the registry's clock \<open>now\<close>, and the times and the random bytes
  of the calls of \<^verbatim>\<open>time.Now\<close> and \<^verbatim>\<open>NewID\<close>.
\<close>

subsection \<open>The interfaces\<close>

text \<open>A nil slice of values is \<open>None\<close>, which \<^verbatim>\<open>json.Marshal\<close> writes as null.\<close>

record result_store =
  rst_previous :: "string \<Rightarrow> string \<Rightarrow> string \<Rightarrow> string list option res"
  rst_persist :: "string \<Rightarrow> step_run \<Rightarrow> tool_run \<Rightarrow> artifact list \<Rightarrow> action_result \<Rightarrow> go_error option"
  rst_recorder :: "(decision_record \<Rightarrow> go_error option) option"

record exec_service =
  ex_registry :: registry
  ex_store :: "result_store option"
  ex_artifacts :: "(put_request \<Rightarrow> artifact res) option"
  ex_program_id :: string
  ex_policy_auditor :: "(decision_record \<Rightarrow> go_error option) option"

datatype exec_event =
    PreviousLoaded string string string
  | RegistryCalled cap_event
  | PutCalled put_request
  | PersistCalled string step_run tool_run "artifact list" action_result

definition stamp_request :: "exec_service \<Rightarrow> cap_request \<Rightarrow> cap_request" where
  "stamp_request s q =
     q\<lparr>cq_program_id := ex_program_id s, cq_policy_phase := ''execution'',
       cq_decision_recorder :=
         (case ex_policy_auditor s of
            Some f \<Rightarrow> Some f
          | None \<Rightarrow> (case ex_store s of None \<Rightarrow> None | Some st \<Rightarrow> rst_recorder st))\<rparr>"

subsection \<open>The observations of the previous run\<close>

fun historical_records :: "json_parser \<Rightarrow> int \<Rightarrow> string list \<Rightarrow> json list res" where
  "historical_records jp i [] = Inr []"
| "historical_records jp i (v # vs) =
     (case parse_object jp v of
        None \<Rightarrow> Inl (Wrapped (''historical observation '' @ itoa i @ '': '') (Err ''json''))
      | Some item \<Rightarrow>
          let target = (case as_string (map_of item ''target'') of None \<Rightarrow> [] | Some t \<Rightarrow> t);
              legacy = (case as_string (map_of item ''value'') of None \<Rightarrow> [] | Some t \<Rightarrow> t)
          in if target \<noteq> []
             then bind_res (historical_records jp (i + 1) vs) (\<lambda>rest. Inr (JObj item # rest))
             else if legacy = []
             then Inl (Err (''historical observation '' @ itoa i @ '' has no target''))
             else bind_res (historical_records jp (i + 1) vs) (\<lambda>rest.
                    Inr (JObj [(''provider'', JStr ''historical''), (''kind'', JStr ''url''),
                               (''target'', JStr legacy), (''fields'', JObj [])] # rest)))"

definition needs_history :: "(string \<times> json) list \<Rightarrow> string \<Rightarrow> bool" where
  "needs_history input field =
     (case as_array (map_of input field) of None \<Rightarrow> True | Some vs \<Rightarrow> vs = [])"

definition set_field :: "json_printer \<Rightarrow> (string \<times> json) list \<Rightarrow> string \<Rightarrow> json \<Rightarrow> string" where
  "set_field js input field v = js (JObj (sort_key fst (AList.update field v input)))"

definition json_of_slice :: "string list option \<Rightarrow> json" where
  "json_of_slice vs = (case vs of None \<Rightarrow> JNull | Some ss \<Rightarrow> JArr (map JStr ss))"

definition history_field :: "string \<Rightarrow> string option" where
  "history_field capability_name =
     (if capability_name = ''compare.assets'' then Some ''previous''
      else if capability_name = ''classify.endpoint'' then Some ''historical_observations''
      else None)"

definition history_value :: "json_parser \<Rightarrow> string \<Rightarrow> string list option \<Rightarrow> json res" where
  "history_value jp capability_name vs =
     (if capability_name = ''compare.assets'' then Inr (json_of_slice vs)
      else bind_res (historical_records jp 0 (case vs of None \<Rightarrow> [] | Some ss \<Rightarrow> ss)) (\<lambda>hs. Inr (JArr hs)))"

text \<open>
  The request with the observations of the previous run in its input. A \<^verbatim>\<open>null\<close> input decodes to the
  nil map, and assigning its field panics.
\<close>

definition inject_history ::
  "json_parser \<Rightarrow> json_printer \<Rightarrow> exec_service \<Rightarrow> cap_request \<Rightarrow>
     exec_event list \<times> cap_request res option" where
  "inject_history jp js s q =
     (let a = cq_action q in
      case history_field (aq_capability a) of
        None \<Rightarrow> ([], Some (Inr q))
      | Some field \<Rightarrow>
          (case ex_store s of
             None \<Rightarrow> ([], Some (Inl (Err ''result store is required'')))
           | Some st \<Rightarrow>
               (case parse_object jp (aq_input a) of
                  None \<Rightarrow> ([], Some (Inr q))
                | Some input \<Rightarrow>
                    if \<not> needs_history input field then ([], Some (Inr q))
                    else
                      let loaded = [PreviousLoaded (ex_program_id s) (aq_workflow_run_id a) ''probe.http'']
                      in case rst_previous st (ex_program_id s) (aq_workflow_run_id a) ''probe.http'' of
                           Inl e \<Rightarrow> (loaded, Some (Inl e))
                         | Inr vs \<Rightarrow>
                             (case history_value jp (aq_capability a) vs of
                                Inl e \<Rightarrow> (loaded, Some (Inl e))
                              | Inr v \<Rightarrow>
                                  if jp (aq_input a) = Some JNull then (loaded, None)
                                  else (loaded, Some (Inr (q\<lparr>cq_action := a\<lparr>aq_input := set_field js input field v\<rparr>\<rparr>)))))))"

subsection \<open>Persisting\<close>

definition failed_action :: "cap_request \<Rightarrow> go_error \<Rightarrow> action_result" where
  "failed_action q e =
     \<lparr>ar_request_id = aq_id (cq_action q), ar_status = ''failed'',
      ar_summary = ''capability execution failed'', ar_output = [], ar_artifact_ids = [],
      ar_error = Some \<lparr>se_classification = ''execution'', se_message = error_text e, se_retryable = False\<rparr>\<rparr>"

definition platform_tool_run :: "registry \<Rightarrow> int \<Rightarrow> 8 word list \<Rightarrow> action_request \<Rightarrow> tool_run" where
  "platform_tool_run reg now random a =
     \<lparr>tr_id = new_id random, tr_step_run_id = aq_step_run_id a, tr_capability = aq_capability a,
      tr_provider = ''platform'',
      tr_tool_version =
        (case registry_get reg (aq_capability a) of None \<Rightarrow> ''1'' | Some c \<Rightarrow> mf_version (cap_manifest c)),
      tr_sanitized_arguments = ''{}'',
      tr_execution_environment = ''{'' @ quoted ''kind'' @ '':'' @ quoted ''in-process'' @ ''}'',
      tr_started_at = now, tr_completed_at = Some now, tr_exit_code = None, tr_timed_out = False,
      tr_artifact_ids = [], tr_stdout_artifact_id = None, tr_stderr_artifact_id = None\<rparr>"

definition put_request_of ::
  "string \<Rightarrow> cap_request \<Rightarrow> tool_run \<Rightarrow> string \<Rightarrow> string \<Rightarrow> string \<Rightarrow> string \<Rightarrow> put_request" where
  "put_request_of program q tool kind content_type name d =
     \<lparr>pr_program_id = program, pr_task_id = aq_task_id (cq_action q),
      pr_workflow_run_id = aq_workflow_run_id (cq_action q), pr_step_run_id = aq_step_run_id (cq_action q),
      pr_tool_run_id = tr_id tool, pr_type = kind, pr_content_type = content_type, pr_name = name,
      pr_sensitive = False, pr_retention = artifact_retention (cq_policy q), pr_data = d\<rparr>"

record persisting =
  ps_tool :: tool_run
  ps_artifacts :: "artifact list"
  ps_action :: action_result
  ps_error :: "go_error option"
  ps_events :: "exec_event list"

definition add_error :: "go_error \<Rightarrow> persisting \<Rightarrow> persisting" where
  "add_error e p = p\<lparr>ps_error := join_errors [ps_error p, Some e]\<rparr>"

definition link_artifact :: "string \<Rightarrow> artifact \<Rightarrow> persisting \<Rightarrow> persisting" where
  "link_artifact name a p =
     (let tool = (ps_tool p)\<lparr>tr_artifact_ids := tr_artifact_ids (ps_tool p) @ [art_id a]\<rparr>;
          q = p\<lparr>ps_artifacts := ps_artifacts p @ [a], ps_tool := tool\<rparr>
      in if name = ''stdout.jsonl'' then q\<lparr>ps_tool := tool\<lparr>tr_stdout_artifact_id := Some (art_id a)\<rparr>\<rparr>
         else if name = ''stderr.txt'' then q\<lparr>ps_tool := tool\<lparr>tr_stderr_artifact_id := Some (art_id a)\<rparr>\<rparr>
         else q\<lparr>ps_action := (ps_action p)\<lparr>ar_artifact_ids := ar_artifact_ids (ps_action p) @ [art_id a]\<rparr>\<rparr>)"

definition put_content ::
  "exec_service \<Rightarrow> cap_request \<Rightarrow> string \<times> string \<times> string \<Rightarrow> string \<Rightarrow> persisting \<Rightarrow> persisting" where
  "put_content s q item d p =
     (case item of (kind, content_type, name) \<Rightarrow>
        if d = [] then p
        else case ex_artifacts s of
               None \<Rightarrow> add_error (Err (''persist '' @ name @ '': artifact storage is required'')) p
             | Some put \<Rightarrow>
                 let r = put_request_of (ex_program_id s) q (ps_tool p) kind content_type name d;
                     p1 = p\<lparr>ps_events := ps_events p @ [PutCalled r]\<rparr>
                 in case put r of
                      Inl e \<Rightarrow> add_error (Wrapped (''persist '' @ name @ '': '') e) p1
                    | Inr a \<Rightarrow> link_artifact name a p1)"

definition persist_contents :: "exec_service \<Rightarrow> cap_request \<Rightarrow> cap_result \<Rightarrow> tool_run \<Rightarrow> persisting" where
  "persist_contents s q result tool =
     (let p0 = \<lparr>ps_tool = tool, ps_artifacts = [], ps_action = rs_action result, ps_error = None, ps_events = []\<rparr>;
          p1 = put_content s q (''raw-provider-output'', ''application/x-ndjson'', ''stdout.jsonl'')
                 (rs_raw_stdout result) p0;
          p2 = put_content s q (''raw-provider-output'', ''text/plain'', ''stderr.txt'') (rs_raw_stderr result) p1
      in put_content s q (''normalized-result'', ''application/json'', ''result.json'')
           (ar_output (rs_action result)) p2)"

definition step_run_of :: "int \<Rightarrow> action_request \<Rightarrow> action_result \<Rightarrow> go_error option \<Rightarrow> step_run" where
  "step_run_of now a r e =
     (let base = \<lparr>sr_id = aq_step_run_id a, sr_workflow_run_id = aq_workflow_run_id a,
            sr_step_definition_id = [], sr_capability = aq_capability a, sr_status = StepSucceeded,
            sr_attempt_count = 0, sr_input = [], sr_output = ar_output r, sr_error_classification = [],
            sr_error_details = [], sr_started_at = None, sr_completed_at = Some now,
            sr_idempotency_key = aq_idempotency_key a, sr_approval_state = []\<rparr>
      in if e = None then base
         else case ar_error r of
                None \<Rightarrow> base\<lparr>sr_status := StepFailed\<rparr>
              | Some se \<Rightarrow>
                  base\<lparr>sr_status := (if se_retryable se then StepRetryable else StepFailed),
                       sr_error_classification := se_classification se, sr_error_details := se_message se\<rparr>)"

definition persist_execution ::
  "exec_service \<Rightarrow> int \<Rightarrow> cap_request \<Rightarrow> cap_result \<Rightarrow> tool_run \<Rightarrow> go_error option \<Rightarrow>
     exec_event list \<times> action_result \<times> tool_run \<times> go_error option" where
  "persist_execution s now q result tool e =
     (let p = persist_contents s q result tool;
          step = step_run_of now (cq_action q) (ps_action p) e
      in case ex_store s of
           None \<Rightarrow>
             (ps_events p, ps_action p, ps_tool p,
              ps_error (add_error (Err ''result store is required'') p))
         | Some st \<Rightarrow>
             (ps_events p @ [PersistCalled (ex_program_id s) step (ps_tool p) (ps_artifacts p) (ps_action p)],
              ps_action p, ps_tool p,
              (case rst_persist st (ex_program_id s) step (ps_tool p) (ps_artifacts p) (ps_action p) of
                 None \<Rightarrow> ps_error p
               | Some pe \<Rightarrow> ps_error (add_error pe p))))"

definition execute_action ::
  "json_parser \<Rightarrow> json_printer \<Rightarrow> utc_time \<Rightarrow> int \<Rightarrow> int \<Rightarrow> 8 word list \<Rightarrow> exec_service \<Rightarrow> cap_request \<Rightarrow>
     exec_event list \<times> (cap_result \<times> go_error option) option" where
  "execute_action jp js now t_tool t_step random s q0 =
     (case inject_history jp js s (stamp_request s q0) of
        (ev, None) \<Rightarrow> (ev, None)
      | (ev, Some (Inl e)) \<Rightarrow> (ev, Some (zero_result, Some e))
      | (ev, Some (Inr q)) \<Rightarrow>
          (case registry_execute jp now (ex_registry s) q of
             (calls, r0, e) \<Rightarrow>
               let r = (case e of
                          Some x \<Rightarrow> if ar_error (rs_action r0) = None
                                    then r0\<lparr>rs_action := failed_action q x\<rparr> else r0
                        | None \<Rightarrow> r0);
                   tool = (case rs_tool_run r of
                             Some t \<Rightarrow> t
                           | None \<Rightarrow> platform_tool_run (ex_registry s) t_tool random (cq_action q))
               in (case persist_execution s t_step q r tool e of
                     (pev, action, tool', pe) \<Rightarrow>
                       let out = r\<lparr>rs_action := action,
                                   rs_tool_run := (case rs_tool_run r of None \<Rightarrow> None | Some t \<Rightarrow> Some tool')\<rparr>
                       in (ev @ map RegistryCalled calls @ pev,
                           Some (out,
                             (case pe of
                                None \<Rightarrow> e
                              | Some x \<Rightarrow> join_errors [e, Some (Wrapped ''persist execution result: '' x)]))))))"

subsection \<open>Facts\<close>

definition is_put :: "exec_event \<Rightarrow> bool" where
  "is_put ev = (case ev of PutCalled r \<Rightarrow> True | _ \<Rightarrow> False)"

text \<open>The content \<open>d\<close> was put, and the artifact it became is persisted and linked to the tool run.\<close>

definition stored_content ::
  "exec_service \<Rightarrow> exec_event list \<Rightarrow> artifact list \<Rightarrow> tool_run \<Rightarrow> string \<Rightarrow> bool" where
  "stored_content s puts artifacts tool d \<longleftrightarrow>
     (\<exists>put r a. ex_artifacts s = Some put \<and> PutCalled r \<in> set puts \<and> pr_data r = d \<and>
        put r = Inr a \<and> a \<in> set artifacts \<and> art_id a \<in> set (tr_artifact_ids tool))"

abbreviation kept :: "exec_service \<Rightarrow> persisting \<Rightarrow> string \<Rightarrow> bool" where
  "kept s p d \<equiv> stored_content s (ps_events p) (ps_artifacts p) (ps_tool p) d"

lemma join_errors_Some [simp]: "join_errors [e, Some x] \<noteq> None"
  by simp

lemma add_error_simps [simp]:
  "ps_error (add_error e p) \<noteq> None" "ps_events (add_error e p) = ps_events p"
  "ps_action (add_error e p) = ps_action p" "ps_tool (add_error e p) = ps_tool p"
  "ps_artifacts (add_error e p) = ps_artifacts p"
  by (simp_all add: add_error_def)

lemma put_content_grows:
  "(\<exists>new. ps_events (put_content s q item d p) = ps_events p @ new \<and> list_all is_put new) \<and>
   set (ps_artifacts p) \<subseteq> set (ps_artifacts (put_content s q item d p)) \<and>
   set (tr_artifact_ids (ps_tool p)) \<subseteq> set (tr_artifact_ids (ps_tool (put_content s q item d p))) \<and>
   ar_error (ps_action (put_content s q item d p)) = ar_error (ps_action p) \<and>
   ar_output (ps_action (put_content s q item d p)) = ar_output (ps_action p)"
  by (auto simp: put_content_def link_artifact_def Let_def is_put_def
      split: prod.splits option.splits sum.splits)

lemma put_content_events: "list_all is_put (ps_events p) \<Longrightarrow> list_all is_put (ps_events (put_content s q item d p))"
  using put_content_grows [of s q item d p] by (metis list_all_append)

lemma put_content_error:
  assumes "ps_error (put_content s q item d p) = None"
  shows "ps_error p = None \<and> (d \<noteq> [] \<longrightarrow> kept s (put_content s q item d p) d)"
proof (cases "d = []")
  case True
  then show ?thesis using assms by (simp add: put_content_def split: prod.splits)
next
  case False
  obtain kind content_type name where item: "item = (kind, content_type, name)" by (cases item)
  obtain put where put: "ex_artifacts s = Some put"
    using assms False by (auto simp: put_content_def item split: option.splits)
  let ?r = "put_request_of (ex_program_id s) q (ps_tool p) kind content_type name d"
  obtain a where a: "put ?r = Inr a"
    using assms False put by (auto simp: put_content_def item Let_def split: sum.splits)
  have "put_content s q item d p = link_artifact name a (p\<lparr>ps_events := ps_events p @ [PutCalled ?r]\<rparr>)"
    using False put a by (simp add: put_content_def item Let_def)
  moreover have "pr_data ?r = d" by (simp add: put_request_of_def)
  ultimately show ?thesis
    using assms put a by (auto simp: stored_content_def link_artifact_def Let_def intro!: exI [of _ ?r])
qed

lemma kept_grows: "kept s p d \<Longrightarrow> kept s (put_content s q item d' p) d"
  unfolding stored_content_def using put_content_grows [of s q item d' p] by fastforce

lemma persist_contents_spec:
  assumes p: "p = persist_contents s q r tool"
  shows "list_all is_put (ps_events p) \<and> ar_error (ps_action p) = ar_error (rs_action r) \<and>
    ar_output (ps_action p) = ar_output (rs_action r) \<and>
    (ps_error p = None \<longrightarrow>
       (\<forall>d \<in> {rs_raw_stdout r, rs_raw_stderr r, ar_output (rs_action r)}. d \<noteq> [] \<longrightarrow> kept s p d))"
proof -
  define p0 where "p0 = \<lparr>ps_tool = tool, ps_artifacts = [], ps_action = rs_action r, ps_error = None, ps_events = []\<rparr>"
  define p1 where "p1 = put_content s q (''raw-provider-output'', ''application/x-ndjson'', ''stdout.jsonl'')
      (rs_raw_stdout r) p0"
  define p2 where "p2 = put_content s q (''raw-provider-output'', ''text/plain'', ''stderr.txt'') (rs_raw_stderr r) p1"
  have p3: "p = put_content s q (''normalized-result'', ''application/json'', ''result.json'')
      (ar_output (rs_action r)) p2"
    unfolding p persist_contents_def Let_def p0_def p1_def p2_def ..
  note grows = put_content_grows [of s q]
  have "list_all is_put (ps_events p)"
    unfolding p3 p2_def p1_def by (intro put_content_events) (simp add: p0_def)
  moreover have "ar_error (ps_action p) = ar_error (rs_action r) \<and> ar_output (ps_action p) = ar_output (rs_action r)"
    by (simp add: p3 p2_def p1_def p0_def grows)
  moreover have "\<forall>d \<in> {rs_raw_stdout r, rs_raw_stderr r, ar_output (rs_action r)}. d \<noteq> [] \<longrightarrow> kept s p d"
    if e: "ps_error p = None"
  proof -
    note e2 = put_content_error [OF e [unfolded p3]]
    then have "ps_error p2 = None" by blast
    note e1 = put_content_error [OF this [unfolded p2_def]]
    then have "ps_error p1 = None" by blast
    note e0 = put_content_error [OF this [unfolded p1_def]]
    show ?thesis
      using e2 e1 e0 kept_grows unfolding p1_def [symmetric] p2_def [symmetric] p3 [symmetric]
      by (metis empty_iff insert_iff p1_def p2_def p3)
  qed
  ultimately show ?thesis by blast
qed

subsection \<open>Which errors are reported\<close>

text \<open>The error \<open>x\<close> is found in the returned one by \<^verbatim>\<open>errors.Is\<close>; the storage refused the content of a request.\<close>

definition reported :: "go_error option \<Rightarrow> go_error \<Rightarrow> bool" where
  "reported e x \<longleftrightarrow> (\<exists>y. e = Some y \<and> errors_is y x)"

definition put_failed :: "exec_service \<Rightarrow> put_request \<Rightarrow> go_error \<Rightarrow> bool" where
  "put_failed s r x \<longleftrightarrow> (\<exists>put. ex_artifacts s = Some put \<and> put r = Inl x)"

lemma errors_is_self [simp]: "errors_is x x"
  by (cases x) auto

lemma reported_Some [simp]: "reported (Some x) x"
  by (simp add: reported_def)

lemma reported_wrapped: "reported (Some x) y \<Longrightarrow> reported (Some (Wrapped m x)) y"
  by (simp add: reported_def)

lemma reported_joined: "e \<in> set es \<Longrightarrow> reported e x \<Longrightarrow> reported (join_errors es) x"
proof -
  assume e: "e \<in> set es" "reported e x"
  then obtain y where "Some y \<in> set es" "errors_is y x" by (auto simp: reported_def)
  then have y: "y \<in> set (List.map_filter id es)" "errors_is y x" by (force simp: List.map_filter_def)+
  then have "join_errors es = Some (Joined (List.map_filter id es))"
    by (cases "List.map_filter id es") (auto simp: join_errors_def)
  then show ?thesis using y by (auto simp: reported_def list_ex_iff)
qed

lemma reported_add_error: "reported (ps_error p) x \<Longrightarrow> reported (ps_error (add_error y p)) x"
  "reported (ps_error (add_error y p)) y"
  by (auto simp: add_error_def intro: reported_joined)

definition errors_reported :: "exec_service \<Rightarrow> bool \<Rightarrow> persisting \<Rightarrow> bool" where
  "errors_reported s content p \<longleftrightarrow>
     (\<forall>r x. PutCalled r \<in> set (ps_events p) \<and> put_failed s r x \<longrightarrow> reported (ps_error p) x) \<and>
     (ps_error p \<noteq> None \<longrightarrow>
        (\<exists>r x. PutCalled r \<in> set (ps_events p) \<and> put_failed s r x) \<or> ex_artifacts s = None \<and> content)"

lemma put_content_errors:
  assumes p: "errors_reported s content p"
  shows "errors_reported s (content \<or> d \<noteq> []) (put_content s q item d p)"
proof -
  obtain kind content_type name where item: "item = (kind, content_type, name)" by (cases item)
  let ?r = "put_request_of (ex_program_id s) q (ps_tool p) kind content_type name d"
  let ?p1 = "p\<lparr>ps_events := ps_events p @ [PutCalled ?r]\<rparr>"
  consider (none) "d = []" | (missing) "d \<noteq> []" "ex_artifacts s = None"
    | (failed) put x where "d \<noteq> []" "ex_artifacts s = Some put" "put ?r = Inl x"
    | (stored) put a where "d \<noteq> []" "ex_artifacts s = Some put" "put ?r = Inr a"
    by (metis not_Some_eq sum.exhaust)
  then show ?thesis
  proof cases
    case none
    then show ?thesis using p by (auto simp: put_content_def item errors_reported_def)
  next
    case missing
    then show ?thesis using p by (auto simp: put_content_def item errors_reported_def put_failed_def)
  next
    case (failed put x)
    then have new: "put_failed s ?r y \<longleftrightarrow> y = x" for y by (auto simp: put_failed_def)
    obtain m where m: "put_content s q item d p = add_error (Wrapped m x) ?p1"
      using failed by (simp add: put_content_def item Let_def)
    have "reported (ps_error (add_error (Wrapped m x) ?p1)) x"
      unfolding add_error_def by (simp, rule reported_joined [where e = "Some (Wrapped m x)"]) (simp_all add: reported_wrapped)
    then have "reported (ps_error (add_error (Wrapped m x) ?p1)) y"
      if "PutCalled rq \<in> set (ps_events ?p1)" "put_failed s rq y" for rq y
      using p that new reported_add_error(1) [of ?p1 y "Wrapped m x"] unfolding errors_reported_def by auto
    moreover have "PutCalled ?r \<in> set (ps_events ?p1) \<and> put_failed s ?r x" using new by simp
    ultimately show ?thesis unfolding errors_reported_def m add_error_simps by blast
  next
    case (stored put a)
    then have "\<not> put_failed s ?r y" for y by (auto simp: put_failed_def)
    moreover have "put_content s q item d p = link_artifact name a ?p1"
      using stored by (simp add: put_content_def item Let_def)
    moreover have "ps_error (link_artifact name a ?p1) = ps_error p" "ps_events (link_artifact name a ?p1) = ps_events ?p1"
      by (simp_all add: link_artifact_def Let_def)
    ultimately show ?thesis using p unfolding errors_reported_def by auto
  qed
qed

lemma persist_contents_errors:
  "errors_reported s (rs_raw_stdout r \<noteq> [] \<or> rs_raw_stderr r \<noteq> [] \<or> ar_output (rs_action r) \<noteq> [])
     (persist_contents s q r tool)"
proof -
  have "errors_reported s False \<lparr>ps_tool = tool, ps_artifacts = [], ps_action = rs_action r, ps_error = None, ps_events = []\<rparr>"
    by (simp add: errors_reported_def)
  then have "errors_reported s (((False \<or> rs_raw_stdout r \<noteq> []) \<or> rs_raw_stderr r \<noteq> []) \<or> ar_output (rs_action r) \<noteq> [])
      (persist_contents s q r tool)"
    unfolding persist_contents_def Let_def by (intro put_content_errors)
  then show ?thesis by (simp only: simp_thms disj_assoc)
qed

lemma inject_history_keeps:
  assumes "inject_history jp js s q = (ev, Some (Inr q'))"
  shows "\<exists>input. q' = q\<lparr>cq_action := (cq_action q)\<lparr>aq_input := input\<rparr>\<rparr>"
  using assms
  by (auto simp: inject_history_def Let_def split: option.splits if_splits sum.splits intro: exI [of _ "aq_input (cq_action q)"])

text \<open>
  C28: Once the input of an action is complete, Execute calls the capability once and then
  persists the outcome with exactly one call, whatever the artifact storage answers: the step is
  succeeded, failed or retryable as the capability said, and the error that is returned reports
  (as errors.Is sees it) the error of the capability, the error of the store and the error of
  every content that could not be stored, all of them at once; without such failures it is the
  error of the capability itself.
\<close>

theorem execution_is_persisted_with_its_outcome:
  assumes store: "ex_store s = Some st"
    and ready: "inject_history jp js s (stamp_request s q0) = (ev0, Some (Inr q))"
    and ran: "registry_execute jp now (ex_registry s) q = (calls, r, e)"
  shows "\<exists>puts step tool artifacts out err.
    execute_action jp js now t_tool t_step random s q0 =
      (ev0 @ map RegistryCalled calls @ puts @
         [PersistCalled (ex_program_id s) step tool artifacts (rs_action out)], Some (out, err)) \<and>
    cq_program_id q = ex_program_id s \<and> cq_policy_phase q = ''execution'' \<and>
    list_all is_put puts \<and>
    sr_status step =
      (case e of None \<Rightarrow> StepSucceeded
       | Some x \<Rightarrow> (case ar_error (rs_action r) of None \<Rightarrow> StepFailed
                    | Some se \<Rightarrow> if se_retryable se then StepRetryable else StepFailed)) \<and>
    (err = None \<longrightarrow>
       e = None \<and> rst_persist st (ex_program_id s) step tool artifacts (rs_action out) = None \<and>
       (\<forall>d \<in> {rs_raw_stdout r, rs_raw_stderr r, ar_output (rs_action r)}. d \<noteq> [] \<longrightarrow>
          stored_content s puts artifacts tool d)) \<and>
    (\<forall>x. e = Some x \<longrightarrow> reported err x) \<and>
    (\<forall>x. rst_persist st (ex_program_id s) step tool artifacts (rs_action out) = Some x \<longrightarrow> reported err x) \<and>
    (\<forall>p x. PutCalled p \<in> set puts \<and> put_failed s p x \<longrightarrow> reported err x) \<and>
    (rst_persist st (ex_program_id s) step tool artifacts (rs_action out) = None \<and>
       (\<forall>p x. PutCalled p \<in> set puts \<longrightarrow> \<not> put_failed s p x) \<and>
       (ex_artifacts s = None \<longrightarrow> rs_raw_stdout r = [] \<and> rs_raw_stderr r = [] \<and> ar_output (rs_action r) = []) \<longrightarrow>
     err = e)"
proof -
  define r1 where "r1 = (case e of
      Some x \<Rightarrow> if ar_error (rs_action r) = None then r\<lparr>rs_action := failed_action q x\<rparr> else r | None \<Rightarrow> r)"
  define tool0 where "tool0 = (case rs_tool_run r1 of
      Some t \<Rightarrow> t | None \<Rightarrow> platform_tool_run (ex_registry s) t_tool random (cq_action q))"
  define p where "p = persist_contents s q r1 tool0"
  define step where "step = step_run_of t_step (cq_action q) (ps_action p) e"
  define pe where "pe = (case rst_persist st (ex_program_id s) step (ps_tool p) (ps_artifacts p) (ps_action p) of
      None \<Rightarrow> ps_error p | Some x \<Rightarrow> ps_error (add_error x p))"
  define out where "out = r1\<lparr>rs_action := ps_action p,
      rs_tool_run := (case rs_tool_run r1 of None \<Rightarrow> None | Some t \<Rightarrow> Some (ps_tool p))\<rparr>"
  define err where "err = (case pe of None \<Rightarrow> e
      | Some x \<Rightarrow> join_errors [e, Some (Wrapped ''persist execution result: '' x)])"
  note spec = persist_contents_spec [OF p_def]
  have run: "execute_action jp js now t_tool t_step random s q0 =
      (ev0 @ map RegistryCalled calls @ ps_events p @
         [PersistCalled (ex_program_id s) step (ps_tool p) (ps_artifacts p) (rs_action out)], Some (out, err))"
  proof -
    have "persist_execution s t_step q r1 tool0 e =
        (ps_events p @ [PersistCalled (ex_program_id s) step (ps_tool p) (ps_artifacts p) (rs_action out)],
         rs_action out, ps_tool p, pe)"
      by (simp add: persist_execution_def Let_def store p_def [symmetric] step_def [symmetric] pe_def out_def)
    then show ?thesis
      unfolding execute_action_def ready ran prod.case sum.case option.case Let_def
      unfolding r1_def [symmetric] unfolding tool0_def [symmetric]
      by (simp add: err_def) (simp add: out_def)
  qed
  have q: "cq_program_id q = ex_program_id s \<and> cq_policy_phase q = ''execution''"
    using inject_history_keeps [OF ready] by (auto simp: stamp_request_def)
  have status: "sr_status step = (case e of None \<Rightarrow> StepSucceeded
       | Some x \<Rightarrow> (case ar_error (rs_action r) of None \<Rightarrow> StepFailed
                    | Some se \<Rightarrow> if se_retryable se then StepRetryable else StepFailed))"
    using spec by (auto simp: step_def step_run_of_def r1_def failed_action_def Let_def split: option.splits)
  have kept_error: "reported err x" if "e = Some x" for x
    using that reported_joined [of "Some x" "[e, Some (Wrapped ''persist execution result: '' y)]" x for y]
    by (cases pe) (auto simp: err_def)
  have persist_error: "reported err x" if pe_x: "reported pe x" for x
  proof -
    obtain y where y: "pe = Some y" "reported (Some y) x" using pe_x by (auto simp: reported_def)
    show ?thesis
      unfolding err_def y(1) option.case
      by (rule reported_joined [where e = "Some (Wrapped ''persist execution result: '' y)"]) (simp, rule reported_wrapped [OF y(2)])
  qed
  note errors = persist_contents_errors [of s r1 q tool0, folded p_def]
  have stored_error: "reported err x"
    if "rst_persist st (ex_program_id s) step (ps_tool p) (ps_artifacts p) (rs_action out) = Some x" for x
    by (rule persist_error) (use that in \<open>simp add: pe_def out_def reported_add_error\<close>)
  have put_error: "reported err x" if "PutCalled rq \<in> set (ps_events p)" "put_failed s rq x" for rq x
    using errors that by (intro persist_error) (auto simp: errors_reported_def pe_def intro: reported_add_error(1) split: option.split)
  have unchanged: "err = e"
    if "rst_persist st (ex_program_id s) step (ps_tool p) (ps_artifacts p) (rs_action out) = None"
      "\<forall>rq x. PutCalled rq \<in> set (ps_events p) \<longrightarrow> \<not> put_failed s rq x"
      "ex_artifacts s = None \<longrightarrow> rs_raw_stdout r = [] \<and> rs_raw_stderr r = [] \<and> ar_output (rs_action r) = []"
  proof -
    have "rs_raw_stdout r1 = rs_raw_stdout r" "rs_raw_stderr r1 = rs_raw_stderr r"
        "ar_output (rs_action r1) = [] \<or> ar_output (rs_action r1) = ar_output (rs_action r)"
      by (auto simp: r1_def failed_action_def split: option.split)
    then have "ps_error p = None" using errors that(2,3) unfolding errors_reported_def by auto
    then show ?thesis using that(1) by (simp add: err_def pe_def out_def)
  qed
  have done_ok: "e = None \<and> rst_persist st (ex_program_id s) step (ps_tool p) (ps_artifacts p) (rs_action out) = None \<and>
      ps_error p = None \<and> r1 = r" if "err = None"
  proof -
    have "pe = None \<and> e = None" using that by (auto simp: err_def split: option.splits)
    then show ?thesis by (auto simp: pe_def out_def r1_def split: option.splits)
  qed
  have complete: "e = None \<and>
      rst_persist st (ex_program_id s) step (ps_tool p) (ps_artifacts p) (rs_action out) = None \<and>
      (\<forall>d \<in> {rs_raw_stdout r, rs_raw_stderr r, ar_output (rs_action r)}. d \<noteq> [] \<longrightarrow> kept s p d)" if "err = None"
    using spec done_ok [OF that] by simp
  have puts: "list_all is_put (ps_events p)" using spec by blast
  show ?thesis
    by (intro exI conjI, rule run, rule q [THEN conjunct1], rule q [THEN conjunct2], rule puts, rule status,
        rule impI, erule complete, intro allI impI, erule kept_error, intro allI impI, erule stored_error,
        intro allI impI, erule conjE, erule put_error, assumption, intro impI, elim conjE, rule unchanged, assumption+)
qed

definition sample_action :: action_request where
  "sample_action =
     \<lparr>aq_id = ''a'', aq_task_id = ''t'', aq_workflow_run_id = ''r'', aq_step_run_id = ''s'',
      aq_requested_by = [], aq_capability = ''http.probe'', aq_reason = [], aq_input = ''{}'',
      aq_idempotency_key = ''k''\<rparr>"

definition sample_execution :: cap_request where
  "sample_execution =
     \<lparr>cq_action = sample_action, cq_program_id = [], cq_provider = [], cq_approved = False,
      cq_policy = demo_policy, cq_scope = None, cq_policy_phase = [], cq_decision_recorder = None\<rparr>"

text \<open>A capability that fails on a store that fails: both errors are found in the returned one.\<close>

definition failing_capability :: capability where
  "failing_capability = (sample_capability ''http.probe'' False)\<lparr>cap_execute := (\<lambda>_. (zero_result, Some (Err ''refused'')))\<rparr>"

definition failing_service :: exec_service where
  "failing_service =
     \<lparr>ex_registry = [(''http.probe'', failing_capability)],
      ex_store = Some \<lparr>rst_previous = (\<lambda>p r c. Inr None), rst_persist = (\<lambda>p s t as a. Some Canceled), rst_recorder = None\<rparr>,
      ex_artifacts = None, ex_program_id = ''p'', ex_policy_auditor = None\<rparr>"

lemma failing_registry_execute:
  "registry_execute (\<lambda>s. None) now (ex_registry failing_service) (stamp_request failing_service sample_execution) =
     ([ValidateCalled (stamp_request failing_service sample_execution),
       ExecuteCalled (stamp_request failing_service sample_execution)], zero_result, Some (Err ''refused''))"
  by (simp add: failing_service_def failing_capability_def stamp_request_def sample_execution_def sample_action_def
      registry_execute_def authorize_def registry_get_def evaluate_request_def evaluate_at_def sample_capability_def
      sample_manifest_def demo_policy_def Let_def no_requirements_def within_scan_windows_def input_denial_def
      common_fields_def parse_object_def risk_decision_def)

lemma execution_is_persisted_with_its_outcome_witness:
  "\<exists>puts step tool artifacts out err.
     execute_action (\<lambda>s. None) (\<lambda>j. []) \<lparr>ut_weekday = 0, ut_hour = 0, ut_minute = 0\<rparr> 0 0 (replicate 16 0) failing_service sample_execution =
       (map RegistryCalled [ValidateCalled (stamp_request failing_service sample_execution),
            ExecuteCalled (stamp_request failing_service sample_execution)] @ puts @
          [PersistCalled ''p'' step tool artifacts (rs_action out)], Some (out, err)) \<and>
     sr_status step = StepFailed \<and> reported err (Err ''refused'') \<and> reported err Canceled"
proof -
  let ?q = "stamp_request failing_service sample_execution"
  let ?st = "\<lparr>rst_previous = (\<lambda>p r c. Inr None), rst_persist = (\<lambda>p s t as a. Some Canceled), rst_recorder = None\<rparr> :: result_store"
  have store: "ex_store failing_service = Some ?st" and program: "ex_program_id failing_service = ''p''"
    by (simp_all add: failing_service_def)
  have fails: "rst_persist ?st i s t as a = Some Canceled" for i s t as a by simp
  have ready: "inject_history (\<lambda>s. None) (\<lambda>j. []) failing_service ?q = ([], Some (Inr ?q))"
    by (simp add: inject_history_def stamp_request_def sample_execution_def sample_action_def history_field_def)
  have no_error: "ar_error (rs_action zero_result) = None" by (simp add: zero_result_def zero_action_result_def)
  note held = execution_is_persisted_with_its_outcome [OF store ready failing_registry_execute,
    where t_tool = 0 and t_step = 0 and random = "replicate 16 0", unfolded program append_Nil option.case no_error fails]
  show ?thesis
    using held [of "\<lparr>ut_weekday = 0, ut_hour = 0, ut_minute = 0\<rparr>"]
    by - (elim exE conjE, intro exI conjI, assumption+, blast+)
qed

end
