(* ===== verification/Queue.thy ===== *)
theory Queue
  imports Scope Policy Capability "HOL-Library.Word"
begin

unbundle bit_operations_syntax

text \<open>
  \<^verbatim>\<open>internal/queue/streams.go\<close> and \<^verbatim>\<open>internal/queue/dispatcher.go\<close>: the capability queue on Redis
  streams. Redis is not part of the program: each operation returns the transactions it sends, in
  order, beside its result, and a \<open>redis_client\<close> record holds the answers. Other parameters: \<open>enc\<close>
  and \<open>dec\<close> (\<^verbatim>\<open>json.Marshal\<close> and \<^verbatim>\<open>json.Unmarshal\<close> of a job), \<open>enc_result\<close>, the clock, and the
  random bytes of \<^verbatim>\<open>NewID\<close>. A \<^verbatim>\<open>time.Time\<close> that can be zero is an option, durations and times are
  nanoseconds, \<open>None\<close> as an outcome is a panic.
\<close>

subsection \<open>Data\<close>

record queue_names =
  qn_jobs :: string
  qn_results :: string
  qn_events :: string
  qn_dead_letter :: string
  qn_retry :: string

definition default_names :: queue_names where
  "default_names =
     \<lparr>qn_jobs = ''platform.capability.jobs'', qn_results = ''platform.capability.results'',
      qn_events = ''platform.events'', qn_dead_letter = ''platform.dead_letter'',
      qn_retry = ''platform.capability.retry''\<rparr>"

record job =
  jb_id :: string
  jb_program_id :: string
  jb_action :: action_request
  jb_provider :: string
  jb_policy :: policy
  jb_scope_includes :: "rule list"
  jb_scope_excludes :: "rule list"
  jb_approved :: bool
  jb_attempt :: int
  jb_enqueued_at :: "int option"
  jb_available_at :: "int option"

record delivery =
  dl_message_id :: string
  dl_job :: job

datatype redis_command =
    XAdd string "(string \<times> string) list"
  | XAck string string string
  | XDel string string
  | ZAdd string int string
  | ZRem string string

record redis_message =
  rm_id :: string
  rm_values :: "string \<rightharpoonup> string"

text \<open>\<open>rc_exec\<close> answers a transaction with the ids of its entries; the reads may find nothing (\<^verbatim>\<open>redis.Nil\<close>).\<close>

record redis_client =
  rc_exec :: "redis_command list \<Rightarrow> string list res"
  rc_create_group :: "string \<Rightarrow> string \<Rightarrow> go_error option"
  rc_read_group :: "int \<Rightarrow> int \<Rightarrow> (string \<times> redis_message list) list option res"
  rc_auto_claim :: "int \<Rightarrow> int \<Rightarrow> redis_message list option res"
  rc_claim :: "string \<Rightarrow> go_error option"
  rc_range_by_score :: "int \<Rightarrow> int \<Rightarrow> string list res"
  rc_range :: "string \<Rightarrow> string \<Rightarrow> redis_message list res"

record streams =
  sq_client :: redis_client
  sq_group :: string
  sq_consumer :: string
  sq_max_retries :: int
  sq_retry_base :: int
  sq_names :: queue_names

type_synonym transactions = "redis_command list list"

definition new_with_names ::
  "redis_client \<Rightarrow> string \<Rightarrow> string \<Rightarrow> int \<Rightarrow> int \<Rightarrow> queue_names \<Rightarrow> streams" where
  "new_with_names client grp consumer max_retries retry_base names =
     \<lparr>sq_client = client, sq_group = grp, sq_consumer = consumer, sq_max_retries = max_retries,
      sq_retry_base = retry_base, sq_names = names\<rparr>"

definition new_streams :: "redis_client \<Rightarrow> string \<Rightarrow> string \<Rightarrow> int \<Rightarrow> int \<Rightarrow> streams" where
  "new_streams client grp consumer max_retries retry_base =
     new_with_names client grp consumer max_retries retry_base default_names"

definition ensure_group :: "streams \<Rightarrow> go_error option" where
  "ensure_group s =
     (case rc_create_group (sq_client s) (qn_jobs (sq_names s)) (sq_group s) of
        None \<Rightarrow> None
      | Some e \<Rightarrow> if str_contains (error_text e) ''BUSYGROUP'' then None else Some e)"

definition send :: "streams \<Rightarrow> redis_command list \<Rightarrow> go_error option" where
  "send s tx = (case rc_exec (sq_client s) tx of Inl e \<Rightarrow> Some e | Inr ids \<Rightarrow> None)"

subsection \<open>Enqueueing\<close>

definition stamp_job :: "8 word list \<Rightarrow> int \<Rightarrow> job \<Rightarrow> job" where
  "stamp_job random now j0 =
     (let j1 = (if jb_id j0 = [] then j0\<lparr>jb_id := new_id random\<rparr> else j0);
          j2 = (if jb_enqueued_at j1 = None then j1\<lparr>jb_enqueued_at := Some now\<rparr> else j1)
      in if jb_available_at j2 = None then j2\<lparr>jb_available_at := jb_enqueued_at j2\<rparr> else j2)"

definition job_entry :: "streams \<Rightarrow> job \<Rightarrow> string \<Rightarrow> redis_command" where
  "job_entry s j payload =
     XAdd (qn_jobs (sq_names s))
       [(''payload'', payload), (''job_id'', jb_id j), (''idempotency_key'', aq_idempotency_key (jb_action j))]"

definition enqueue_tx :: "streams \<Rightarrow> job \<Rightarrow> string \<Rightarrow> redis_command list" where
  "enqueue_tx s j payload =
     [job_entry s j payload,
      XAdd (qn_events (sq_names s))
        [(''event'', ''job_enqueued''), (''job_id'', jb_id j), (''request_id'', aq_id (jb_action j))]]"

definition enqueue ::
  "(job \<Rightarrow> string res) \<Rightarrow> 8 word list \<Rightarrow> int \<Rightarrow> streams \<Rightarrow> job \<Rightarrow> transactions \<times> string res" where
  "enqueue enc random now s j0 =
     (let j = stamp_job random now j0 in
      case enc j of
        Inl e \<Rightarrow> ([], Inl e)
      | Inr payload \<Rightarrow>
          ([enqueue_tx s j payload],
           bind_res (rc_exec (sq_client s) (enqueue_tx s j payload)) (\<lambda>ids. Inr (hd ids))))"

subsection \<open>Receiving\<close>

fun decode_messages :: "(string \<Rightarrow> job res) \<Rightarrow> redis_message list \<Rightarrow> delivery list res" where
  "decode_messages dec [] = Inr []"
| "decode_messages dec (m # ms) =
     (case rm_values m ''payload'' of
        None \<Rightarrow> Inl (Err (''message '' @ rm_id m @ '' has no string payload''))
      | Some raw \<Rightarrow>
          (case dec raw of
             Inl e \<Rightarrow> Inl (Wrapped (''message '' @ rm_id m @ '': '') e)
           | Inr j \<Rightarrow>
               bind_res (decode_messages dec ms) (\<lambda>ds.
                 Inr (\<lparr>dl_message_id = rm_id m, dl_job = j\<rparr> # ds))))"

definition read_jobs :: "(string \<Rightarrow> job res) \<Rightarrow> streams \<Rightarrow> int \<Rightarrow> int \<Rightarrow> delivery list res" where
  "read_jobs dec s block max_items =
     (case rc_read_group (sq_client s) block max_items of
        Inl e \<Rightarrow> Inl e
      | Inr None \<Rightarrow> Inr []
      | Inr (Some streams) \<Rightarrow> decode_messages dec (concat (map snd streams)))"

definition claim_stale :: "(string \<Rightarrow> job res) \<Rightarrow> streams \<Rightarrow> int \<Rightarrow> int \<Rightarrow> delivery list res" where
  "claim_stale dec s min_idle max_items =
     (case rc_auto_claim (sq_client s) min_idle max_items of
        Inl e \<Rightarrow> Inl e
      | Inr None \<Rightarrow> Inr []
      | Inr (Some ms) \<Rightarrow> decode_messages dec ms)"

definition touch_job :: "streams \<Rightarrow> string \<Rightarrow> go_error option" where
  "touch_job s message_id = rc_claim (sq_client s) message_id"

subsection \<open>Settling a delivery\<close>

definition settle :: "streams \<Rightarrow> string \<Rightarrow> redis_command list" where
  "settle s message_id =
     [XAck (qn_jobs (sq_names s)) (sq_group s) message_id, XDel (qn_jobs (sq_names s)) message_id]"

definition queue_event :: "streams \<Rightarrow> string \<Rightarrow> (string \<times> string) list \<Rightarrow> redis_command" where
  "queue_event s name fs = XAdd (qn_events (sq_names s)) ((''event'', name) # fs)"

definition ack_tx :: "streams \<Rightarrow> string \<Rightarrow> action_result \<Rightarrow> string \<Rightarrow> redis_command list" where
  "ack_tx s message_id result payload =
     [XAdd (qn_results (sq_names s)) [(''payload'', payload), (''request_id'', ar_request_id result)]]
     @ settle s message_id
     @ [queue_event s ''job_completed'' [(''request_id'', ar_request_id result), (''message_id'', message_id)]]"

definition ack_job ::
  "(action_result \<Rightarrow> string res) \<Rightarrow> streams \<Rightarrow> string \<Rightarrow> action_result \<Rightarrow> transactions \<times> go_error option" where
  "ack_job enc_result s message_id result =
     (case enc_result result of
        Inl e \<Rightarrow> ([], Some e)
      | Inr payload \<Rightarrow>
          ([ack_tx s message_id result payload], send s (ack_tx s message_id result payload)))"

text \<open>The delay before attempt \<open>n\<close>, in the 64 bits of a \<^verbatim>\<open>time.Duration\<close>; a negative shift panics.\<close>

definition backoff :: "int \<Rightarrow> int \<Rightarrow> int option" where
  "backoff base n =
     (if n < 1 then None
      else Some (sint ((word_of_int base :: 64 word) * push_bit (min (nat (n - 1)) 10) 1)))"

definition retry_tx :: "streams \<Rightarrow> string \<Rightarrow> job \<Rightarrow> int \<Rightarrow> string \<Rightarrow> redis_command list" where
  "retry_tx s message_id j due payload =
     [ZAdd (qn_retry (sq_names s)) (due div 1000000) payload]
     @ settle s message_id
     @ [queue_event s ''job_retry_scheduled'' [(''job_id'', jb_id j), (''attempt'', itoa (jb_attempt j))]]"

definition dead_letter_tx ::
  "(int \<Rightarrow> string) \<Rightarrow> int \<Rightarrow> streams \<Rightarrow> string \<Rightarrow> job \<Rightarrow> string \<Rightarrow> string \<Rightarrow> redis_command list" where
  "dead_letter_tx stamp now s message_id j classified payload =
     [XAdd (qn_dead_letter (sq_names s))
        [(''payload'', payload), (''error'', classified), (''failed_at'', stamp now)]]
     @ settle s message_id
     @ [queue_event s ''job_dead_lettered'' [(''job_id'', jb_id j), (''attempt'', itoa (jb_attempt j))]]"

definition fail_job ::
  "(job \<Rightarrow> string res) \<Rightarrow> (int \<Rightarrow> string) \<Rightarrow> int \<Rightarrow> streams \<Rightarrow> string \<Rightarrow> job \<Rightarrow> string \<Rightarrow> bool \<Rightarrow>
     (transactions \<times> go_error option) option" where
  "fail_job enc stamp now s message_id j0 classified retryable =
     (let j = j0\<lparr>jb_attempt := jb_attempt j0 + 1\<rparr> in
      if retryable \<and> jb_attempt j \<le> sq_max_retries s
      then (case backoff (sq_retry_base s) (jb_attempt j) of
              None \<Rightarrow> None
            | Some delay \<Rightarrow>
                (let j1 = j\<lparr>jb_available_at := Some (now + delay)\<rparr> in
                 case enc j1 of
                   Inl e \<Rightarrow> Some ([], Some e)
                 | Inr payload \<Rightarrow>
                     Some ([retry_tx s message_id j1 (now + delay) payload],
                           send s (retry_tx s message_id j1 (now + delay) payload))))
      else (case enc j of
              Inl e \<Rightarrow> Some ([], Some e)
            | Inr payload \<Rightarrow>
                Some ([dead_letter_tx stamp now s message_id j classified payload],
                      send s (dead_letter_tx stamp now s message_id j classified payload))))"

subsection \<open>Delayed jobs and dead letters\<close>

definition move_tx :: "streams \<Rightarrow> job \<Rightarrow> string \<Rightarrow> string \<Rightarrow> redis_command list" where
  "move_tx s j payload raw = [job_entry s j payload, ZRem (qn_retry (sq_names s)) raw]"

text \<open>A job that cannot be encoded again is moved with an empty payload, as the ignored error leaves it.\<close>

fun pump_items ::
  "(job \<Rightarrow> string res) \<Rightarrow> (string \<Rightarrow> job res) \<Rightarrow> streams \<Rightarrow> string list \<Rightarrow> nat \<Rightarrow>
     transactions \<times> nat \<times> go_error option" where
  "pump_items enc dec s [] moved = ([], moved, None)"
| "pump_items enc dec s (raw # raws) moved =
     (case dec raw of
        Inl e \<Rightarrow>
          (case pump_items enc dec s raws moved of (txs, r) \<Rightarrow> ([ZRem (qn_retry (sq_names s)) raw] # txs, r))
      | Inr j \<Rightarrow>
          (let payload = (case enc j of Inl e \<Rightarrow> [] | Inr p \<Rightarrow> p); tx = move_tx s j payload raw in
           case rc_exec (sq_client s) tx of
             Inl e \<Rightarrow> ([tx], moved, Some e)
           | Inr ids \<Rightarrow>
               (case pump_items enc dec s raws (Suc moved) of (txs, r) \<Rightarrow> (tx # txs, r))))"

definition pump_retries ::
  "(job \<Rightarrow> string res) \<Rightarrow> (string \<Rightarrow> job res) \<Rightarrow> int \<Rightarrow> streams \<Rightarrow> int \<Rightarrow>
     transactions \<times> nat \<times> go_error option" where
  "pump_retries enc dec now s max_items =
     (case rc_range_by_score (sq_client s) (now div 1000000) max_items of
        Inl e \<Rightarrow> ([], 0, Some e)
      | Inr raws \<Rightarrow> pump_items enc dec s raws 0)"

definition retry_dead_letter ::
  "(job \<Rightarrow> string res) \<Rightarrow> (string \<Rightarrow> job res) \<Rightarrow> 8 word list \<Rightarrow> int \<Rightarrow> streams \<Rightarrow> string \<Rightarrow>
     transactions \<times> go_error option" where
  "retry_dead_letter enc dec random now s message_id =
     (case rc_range (sq_client s) (qn_dead_letter (sq_names s)) message_id of
        Inl e \<Rightarrow> ([], Some e)
      | Inr [m] \<Rightarrow>
          (case rm_values m ''payload'' of
             None \<Rightarrow> ([], Some (Err ''dead-letter payload is invalid''))
           | Some raw \<Rightarrow>
               (case dec raw of
                  Inl e \<Rightarrow> ([], Some e)
                | Inr j \<Rightarrow>
                    (case enqueue enc random now s (j\<lparr>jb_attempt := 0, jb_available_at := Some now\<rparr>) of
                       (txs, Inl e) \<Rightarrow> (txs, Some e)
                     | (txs, Inr i) \<Rightarrow>
                         (txs @ [[XDel (qn_dead_letter (sq_names s)) message_id]],
                          send s [XDel (qn_dead_letter (sq_names s)) message_id]))))
      | Inr ms \<Rightarrow> ([], Some (Err (''dead-letter message '' @ message_id @ '' not found''))))"

subsection \<open>Dispatching\<close>

record dispatcher =
  dp_queue :: "streams option"
  dp_registry :: "registry option"
  dp_audit :: "(decision_record \<Rightarrow> go_error option) option"

definition dispatch_request ::
  "url_parser \<Rightarrow> (decision_record \<Rightarrow> go_error option) option \<Rightarrow> job \<Rightarrow> scope \<Rightarrow> cap_request" where
  "dispatch_request parse audit j sc =
     \<lparr>cq_action = jb_action j, cq_program_id = jb_program_id j, cq_provider = jb_provider j,
      cq_approved = jb_approved j, cq_policy = jb_policy j, cq_scope = Some (allows parse sc),
      cq_policy_phase = ''dispatch'', cq_decision_recorder = audit\<rparr>"

definition dispatch ::
  "(string \<Rightarrow> string) \<Rightarrow> rx_parser \<Rightarrow> url_parser \<Rightarrow> json_parser \<Rightarrow> utc_time \<Rightarrow> (job \<Rightarrow> string res) \<Rightarrow>
     8 word list \<Rightarrow> int \<Rightarrow> dispatcher \<Rightarrow> job \<Rightarrow> cap_event list \<times> transactions \<times> string res" where
  "dispatch sha rx parse jp clock enc random now d j =
     (case (dp_queue d, dp_registry d) of
        (Some q, Some reg) \<Rightarrow>
          if registry_get reg (aq_capability (jb_action j)) = None
          then ([], [], Inl (Err (''unknown capability '' @ quoted (aq_capability (jb_action j)))))
          else (case compile_scope sha rx (jb_scope_includes j) (jb_scope_excludes j) of
                  Inl e \<Rightarrow> ([], [], Inl e)
                | Inr sc \<Rightarrow>
                    (case registry_validate jp clock reg (dispatch_request parse (dp_audit d) j sc) of
                       (ev, Some e) \<Rightarrow> (ev, [], Inl e)
                     | (ev, None) \<Rightarrow>
                         (ev, enqueue enc random now q
                                (if jb_id j = [] then j\<lparr>jb_id := new_id random\<rparr> else j))))
      | _ \<Rightarrow> ([], [], Inl (Err ''queue and capability registry are required'')))"

end
