(* ===== verification/Worker.thy ===== *)
theory Worker
  imports Queue Budget Execution
begin

text \<open>
  \<^verbatim>\<open>internal/worker/service.go\<close>: handling one delivery, one round of the consuming loop, and the
  checks at the start of \<^verbatim>\<open>Run\<close>. The queue, the registry and the budget are the models of their
  components; the result store, the artifact storage and the budget's answers are interfaces. What
  a delivery does is a trace of \<open>worker_event\<close>s; \<open>None\<close> as an outcome is a panic. The goroutines
  around it, among them the one that renews the lease with \<open>touch_job\<close>, are in \<open>WorkerPool\<close>; the log is left out.
\<close>

record worker =
  wk_queue :: streams
  wk_registry :: registry
  wk_artifacts :: "put_request \<Rightarrow> artifact res"
  wk_already_succeeded :: "string \<Rightarrow> bool res"
  wk_persist :: "string \<Rightarrow> step_run \<Rightarrow> tool_run \<Rightarrow> artifact list \<Rightarrow> action_result \<Rightarrow> go_error option"
  wk_recorder :: "(decision_record \<Rightarrow> go_error option) option"
  wk_policy_auditor :: "(decision_record \<Rightarrow> go_error option) option"
  wk_budget :: "(budget_request \<Rightarrow> go_error option) option"
  wk_pool_size :: int
  wk_lease_timeout :: int

datatype worker_event =
    BudgetAcquired budget_request
  | BudgetReleased budget_request
  | WorkerCalled cap_event
  | WorkerPut put_request
  | WorkerPersisted string step_run tool_run "artifact list" action_result
  | QueueTx "redis_command list"

text \<open>The parameters of a delivery: JSON, the parsers, the clocks and the random bytes.\<close>

record worker_env =
  we_json :: json_parser
  we_sha :: "string \<Rightarrow> string"
  we_regexp :: rx_parser
  we_url :: url_parser
  we_split_host :: "string \<Rightarrow> string option"
  we_ip :: ip_parser
  we_encode :: "job \<Rightarrow> string res"
  we_encode_result :: "action_result \<Rightarrow> string res"
  we_format :: "int \<Rightarrow> string"
  we_clock :: utc_time
  we_now :: int
  we_random :: "8 word list"

definition delivery_provider :: "registry \<Rightarrow> job \<Rightarrow> string" where
  "delivery_provider reg j =
     (if jb_provider j \<noteq> [] then jb_provider j
      else let supported = (case registry_get reg (aq_capability (jb_action j)) of
                   None \<Rightarrow> [] | Some c \<Rightarrow> mf_supported_providers (cap_manifest c));
               provider = (case supported of [] \<Rightarrow> [] | p # _ \<Rightarrow> p)
           in if provider = [] then aq_capability (jb_action j) else provider)"

definition worker_request :: "worker_env \<Rightarrow> worker \<Rightarrow> job \<Rightarrow> scope \<Rightarrow> cap_request" where
  "worker_request v w j sc =
     \<lparr>cq_action = jb_action j, cq_program_id = jb_program_id j, cq_provider = jb_provider j,
      cq_approved = jb_approved j, cq_policy = jb_policy j, cq_scope = Some (allows (we_url v) sc),
      cq_policy_phase = ''execution'',
      cq_decision_recorder = (case wk_policy_auditor w of Some f \<Rightarrow> Some f | None \<Rightarrow> wk_recorder w)\<rparr>"

definition delivery_budget :: "worker_env \<Rightarrow> worker \<Rightarrow> job \<Rightarrow> budget_request" where
  "delivery_budget v w j =
     \<lparr>br_program = jb_program_id j, br_provider = delivery_provider (wk_registry w) j,
      br_hosts = hosts_from_input (we_json v) (we_url v) (we_split_host v) (we_ip v) (aq_input (jb_action j))\<rparr>"

definition fail_delivery ::
  "worker_env \<Rightarrow> worker \<Rightarrow> delivery \<Rightarrow> string \<Rightarrow> bool \<Rightarrow> worker_event list \<times> go_error option option" where
  "fail_delivery v w d classified retryable =
     (case fail_job (we_encode v) (we_format v) (we_now v) (wk_queue w) (dl_message_id d) (dl_job d) classified
             retryable of
        None \<Rightarrow> ([], None)
      | Some (txs, e) \<Rightarrow> (map QueueTx txs, Some e))"

definition ack_delivery ::
  "worker_env \<Rightarrow> worker \<Rightarrow> delivery \<Rightarrow> action_result \<Rightarrow> worker_event list \<times> go_error option option" where
  "ack_delivery v w d r =
     (case ack_job (we_encode_result v) (wk_queue w) (dl_message_id d) r of
        (txs, e) \<Rightarrow> (map QueueTx txs, Some e))"

definition result_put :: "job \<Rightarrow> tool_run \<Rightarrow> string \<Rightarrow> put_request" where
  "result_put j tool out =
     \<lparr>pr_program_id = jb_program_id j, pr_task_id = aq_task_id (jb_action j),
      pr_workflow_run_id = aq_workflow_run_id (jb_action j), pr_step_run_id = aq_step_run_id (jb_action j),
      pr_tool_run_id = tr_id tool, pr_type = ''normalized-result'', pr_content_type = ''application/json'',
      pr_name = ''result.json'', pr_sensitive = False, pr_retention = artifact_retention (jb_policy j),
      pr_data = out\<rparr>"

definition persist_and_ack ::
  "worker_env \<Rightarrow> worker \<Rightarrow> delivery \<Rightarrow> tool_run \<Rightarrow> artifact list \<Rightarrow> action_result \<Rightarrow>
     worker_event list \<times> go_error option option" where
  "persist_and_ack v w d tool artifacts r =
     (let j = dl_job d; step = step_run_of (we_now v) (jb_action j) r None;
          persisted = WorkerPersisted (jb_program_id j) step tool artifacts r
      in case wk_persist w (jb_program_id j) step tool artifacts r of
           Some e \<Rightarrow> ([persisted], Some (Some e))
         | None \<Rightarrow> (case ack_delivery v w d r of (ev, out) \<Rightarrow> (persisted # ev, out)))"

definition store_result ::
  "worker_env \<Rightarrow> worker \<Rightarrow> delivery \<Rightarrow> cap_result \<Rightarrow> worker_event list \<times> go_error option option" where
  "store_result v w d r =
     (let j = dl_job d; action = rs_action r;
          tool = (case rs_tool_run r of
                    Some t \<Rightarrow> t
                  | None \<Rightarrow> platform_tool_run (wk_registry w) (we_now v) (we_random v) (jb_action j))
      in if ar_output action = [] then persist_and_ack v w d tool [] action
         else
           let put = result_put j tool (ar_output action)
           in case wk_artifacts w put of
                Inl e \<Rightarrow>
                  (case fail_delivery v w d (''artifact: '' @ error_text e) True of
                     (ev, out) \<Rightarrow> (WorkerPut put # ev, out))
              | Inr a \<Rightarrow>
                  (case persist_and_ack v w d
                          (tool\<lparr>tr_artifact_ids := tr_artifact_ids tool @ [art_id a],
                                tr_stdout_artifact_id := Some (art_id a)\<rparr>) [a]
                          (action\<lparr>ar_artifact_ids := ar_artifact_ids action @ [art_id a]\<rparr>) of
                     (ev, out) \<Rightarrow> (WorkerPut put # ev, out)))"

definition run_delivery ::
  "worker_env \<Rightarrow> worker \<Rightarrow> delivery \<Rightarrow> scope \<Rightarrow> worker_event list \<times> go_error option option" where
  "run_delivery v w d sc =
     (case registry_execute (we_json v) (we_clock v) (wk_registry w) (worker_request v w (dl_job d) sc) of
        (calls, r, e) \<Rightarrow>
          (case (case e of
                   Some x \<Rightarrow>
                     fail_delivery v w d (error_text x)
                       (case ar_error (rs_action r) of None \<Rightarrow> False | Some se \<Rightarrow> se_retryable se)
                 | None \<Rightarrow> store_result v w d r) of
             (ev, out) \<Rightarrow> (map WorkerCalled calls @ ev, out)))"

definition duplicate_result :: "job \<Rightarrow> action_result" where
  "duplicate_result j =
     \<lparr>ar_request_id = aq_id (jb_action j), ar_status = ''succeeded'',
      ar_summary = ''duplicate delivery already completed'', ar_output = [], ar_artifact_ids = [],
      ar_error = None\<rparr>"

definition handle_delivery ::
  "worker_env \<Rightarrow> worker \<Rightarrow> delivery \<Rightarrow> worker_event list \<times> go_error option option" where
  "handle_delivery v w d =
     (let j = dl_job d in
      case wk_already_succeeded w (aq_idempotency_key (jb_action j)) of
        Inl e \<Rightarrow> ([], Some (Some e))
      | Inr True \<Rightarrow> ack_delivery v w d (duplicate_result j)
      | Inr False \<Rightarrow>
          (case compile_scope (we_sha v) (we_regexp v) (jb_scope_includes j) (jb_scope_excludes j) of
             Inl e \<Rightarrow> fail_delivery v w d (''invalid_scope: '' @ error_text e) False
           | Inr sc \<Rightarrow>
               (case wk_budget w of
                  None \<Rightarrow> run_delivery v w d sc
                | Some acquire_budget \<Rightarrow>
                    let b = delivery_budget v w j
                    in case acquire_budget b of
                         Some e \<Rightarrow> ([], Some (Some e))
                       | None \<Rightarrow>
                           (case run_delivery v w d sc of
                              (ev, out) \<Rightarrow> (BudgetAcquired b # ev @ [BudgetReleased b], out)))))"

subsection \<open>The consuming loop\<close>

text \<open>One round: stale deliveries first when the last claim is long enough ago, then new ones.\<close>

fun handle_all :: "worker_env \<Rightarrow> worker \<Rightarrow> delivery list \<Rightarrow> worker_event list \<times> bool" where
  "handle_all v w [] = ([], True)"
| "handle_all v w (d # ds) =
     (case handle_delivery v w d of
        (ev, None) \<Rightarrow> (ev, False)
      | (ev, Some e) \<Rightarrow> (case handle_all v w ds of (ev', alive) \<Rightarrow> (ev @ ev', alive)))"

definition consume_round ::
  "(string \<Rightarrow> job res) \<Rightarrow> int \<Rightarrow> go_error option \<Rightarrow> worker_env \<Rightarrow> worker \<Rightarrow> int option \<Rightarrow>
     worker_event list \<times> (go_error + int option) option" where
  "consume_round dec block ctx_error v w last_claim =
     (let due = (case last_claim of None \<Rightarrow> True | Some t \<Rightarrow> we_now v - t \<ge> wk_lease_timeout w div 2);
          claimed = (if due then claim_stale dec (wk_queue w) (wk_lease_timeout w) 10 else Inr [])
      in case claimed of
           Inl e \<Rightarrow> ([], Some (Inl e))
         | Inr stale \<Rightarrow>
             (case handle_all v w stale of
                (ev, False) \<Rightarrow> (ev, None)
              | (ev, True) \<Rightarrow>
                  (case read_jobs dec (wk_queue w) block 1 of
                     Inl e \<Rightarrow> (ev, Some (Inl e))
                   | Inr ds \<Rightarrow>
                       (case handle_all v w ds of
                          (ev', False) \<Rightarrow> (ev @ ev', None)
                        | (ev', True) \<Rightarrow>
                            (ev @ ev',
                             Some (case ctx_error of
                                     Some e \<Rightarrow> Inl e
                                   | None \<Rightarrow> Inr (if due then Some (we_now v) else last_claim)))))))"

text \<open>The retention pass of the worker, and what \<^verbatim>\<open>Run\<close> checks before its goroutines start.\<close>

definition worker_purge ::
  "((int \<Rightarrow> 'w \<Rightarrow> artifact list res) \<times> (string \<Rightarrow> 'w \<Rightarrow> 'w \<times> go_error option)) option \<Rightarrow>
     (artifact \<Rightarrow> 'w \<Rightarrow> 'w \<times> go_error option) option \<Rightarrow> 'w \<Rightarrow> 'w \<times> go_error option" where
  "worker_purge retention deleter s =
     (case retention of
        None \<Rightarrow> (s, None)
      | Some (expired, del_row) \<Rightarrow>
          if deleter = None then (s, Some (Err ''artifact storage does not support retention deletion''))
          else (case purge_expired (Some expired) del_row deleter 1000 s of (s', n, e) \<Rightarrow> (s', e)))"

definition start_worker ::
  "((int \<Rightarrow> 'w \<Rightarrow> artifact list res) \<times> (string \<Rightarrow> 'w \<Rightarrow> 'w \<times> go_error option)) option \<Rightarrow>
     (artifact \<Rightarrow> 'w \<Rightarrow> 'w \<times> go_error option) option \<Rightarrow> worker \<Rightarrow> 'w \<Rightarrow> 'w \<times> go_error option" where
  "start_worker retention deleter w s =
     (if wk_pool_size w < 1 then (s, Some (Err ''worker pool size must be positive''))
      else case worker_purge retention deleter s of
             (s', Some e) \<Rightarrow> (s', Some e)
           | (s', None) \<Rightarrow> (s', ensure_group (wk_queue w)))"

subsection \<open>What a delivery leaves behind\<close>

definition queue_txs :: "worker_event list \<Rightarrow> redis_command list list" where
  "queue_txs ev = concat (map (\<lambda>e. case e of QueueTx tx \<Rightarrow> [tx] | _ \<Rightarrow> []) ev)"

lemma queue_txs_simps [simp]:
  "queue_txs [] = []" "queue_txs (QueueTx tx # ev) = tx # queue_txs ev"
  "queue_txs (BudgetAcquired b # ev) = queue_txs ev" "queue_txs (BudgetReleased b # ev) = queue_txs ev"
  "queue_txs (WorkerCalled c # ev) = queue_txs ev" "queue_txs (WorkerPut p # ev) = queue_txs ev"
  "queue_txs (WorkerPersisted i s t as r # ev) = queue_txs ev"
  "queue_txs (ev @ ev') = queue_txs ev @ queue_txs ev'"
  "queue_txs (map QueueTx txs) = txs" "queue_txs (map WorkerCalled calls) = []"
proof -
  show "queue_txs (map QueueTx txs) = txs" by (induction txs) (simp_all add: queue_txs_def)
  show "queue_txs (map WorkerCalled calls) = []" by (induction calls) (simp_all add: queue_txs_def)
qed (simp_all add: queue_txs_def)

text \<open>The three ways a delivery is settled; each is one transaction that also acknowledges it.\<close>

definition completed :: "worker \<Rightarrow> delivery \<Rightarrow> action_result \<Rightarrow> redis_command list \<Rightarrow> bool" where
  "completed w d r tx \<longleftrightarrow> (\<exists>payload. tx = ack_tx (wk_queue w) (dl_message_id d) r payload)"

definition next_attempt :: "delivery \<Rightarrow> job" where
  "next_attempt d = (dl_job d)\<lparr>jb_attempt := jb_attempt (dl_job d) + 1\<rparr>"

definition rescheduled :: "worker_env \<Rightarrow> worker \<Rightarrow> delivery \<Rightarrow> redis_command list \<Rightarrow> bool" where
  "rescheduled v w d tx \<longleftrightarrow>
     (\<exists>due payload.
        tx = retry_tx (wk_queue w) (dl_message_id d) ((next_attempt d)\<lparr>jb_available_at := Some due\<rparr>) due payload \<and>
        we_encode v ((next_attempt d)\<lparr>jb_available_at := Some due\<rparr>) = Inr payload \<and>
        jb_attempt (next_attempt d) \<le> sq_max_retries (wk_queue w))"

definition buried :: "worker_env \<Rightarrow> worker \<Rightarrow> delivery \<Rightarrow> redis_command list \<Rightarrow> bool" where
  "buried v w d tx \<longleftrightarrow>
     (\<exists>reason payload.
        tx = dead_letter_tx (we_format v) (we_now v) (wk_queue w) (dl_message_id d) (next_attempt d) reason payload \<and>
        we_encode v (next_attempt d) = Inr payload)"

text \<open>At most one transaction; none only with an error or a panic, and then the message stays pending.\<close>

definition settled_by ::
  "(worker_event set \<Rightarrow> redis_command list \<Rightarrow> bool) \<Rightarrow> worker_event list \<times> go_error option option \<Rightarrow> bool" where
  "settled_by P res =
     (case queue_txs (fst res) of
        [] \<Rightarrow> snd res \<noteq> Some None
      | [tx] \<Rightarrow> P (set (fst res)) tx
      | _ \<Rightarrow> False)"

lemma settled_by_mono: "settled_by P res \<Longrightarrow> (\<And>tx. P (set (fst res)) tx \<Longrightarrow> Q (set (fst res)) tx) \<Longrightarrow> settled_by Q res"
  by (auto simp: settled_by_def split: list.splits)

lemma fail_delivery_settles:
  "settled_by (\<lambda>S tx. retryable \<and> rescheduled v w d tx \<or> buried v w d tx) (fail_delivery v w d c retryable)"
proof (cases "retryable \<and> jb_attempt (next_attempt d) \<le> sq_max_retries (wk_queue w)")
  case True
  then show ?thesis
    by (auto simp: settled_by_def fail_delivery_def fail_job_def Let_def next_attempt_def [symmetric] rescheduled_def
        split: option.splits sum.splits)
next
  case False
  then have "fail_job (we_encode v) (we_format v) (we_now v) (wk_queue w) (dl_message_id d) (dl_job d) c retryable =
      (case we_encode v (next_attempt d) of
         Inl e \<Rightarrow> Some ([], Some e)
       | Inr payload \<Rightarrow>
           (let tx = dead_letter_tx (we_format v) (we_now v) (wk_queue w) (dl_message_id d) (next_attempt d) c payload
            in Some ([tx], send (wk_queue w) tx)))"
    by (simp only: fail_job_def Let_def next_attempt_def [symmetric] if_False)
  then show ?thesis by (auto simp: settled_by_def fail_delivery_def buried_def Let_def split: sum.splits)
qed

lemma ack_delivery_settles: "settled_by (\<lambda>S. completed w d r) (ack_delivery v w d r)"
  by (auto simp: settled_by_def ack_delivery_def ack_job_def completed_def split: sum.splits)

text \<open>The step of a successful run was stored before the result is published.\<close>

definition persisted_ok :: "worker \<Rightarrow> delivery \<Rightarrow> action_result \<Rightarrow> worker_event set \<Rightarrow> bool" where
  "persisted_ok w d r S \<longleftrightarrow>
     (\<exists>step tool artifacts.
        WorkerPersisted (jb_program_id (dl_job d)) step tool artifacts r \<in> S \<and>
        wk_persist w (jb_program_id (dl_job d)) step tool artifacts r = None \<and>
        sr_status step = StepSucceeded \<and>
        sr_idempotency_key step = aq_idempotency_key (jb_action (dl_job d)))"

definition settled_after_run ::
  "worker_env \<Rightarrow> worker \<Rightarrow> delivery \<Rightarrow> worker_event set \<Rightarrow> redis_command list \<Rightarrow> bool" where
  "settled_after_run v w d S tx \<longleftrightarrow>
     (\<exists>r. completed w d r tx \<and> persisted_ok w d r S) \<or> rescheduled v w d tx \<or> buried v w d tx"

lemma settled_by_frame:
  assumes "settled_by (settled_after_run v w d) (ev, out)" and "queue_txs pre = []" and "queue_txs post = []"
  shows "settled_by (settled_after_run v w d) (pre @ ev @ post, out)"
proof -
  have grows: "settled_after_run v w d (set ev) tx \<Longrightarrow> settled_after_run v w d (set pre \<union> (set ev \<union> set post)) tx" for tx
    unfolding settled_after_run_def persisted_ok_def by blast
  show ?thesis using assms by (auto simp: settled_by_def split: list.splits intro: grows)
qed

lemma settled_by_frame_Cons:
  "settled_by (settled_after_run v w d) (ev, out) \<Longrightarrow> queue_txs [e] = [] \<Longrightarrow>
     settled_by (settled_after_run v w d) (e # ev, out)"
  using settled_by_frame [of v w d ev out "[e]" "[]"] by simp

lemma persist_and_ack_settles: "settled_by (settled_after_run v w d) (persist_and_ack v w d tool artifacts r)"
proof -
  let ?j = "dl_job d" and ?step = "step_run_of (we_now v) (jb_action (dl_job d)) r None"
  let ?e = "WorkerPersisted (jb_program_id ?j) ?step tool artifacts r"
  obtain ev out where ack: "ack_delivery v w d r = (ev, out)" by fastforce
  show ?thesis
  proof (cases "wk_persist w (jb_program_id ?j) ?step tool artifacts r")
    case None
    have "persisted_ok w d r (set (?e # ev))"
      unfolding persisted_ok_def
      by (intro exI [of _ ?step] exI [of _ tool] exI [of _ artifacts]) (use None in \<open>simp add: step_run_of_def\<close>)
    then have "settled_by (settled_after_run v w d) (?e # ev, out)"
      using ack_delivery_settles [of w d r v] unfolding ack settled_by_def settled_after_run_def
      by (auto split: list.splits)
    then show ?thesis using None ack by (simp add: persist_and_ack_def Let_def)
  qed (simp add: persist_and_ack_def Let_def settled_by_def)
qed

lemma fail_delivery_settles_run: "settled_by (settled_after_run v w d) (fail_delivery v w d c retryable)"
  by (rule settled_by_mono [OF fail_delivery_settles]) (auto simp: settled_after_run_def)

lemma store_result_settles: "settled_by (settled_after_run v w d) (store_result v w d r)"
  using persist_and_ack_settles [of v w d] fail_delivery_settles_run [of v w d]
  by (auto simp: store_result_def Let_def split: sum.splits prod.splits intro!: settled_by_frame_Cons)
    (metis (no_types))+

lemma run_delivery_settles: "settled_by (settled_after_run v w d) (run_delivery v w d sc)"
proof -
  have "settled_by (settled_after_run v w d) (map WorkerCalled calls @ fst x, snd x)"
    if "settled_by (settled_after_run v w d) x" for calls x
    using settled_by_frame [of v w d "fst x" "snd x" "map WorkerCalled calls" "[]"] that by simp
  then show ?thesis
    using store_result_settles [of v w d] fail_delivery_settles_run [of v w d]
    by (auto simp: run_delivery_def split: prod.splits option.splits) (metis fst_conv snd_conv)+
qed

definition budget_uses :: "worker_event list \<Rightarrow> budget_request list \<times> budget_request list" where
  "budget_uses ev =
     (concat (map (\<lambda>e. case e of BudgetAcquired b \<Rightarrow> [b] | _ \<Rightarrow> []) ev),
      concat (map (\<lambda>e. case e of BudgetReleased b \<Rightarrow> [b] | _ \<Rightarrow> []) ev))"

definition no_budget :: "worker_event list \<Rightarrow> bool" where
  "no_budget ev \<longleftrightarrow> list_all (\<lambda>e. case e of BudgetAcquired b \<Rightarrow> False | BudgetReleased b \<Rightarrow> False | _ \<Rightarrow> True) ev"

lemma no_budget_simps [simp]:
  "no_budget []" "no_budget (map QueueTx txs)" "no_budget (map WorkerCalled calls)"
  "no_budget (WorkerPut p # ev) = no_budget ev" "no_budget (WorkerPersisted i s t as r # ev) = no_budget ev"
  "no_budget (ev @ ev') \<longleftrightarrow> no_budget ev \<and> no_budget ev'"
  by (auto simp: no_budget_def list_all_iff)

lemma no_budget_uses: "no_budget ev \<Longrightarrow> budget_uses ev = ([], [])"
  by (induction ev) (auto simp: no_budget_def budget_uses_def split: worker_event.splits)

lemma budget_uses_bracket:
  "budget_uses (BudgetAcquired b # ev @ [BudgetReleased b]) =
     (b # fst (budget_uses ev) @ snd (budget_uses []), snd (budget_uses ev) @ [b])"
  by (simp add: budget_uses_def)

lemma budget_uses_Nil [simp]: "budget_uses [] = ([], [])"
  by (simp add: budget_uses_def)

lemma fail_delivery_no_budget: "no_budget (fst (fail_delivery v w d c retryable))"
  by (simp add: fail_delivery_def split: option.splits prod.splits)

lemma ack_delivery_no_budget: "no_budget (fst (ack_delivery v w d r))"
  by (simp add: ack_delivery_def split: prod.splits)

lemma persist_and_ack_no_budget: "no_budget (fst (persist_and_ack v w d tool artifacts r))"
  using ack_delivery_no_budget [of v w d r]
  by (cases "ack_delivery v w d r") (simp add: persist_and_ack_def Let_def split: option.splits)

lemma store_result_no_budget: "no_budget (fst (store_result v w d r))"
  using persist_and_ack_no_budget [of v w d] fail_delivery_no_budget [of v w d]
  by (auto simp: store_result_def Let_def split: sum.splits prod.splits) (metis fst_conv)+

lemma run_delivery_no_budget: "no_budget (fst (run_delivery v w d sc))"
  using store_result_no_budget [of v w d] fail_delivery_no_budget [of v w d]
  by (auto simp: run_delivery_def split: prod.splits option.splits) (metis fst_conv)+


definition sample_streams :: streams where
  "sample_streams =
     new_streams \<lparr>rc_exec = (\<lambda>tx. Inr [''1-0'']), rc_create_group = (\<lambda>s g. None), rc_read_group = (\<lambda>b n. Inr None),
       rc_auto_claim = (\<lambda>m n. Inr None), rc_claim = (\<lambda>m. None), rc_range_by_score = (\<lambda>m n. Inr []),
       rc_range = (\<lambda>s m. Inr [])\<rparr> ''workers'' ''one'' 3 1000000"

definition sample_worker :: worker where
  "sample_worker =
     \<lparr>wk_queue = sample_streams, wk_registry = [], wk_artifacts = (\<lambda>p. Inl DeadlineExceeded),
      wk_already_succeeded = (\<lambda>k. Inr True), wk_persist = (\<lambda>i s t as r. None), wk_recorder = None,
      wk_policy_auditor = None, wk_budget = Some (\<lambda>b. None), wk_pool_size = 1, wk_lease_timeout = 60\<rparr>"

definition sample_env :: worker_env where
  "sample_env =
     \<lparr>we_json = (\<lambda>s. None), we_sha = (\<lambda>s. s), we_regexp = (\<lambda>s. None), we_url = (\<lambda>s. None),
      we_split_host = (\<lambda>s. None), we_ip = (\<lambda>s. None), we_encode = (\<lambda>j. Inr ''job''),
      we_encode_result = (\<lambda>r. Inr ''result''), we_format = itoa,
      we_clock = \<lparr>ut_weekday = 0, ut_hour = 0, ut_minute = 0\<rparr>, we_now = 5, we_random = replicate 16 0\<rparr>"

definition sample_delivery :: delivery where
  "sample_delivery =
     \<lparr>dl_message_id = ''7-0'',
      dl_job = \<lparr>jb_id = ''j'', jb_program_id = ''p'', jb_action = sample_action, jb_provider = [],
        jb_policy = demo_policy, jb_scope_includes = [], jb_scope_excludes = [], jb_approved = False,
        jb_attempt = 0, jb_enqueued_at = None, jb_available_at = None\<rparr>\<rparr>"


end
