(* ===== verification/WorkerPool.thy ===== *)
theory WorkerPool
  imports Worker
begin

text \<open>
  \<^verbatim>\<open>internal/worker/service.go\<close>: the goroutines of \<^verbatim>\<open>Run\<close> and the renewal of a lease. \<open>pool_work\<close> and \<open>pool_tick\<close> are the steps
  of the goroutines, in any order: rounds of the consumers, the errors they send to the channel of \<^verbatim>\<open>Run\<close>, the ticks of
  the housekeeping and what \<^verbatim>\<open>Run\<close> itself waits for. A round is one step; what the surroundings answer in it is any element
  of \<open>answers\<close>. A panic of a goroutine ends the process.
\<close>

subsection \<open>The state of the service\<close>

text \<open>\<open>Sending\<close> is a consumer that has failed and has its error still to send; one that was cancelled sends none.\<close>

datatype consumer = Consuming "int option" | Sending go_error | Stopped "go_error option"

record 'w pool =
  pl_cancelled :: bool
  pl_consumers :: "consumer list"
  pl_housekeeping :: bool
  pl_errors :: "go_error list"
  pl_done :: bool
  pl_waiting :: bool
  pl_returned :: "go_error option option"
  pl_crashed :: bool
  pl_sent :: transactions
  pl_world :: 'w

definition start_pool :: "worker \<Rightarrow> 'w \<Rightarrow> 'w pool" where
  "start_pool w s =
     \<lparr>pl_cancelled = False, pl_consumers = replicate (nat (wk_pool_size w)) (Consuming None), pl_housekeeping = True,
      pl_errors = [], pl_done = False, pl_waiting = False, pl_returned = None, pl_crashed = False, pl_sent = [],
      pl_world = s\<rparr>"

definition all_stopped :: "'w pool \<Rightarrow> bool" where
  "all_stopped s \<longleftrightarrow> list_all (\<lambda>c. \<exists>e. c = Stopped e) (pl_consumers s) \<and> \<not> pl_housekeeping s"

subsection \<open>The consumers\<close>

text \<open>What one round of consumer \<open>i\<close> makes of the service, for its outcome as \<open>consume_round\<close> gives it.\<close>

definition after_round ::
  "nat \<Rightarrow> worker_event list \<times> (go_error + int option) option \<Rightarrow> 'w pool \<Rightarrow> 'w pool" where
  "after_round i out s =
     (let s1 = s\<lparr>pl_sent := pl_sent s @ queue_txs (fst out)\<rparr> in
      case snd out of
        None \<Rightarrow> s1\<lparr>pl_crashed := True\<rparr>
      | Some (Inr last_claim) \<Rightarrow> s1\<lparr>pl_consumers := (pl_consumers s)[i := Consuming last_claim]\<rparr>
      | Some (Inl e) \<Rightarrow>
          s1\<lparr>pl_consumers := (pl_consumers s)[i := (if errors_is e Canceled then Stopped None else Sending e)]\<rparr>)"

definition context_error :: "'w pool \<Rightarrow> go_error option" where
  "context_error s = (if pl_cancelled s then Some Canceled else None)"

inductive pool_work ::
  "(string \<Rightarrow> job res) \<Rightarrow> int \<Rightarrow> (worker_env \<times> worker) set \<Rightarrow> 'w pool \<Rightarrow> 'w pool \<Rightarrow> bool"
  for dec block answers where
  consume: "\<not> pl_crashed s \<Longrightarrow> i < length (pl_consumers s) \<Longrightarrow> pl_consumers s ! i = Consuming last_claim \<Longrightarrow>
     (v, w) \<in> answers \<Longrightarrow>
     pool_work dec block answers s
       (after_round i (consume_round dec block (context_error s) v w last_claim) s)"
| fail_consumer: "\<not> pl_crashed s \<Longrightarrow> i < length (pl_consumers s) \<Longrightarrow> pl_consumers s ! i = Sending e \<Longrightarrow>
     length (pl_errors s) < Suc (length (pl_consumers s)) \<Longrightarrow>
     pool_work dec block answers s
       (s\<lparr>pl_errors := pl_errors s @ [e], pl_consumers := (pl_consumers s)[i := Stopped (Some e)]\<rparr>)"
| stop_housekeeping: "\<not> pl_crashed s \<Longrightarrow> pl_housekeeping s \<Longrightarrow> pl_cancelled s \<Longrightarrow>
     pool_work dec block answers s (s\<lparr>pl_housekeeping := False\<rparr>)"
| all_done: "\<not> pl_crashed s \<Longrightarrow> all_stopped s \<Longrightarrow> \<not> pl_done s \<Longrightarrow> pool_work dec block answers s (s\<lparr>pl_done := True\<rparr>)"
| await: "\<not> pl_crashed s \<Longrightarrow> pl_returned s = None \<Longrightarrow> \<not> pl_waiting s \<Longrightarrow> pl_cancelled s \<Longrightarrow>
     pool_work dec block answers s (s\<lparr>pl_waiting := True\<rparr>)"
| return_error: "\<not> pl_crashed s \<Longrightarrow> pl_returned s = None \<Longrightarrow> \<not> pl_waiting s \<Longrightarrow> pl_errors s = e # es \<Longrightarrow>
     pool_work dec block answers s (s\<lparr>pl_returned := Some (Some e), pl_errors := es\<rparr>)"
| return_nil: "\<not> pl_crashed s \<Longrightarrow> pl_returned s = None \<Longrightarrow> pl_done s \<Longrightarrow>
     pool_work dec block answers s (s\<lparr>pl_returned := Some None\<rparr>)"

text \<open>What happens from outside and by the clock: the context is cancelled, a ticker of the housekeeping fires.\<close>

inductive pool_tick ::
  "(job \<Rightarrow> string res) \<Rightarrow> (string \<Rightarrow> job res) \<Rightarrow> (worker_env \<times> worker) set \<Rightarrow>
     ((int \<Rightarrow> 'w \<Rightarrow> artifact list res) \<times> (string \<Rightarrow> 'w \<Rightarrow> 'w \<times> go_error option)) option \<Rightarrow>
     (artifact \<Rightarrow> 'w \<Rightarrow> 'w \<times> go_error option) option \<Rightarrow> 'w pool \<Rightarrow> 'w pool \<Rightarrow> bool"
  for enc dec answers retention deleter where
  cancel: "\<not> pl_crashed s \<Longrightarrow> pool_tick enc dec answers retention deleter s (s\<lparr>pl_cancelled := True\<rparr>)"
| pump: "\<not> pl_crashed s \<Longrightarrow> pl_housekeeping s \<Longrightarrow> (v, w) \<in> answers \<Longrightarrow>
     pump_retries enc dec (we_now v) (wk_queue w) 100 = (txs, moved, e) \<Longrightarrow>
     pool_tick enc dec answers retention deleter s (s\<lparr>pl_sent := pl_sent s @ txs\<rparr>)"
| purge: "\<not> pl_crashed s \<Longrightarrow> pl_housekeeping s \<Longrightarrow>
     pool_tick enc dec answers retention deleter s
       (s\<lparr>pl_world := fst (worker_purge retention deleter (pl_world s))\<rparr>)"

inductive_cases pool_workE: "pool_work dec block answers s s'"
inductive_cases pool_tickE: "pool_tick enc dec answers retention deleter s s'"

definition pool_step where
  "pool_step enc dec block answers retention deleter s s' \<longleftrightarrow>
     pool_work dec block answers s s' \<or> pool_tick enc dec answers retention deleter s s'"

subsection \<open>What holds in every reachable state\<close>

definition failed_consumers :: "'w pool \<Rightarrow> nat set" where
  "failed_consumers s = {i. i < length (pl_consumers s) \<and> (\<exists>e. pl_consumers s ! i = Stopped (Some e))}"

definition pool_ok :: "worker \<Rightarrow> 'w pool \<Rightarrow> bool" where
  "pool_ok w s \<longleftrightarrow>
     length (pl_consumers s) = nat (wk_pool_size w) \<and>
     length (pl_errors s) \<le> card (failed_consumers s) \<and>
     (\<forall>e. e \<in> set (pl_errors s) \<or> pl_returned s = Some (Some e) \<longrightarrow> Stopped (Some e) \<in> set (pl_consumers s)) \<and>
     (\<forall>e. Sending e \<in> set (pl_consumers s) \<or> Stopped (Some e) \<in> set (pl_consumers s) \<longrightarrow> \<not> errors_is e Canceled) \<and>
     (pl_done s \<longrightarrow> all_stopped s) \<and> (\<not> pl_housekeeping s \<longrightarrow> pl_cancelled s) \<and>
     (pl_returned s = Some None \<longrightarrow> pl_done s) \<and> (pl_waiting s \<longrightarrow> pl_cancelled s)"

lemma failed_consumers_bound: "failed_consumers s \<subseteq> {..<length (pl_consumers s)}" and
  finite_failed_consumers [simp]: "finite (failed_consumers s)"
  by (auto simp: failed_consumers_def)

lemma failed_consumers_simps [simp]:
  "failed_consumers (s\<lparr>pl_sent := a\<rparr>) = failed_consumers s" "failed_consumers (s\<lparr>pl_crashed := b\<rparr>) = failed_consumers s"
  "failed_consumers (s\<lparr>pl_housekeeping := b\<rparr>) = failed_consumers s" "failed_consumers (s\<lparr>pl_done := b\<rparr>) = failed_consumers s"
  "failed_consumers (s\<lparr>pl_waiting := b\<rparr>) = failed_consumers s" "failed_consumers (s\<lparr>pl_returned := c\<rparr>) = failed_consumers s"
  "failed_consumers (s\<lparr>pl_errors := d\<rparr>) = failed_consumers s" "failed_consumers (s\<lparr>pl_cancelled := b\<rparr>) = failed_consumers s"
  "failed_consumers (s\<lparr>pl_world := u\<rparr>) = failed_consumers s"
  by (simp_all add: failed_consumers_def)

lemma start_pool_ok: "pool_ok w (start_pool w s)"
  by (auto simp: pool_ok_def start_pool_def all_stopped_def)

text \<open>An update of the fields below keeps the invariant; the consumers and the channel are the interesting ones.\<close>

lemma consumer_update:
  assumes "i < length cs" and "cs ! i = old" and "\<And>e. old \<noteq> Stopped e"
  shows "{j. j < length cs \<and> (\<exists>e. cs[i := c] ! j = Stopped (Some e))} =
      (if \<exists>e. c = Stopped (Some e) then insert i {j. j < length cs \<and> (\<exists>e. cs ! j = Stopped (Some e))}
       else {j. j < length cs \<and> (\<exists>e. cs ! j = Stopped (Some e))})"
    and "i \<notin> {j. j < length cs \<and> (\<exists>e. cs ! j = Stopped (Some e))}"
    and "Stopped e \<in> set cs \<Longrightarrow> Stopped e \<in> set (cs[i := c])"
  using assms by (auto simp: nth_list_update in_set_conv_nth split: if_splits) metis

lemma all_stopped_update:
  assumes "i < length (pl_consumers s)" and "\<And>e. pl_consumers s ! i \<noteq> Stopped e"
  shows "\<not> all_stopped s"
  using assms by (auto simp: all_stopped_def list_all_length)

lemma replaced_consumer_ok:
  assumes ok: "pool_ok w s" and i: "i < length (pl_consumers s)" and old: "\<And>e. pl_consumers s ! i \<noteq> Stopped e"
    and c: "\<And>e. c = Sending e \<Longrightarrow> \<not> errors_is e Canceled" "\<And>e. c \<noteq> Stopped (Some e)"
  shows "pool_ok w (s\<lparr>pl_sent := txs, pl_consumers := (pl_consumers s)[i := c]\<rparr>)"
proof -
  have sets: "set ((pl_consumers s)[i := c]) \<subseteq> insert c (set (pl_consumers s))" by (rule set_update_subset_insert)
  have kept: "Stopped (Some e) \<in> set (pl_consumers s)" if "Stopped (Some e) \<in> set ((pl_consumers s)[i := c])" for e
    using sets that c(2) by auto
  have sending: "\<not> errors_is e Canceled" if "Sending e \<in> set ((pl_consumers s)[i := c])" for e
    using sets that c(1) ok unfolding pool_ok_def by blast
  have failed: "failed_consumers (s\<lparr>pl_sent := txs, pl_consumers := (pl_consumers s)[i := c]\<rparr>) = failed_consumers s"
    using consumer_update(1) [OF i refl old] c(2) by (simp add: failed_consumers_def)
  have "\<not> pl_done s" using ok all_stopped_update [OF i old] by (auto simp: pool_ok_def)
  moreover have "Stopped e \<in> set ((pl_consumers s)[i := c])" if "Stopped e \<in> set (pl_consumers s)" for e
    using consumer_update(3) [OF i refl old that] .
  ultimately show ?thesis
    using ok kept sending unfolding pool_ok_def failed by auto
qed

lemma sent_error_ok:
  assumes ok: "pool_ok w s" and i: "i < length (pl_consumers s)" and old: "pl_consumers s ! i = Sending e"
  shows "pool_ok w (s\<lparr>pl_errors := pl_errors s @ [e], pl_consumers := (pl_consumers s)[i := Stopped (Some e)]\<rparr>)"
proof -
  let ?s = "s\<lparr>pl_errors := pl_errors s @ [e], pl_consumers := (pl_consumers s)[i := Stopped (Some e)]\<rparr>"
  have old': "pl_consumers s ! i \<noteq> Stopped x" for x using old by simp
  have sets: "set ((pl_consumers s)[i := Stopped (Some e)]) \<subseteq> insert (Stopped (Some e)) (set (pl_consumers s))"
    by (rule set_update_subset_insert)
  have "failed_consumers ?s = insert i (failed_consumers s)" "i \<notin> failed_consumers s"
    using consumer_update(1,2) [OF i refl old'] by (auto simp: failed_consumers_def)
  then have "length (pl_errors ?s) \<le> card (failed_consumers ?s)" using ok by (simp add: pool_ok_def)
  moreover have "\<not> pl_done s" using ok all_stopped_update [OF i old'] by (auto simp: pool_ok_def)
  moreover have "Stopped x \<in> set ((pl_consumers s)[i := Stopped (Some e)])" if "Stopped x \<in> set (pl_consumers s)" for x
    using consumer_update(3) [OF i refl old' that] .
  moreover have "Stopped (Some e) \<in> set ((pl_consumers s)[i := Stopped (Some e)])" using i by (simp add: set_update_memI)
  moreover have "\<not> errors_is e Canceled" using ok i old by (metis pool_ok_def nth_mem)
  ultimately show ?thesis
    using ok sets unfolding pool_ok_def by (auto simp: subset_iff)
qed

lemma after_round_ok:
  assumes ok: "pool_ok w s" and i: "i < length (pl_consumers s)" and old: "pl_consumers s ! i = Consuming last_claim"
  shows "pool_ok w (after_round i out s)"
proof -
  have old': "pl_consumers s ! i \<noteq> Stopped x" for x using old by simp
  have crash: "pool_ok w (s\<lparr>pl_sent := txs, pl_crashed := True\<rparr>)" for txs
    using ok by (auto simp: pool_ok_def all_stopped_def)
  have set_consumer: "pool_ok w (s\<lparr>pl_sent := txs, pl_consumers := (pl_consumers s)[i := c]\<rparr>)"
    if "c = Consuming l \<or> c = Stopped None \<or> (\<exists>e. c = Sending e \<and> \<not> errors_is e Canceled)" for txs c l
    by (rule replaced_consumer_ok [OF ok i old']) (use that in auto)
  consider (crashed) "snd out = None" | (goes_on) l where "snd out = Some (Inr l)"
    | (cancelled) e where "snd out = Some (Inl e)" "errors_is e Canceled"
    | (failed) e where "snd out = Some (Inl e)" "\<not> errors_is e Canceled"
    by (cases "snd out") (auto split: sum.splits, metis sum.exhaust)
  then show ?thesis
    by cases (simp_all add: after_round_def Let_def crash set_consumer)
qed

lemma pool_step_ok:
  assumes "pool_step enc dec block answers retention deleter s s'" and ok: "pool_ok w s"
  shows "pool_ok w s'"
  using assms(1) unfolding pool_step_def
proof
  assume "pool_work dec block answers s s'"
  then show ?thesis
  proof cases
    case (consume i last_claim v w)
    then show ?thesis using after_round_ok [OF ok] by simp
  next
    case (fail_consumer i e)
    then show ?thesis using sent_error_ok [OF ok] by simp
  qed (use ok in \<open>auto simp: pool_ok_def all_stopped_def\<close>)
next
  assume "pool_tick enc dec answers retention deleter s s'"
  then show ?thesis
    by cases (use ok in \<open>auto simp: pool_ok_def all_stopped_def\<close>)
qed

lemma reachable_pool_ok:
  assumes "(pool_step enc dec block answers retention deleter)\<^sup>*\<^sup>* (start_pool w s0) s"
  shows "pool_ok w s"
  using assms by (induction rule: rtranclp_induct) (auto intro: start_pool_ok pool_step_ok)

subsection \<open>How the service ends\<close>

text \<open>
  C18: In every interleaving of the goroutines of the worker service: Run returns without an error
  only after the context was cancelled and every consumer and the housekeeping have stopped, and
  with an error only if a consumer failed with it, which is never the cancellation; the
  housekeeping goes on until the cancellation, and the channel of errors never holds more than one
  error per consumer, so no consumer blocks on it.
\<close>

theorem service_ends_cleanly_or_with_a_failure:
  assumes "(pool_step enc dec block answers retention deleter)\<^sup>*\<^sup>* (start_pool w s0) s"
  shows "(pl_returned s = Some None \<longrightarrow>
       pl_cancelled s \<and> list_all (\<lambda>c. \<exists>e. c = Stopped e) (pl_consumers s) \<and> \<not> pl_housekeeping s) \<and>
    (pl_returned s = Some (Some e) \<longrightarrow> Stopped (Some e) \<in> set (pl_consumers s) \<and> \<not> errors_is e Canceled) \<and>
    (\<not> pl_cancelled s \<longrightarrow> pl_housekeeping s) \<and>
    length (pl_errors s) \<le> length (pl_consumers s) \<and> length (pl_consumers s) = nat (wk_pool_size w)"
proof -
  have ok: "pool_ok w s" by (rule reachable_pool_ok [OF assms])
  have "card (failed_consumers s) \<le> length (pl_consumers s)"
    using card_mono [OF _ failed_consumers_bound [of s]] by simp
  then have "length (pl_errors s) \<le> length (pl_consumers s)" using ok unfolding pool_ok_def by linarith
  then show ?thesis using ok by (auto simp: pool_ok_def all_stopped_def)
qed

text \<open>The work that is left once the context is cancelled.\<close>

fun consumer_work :: "consumer \<Rightarrow> nat" where
  "consumer_work (Consuming c) = 2"
| "consumer_work (Sending e) = 1"
| "consumer_work (Stopped e) = 0"

definition stop_work :: "'w pool \<Rightarrow> nat" where
  "stop_work s = sum_list (map consumer_work (pl_consumers s)) + of_bool (pl_housekeeping s) + of_bool (\<not> pl_done s)
     + of_bool (\<not> pl_waiting s) + of_bool (pl_returned s = None) + of_bool (\<not> pl_crashed s)"

lemma sum_list_less_update:
  assumes "i < length cs" and "f c < f (cs ! i)"
  shows "sum_list (map f (cs[i := c])) < (sum_list (map f cs) :: nat)"
  using assms
proof (induction cs arbitrary: i)
  case (Cons a cs)
  then show ?case by (cases i) auto
qed simp

lemma cancelled_round_ends:
  assumes "consume_round dec block (Some er) v w last_claim = (ev, out)"
  shows "out = None \<or> (\<exists>e. out = Some (Inl e))"
  using assms by (auto simp: consume_round_def Let_def split: sum.splits prod.splits bool.splits)

lemma cancelled_work_decreases:
  assumes "pool_work dec block answers s s'" and "pl_cancelled s"
  shows "stop_work s' < stop_work s"
  using assms(1)
proof cases
  case (consume i last_claim v w)
  obtain ev out where round: "consume_round dec block (context_error s) v w last_claim = (ev, out)" by fastforce
  then consider "out = None" | e where "out = Some (Inl e)"
    using cancelled_round_ends assms(2) by (metis context_error_def)
  then show ?thesis
  proof cases
    case 1
    then show ?thesis using consume round by (simp add: after_round_def stop_work_def)
  next
    case (2 e)
    have "sum_list (map consumer_work ((pl_consumers s)[i := c])) < sum_list (map consumer_work (pl_consumers s))"
      if "c = Stopped None \<or> c = Sending e" for c
      using sum_list_less_update [of i "pl_consumers s" consumer_work c] consume(3,4) that by auto
    then show ?thesis using consume round 2 by (simp add: after_round_def stop_work_def)
  qed
next
  case (fail_consumer i e)
  then have "sum_list (map consumer_work ((pl_consumers s)[i := Stopped (Some e)])) < sum_list (map consumer_work (pl_consumers s))"
    by (intro sum_list_less_update) auto
  then show ?thesis using fail_consumer(1) by (simp add: stop_work_def)
qed (use assms(2) in \<open>auto simp: stop_work_def\<close>)

lemma cancelled_work_goes_on:
  assumes ok: "pool_ok w s" and "pl_cancelled s" and "\<not> pl_crashed s" and "pl_returned s = None"
    and answers: "(v, w') \<in> answers"
  shows "\<exists>s'. pool_work dec block answers s s'"
proof (cases "all_stopped s")
  case True
  then show ?thesis using assms(3,4) pool_work.all_done pool_work.return_nil by (metis (full_types))
next
  case False
  then consider "pl_housekeeping s" | i where "i < length (pl_consumers s)" "\<And>e. pl_consumers s ! i \<noteq> Stopped e"
    by (auto simp: all_stopped_def list_all_length)
  then show ?thesis
  proof cases
    case 1
    then show ?thesis using assms(2,3) pool_work.stop_housekeeping by blast
  next
    case (2 i)
    have "card (failed_consumers s) \<le> length (pl_consumers s)"
      using card_mono [OF _ failed_consumers_bound [of s]] by simp
    then have room: "length (pl_errors s) < Suc (length (pl_consumers s))" using ok unfolding pool_ok_def by linarith
    show ?thesis
    proof (cases "pl_consumers s ! i")
      case (Consuming last_claim)
      then show ?thesis using pool_work.consume [OF assms(3) 2(1) _ answers] by blast
    next
      case (Sending e)
      then show ?thesis using pool_work.fail_consumer [OF assms(3) 2(1) _ room] by blast
    qed (use 2 in simp)
  qed
qed

text \<open>
  C19: Once the context is cancelled, every step of the goroutines but the ticks of the clock
  lowers a measure that is at most twice the pool size plus five, ticks leave it as it is, and as
  long as Run has not returned (and no goroutine has panicked) such a step is possible: a
  cancelled service returns after at most that many steps, however they interleave.
\<close>

theorem cancelled_service_returns:
  assumes "(pool_step enc dec block answers retention deleter)\<^sup>*\<^sup>* (start_pool w s0) s" and "pl_cancelled s"
    and "answers \<noteq> {}"
  shows "(\<forall>s'. pool_work dec block answers s s' \<longrightarrow> stop_work s' < stop_work s \<and> pl_cancelled s') \<and>
    (\<forall>s'. pool_tick enc dec answers retention deleter s s' \<longrightarrow> stop_work s' = stop_work s \<and> pl_cancelled s') \<and>
    (pl_returned s = None \<and> \<not> pl_crashed s \<longrightarrow> (\<exists>s'. pool_work dec block answers s s')) \<and>
    stop_work s \<le> 2 * nat (wk_pool_size w) + 5"
proof -
  have ok: "pool_ok w s" by (rule reachable_pool_ok [OF assms(1)])
  have kept: "pl_cancelled s'" if "pool_work dec block answers s s'" for s'
    using that assms(2) by cases (auto simp: after_round_def Let_def split: option.splits sum.splits)
  have tick: "stop_work s' = stop_work s \<and> pl_cancelled s'" if "pool_tick enc dec answers retention deleter s s'" for s'
    using that assms(2) by cases (auto simp: stop_work_def)
  have "sum_list (map consumer_work cs) \<le> 2 * length cs" for cs
  proof (induction cs)
    case (Cons c cs)
    then show ?case by (cases c) auto
  qed simp
  from this [of "pl_consumers s"] have "stop_work s \<le> 2 * length (pl_consumers s) + 5"
    unfolding stop_work_def of_bool_def by (simp split: if_split)
  moreover have "\<exists>s'. pool_work dec block answers s s'" if "pl_returned s = None" "\<not> pl_crashed s"
  proof -
    obtain v w' where "(v, w') \<in> answers" using assms(3) by auto
    then show ?thesis using cancelled_work_goes_on [OF ok assms(2) that(2,1)] by blast
  qed
  ultimately show ?thesis
    using cancelled_work_decreases [OF _ assms(2)] kept tick ok by (simp add: pool_ok_def)
qed

subsection \<open>A message that cannot be decoded\<close>

lemma decode_messages_fails:
  assumes "m \<in> set ms" and "rm_values m ''payload'' = None \<or> (\<exists>raw e. rm_values m ''payload'' = Some raw \<and> dec raw = Inl e)"
  shows "\<exists>e. decode_messages dec ms = Inl e"
  using assms by (induction ms) (auto simp: bind_res_def split: option.splits sum.splits)

text \<open>
  A claimed batch with such a message ends the consumer, before anything of the batch is handled and with nothing sent
  to the queue: the message stays pending and is claimed again.
\<close>

lemma undecodable_message_ends_the_consumer:
  assumes "rc_auto_claim (sq_client (wk_queue w)) (wk_lease_timeout w) 10 = Inr (Some ms)" and "m \<in> set ms"
    and "rm_values m ''payload'' = None \<or> (\<exists>raw e. rm_values m ''payload'' = Some raw \<and> dec raw = Inl e)"
  shows "\<exists>e. consume_round dec block c v w None = ([], Some (Inl e))"
  using decode_messages_fails [OF assms(2,3)] assms(1) by (auto simp: consume_round_def claim_stale_def Let_def)

subsection \<open>The lease of a delivery\<close>

text \<open>The ticker of \<^verbatim>\<open>handle\<close> and the times at which it renews the lease of a delivery handled from \<open>t0\<close> for \<open>d\<close> nanoseconds.\<close>

definition lease_interval :: "int \<Rightarrow> int" where
  "lease_interval timeout = (if timeout div 3 \<le> 0 then 1000000000 else timeout div 3)"

definition touch_times :: "int \<Rightarrow> int \<Rightarrow> int \<Rightarrow> int list" where
  "touch_times timeout t0 d = map (\<lambda>k. t0 + k * lease_interval timeout) [1..d div lease_interval timeout]"

text \<open>The deliveries of one claim are handled one after the other, each with its own ticker.\<close>

fun batch_touches :: "int \<Rightarrow> int \<Rightarrow> (string \<times> int) list \<Rightarrow> (string \<times> int) list" where
  "batch_touches timeout t0 [] = []"
| "batch_touches timeout t0 ((m, d) # ds) =
     map (Pair m) (touch_times timeout t0 d) @ batch_touches timeout (t0 + d) ds"

lemma lease_interval_pos: "0 < lease_interval timeout"
  by (simp add: lease_interval_def)

lemma touch_times_iff:
  "t \<in> set (touch_times timeout t0 d) \<longleftrightarrow> (\<exists>k \<ge> 1. k * lease_interval timeout \<le> d \<and> t = t0 + k * lease_interval timeout)"
proof -
  have "k \<le> d div lease_interval timeout \<longleftrightarrow> k * lease_interval timeout \<le> d" for k
  proof
    assume "k \<le> d div lease_interval timeout"
    then have "k * lease_interval timeout \<le> d div lease_interval timeout * lease_interval timeout"
      using lease_interval_pos [of timeout] by (simp add: mult_right_mono)
    then show "k * lease_interval timeout \<le> d"
      using pos_mod_sign [OF lease_interval_pos, of d timeout] div_mult_mod_eq [of d "lease_interval timeout"] by linarith
  next
    assume "k * lease_interval timeout \<le> d"
    then show "k \<le> d div lease_interval timeout"
      using zdiv_mono1 [OF _ lease_interval_pos, of "k * lease_interval timeout" d timeout] lease_interval_pos [of timeout]
      by simp
  qed
  then show ?thesis by (auto simp: touch_times_def)
qed

text \<open>
  While a delivery is handled, less than a third of the lease timeout passes since the last renewal that was due, so
  that even two renewals in a row may fail.
\<close>

theorem lease_is_renewed_in_time:
  assumes "3 \<le> timeout" and "t0 \<le> t" and "t \<le> t0 + d"
  shows "\<exists>u \<in> insert t0 (set (touch_times timeout t0 d)). u \<le> t \<and> 3 * (t - u) < timeout"
proof -
  define n where "n = lease_interval timeout"
  have n: "0 < n" "3 * n \<le> timeout" using assms(1) by (auto simp: n_def lease_interval_def)
  define k where "k = (t - t0) div n"
  have k: "0 \<le> k" "k * n \<le> t - t0" "t - t0 < k * n + n"
  proof -
    show "0 \<le> k" using assms(2) n(1) by (simp add: k_def pos_imp_zdiv_nonneg_iff)
    show "k * n \<le> t - t0" unfolding k_def using pos_mod_sign [OF n(1), of "t - t0"] div_mult_mod_eq [of "t - t0" n] by linarith
    show "t - t0 < k * n + n" unfolding k_def using pos_mod_bound [OF n(1), of "t - t0"] div_mult_mod_eq [of "t - t0" n] by linarith
  qed
  have "t0 + k * n \<in> insert t0 (set (touch_times timeout t0 d))"
  proof (cases "k = 0")
    case False
    have "1 \<le> k" using False k(1) by simp
    moreover have "k * n \<le> d" using k(2) assms(3) by linarith
    ultimately have "t0 + k * n \<in> set (touch_times timeout t0 d)"
      unfolding touch_times_iff n_def by blast
    then show ?thesis by simp
  qed simp
  then show ?thesis using k n(2) by (intro bexI [of _ "t0 + k * n"]) auto
qed

text \<open>A delivery that waits for the ones claimed with it is not renewed, however long they take.\<close>

lemma waiting_deliveries_are_not_renewed:
  assumes "\<forall>(m', d) \<in> set pre. m' \<noteq> m \<and> 0 \<le> d" and "(m, t) \<in> set (batch_touches timeout t0 (pre @ (m, d) # post))"
    and "m \<notin> fst ` set post"
  shows "t0 + sum_list (map snd pre) < t"
proof -
  have later: "m' \<in> fst ` set ds" if "(m', t) \<in> set (batch_touches timeout t0 ds)" for m' t t0 and ds :: "(string \<times> int) list"
    using that by (induction timeout t0 ds rule: batch_touches.induct) auto
  show ?thesis
    using assms(1,2)
  proof (induction pre arbitrary: t0)
    case Nil
    then have "t \<in> set (touch_times timeout t0 d)" using later assms(3) by auto
    then obtain k where "1 \<le> k" "t = t0 + k * lease_interval timeout" by (auto simp: touch_times_iff)
    then show ?case using lease_interval_pos [of timeout] by simp
  next
    case (Cons p pre)
    then show ?case by (cases p) (auto simp: algebra_simps dest: Cons.IH)
  qed
qed

subsection \<open>Two runs of the service\<close>

definition poisoned_worker :: worker where
  "poisoned_worker =
     sample_worker\<lparr>wk_pool_size := 2,
       wk_queue := new_streams ((sq_client sample_streams)\<lparr>rc_auto_claim :=
         (\<lambda>m n. Inr (Some [\<lparr>rm_id = ''9-0'', rm_values = Map.empty\<rparr>]))\<rparr>) ''workers'' ''one'' 3 1000000\<rparr>"

abbreviation poisoned_step :: "unit pool \<Rightarrow> unit pool \<Rightarrow> bool" where
  "poisoned_step \<equiv>
     pool_step (\<lambda>j. Inr ''job'') (\<lambda>s. Inl Canceled) 1 {(sample_env, poisoned_worker)} None None"

abbreviation poison_error :: go_error where
  "poison_error \<equiv> Err ''message 9-0 has no string payload''"

lemma poisoned_round:
  "consume_round (\<lambda>s. Inl Canceled) 1 c sample_env poisoned_worker None = ([], Some (Inl poison_error))"
  by (simp add: consume_round_def claim_stale_def poisoned_worker_def new_streams_def new_with_names_def Let_def)

lemma poisoned_fails:
  assumes "\<not> pl_crashed s" and "i < length (pl_consumers s)" and "pl_consumers s ! i = Consuming None"
  shows "poisoned_step s (s\<lparr>pl_consumers := (pl_consumers s)[i := Sending poison_error]\<rparr>)"
  using pool_work.consume [OF assms, of sample_env poisoned_worker "{(sample_env, poisoned_worker)}" "\<lambda>s. Inl Canceled" 1]
  by (simp add: pool_step_def after_round_def poisoned_round Let_def)

text \<open>One undecodable message: the first consumer fails and \<^verbatim>\<open>Run\<close> returns, while the second is still consuming.\<close>

lemma service_ends_cleanly_or_with_a_failure_witness:
  "\<exists>s. poisoned_step\<^sup>*\<^sup>* (start_pool poisoned_worker ()) s \<and> pl_returned s = Some (Some poison_error) \<and>
     \<not> pl_cancelled s \<and> pl_consumers s ! 1 = Consuming None \<and> Stopped (Some poison_error) \<in> set (pl_consumers s) \<and>
     pl_housekeeping s"
proof -
  let ?s0 = "start_pool poisoned_worker ()"
  have start: "pl_consumers ?s0 = [Consuming None, Consuming None]"
    by (simp add: start_pool_def poisoned_worker_def numeral_2_eq_2)
  let ?s1 = "?s0\<lparr>pl_consumers := [Sending poison_error, Consuming None]\<rparr>"
  let ?s2 = "?s1\<lparr>pl_errors := [poison_error], pl_consumers := [Stopped (Some poison_error), Consuming None]\<rparr>"
  let ?s3 = "?s2\<lparr>pl_returned := Some (Some poison_error), pl_errors := []\<rparr>"
  have size: "0 < wk_pool_size poisoned_worker" by (simp add: poisoned_worker_def)
  have "poisoned_step ?s0 ?s1" using poisoned_fails [of ?s0 0] start size by (simp add: start_pool_def)
  moreover have "poisoned_step ?s1 ?s2"
    using pool_work.fail_consumer [of ?s1 0 poison_error] by (simp add: pool_step_def start_pool_def)
  moreover have "poisoned_step ?s2 ?s3"
    using pool_work.return_error [of ?s2 poison_error "[]"] by (simp add: pool_step_def start_pool_def)
  ultimately have reach: "poisoned_step\<^sup>*\<^sup>* ?s0 ?s3" by (meson converse_rtranclp_into_rtranclp rtranclp.rtrancl_refl)
  have "\<not> pl_cancelled ?s3" by (simp add: start_pool_def)
  then show ?thesis
    using service_ends_cleanly_or_with_a_failure [OF reach] reach by (intro exI [of _ ?s3]) simp
qed

text \<open>A worker that is cancelled at once.\<close>

lemma cancelled_service_returns_witness:
  "\<exists>s s'. poisoned_step\<^sup>*\<^sup>* (start_pool poisoned_worker ()) s \<and> pl_cancelled s \<and>
     pool_work (\<lambda>s. Inl Canceled) 1 {(sample_env, poisoned_worker)} s s' \<and> stop_work s' < stop_work s \<and> stop_work s \<le> 9"
proof -
  let ?s = "(start_pool poisoned_worker ())\<lparr>pl_cancelled := True\<rparr>"
  have reach: "poisoned_step\<^sup>*\<^sup>* (start_pool poisoned_worker ()) ?s"
    unfolding pool_step_def by (intro r_into_rtranclp disjI2 pool_tick.cancel) (simp add: start_pool_def)
  have size: "2 * nat (wk_pool_size poisoned_worker) + 5 = 9" by (simp add: poisoned_worker_def)
  have "pl_returned ?s = None" "\<not> pl_crashed ?s" "pl_cancelled ?s" by (simp_all add: start_pool_def)
  then show ?thesis
    using cancelled_service_returns [OF reach] reach unfolding size by blast
qed

end
