(* ===== verification/GoURL.thy ===== *)
theory GoURL
  imports GoFiles
begin

text \<open>
  The parts of \<^verbatim>\<open>net/url\<close> that write URLs: percent encoding of paths and queries, and the text of a
  parsed URL whose parts were changed. \<open>full_url\<close> adds to a parsed URL the parts that only this
  text needs. Strings are bytes.
\<close>

subsection \<open>Percent encoding\<close>

definition is_alnum :: "char \<Rightarrow> bool" where
  "is_alnum c \<longleftrightarrow>
     (CHR ''a'' \<le> c \<and> c \<le> CHR ''z'') \<or> (CHR ''A'' \<le> c \<and> c \<le> CHR ''Z'') \<or> (CHR ''0'' \<le> c \<and> c \<le> CHR ''9'')"

definition percent :: "char \<Rightarrow> string" where
  "percent c =
     (let n = (of_char c :: nat) in CHR ''%'' # map upper_char [hex_char (n div 16), hex_char (n mod 16)])"

text \<open>\<^verbatim>\<open>EscapedPath\<close> of a URL without a raw path.\<close>

definition path_char :: "char \<Rightarrow> bool" where
  "path_char c \<longleftrightarrow> is_alnum c \<or> c \<in> set ''-_.~$&+,/:;=@''"

definition escape_path :: "string \<Rightarrow> string" where
  "escape_path p = concat (map (\<lambda>c. if path_char c then [c] else percent c) p)"

definition query_escape :: "string \<Rightarrow> string" where
  "query_escape s =
     concat (map (\<lambda>c. if is_alnum c \<or> c \<in> set ''-_.~'' then [c]
                      else if c = CHR '' '' then ''+'' else percent c) s)"

definition hex_val :: "char \<Rightarrow> nat option" where
  "hex_val c =
     (if CHR ''0'' \<le> c \<and> c \<le> CHR ''9'' then Some (of_char c - 48)
      else if CHR ''a'' \<le> c \<and> c \<le> CHR ''f'' then Some (of_char c - 87)
      else if CHR ''A'' \<le> c \<and> c \<le> CHR ''F'' then Some (of_char c - 55) else None)"

text \<open>\<^verbatim>\<open>QueryUnescape\<close> (\<open>form\<close>) and \<^verbatim>\<open>PathUnescape\<close>: nothing on a bad escape.\<close>

fun unescape :: "bool \<Rightarrow> string \<Rightarrow> string option" where
  "unescape form [] = Some []"
| "unescape form (c # cs) =
     (if c = CHR ''%'' then
        (case cs of
           h # l # rest \<Rightarrow>
             (case (hex_val h, hex_val l, unescape form rest) of
                (Some a, Some b, Some s) \<Rightarrow> Some (char_of (16 * a + b) # s)
              | _ \<Rightarrow> None)
         | _ \<Rightarrow> None)
      else map_option (\<lambda>s. (if form \<and> c = CHR ''+'' then CHR '' '' else c) # s) (unescape form cs))"

definition escape_host :: "string \<Rightarrow> string" where
  "escape_host h =
     concat (map (\<lambda>c. if is_alnum c \<or> c \<in> set ''-_.~!$&()*+,;=:[]<>'' \<or> c = CHR 0x22 \<or> c = CHR 0x27 then [c]
                      else percent c) h)"

text \<open>\<^verbatim>\<open>ParseQuery\<close> without its errors: the values of each key, the keys in the order of their first use.\<close>

definition parse_pair :: "string \<Rightarrow> (string \<times> string) option" where
  "parse_pair part =
     (if part = [] \<or> CHR '';'' \<in> set part then None
      else case cut part (CHR ''='') of
             (k, v, _) \<Rightarrow>
               (case (unescape True k, unescape True v) of
                  (Some k', Some v') \<Rightarrow> Some (k', v') | _ \<Rightarrow> None))"

definition query_pairs :: "string \<Rightarrow> (string \<times> string) list" where
  "query_pairs q = List.map_filter parse_pair (split_on (CHR ''&'') q)"

definition query_names :: "string \<Rightarrow> string list" where
  "query_names q = unique_sorted (map fst (query_pairs q))"

text \<open>\<^verbatim>\<open>Values.Encode\<close>: sorted by key, the values of a key in their order.\<close>

definition encode_query :: "(string \<times> string) list \<Rightarrow> string" where
  "encode_query ps =
     join_with ''&''
       (map (\<lambda>(k, v). query_escape k @ ''='' @ query_escape v)
          (concat (map (\<lambda>k. List.filter (\<lambda>p. fst p = k) ps) (unique_sorted (map fst ps)))))"

subsection \<open>The text of a URL\<close>

record full_url = url +
  url_user :: string
  url_host :: string
  url_raw_query :: string
  url_force_query :: bool

type_synonym full_url_parser = "string \<Rightarrow> full_url option"

text \<open>
  \<^verbatim>\<open>String\<close> of a URL with a scheme, a host and the given path and query; \<open>user\<close> is the encoded user
  information with its \<^verbatim>\<open>@\<close>, or nothing.
\<close>

definition url_text :: "string \<Rightarrow> string \<Rightarrow> string \<Rightarrow> string \<Rightarrow> bool \<Rightarrow> string \<Rightarrow> string" where
  "url_text scheme user host path force query =
     scheme @ ''://'' @ user @ escape_host host
     @ (if path \<noteq> [] \<and> \<not> has_prefix path ''/'' then ''/'' else []) @ escape_path path
     @ (if force \<or> query \<noteq> [] then ''?'' @ query else [])"

end
