(* ===== verification/Targeting.thy ===== *)
theory Targeting
  imports Scope GoURL
begin

text \<open>
  \<^verbatim>\<open>internal/targeting\<close>: the target plan of a scope (\<^verbatim>\<open>plan.go\<close>) and the filters of discovered hosts
  and URLs (\<^verbatim>\<open>filter.go\<close>). Parameters: \<open>rx\<close> (\<^verbatim>\<open>syntax.Parse\<close> and \<^verbatim>\<open>Simplify\<close>), \<open>sha\<close> (hexadecimal
  SHA-256), \<open>parse\<close> (\<^verbatim>\<open>url.Parse\<close>) and \<open>ip\<close> (\<^verbatim>\<open>net.ParseIP\<close> with its \<^verbatim>\<open>String\<close>). The maps the plan
  collects its roots and seeds in are association lists; their entries are sorted by their keys
  afterwards, so the iteration order does not matter.
\<close>

subsection \<open>Data\<close>

record discovery_root =
  dn_domain :: string
  dn_source_rule_ids :: "string list"
  dn_source :: string
  dn_reason :: string

record endpoint =
  ep_protocol :: string
  ep_port :: int
  ep_url :: string

record active_seed =
  sd_host :: string
  sd_endpoints :: "endpoint list"
  sd_path_pattern :: string
  sd_source_rule_ids :: "string list"

record wildcard_rule =
  wc_host_pattern :: string
  wc_base_domain :: string
  wc_protocols :: "string list"
  wc_ports :: "int list"
  wc_path_pattern :: string
  wc_source_rule_id :: string

record rule_summary =
  rm_rule_id :: string
  rm_rule_digest :: string
  rm_protocol :: string
  rm_host :: string
  rm_port :: string
  rm_file :: string

record plan_warning =
  pw_code :: string
  pw_message :: string
  pw_source_rule_id :: string

record target_plan =
  tp_scope_digest :: string
  tp_digest :: string
  tp_discovery_roots :: "discovery_root list"
  tp_seeds :: "active_seed list"
  tp_wildcards :: "wildcard_rule list"
  tp_exclusions :: "rule_summary list"
  tp_protocols :: "string list"
  tp_ports :: "int list"
  tp_warnings :: "plan_warning list"

record manual_root =
  mr_domain :: string
  mr_reason :: string

subsection \<open>Expressions with finitely many texts\<close>

definition within_limit :: "nat \<Rightarrow> 'a list \<Rightarrow> 'a list option" where
  "within_limit max_items xs = (if length xs \<le> max_items then Some xs else None)"

fun enumerate_re :: "regexp \<Rightarrow> nat \<Rightarrow> string list option"
  and enumerate_concat :: "regexp list \<Rightarrow> nat \<Rightarrow> string list \<Rightarrow> string list option"
  and enumerate_alt :: "regexp list \<Rightarrow> nat \<Rightarrow> string list \<Rightarrow> string list option" where
  "enumerate_re ReEmpty n = Some [[]]"
| "enumerate_re ReBeginText n = Some [[]]"
| "enumerate_re ReEndText n = Some [[]]"
| "enumerate_re (ReLiteral fc w) n = Some [w]"
| "enumerate_re (ReCapture r) n = enumerate_re r n"
| "enumerate_re (ReConcat rs) n = map_option unique_sorted (enumerate_concat rs n [[]])"
| "enumerate_re (ReAlternate rs) n = map_option unique_sorted (enumerate_alt rs n [])"
| "enumerate_re (ReQuest g r) n =
     (case enumerate_re r n of
        None \<Rightarrow> None
      | Some part \<Rightarrow> if length part + 1 > n then None else Some (unique_sorted (part @ [[]])))"
| "enumerate_re r n = None"
| "enumerate_concat [] n out = Some out"
| "enumerate_concat (r # rs) n out =
     (case enumerate_re r n of
        None \<Rightarrow> None
      | Some part \<Rightarrow>
          (case within_limit n (concat (map (\<lambda>a. map (\<lambda>b. a @ b) part) out)) of
             None \<Rightarrow> None
           | Some next \<Rightarrow> enumerate_concat rs n next))"
| "enumerate_alt [] n out = Some out"
| "enumerate_alt (r # rs) n out =
     (case enumerate_re r n of
        None \<Rightarrow> None
      | Some part \<Rightarrow>
          (case within_limit n (out @ part) of
             None \<Rightarrow> None
           | Some next \<Rightarrow> enumerate_alt rs n next))"

definition finite_literals :: "rx_parser \<Rightarrow> string \<Rightarrow> nat \<Rightarrow> string list option" where
  "finite_literals rx pattern n = (case rx pattern of None \<Rightarrow> None | Some r \<Rightarrow> enumerate_re r n)"

definition finite_protocols :: "rx_parser \<Rightarrow> string \<Rightarrow> string list option" where
  "finite_protocols rx pattern =
     (case finite_literals rx pattern 8 of
        None \<Rightarrow> None
      | Some vs \<Rightarrow>
          if vs = [] then None
          else if list_all (\<lambda>v. v = ''http'' \<or> v = ''https'') vs then Some (sort vs) else None)"

fun ports_of :: "string list \<Rightarrow> int list \<Rightarrow> int list option" where
  "ports_of [] acc = Some acc"
| "ports_of (v # vs) acc =
     (case atoi v of
        None \<Rightarrow> None
      | Some p \<Rightarrow> if p < 1 \<or> p > 65535 then None else ports_of vs (append_unique acc p))"

definition finite_ports :: "rx_parser \<Rightarrow> string \<Rightarrow> int list option" where
  "finite_ports rx pattern =
     (case finite_literals rx pattern 32 of
        None \<Rightarrow> None
      | Some vs \<Rightarrow> if vs = [] then None else map_option sort (ports_of vs []))"

definition host_char :: "char \<Rightarrow> bool" where
  "host_char c \<longleftrightarrow> (CHR ''a'' \<le> c \<and> c \<le> CHR ''z'') \<or> (CHR ''0'' \<le> c \<and> c \<le> CHR ''9'') \<or> c = CHR ''-''"

definition valid_label :: "string \<Rightarrow> bool" where
  "valid_label l \<longleftrightarrow>
     l \<noteq> [] \<and> length l \<le> 63 \<and> \<not> has_prefix l ''-'' \<and> \<not> has_suffix l ''-'' \<and> list_all host_char l"

definition normalize_hostname :: "ip_parser \<Rightarrow> string \<Rightarrow> string res" where
  "normalize_hostname ip raw =
     (let host = trim_suffix (to_lower (trim_space raw)) ''.'' in
      case ip host of
        Some a \<Rightarrow> Inr a
      | None \<Rightarrow>
          if length host = 0 \<or> length host > 253 then Inl (Err ''invalid hostname'')
          else if list_all valid_label (split_on (CHR ''.'') host) then Inr host
          else Inl (Err ''invalid hostname''))"

definition exact_host :: "rx_parser \<Rightarrow> ip_parser \<Rightarrow> string \<Rightarrow> string option" where
  "exact_host rx ip pattern =
     (case finite_literals rx pattern 2 of
        Some [v] \<Rightarrow> (case normalize_hostname ip v of Inl e \<Rightarrow> None | Inr h \<Rightarrow> Some h)
      | _ \<Rightarrow> None)"

definition narrow_wildcard_base :: "rx_parser \<Rightarrow> ip_parser \<Rightarrow> string \<Rightarrow> string option" where
  "narrow_wildcard_base rx ip pattern =
     (let body = trim_prefix (trim_suffix pattern ''$'') ''^'';
          any_sub = ''.*'' @ [CHR 0x5C] @ ''.''; one_label = ''[^.]+'' @ [CHR 0x5C] @ ''.'';
          rest = (if has_prefix body any_sub then Some (trim_prefix body any_sub)
                  else if has_prefix body one_label then Some (trim_prefix body one_label)
                  else None)
      in case rest of
           None \<Rightarrow> None
         | Some r \<Rightarrow>
             (case exact_host rx ip (''^'' @ r @ ''$'') of
                None \<Rightarrow> None
              | Some base \<Rightarrow> if ip base \<noteq> None then None else Some base))"

definition initial_path :: "rx_parser \<Rightarrow> string \<Rightarrow> string option" where
  "initial_path rx pattern =
     (case rx pattern of
        None \<Rightarrow> None
      | Some r \<Rightarrow>
          if full r ''/'' then Some ''/''
          else case finite_literals rx pattern 2 of
                 Some [v] \<Rightarrow> if has_prefix v ''/'' then Some v else None
               | _ \<Rightarrow> None)"

subsection \<open>URLs\<close>

definition endpoint_url :: "ip_parser \<Rightarrow> string \<Rightarrow> string \<Rightarrow> int \<Rightarrow> string \<Rightarrow> string" where
  "endpoint_url ip protocol host port path =
     (let authority = (if ip host \<noteq> None \<and> str_contains host '':'' then ''['' @ host @ '']'' else host);
          with_port = (if (protocol = ''http'' \<and> port \<noteq> 80) \<or> (protocol = ''https'' \<and> port \<noteq> 443)
                       then authority @ '':'' @ itoa port else authority)
      in protocol @ ''://'' @ with_port @ escape_path path)"

subsection \<open>The plan\<close>

definition summarize :: "normalized_rule \<Rightarrow> rule_summary" where
  "summarize r =
     \<lparr>rm_rule_id = nr_id r, rm_rule_digest = nr_digest r, rm_protocol = nr_protocol r, rm_host = nr_host r,
      rm_port = nr_port r, rm_file = nr_file r\<rparr>"

definition warn :: "string \<Rightarrow> string \<Rightarrow> string \<Rightarrow> plan_warning" where
  "warn code message rule_id = \<lparr>pw_code = code, pw_message = message, pw_source_rule_id = rule_id\<rparr>"

definition short_digest :: "(string \<Rightarrow> string) \<Rightarrow> string \<Rightarrow> string" where
  "short_digest sha v = take 16 (sha v)"

definition append_unique_endpoint :: "endpoint list \<Rightarrow> endpoint \<Rightarrow> endpoint list" where
  "append_unique_endpoint es e = (if list_ex (\<lambda>x. ep_url x = ep_url e) es then es else es @ [e])"

record planning =
  pl_warnings :: "plan_warning list"
  pl_protocols :: "string list"
  pl_ports :: "int list"
  pl_wildcards :: "wildcard_rule list"
  pl_roots :: "(string \<times> discovery_root) list"
  pl_seeds :: "(string \<times> active_seed) list"

definition no_planning :: planning where
  "no_planning =
     \<lparr>pl_warnings = [], pl_protocols = [], pl_ports = [], pl_wildcards = [], pl_roots = [], pl_seeds = []\<rparr>"

definition zero_seed :: active_seed where
  "zero_seed = \<lparr>sd_host = [], sd_endpoints = [], sd_path_pattern = [], sd_source_rule_ids = []\<rparr>"

definition zero_root :: discovery_root where
  "zero_root = \<lparr>dn_domain = [], dn_source_rule_ids = [], dn_source = [], dn_reason = []\<rparr>"

definition lookup_or :: "'a \<Rightarrow> (string \<times> 'a) list \<Rightarrow> string \<Rightarrow> 'a" where
  "lookup_or z m k = (case map_of m k of None \<Rightarrow> z | Some v \<Rightarrow> v)"

definition add_warning :: "string \<Rightarrow> string \<Rightarrow> string \<Rightarrow> planning \<Rightarrow> planning" where
  "add_warning code message rule_id a = a\<lparr>pl_warnings := pl_warnings a @ [warn code message rule_id]\<rparr>"

definition add_endpoint ::
  "string \<Rightarrow> normalized_rule \<Rightarrow> endpoint \<Rightarrow> (string \<times> active_seed) list \<Rightarrow> (string \<times> active_seed) list" where
  "add_endpoint host r e seeds =
     (let key = host @ [CHR 0x00] @ nr_file r; seed = lookup_or zero_seed seeds key
      in AList.update key
           \<lparr>sd_host = host, sd_endpoints = append_unique_endpoint (sd_endpoints seed) e,
            sd_path_pattern = nr_file r,
            sd_source_rule_ids = append_unique (sd_source_rule_ids seed) (nr_id r)\<rparr> seeds)"

definition candidate_endpoints ::
  "ip_parser \<Rightarrow> string list \<Rightarrow> string \<Rightarrow> int list \<Rightarrow> string \<Rightarrow> endpoint list" where
  "candidate_endpoints ip protocols host ports path =
     concat (map (\<lambda>pr. map (\<lambda>port.
       \<lparr>ep_protocol = pr, ep_port = port, ep_url = endpoint_url ip pr host port path\<rparr>) ports) protocols)"

definition add_seeds ::
  "(string \<Rightarrow> bool) \<Rightarrow> ip_parser \<Rightarrow> normalized_rule \<Rightarrow> string list \<Rightarrow> string \<Rightarrow> int list \<Rightarrow> string \<Rightarrow> planning \<Rightarrow> planning"
where
  "add_seeds authorised ip r protocols host ports path a =
     a\<lparr>pl_seeds :=
         fold (\<lambda>e seeds. if authorised (ep_url e) then add_endpoint host r e seeds else seeds)
           (candidate_endpoints ip protocols host ports path) (pl_seeds a)\<rparr>"

definition add_root :: "string \<Rightarrow> string \<Rightarrow> string \<Rightarrow> string \<Rightarrow> planning \<Rightarrow> planning" where
  "add_root domain source reason rule_id a =
     (let existing = lookup_or zero_root (pl_roots a) domain
      in a\<lparr>pl_roots := AList.update domain
           (existing\<lparr>dn_domain := domain, dn_source := source,
              dn_reason := (if source = ''manual'' then reason else dn_reason existing),
              dn_source_rule_ids := append_unique (dn_source_rule_ids existing) rule_id\<rparr>) (pl_roots a)\<rparr>)"

definition add_wildcard ::
  "normalized_rule \<Rightarrow> string \<Rightarrow> string list \<Rightarrow> int list \<Rightarrow> planning \<Rightarrow> planning" where
  "add_wildcard r base protocols ports a =
     add_root base ''derived'' [] (nr_id r)
       (a\<lparr>pl_wildcards := pl_wildcards a @
          [\<lparr>wc_host_pattern = nr_host r, wc_base_domain = base, wc_protocols = protocols, wc_ports = ports,
            wc_path_pattern = nr_file r, wc_source_rule_id = nr_id r\<rparr>]\<rparr>)"

definition slice_of :: "'a list option \<Rightarrow> 'a list" where
  "slice_of xs = (case xs of None \<Rightarrow> [] | Some ys \<Rightarrow> ys)"

definition plan_ranges :: "rx_parser \<Rightarrow> normalized_rule \<Rightarrow> planning \<Rightarrow> planning" where
  "plan_ranges rx r a0 =
     (let protocols = finite_protocols rx (nr_protocol r); ports = finite_ports rx (nr_port r);
          a1 = (if protocols = None
                then add_warning ''ambiguous_protocol_regex'' ''protocol expression cannot be safely enumerated''
                       (nr_id r) a0 else a0);
          a2 = (if ports = None
                then add_warning ''ambiguous_port_regex''
                       ''port expression cannot be safely enumerated; active port scanning is disabled for this rule''
                       (nr_id r) a1 else a1)
      in a2\<lparr>pl_protocols := fold (\<lambda>v acc. append_unique acc v) (slice_of protocols) (pl_protocols a2),
             pl_ports := fold (\<lambda>v acc. append_unique acc v) (slice_of ports) (pl_ports a2)\<rparr>)"

definition plan_rule ::
  "rx_parser \<Rightarrow> ip_parser \<Rightarrow> (string \<Rightarrow> bool) \<Rightarrow> normalized_rule \<Rightarrow> planning \<Rightarrow> planning" where
  "plan_rule rx ip authorised r a0 =
     (let protocols = finite_protocols rx (nr_protocol r); ports = finite_ports rx (nr_port r);
          a = plan_ranges rx r a0
      in case exact_host rx ip (nr_host r) of
           Some host \<Rightarrow>
             (case initial_path rx (nr_file r) of
                None \<Rightarrow>
                  add_warning ''no_safe_initial_path''
                    ''path expression does not authorize / and has no single literal path'' (nr_id r) a
              | Some path \<Rightarrow>
                  if protocols = None \<or> ports = None then a
                  else add_seeds authorised ip r (slice_of protocols) host (slice_of ports) path a)
         | None \<Rightarrow>
             (case narrow_wildcard_base rx ip (nr_host r) of
                Some base \<Rightarrow> add_wildcard r base (slice_of protocols) (slice_of ports) a
              | None \<Rightarrow>
                  add_warning ''ambiguous_host_regex''
                    ''host expression is enforced but cannot be safely converted to an exact target or discovery root''
                    (nr_id r) a))"

fun add_manual_roots ::
  "(string \<Rightarrow> string) \<Rightarrow> ip_parser \<Rightarrow> manual_root list \<Rightarrow> planning \<Rightarrow> planning res" where
  "add_manual_roots sha ip [] a = Inr a"
| "add_manual_roots sha ip (m # ms) a =
     (case normalize_hostname ip (mr_domain m) of
        Inl e \<Rightarrow> Inl (Wrapped (''manual discovery root '' @ quoted (mr_domain m) @ '': '') e)
      | Inr domain \<Rightarrow>
          let reason = trim_space (mr_reason m) in
          if reason = [] then Inl (Err (''manual discovery root '' @ quoted domain @ '' requires a reason''))
          else add_manual_roots sha ip ms
                 (add_root domain ''manual'' reason
                    (''manual-'' @ short_digest sha (domain @ [CHR 0x00] @ reason)) a))"

definition finish_root :: "discovery_root \<Rightarrow> discovery_root" where
  "finish_root d = d\<lparr>dn_source_rule_ids := sort (dn_source_rule_ids d)\<rparr>"

definition finish_seed :: "active_seed \<Rightarrow> active_seed" where
  "finish_seed s =
     s\<lparr>sd_source_rule_ids := sort (sd_source_rule_ids s), sd_endpoints := sort_key ep_url (sd_endpoints s)\<rparr>"

text \<open>The JSON text of a plan, which its digest is taken of. A slice that is never made is null.\<close>

definition json_strings :: "string list \<Rightarrow> string" where
  "json_strings ss = json_array (map json_string ss)"

definition json_ints :: "int list \<Rightarrow> string" where
  "json_ints ns = json_array (map itoa ns)"

definition json_or_null :: "('a list \<Rightarrow> string) \<Rightarrow> 'a list \<Rightarrow> string" where
  "json_or_null f xs = (if xs = [] then ''null'' else f xs)"

definition json_root :: "discovery_root \<Rightarrow> string" where
  "json_root d =
     json_object ([(''domain'', json_string (dn_domain d)), (''source_rule_ids'', json_strings (dn_source_rule_ids d)),
       (''source'', json_string (dn_source d))]
       @ (if dn_reason d = [] then [] else [(''reason'', json_string (dn_reason d))]))"

definition json_endpoint :: "endpoint \<Rightarrow> string" where
  "json_endpoint e =
     json_object [(''protocol'', json_string (ep_protocol e)), (''port'', itoa (ep_port e)),
       (''url'', json_string (ep_url e))]"

definition json_seed :: "active_seed \<Rightarrow> string" where
  "json_seed s =
     json_object [(''host'', json_string (sd_host s)), (''endpoints'', json_array (map json_endpoint (sd_endpoints s))),
       (''path_pattern'', json_string (sd_path_pattern s)), (''source_rule_ids'', json_strings (sd_source_rule_ids s))]"

definition json_wildcard :: "wildcard_rule \<Rightarrow> string" where
  "json_wildcard w =
     json_object [(''host_pattern'', json_string (wc_host_pattern w)), (''base_domain'', json_string (wc_base_domain w)),
       (''protocols'', json_or_null json_strings (wc_protocols w)), (''ports'', json_or_null json_ints (wc_ports w)),
       (''path_pattern'', json_string (wc_path_pattern w)), (''source_rule_id'', json_string (wc_source_rule_id w))]"

definition json_summary :: "rule_summary \<Rightarrow> string" where
  "json_summary r =
     json_object [(''id'', json_string (rm_rule_id r)), (''digest'', json_string (rm_rule_digest r)),
       (''protocol'', json_string (rm_protocol r)), (''host'', json_string (rm_host r)),
       (''port'', json_string (rm_port r)), (''file'', json_string (rm_file r))]"

definition json_warning :: "plan_warning \<Rightarrow> string" where
  "json_warning w =
     json_object ([(''code'', json_string (pw_code w)), (''message'', json_string (pw_message w))]
       @ (if pw_source_rule_id w = [] then [] else [(''source_rule_id'', json_string (pw_source_rule_id w))]))"

definition plan_digest :: "(string \<Rightarrow> string) \<Rightarrow> target_plan \<Rightarrow> string" where
  "plan_digest sha p =
     sha (json_object
       [(''scope_digest'', json_string (tp_scope_digest p)), (''target_plan_digest'', json_string []),
        (''discovery_roots'', json_array (map json_root (tp_discovery_roots p))),
        (''exact_active_seeds'', json_array (map json_seed (tp_seeds p))),
        (''wildcard_rules'', json_array (map json_wildcard (tp_wildcards p))),
        (''exclusions'', json_array (map json_summary (tp_exclusions p))),
        (''allowed_protocols'', json_strings (tp_protocols p)), (''allowed_ports'', json_ints (tp_ports p)),
        (''warnings'', json_array (map json_warning (tp_warnings p)))])"

definition sort_plan :: "scope \<Rightarrow> planning \<Rightarrow> target_plan" where
  "sort_plan sc a =
     \<lparr>tp_scope_digest = sc_digest sc, tp_digest = [],
      tp_discovery_roots = sort_key dn_domain (map (finish_root \<circ> snd) (pl_roots a)),
      tp_seeds = sort_key (\<lambda>s. (sd_host s, sd_path_pattern s)) (map (finish_seed \<circ> snd) (pl_seeds a)),
      tp_wildcards = sort_key wc_source_rule_id (pl_wildcards a),
      tp_exclusions = sort_key rm_rule_id (map (summarize \<circ> c_rule) (sc_exclude sc)),
      tp_protocols = sort (pl_protocols a), tp_ports = sort (pl_ports a),
      tp_warnings = sort_key (\<lambda>w. (pw_source_rule_id w, pw_code w)) (pl_warnings a)\<rparr>"

definition plan_targets ::
  "rx_parser \<Rightarrow> ip_parser \<Rightarrow> url_parser \<Rightarrow> (string \<Rightarrow> string) \<Rightarrow> scope \<Rightarrow> manual_root list \<Rightarrow> target_plan res" where
  "plan_targets rx ip parse sha sc manual =
     bind_res
       (add_manual_roots sha ip manual
          (fold (plan_rule rx ip (allows parse sc)) (map c_rule (sc_include sc)) no_planning))
       (\<lambda>a. let p = sort_plan sc a in Inr (p\<lparr>tp_digest := plan_digest sha p\<rparr>))"

definition initial_urls :: "target_plan \<Rightarrow> string list" where
  "initial_urls p = unique_sorted (map ep_url (concat (map sd_endpoints (tp_seeds p))))"

definition exact_hosts :: "target_plan \<Rightarrow> string list" where
  "exact_hosts p = unique_sorted (map sd_host (tp_seeds p))"

definition discovery_domains :: "target_plan \<Rightarrow> string list" where
  "discovery_domains p = map dn_domain (tp_discovery_roots p)"

definition has_executable_targets :: "target_plan \<Rightarrow> bool" where
  "has_executable_targets p \<longleftrightarrow> tp_seeds p \<noteq> [] \<or> tp_discovery_roots p \<noteq> []"

subsection \<open>Filtering what was discovered\<close>

text \<open>The interface \<^verbatim>\<open>DetailedScope\<close> is the pair of \<open>judge\<close> (its \<^verbatim>\<open>Evaluate\<close>) and the include rules.\<close>

record filter_decision =
  fd_target :: string
  fd_accepted :: bool
  fd_reason :: reason
  fd_authorized_urls :: "string list"
  fd_source_rule_ids :: "string list"

record filter_result =
  fr_authorized :: "string list"
  fr_authorized_urls :: "string list"
  fr_filtered :: "filter_decision list"
  fr_decisions :: "filter_decision list"
  fr_accepted_count :: nat
  fr_filtered_count :: nat

definition rule_matches_host :: "rx_parser \<Rightarrow> string \<Rightarrow> normalized_rule \<Rightarrow> bool" where
  "rule_matches_host rx host r = (case rx (nr_host r) of None \<Rightarrow> False | Some re \<Rightarrow> full re host)"

definition rule_urls :: "rx_parser \<Rightarrow> ip_parser \<Rightarrow> string \<Rightarrow> normalized_rule \<Rightarrow> string list" where
  "rule_urls rx ip host r =
     (case (finite_protocols rx (nr_protocol r), finite_ports rx (nr_port r), initial_path rx (nr_file r)) of
        (Some protocols, Some ports, Some path) \<Rightarrow>
          concat (map (\<lambda>pr. map (\<lambda>port. endpoint_url ip pr host port path) ports) protocols)
      | _ \<Rightarrow> [])"

definition rejected :: "string \<Rightarrow> reason \<Rightarrow> filter_decision" where
  "rejected target why =
     \<lparr>fd_target = target, fd_accepted = False, fd_reason = why, fd_authorized_urls = [], fd_source_rule_ids = []\<rparr>"

definition authorize_host ::
  "rx_parser \<Rightarrow> ip_parser \<Rightarrow> (string \<Rightarrow> evaluation) \<Rightarrow> normalized_rule list \<Rightarrow> string \<Rightarrow> filter_decision" where
  "authorize_host rx ip judge rules host =
     (let matching = List.filter (rule_matches_host rx host) rules;
          raws = concat (map (rule_urls rx ip host) matching);
          allowed = List.filter (\<lambda>raw. ev_allowed (judge raw)) raws;
          excluded = list_ex (\<lambda>raw. \<not> ev_allowed (judge raw) \<and> ev_reason (judge raw) = ReasonExcluded) raws
      in if allowed \<noteq> []
         then \<lparr>fd_target = host, fd_accepted = True, fd_reason = ReasonAllowed,
                fd_authorized_urls = unique_sorted allowed,
                fd_source_rule_ids = unique_sorted (concat (map (\<lambda>raw. ev_includes (judge raw)) allowed))\<rparr>
         else rejected host (if excluded then ReasonExcluded else ReasonNoInclude))"

record filtering =
  fg_seen :: "string list"
  fg_authorized :: "string list"
  fg_urls :: "string list"
  fg_filtered :: "filter_decision list"
  fg_decisions :: "filter_decision list"

definition no_filtering :: filtering where
  "no_filtering = \<lparr>fg_seen = [], fg_authorized = [], fg_urls = [], fg_filtered = [], fg_decisions = []\<rparr>"

definition add_rejected :: "filter_decision \<Rightarrow> filtering \<Rightarrow> filtering" where
  "add_rejected d g = g\<lparr>fg_filtered := fg_filtered g @ [d], fg_decisions := fg_decisions g @ [d]\<rparr>"

text \<open>The decision on one valid target and the URLs it adds when it is accepted.\<close>

definition add_decision :: "filter_decision \<Rightarrow> string list \<Rightarrow> filtering \<Rightarrow> filtering" where
  "add_decision d urls g =
     (let g1 = g\<lparr>fg_seen := fd_target d # fg_seen g\<rparr> in
      if fd_accepted d
      then g1\<lparr>fg_decisions := fg_decisions g @ [d], fg_authorized := fg_authorized g @ [fd_target d],
              fg_urls := fg_urls g @ urls\<rparr>
      else add_rejected d g1)"

definition filter_host ::
  "rx_parser \<Rightarrow> ip_parser \<Rightarrow> (string \<Rightarrow> evaluation) \<Rightarrow> normalized_rule list \<Rightarrow> string \<Rightarrow> filtering \<Rightarrow> filtering" where
  "filter_host rx ip judge rules raw g =
     (case normalize_hostname ip raw of
        Inl e \<Rightarrow> add_rejected (rejected raw ReasonInvalidHostname) g
      | Inr host \<Rightarrow>
          if host \<in> set (fg_seen g) then g
          else let d = authorize_host rx ip judge rules host in add_decision d (fd_authorized_urls d) g)"

definition filter_url :: "url_parser \<Rightarrow> (string \<Rightarrow> evaluation) \<Rightarrow> string \<Rightarrow> filtering \<Rightarrow> filtering" where
  "filter_url parse judge raw g =
     (case parse (trim_space raw) of
        None \<Rightarrow> add_rejected (rejected raw ReasonInvalidTarget) g
      | Some u \<Rightarrow>
          if \<not> http_url u then add_rejected (rejected raw ReasonInvalidTarget) g
          else let normalized = url_string u; e = judge normalized in
            if normalized \<in> set (fg_seen g) then g
            else add_decision
                   \<lparr>fd_target = normalized, fd_accepted = ev_allowed e, fd_reason = ev_reason e,
                    fd_authorized_urls = [], fd_source_rule_ids = ev_includes e\<rparr> [normalized] g)"

definition finish_filter :: "filtering \<Rightarrow> filter_result" where
  "finish_filter g =
     \<lparr>fr_authorized = unique_sorted (fg_authorized g), fr_authorized_urls = unique_sorted (fg_urls g),
      fr_filtered = fg_filtered g, fr_decisions = fg_decisions g,
      fr_accepted_count = length (unique_sorted (fg_authorized g)), fr_filtered_count = length (fg_filtered g)\<rparr>"

definition filter_discovered_hosts ::
  "rx_parser \<Rightarrow> ip_parser \<Rightarrow> (string \<Rightarrow> evaluation) \<Rightarrow> normalized_rule list \<Rightarrow> string list \<Rightarrow> filter_result" where
  "filter_discovered_hosts rx ip judge rules hosts =
     finish_filter (fold (filter_host rx ip judge rules) hosts no_filtering)"

definition filter_urls :: "url_parser \<Rightarrow> (string \<Rightarrow> evaluation) \<Rightarrow> string list \<Rightarrow> filter_result" where
  "filter_urls parse judge targets =
     finish_filter (fold (filter_url parse judge) targets no_filtering)"

definition is_ip_host :: "ip_parser \<Rightarrow> string \<Rightarrow> bool" where
  "is_ip_host ip raw \<longleftrightarrow> ip (trim (\<lambda>c. c = CHR ''['' \<or> c = CHR '']'') raw) \<noteq> None"

definition sorted_unique :: "string list \<Rightarrow> string list" where
  "sorted_unique items = sort (unique_sorted items)"

subsection \<open>Facts on the enumeration\<close>

lemma length_unique_sorted: "length (unique_sorted xs) \<le> length xs"
proof -
  have "length (fold (\<lambda>x acc. append_unique acc x) xs acc) \<le> length acc + length xs" for acc
  proof (induction xs arbitrary: acc)
    case (Cons x xs)
    show ?case using Cons.IH [of "append_unique acc x"] by (auto simp: append_unique_def split: if_splits)
  qed simp
  from this [of "[]"] show ?thesis by (simp add: unique_sorted_def)
qed

lemma within_limit_Some: "within_limit n xs = Some ys \<longleftrightarrow> ys = xs \<and> length xs \<le> n"
  by (auto simp: within_limit_def)

text \<open>Expressions whose literals do not fold case; for the others the enumeration keeps one spelling.\<close>

fun case_sensitive :: "regexp \<Rightarrow> bool" where
  "case_sensitive (ReLiteral fc w) = (\<not> fc)"
| "case_sensitive (ReCapture r) = case_sensitive r"
| "case_sensitive (ReQuest g r) = case_sensitive r"
| "case_sensitive (ReConcat rs) = list_all case_sensitive rs"
| "case_sensitive (ReAlternate rs) = list_all case_sensitive rs"
| "case_sensitive r = True"

definition matched :: "string \<Rightarrow> nat \<Rightarrow> nat \<Rightarrow> string" where
  "matched s i j = take (j - i) (drop i s)"

lemma matched_refl [simp]: "matched s i i = []"
  by (simp add: matched_def)

lemma matched_append: "i \<le> j \<Longrightarrow> j \<le> k \<Longrightarrow> matched s i k = matched s i j @ matched s j k"
proof -
  assume "i \<le> j" and "j \<le> k"
  then have "k - i = (j - i) + (k - j)" and "drop j s = drop (j - i) (drop i s)" by simp_all
  then show ?thesis unfolding matched_def by (simp only: take_add)
qed

text \<open>Every text the expression matches is enumerated.\<close>

lemma enumerate_covers:
  "enumerate_re r n = Some ws \<Longrightarrow> case_sensitive r \<Longrightarrow> j \<in> set (ends r s i) \<Longrightarrow> i \<le> j \<and> matched s i j \<in> set ws"
  "enumerate_concat rs n out = Some ws \<Longrightarrow> list_all case_sensitive rs \<Longrightarrow> j \<in> set (seq_ends rs s i) \<Longrightarrow>
     a \<in> set out \<Longrightarrow> i \<le> j \<and> a @ matched s i j \<in> set ws"
  "enumerate_alt rs n out = Some ws \<Longrightarrow> list_all case_sensitive rs \<Longrightarrow>
     (j \<in> set (alt_ends rs s i) \<longrightarrow> i \<le> j \<and> matched s i j \<in> set ws) \<and> set out \<subseteq> set ws"
proof (induction r n and rs n out and rs n out arbitrary: ws i j and ws i j a and ws i j
    rule: enumerate_re_enumerate_concat_enumerate_alt.induct)
  case (4 fc w n)
  then show ?case by (auto simp: lit_ends_def matched_def Let_def split: if_splits)
next
  case (6 rs n)
  then show ?case by (fastforce simp: unique_sorted_def)
next
  case (7 rs n)
  then show ?case by fastforce
next
  case (8 g r n)
  then show ?case by (auto split: option.splits if_splits)
next
  case (11 r rs n out)
  obtain part where part: "enumerate_re r n = Some part" using "11.prems"(1) by (auto split: option.splits)
  let ?next = "concat (map (\<lambda>a. map (\<lambda>b. a @ b) part) out)"
  have rest: "enumerate_concat rs n ?next = Some ws" and lim: "within_limit n ?next = Some ?next"
    using "11.prems"(1) part by (auto simp: within_limit_Some split: option.splits)
  obtain k where k: "k \<in> set (ends r s i)" and j: "j \<in> set (seq_ends rs s k)"
    using "11.prems"(3) by auto
  have ik: "i \<le> k \<and> matched s i k \<in> set part" using "11.IH"(1) part "11.prems"(2) k by auto
  then have "a @ matched s i k \<in> set ?next" using "11.prems"(4) by auto
  then have "k \<le> j \<and> (a @ matched s i k) @ matched s k j \<in> set ws"
    using "11.prems"(2) j by (intro "11.IH"(2) [OF part lim rest]) simp_all
  then show ?case using ik matched_append [of i k j s] by auto
next
  case (13 r rs n out)
  obtain part where part: "enumerate_re r n = Some part" using "13.prems"(1) by (auto split: option.splits)
  have rest: "enumerate_alt rs n (out @ part) = Some ws" and lim: "within_limit n (out @ part) = Some (out @ part)"
    using "13.prems"(1) part by (auto simp: within_limit_Some split: option.splits)
  have cs: "case_sensitive r" "list_all case_sensitive rs" using "13.prems"(2) by auto
  show ?case using "13.IH"(1) [of part j i] "13.IH"(2) [OF part lim rest cs(2), of j i] part cs(1) by auto
next
  case (2 n)
  then show ?case by (simp split: if_splits) force
next
  case (3 n)
  then show ?case by (simp split: if_splits) force
next
  case (1 n)
  then show ?case by simp force
next
  case (5 r n)
  then show ?case by simp
next
  case (10 n out)
  then show ?case by simp
next
  case (12 n out)
  then show ?case by simp
qed (simp only: enumerate_re.simps option.distinct)+

lemma enumerate_re_size:
  "enumerate_re r n = Some ws \<Longrightarrow> n > 0 \<Longrightarrow> length ws \<le> n \<and> distinct ws"
  "enumerate_concat rs n out = Some ws \<Longrightarrow> n > 0 \<Longrightarrow> length out \<le> n \<Longrightarrow> length ws \<le> n"
  "enumerate_alt rs n out = Some ws \<Longrightarrow> n > 0 \<Longrightarrow> length out \<le> n \<Longrightarrow> length ws \<le> n"
proof (induction r n and rs n out and rs n out arbitrary: ws and ws and ws
    rule: enumerate_re_enumerate_concat_enumerate_alt.induct)
  case (6 rs n)
  then show ?case using length_unique_sorted by (fastforce intro: order_trans)
next
  case (7 rs n)
  then show ?case using length_unique_sorted by (fastforce intro: order_trans)
next
  case (8 g r n)
  then show ?case
    using length_unique_sorted [of "the (enumerate_re r n) @ [[]]"] by (auto split: option.splits if_splits)
next
  case (11 r rs n out)
  then show ?case by (auto simp: within_limit_Some split: option.splits)
next
  case (13 r rs n out)
  then show ?case by (auto simp: within_limit_Some split: option.splits)
qed simp_all

lemma full_matched: "full r v \<Longrightarrow> \<exists>j \<in> set (ends r v 0). matched v 0 j = v"
  unfolding full_iff_hd by (auto simp: matched_def)

text \<open>An expression with a single exact host accepts no other host.\<close>

lemma exact_host_is_the_only_host:
  assumes "exact_host rx ip pattern = Some host" and "rx pattern = Some r" and "case_sensitive r" and "full r v"
  shows "normalize_hostname ip v = Inr host"
proof -
  obtain w where w: "enumerate_re r 2 = Some [w]" and host: "normalize_hostname ip w = Inr host"
    using assms(1,2) by (auto simp: exact_host_def finite_literals_def split: option.splits list.splits sum.splits)
  obtain j where "j \<in> set (ends r v 0)" and j: "matched v 0 j = v" using full_matched [OF assms(4)] by blast
  with enumerate_covers(1) [OF w assms(3)] have "v = w" by force
  with host show ?thesis by simp
qed

subsection \<open>Facts on the plan\<close>

text \<open>A seed of the plan: only authorised endpoints, at least one, on http or https and a port number.\<close>

definition good_seed :: "(string \<Rightarrow> bool) \<Rightarrow> normalized_rule list \<Rightarrow> rx_parser \<Rightarrow> ip_parser \<Rightarrow> active_seed \<Rightarrow> bool" where
  "good_seed authorised rules rx ip s \<longleftrightarrow>
     sd_endpoints s \<noteq> [] \<and>
     (\<forall>e \<in> set (sd_endpoints s).
        authorised (ep_url e) \<and> ep_protocol e \<in> {''http'', ''https''} \<and> 1 \<le> ep_port e \<and> ep_port e \<le> 65535 \<and>
        (\<exists>path. initial_path rx (sd_path_pattern s) = Some path \<and>
           ep_url e = endpoint_url ip (ep_protocol e) (sd_host s) (ep_port e) path)) \<and>
     sd_source_rule_ids s \<noteq> [] \<and>
     (\<forall>i \<in> set (sd_source_rule_ids s).
        \<exists>r \<in> set rules. nr_id r = i \<and> nr_file r = sd_path_pattern s \<and> exact_host rx ip (nr_host r) = Some (sd_host s))"

text \<open>A discovery root: derived from a wildcard rule, or asked for by the operator with a reason.\<close>

definition good_root ::
  "normalized_rule list \<Rightarrow> manual_root list \<Rightarrow> rx_parser \<Rightarrow> ip_parser \<Rightarrow> discovery_root \<Rightarrow> bool" where
  "good_root rules manual rx ip d \<longleftrightarrow>
     (dn_source d = ''derived'' \<and> (\<exists>r \<in> set rules. narrow_wildcard_base rx ip (nr_host r) = Some (dn_domain d))) \<or>
     (dn_source d = ''manual'' \<and> dn_reason d \<noteq> [] \<and>
        (\<exists>m \<in> set manual. normalize_hostname ip (mr_domain m) = Inr (dn_domain d)))"

lemma ports_of_range:
  "ports_of vs acc = Some ps \<Longrightarrow> \<forall>p \<in> set acc. 1 \<le> p \<and> p \<le> 65535 \<Longrightarrow> p \<in> set ps \<Longrightarrow> 1 \<le> p \<and> p \<le> 65535"
proof (induction vs arbitrary: acc)
  case (Cons v vs)
  then obtain q where "atoi v = Some q" and q: "1 \<le> q" "q \<le> 65535"
    and rest: "ports_of vs (append_unique acc q) = Some ps"
    by (auto split: option.splits if_splits)
  show ?case by (rule Cons.IH [OF rest _ Cons.prems(3)]) (use Cons.prems(2) q in auto)
qed simp

lemma finite_ports_range:
  assumes "finite_ports rx pattern = Some ps" and "p \<in> set ps"
  shows "1 \<le> p \<and> p \<le> 65535"
proof -
  obtain vs qs where "ports_of vs [] = Some qs" and "ps = sort qs"
    using assms(1) by (auto simp: finite_ports_def split: option.splits if_splits)
  then show ?thesis using assms(2) ports_of_range [of vs "[]" qs p] by simp
qed

lemma finite_protocols_range:
  assumes "finite_protocols rx pattern = Some vs" and "v \<in> set vs"
  shows "v \<in> {''http'', ''https''}"
proof -
  obtain ws where "list_all (\<lambda>v. v = ''http'' \<or> v = ''https'') ws" and "vs = sort ws"
    using assms(1) unfolding finite_protocols_def by (cases "finite_literals rx pattern 8") (simp_all split: if_splits)
  then show ?thesis using assms(2) by (simp add: list_all_iff)
qed

lemma append_unique_endpoint_set: "set (append_unique_endpoint es e) \<subseteq> insert e (set es)"
  by (auto simp: append_unique_endpoint_def)

lemma append_unique_endpoint_Nil [simp]: "append_unique_endpoint es e \<noteq> []"
  by (auto simp: append_unique_endpoint_def)

lemma append_unique_Nil [simp]: "append_unique xs x \<noteq> []"
  by (auto simp: append_unique_def)

lemma update_entries: "(k, v) \<in> set (AList.update key x m) \<Longrightarrow> (k = key \<and> v = x) \<or> (k, v) \<in> set m"
  by (induction m) (auto split: if_splits)

lemma unique_sorted_distinct: "distinct xs \<Longrightarrow> unique_sorted xs = sort xs"
  unfolding unique_sorted_def by (rule sort_same_set) simp_all

definition planning_ok ::
  "(string \<Rightarrow> bool) \<Rightarrow> normalized_rule list \<Rightarrow> manual_root list \<Rightarrow> rx_parser \<Rightarrow> ip_parser \<Rightarrow> planning \<Rightarrow> bool" where
  "planning_ok authorised rules manual rx ip a \<longleftrightarrow>
     (\<forall>(k, s) \<in> set (pl_seeds a). good_seed authorised rules rx ip s \<and>
        k = sd_host s @ [CHR 0x00] @ sd_path_pattern s \<and> CHR 0x00 \<notin> set (sd_host s)) \<and>
     (\<forall>(k, d) \<in> set (pl_roots a). good_root rules manual rx ip d)"

lemma nul_split:
  assumes "a @ [CHR 0x00] @ b = c @ [CHR 0x00] @ d" and "CHR 0x00 \<notin> set a" and "CHR 0x00 \<notin> set c"
  shows "a = c \<and> b = d"
  using assms by (auto simp: append_eq_append_conv2 append_eq_Cons_conv Cons_eq_append_conv)

lemma host_char_not_nul: "host_char c \<Longrightarrow> c \<noteq> CHR 0x00"
  by (auto simp: host_char_def less_eq_char_def)

lemma set_join_split: "set s \<subseteq> insert sep (\<Union>w \<in> set (split_on sep s). set w)"
proof (induction sep s rule: split_on.induct)
  case (2 sep c cs)
  then show ?case by (cases "split_on sep cs") auto
qed simp

lemma normalize_hostname_no_nul:
  assumes ip: "\<And>s a. ip s = Some a \<Longrightarrow> CHR 0x00 \<notin> set a" and "normalize_hostname ip raw = Inr host"
  shows "CHR 0x00 \<notin> set host"
proof -
  consider (ip) s where "ip s = Some host" | (dns) "list_all valid_label (split_on (CHR ''.'') host)"
    using assms(2) by (auto simp: normalize_hostname_def Let_def split: option.splits if_splits)
  then show ?thesis
  proof cases
    case dns
    then have "CHR 0x00 \<notin> set w" if "w \<in> set (split_on (CHR ''.'') host)" for w
      using that host_char_not_nul by (fastforce simp: list_all_iff valid_label_def)
    moreover have "(CHR 0x00 :: char) \<noteq> CHR ''.''" by simp
    ultimately show ?thesis using set_join_split [of host "CHR ''.''"] by blast
  qed (use ip in auto)
qed

lemma exact_host_no_nul:
  assumes "\<And>s a. ip s = Some a \<Longrightarrow> CHR 0x00 \<notin> set a" and "exact_host rx ip pattern = Some host"
  shows "CHR 0x00 \<notin> set host"
proof -
  obtain v where "normalize_hostname ip v = Inr host"
    using assms(2) by (auto simp: exact_host_def split: option.splits list.splits sum.splits)
  with assms(1) show ?thesis by (rule normalize_hostname_no_nul)
qed

lemma planning_ok_cong:
  "pl_seeds a = pl_seeds b \<Longrightarrow> pl_roots a = pl_roots b \<Longrightarrow>
     planning_ok authorised rules manual rx ip a = planning_ok authorised rules manual rx ip b"
  by (simp add: planning_ok_def)

lemma add_warning_same [simp]:
  "pl_seeds (add_warning c m i a) = pl_seeds a" "pl_roots (add_warning c m i a) = pl_roots a"
  by (simp_all add: add_warning_def)

lemma plan_ranges_same [simp]:
  "pl_seeds (plan_ranges rx r a) = pl_seeds a" "pl_roots (plan_ranges rx r a) = pl_roots a"
  by (simp_all add: plan_ranges_def Let_def)

text \<open>One more endpoint under the key of its host and path expression.\<close>

lemma add_endpoint_ok:
  assumes ok: "\<forall>(k, s) \<in> set seeds. good_seed authorised rules rx ip s \<and>
        k = sd_host s @ [CHR 0x00] @ sd_path_pattern s \<and> CHR 0x00 \<notin> set (sd_host s)"
    and r: "r \<in> set rules" "exact_host rx ip (nr_host r) = Some host" and host: "CHR 0x00 \<notin> set host"
    and e: "authorised (ep_url e)" "ep_protocol e \<in> {''http'', ''https''}" "1 \<le> ep_port e" "ep_port e \<le> 65535"
      "initial_path rx (nr_file r) = Some path" "ep_url e = endpoint_url ip (ep_protocol e) host (ep_port e) path"
  shows "\<forall>(k, s) \<in> set (add_endpoint host r e seeds). good_seed authorised rules rx ip s \<and>
        k = sd_host s @ [CHR 0x00] @ sd_path_pattern s \<and> CHR 0x00 \<notin> set (sd_host s)"
proof -
  define key where "key = host @ [CHR 0x00] @ nr_file r"
  define old where "old = lookup_or zero_seed seeds key"
  define new where "new = \<lparr>sd_host = host, sd_endpoints = append_unique_endpoint (sd_endpoints old) e,
      sd_path_pattern = nr_file r, sd_source_rule_ids = append_unique (sd_source_rule_ids old) (nr_id r)\<rparr>"
  have old: "old = zero_seed \<or> good_seed authorised rules rx ip old \<and> sd_host old = host \<and> sd_path_pattern old = nr_file r"
  proof (cases "map_of seeds key")
    case None
    then show ?thesis by (simp add: old_def lookup_or_def)
  next
    case (Some s)
    then have "(key, s) \<in> set seeds" by (rule map_of_SomeD)
    then have "good_seed authorised rules rx ip s" "key = sd_host s @ [CHR 0x00] @ sd_path_pattern s"
      "CHR 0x00 \<notin> set (sd_host s)" using ok by auto
    then show ?thesis using Some host nul_split [of "sd_host s" "sd_path_pattern s" host "nr_file r"]
      by (simp add: old_def lookup_or_def key_def)
  qed
  have "good_seed authorised rules rx ip new"
  proof -
    have "\<forall>x \<in> set (sd_endpoints new). x = e \<or> x \<in> set (sd_endpoints old)"
      using append_unique_endpoint_set [of "sd_endpoints old" e] by (auto simp: new_def)
    moreover have "\<forall>i \<in> set (sd_source_rule_ids new). i = nr_id r \<or> i \<in> set (sd_source_rule_ids old)"
      by (auto simp: new_def)
    ultimately show ?thesis
      using old e r unfolding good_seed_def by (auto simp: new_def zero_seed_def)
  qed
  then have "\<forall>(k, s) \<in> set (AList.update key new seeds). good_seed authorised rules rx ip s \<and>
        k = sd_host s @ [CHR 0x00] @ sd_path_pattern s \<and> CHR 0x00 \<notin> set (sd_host s)"
    using ok host update_entries [of _ _ key new seeds] by (fastforce simp: key_def new_def)
  then show ?thesis by (simp add: add_endpoint_def Let_def key_def old_def new_def)
qed

lemma candidate_endpoint:
  assumes "e \<in> set (candidate_endpoints ip protocols host ports path)"
  shows "ep_protocol e \<in> set protocols \<and> ep_port e \<in> set ports \<and>
    ep_url e = endpoint_url ip (ep_protocol e) host (ep_port e) path"
  using assms by (auto simp: candidate_endpoints_def)

lemma add_seeds_ok:
  assumes ok: "planning_ok authorised rules manual rx ip a"
    and r: "r \<in> set rules" "exact_host rx ip (nr_host r) = Some host" "initial_path rx (nr_file r) = Some path"
    and ranges: "finite_protocols rx (nr_protocol r) = Some protocols" "finite_ports rx (nr_port r) = Some ports"
    and host: "CHR 0x00 \<notin> set host"
  shows "planning_ok authorised rules manual rx ip (add_seeds authorised ip r protocols host ports path a)"
proof -
  let ?inv = "\<lambda>seeds. \<forall>(k, s) \<in> set seeds. good_seed authorised rules rx ip s \<and>
        k = sd_host s @ [CHR 0x00] @ sd_path_pattern s \<and> CHR 0x00 \<notin> set (sd_host s)"
  have folded: "?inv (fold (\<lambda>e seeds. if authorised (ep_url e) then add_endpoint host r e seeds else seeds) es seeds)"
    if "set es \<subseteq> set (candidate_endpoints ip protocols host ports path)" and "?inv seeds" for es seeds
    using that
  proof (induction es arbitrary: seeds)
    case (Cons e es)
    have e: "ep_protocol e \<in> set protocols" "ep_port e \<in> set ports"
      "ep_url e = endpoint_url ip (ep_protocol e) host (ep_port e) path"
      using candidate_endpoint [of e] Cons.prems(1) by auto
    have "?inv (if authorised (ep_url e) then add_endpoint host r e seeds else seeds)"
    proof (cases "authorised (ep_url e)")
      case True
      note range = finite_protocols_range [OF ranges(1) e(1)] finite_ports_range [OF ranges(2) e(2)]
      have "?inv (add_endpoint host r e seeds)"
        by (rule add_endpoint_ok [OF Cons.prems(2) r(1,2) host True _ _ _ r(3) e(3)]) (use range in auto)
      then show ?thesis using True by simp
    qed (use Cons.prems(2) in simp)
    with Cons show ?case by simp
  qed simp
  have "?inv (pl_seeds a)" using ok unfolding planning_ok_def by (rule conjunct1)
  from folded [OF subset_refl this] ok show ?thesis by (simp add: planning_ok_def add_seeds_def)
qed

lemma add_root_ok:
  assumes ok: "planning_ok authorised rules manual rx ip a"
    and root: "\<And>d. dn_domain d = domain \<Longrightarrow> dn_source d = source \<Longrightarrow> (source = ''manual'' \<Longrightarrow> dn_reason d = reason) \<Longrightarrow>
        good_root rules manual rx ip d"
  shows "planning_ok authorised rules manual rx ip (add_root domain source reason i a)"
proof -
  define new where "new = (lookup_or zero_root (pl_roots a) domain)\<lparr>dn_domain := domain, dn_source := source,
      dn_reason := (if source = ''manual'' then reason else dn_reason (lookup_or zero_root (pl_roots a) domain)),
      dn_source_rule_ids := append_unique (dn_source_rule_ids (lookup_or zero_root (pl_roots a) domain)) i\<rparr>"
  have "good_root rules manual rx ip new" by (rule root) (simp_all add: new_def)
  then have "\<forall>(k, d) \<in> set (AList.update domain new (pl_roots a)). good_root rules manual rx ip d"
    using ok update_entries [of _ _ domain new "pl_roots a"] by (fastforce simp: planning_ok_def)
  then show ?thesis using ok by (simp add: planning_ok_def add_root_def Let_def new_def)
qed

lemma plan_rule_ok:
  assumes ip: "\<And>s a. ip s = Some a \<Longrightarrow> CHR 0x00 \<notin> set a"
    and ok: "planning_ok authorised rules manual rx ip a" and r: "r \<in> set rules"
  shows "planning_ok authorised rules manual rx ip (plan_rule rx ip authorised r a)"
proof -
  let ?a = "plan_ranges rx r a"
  have ranges: "planning_ok authorised rules manual rx ip ?a" using ok planning_ok_cong [of ?a a] by simp
  have warning: "planning_ok authorised rules manual rx ip (add_warning c m i ?a)" for c m i
    using ranges planning_ok_cong [of "add_warning c m i ?a" ?a] by simp
  show ?thesis
  proof (cases "exact_host rx ip (nr_host r)")
    case (Some host)
    have "CHR 0x00 \<notin> set host" using ip Some by (rule exact_host_no_nul)
    then show ?thesis
      using Some warning ranges add_seeds_ok [OF ranges r Some]
      by (auto simp: plan_rule_def Let_def slice_of_def split: option.splits)
  next
    case None
    have "planning_ok authorised rules manual rx ip (add_wildcard r base ps qs ?a)"
      if base: "narrow_wildcard_base rx ip (nr_host r) = Some base" for base ps qs
      unfolding add_wildcard_def
    proof (rule add_root_ok)
      let ?w = "\<lparr>wc_host_pattern = nr_host r, wc_base_domain = base, wc_protocols = ps, wc_ports = qs,
          wc_path_pattern = nr_file r, wc_source_rule_id = nr_id r\<rparr>"
      show "planning_ok authorised rules manual rx ip (?a\<lparr>pl_wildcards := pl_wildcards ?a @ [?w]\<rparr>)"
        using ranges by (simp add: planning_ok_def)
    qed (use base r in \<open>auto simp: good_root_def\<close>)
    then show ?thesis using None warning by (auto simp: plan_rule_def Let_def split: option.splits)
  qed
qed

lemma plan_rules_ok:
  assumes ip: "\<And>s a. ip s = Some a \<Longrightarrow> CHR 0x00 \<notin> set a"
  shows "planning_ok authorised rules manual rx ip a \<Longrightarrow> set rs \<subseteq> set rules \<Longrightarrow>
    planning_ok authorised rules manual rx ip (fold (plan_rule rx ip authorised) rs a)"
proof (induction rs arbitrary: a)
  case (Cons r rs)
  then have "planning_ok authorised rules manual rx ip (plan_rule rx ip authorised r a)"
    by (intro plan_rule_ok ip) simp_all
  with Cons show ?case by simp
qed simp

lemma add_manual_roots_ok:
  "add_manual_roots sha ip ms a = Inr b \<Longrightarrow> set ms \<subseteq> set manual \<Longrightarrow>
     planning_ok authorised rules manual rx ip a \<Longrightarrow> planning_ok authorised rules manual rx ip b"
proof (induction ms arbitrary: a)
  case (Cons m ms)
  obtain domain where domain: "normalize_hostname ip (mr_domain m) = Inr domain"
    and reason: "trim_space (mr_reason m) \<noteq> []"
    and rest: "add_manual_roots sha ip ms (add_root domain ''manual'' (trim_space (mr_reason m))
        (''manual-'' @ short_digest sha (domain @ [CHR 0x00] @ trim_space (mr_reason m))) a) = Inr b"
    using Cons.prems(1) by (auto simp: Let_def split: sum.splits if_splits)
  show ?case
  proof (rule Cons.IH [OF rest])
    show "planning_ok authorised rules manual rx ip (add_root domain ''manual'' (trim_space (mr_reason m))
        (''manual-'' @ short_digest sha (domain @ [CHR 0x00] @ trim_space (mr_reason m))) a)"
      by (rule add_root_ok [OF Cons.prems(3)])
        (use domain reason Cons.prems(2) in \<open>auto simp: good_root_def\<close>)
  qed (use Cons.prems(2) in simp)
qed simp

text \<open>
  C12: Every initial URL of a target plan is allowed by the scope it was planned from, every seed
  comes from an include rule with exactly that host and path, and every discovery root is the base
  of a wildcard include rule or was given by hand with a reason.
\<close>

theorem planned_targets_are_authorised:
  assumes ip: "\<And>s a. ip s = Some a \<Longrightarrow> CHR 0x00 \<notin> set a"
    and plan: "plan_targets rx ip parse sha sc manual = Inr p"
  shows "(\<forall>u \<in> set (initial_urls p). allows parse sc u) \<and>
    (\<forall>s \<in> set (tp_seeds p). good_seed (allows parse sc) (map c_rule (sc_include sc)) rx ip s) \<and>
    (\<forall>d \<in> set (tp_discovery_roots p). good_root (map c_rule (sc_include sc)) manual rx ip d)"
proof -
  let ?rules = "map c_rule (sc_include sc)"
  let ?a0 = "fold (plan_rule rx ip (allows parse sc)) ?rules no_planning"
  have "planning_ok (allows parse sc) ?rules manual rx ip ?a0"
    by (rule plan_rules_ok [OF ip]) (simp_all add: planning_ok_def no_planning_def)
  moreover obtain a where a: "add_manual_roots sha ip manual ?a0 = Inr a"
    and p: "p = (sort_plan sc a)\<lparr>tp_digest := plan_digest sha (sort_plan sc a)\<rparr>"
    using plan by (auto simp: plan_targets_def bind_res_Inr Let_def)
  ultimately have ok: "planning_ok (allows parse sc) ?rules manual rx ip a"
    by (intro add_manual_roots_ok [OF a subset_refl])
  have finished: "good_seed (allows parse sc) ?rules rx ip (finish_seed s)"
    if "good_seed (allows parse sc) ?rules rx ip s" for s
    using that by (simp add: good_seed_def finish_seed_def)
  have seeds: "\<forall>s \<in> set (tp_seeds p). good_seed (allows parse sc) ?rules rx ip s"
    using ok finished by (auto simp: p sort_plan_def planning_ok_def)
  moreover have "\<forall>d \<in> set (tp_discovery_roots p). good_root ?rules manual rx ip d"
  proof -
    have "good_root ?rules manual rx ip (finish_root d)" if "good_root ?rules manual rx ip d" for d
      using that by (simp add: good_root_def finish_root_def)
    then show ?thesis using ok by (auto simp: p sort_plan_def planning_ok_def)
  qed
  moreover have "\<forall>u \<in> set (initial_urls p). allows parse sc u"
    using seeds by (auto simp: initial_urls_def good_seed_def)
  ultimately show ?thesis by blast
qed

subsection \<open>The filters as clients of a scope\<close>

text \<open>What the filters rely on of a \<^verbatim>\<open>DetailedScope\<close>: an allowed target matched an include rule.\<close>

locale detailed_scope =
  fixes judge :: "string \<Rightarrow> evaluation"
  assumes allowed_included: "ev_allowed (judge u) \<Longrightarrow> ev_includes (judge u) \<noteq> []"
    and allowed_not_excluded: "ev_allowed (judge u) \<Longrightarrow> ev_reason (judge u) \<noteq> ReasonExcluded"
begin

definition good_decision :: "filter_decision \<Rightarrow> bool" where
  "good_decision d \<longleftrightarrow>
     (fd_accepted d \<longrightarrow> fd_source_rule_ids d \<noteq> [] \<and> fd_reason d \<noteq> ReasonExcluded) \<and>
     (\<forall>u \<in> set (fd_authorized_urls d). fd_accepted d \<and> ev_allowed (judge u))"

definition filtering_inv :: "filtering \<Rightarrow> bool" where
  "filtering_inv g \<longleftrightarrow>
     fg_filtered g = List.filter (\<lambda>d. \<not> fd_accepted d) (fg_decisions g) \<and>
     fg_authorized g = map fd_target (List.filter fd_accepted (fg_decisions g)) \<and>
     (\<forall>t \<in> set (fg_authorized g). t \<in> set (fg_seen g)) \<and> distinct (fg_authorized g) \<and>
     (\<forall>u \<in> set (fg_urls g). ev_allowed (judge u)) \<and> (\<forall>d \<in> set (fg_decisions g). good_decision d)"

lemma add_rejected_inv: "filtering_inv g \<Longrightarrow> filtering_inv (add_rejected (rejected t why) g)"
  by (auto simp: filtering_inv_def add_rejected_def rejected_def good_decision_def)

lemma add_decision_inv:
  assumes "filtering_inv g" and "fd_target d \<notin> set (fg_seen g)" and "good_decision d"
    and "fd_accepted d \<Longrightarrow> \<forall>u \<in> set urls. ev_allowed (judge u)"
  shows "filtering_inv (add_decision d urls g)"
  using assms by (auto simp: filtering_inv_def add_decision_def add_rejected_def Let_def)

lemma authorize_host_good: "good_decision (authorize_host rx ip judge rules host)"
proof -
  have "unique_sorted (concat (map (\<lambda>raw. ev_includes (judge raw)) us)) \<noteq> []"
    if "us \<noteq> []" "\<forall>u \<in> set us. ev_allowed (judge u)" for us
    using that allowed_included [of "hd us"] by (cases us) (auto simp: set_empty [symmetric] simp del: set_empty)
  then show ?thesis by (auto simp: authorize_host_def good_decision_def rejected_def Let_def)
qed

lemma authorize_host_target [simp]: "fd_target (authorize_host rx ip judge rules host) = host"
  by (simp add: authorize_host_def rejected_def Let_def)

lemma filter_host_inv: "filtering_inv g \<Longrightarrow> filtering_inv (filter_host rx ip judge rules raw g)"
  using authorize_host_good
  by (auto simp: filter_host_def Let_def good_decision_def intro!: add_rejected_inv add_decision_inv split: sum.splits)

lemma filter_url_inv: "filtering_inv g \<Longrightarrow> filtering_inv (filter_url parse judge raw g)"
  using allowed_included allowed_not_excluded
  by (auto simp: filter_url_def Let_def good_decision_def intro!: add_rejected_inv add_decision_inv split: option.splits)

lemma fold_inv: "(\<And>x g. filtering_inv g \<Longrightarrow> filtering_inv (f x g)) \<Longrightarrow> filtering_inv g \<Longrightarrow> filtering_inv (fold f xs g)"
  by (induction xs arbitrary: g) simp_all

lemma finish_filter_spec:
  assumes "filtering_inv g"
  shows "(\<forall>u \<in> set (fr_authorized_urls (finish_filter g)). ev_allowed (judge u)) \<and>
    fr_filtered (finish_filter g) = List.filter (\<lambda>d. \<not> fd_accepted d) (fr_decisions (finish_filter g)) \<and>
    fr_authorized (finish_filter g) = sort (map fd_target (List.filter fd_accepted (fr_decisions (finish_filter g)))) \<and>
    fr_accepted_count (finish_filter g) + fr_filtered_count (finish_filter g) =
      length (fr_decisions (finish_filter g)) \<and>
    (\<forall>d \<in> set (fr_decisions (finish_filter g)). good_decision d)"
proof -
  have "unique_sorted (fg_authorized g) = sort (fg_authorized g)"
    using assms unfolding filtering_inv_def by (intro unique_sorted_distinct) blast
  then show ?thesis
    using assms sum_length_filter_compl [of fd_accepted "fg_decisions g"]
    by (simp add: finish_filter_def filtering_inv_def)
qed

lemma no_filtering_inv: "filtering_inv no_filtering"
  by (simp add: filtering_inv_def no_filtering_def)

lemma filters_inv:
  "filtering_inv (fold (filter_host rx ip judge rules) hosts no_filtering)"
  "filtering_inv (fold (filter_url parse judge) targets no_filtering)"
  by (rule fold_inv [OF filter_host_inv no_filtering_inv], assumption,
      rule fold_inv [OF filter_url_inv no_filtering_inv], assumption)

end

interpretation scope_filter: detailed_scope "Scope.evaluate parse sc" for parse sc
  by unfold_locales (auto simp: evaluate_def Let_def split: option.splits if_splits)

text \<open>
  Filtering discovered hosts or URLs authorises only URLs the scope allows, each with the
  include rules that matched it; a decision that carries an authorised URL is an accepted one, and
  every decision is counted once, as accepted or as filtered.
\<close>

theorem filters_authorise_only_the_scope:
  assumes r: "r = filter_discovered_hosts rx ip (evaluate parse sc) rules hosts \<or>
    r = filter_urls parse (evaluate parse sc) targets"
  shows "(\<forall>u \<in> set (fr_authorized_urls r). allows parse sc u) \<and>
    (\<forall>d \<in> set (fr_decisions r). \<forall>u \<in> set (fd_authorized_urls d). fd_accepted d \<and> allows parse sc u) \<and>
    (\<forall>d \<in> set (fr_decisions r). fd_accepted d \<longrightarrow> fd_source_rule_ids d \<noteq> []) \<and>
    fr_authorized r = sort (map fd_target (List.filter fd_accepted (fr_decisions r))) \<and>
    fr_filtered r = List.filter (\<lambda>d. \<not> fd_accepted d) (fr_decisions r) \<and>
    fr_accepted_count r + fr_filtered_count r = length (fr_decisions r)"
proof -
  obtain g where "scope_filter.filtering_inv parse sc g" and "r = finish_filter g"
    using r scope_filter.filters_inv unfolding filter_discovered_hosts_def filter_urls_def by blast
  with scope_filter.finish_filter_spec [of parse sc g] show ?thesis
    by (auto simp: allows_def scope_filter.good_decision_def)
qed

subsection \<open>Examples\<close>

definition sample_rx :: rx_parser where
  "sample_rx s =
     (if s = ''https?'' then Some (ReConcat [ReLiteral False ''http'', ReQuest True (ReLiteral False ''s'')])
      else if s = ''/.*'' then Some (ReConcat [ReLiteral False ''/'', ReStar True ReAnyNotNL, ReEndText])
      else Some (ReLiteral False s))"

definition sample_rule :: normalized_rule where
  "sample_rule =
     \<lparr>nr_id = ''r1'', nr_digest = ''00'', nr_kind = IncludeRule, nr_protocol = ''https?'',
      nr_host = ''example.com'', nr_port = ''443'', nr_file = ''/.*'', nr_enabled = True\<rparr>"

definition sample_scope :: scope where
  "sample_scope =
     \<lparr>sc_include = [\<lparr>c_rule = sample_rule, c_protocol = ReLiteral False ''https'',
          c_host = ReLiteral False ''example.com'', c_port = ReLiteral False ''443'',
          c_file = ReLiteral False ''/''\<rparr>],
      sc_exclude = [], sc_digest = ''d''\<rparr>"

definition sample_url :: url_parser where
  "sample_url s =
     (if s = ''https://example.com/''
      then Some \<lparr>url_scheme = ''https'', url_hostname = ''example.com'', url_port = [],
             url_escaped_path = ''/'', url_path = ''/'', url_string = ''https://example.com/'',
             url_string_no_fragment = ''https://example.com/''\<rparr>
      else None)"

lemma sample_allows: "allows sample_url sample_scope ''https://example.com/''"
  by code_simp

lemma sample_plan:
  "map_option initial_urls
     (case plan_targets sample_rx (\<lambda>s. None) sample_url (\<lambda>s. ''00'') sample_scope [] of
        Inl e \<Rightarrow> None | Inr p \<Rightarrow> Some p) = Some [''https://example.com/'']"
  by code_simp

lemma planned_targets_are_authorised_witness:
  "\<exists>p. plan_targets sample_rx (\<lambda>s. None) sample_url (\<lambda>s. ''00'') sample_scope [] = Inr p \<and>
     initial_urls p = [''https://example.com/''] \<and>
     (\<forall>u \<in> set (initial_urls p). allows sample_url sample_scope u)"
proof -
  obtain p where p: "plan_targets sample_rx (\<lambda>s. None) sample_url (\<lambda>s. ''00'') sample_scope [] = Inr p"
    and urls: "initial_urls p = [''https://example.com/'']"
    using sample_plan by (auto split: sum.splits)
  with planned_targets_are_authorised [OF _ p] show ?thesis by auto
qed

lemma filters_authorise_only_the_scope_witness:
  "fr_authorized_urls (filter_urls sample_url (evaluate sample_url sample_scope)
       [''https://example.com/'', ''https://other.org/'']) = [''https://example.com/''] \<and>
   fr_filtered_count (filter_urls sample_url (evaluate sample_url sample_scope)
       [''https://example.com/'', ''https://other.org/'']) = 1 \<and>
   list_all (allows sample_url sample_scope) (fr_authorized_urls
     (filter_urls sample_url (evaluate sample_url sample_scope) [''https://example.com/'', ''https://other.org/'']))"
proof -
  let ?r = "filter_urls sample_url (evaluate sample_url sample_scope) [''https://example.com/'', ''https://other.org/'']"
  have "fr_authorized_urls ?r = [''https://example.com/''] \<and> fr_filtered_count ?r = 1" by code_simp
  moreover have "list_all (allows sample_url sample_scope) (fr_authorized_urls ?r)"
    using filters_authorise_only_the_scope [of ?r sample_rx "\<lambda>s. None" sample_url sample_scope "[]" "[]"
        "[''https://example.com/'', ''https://other.org/'']"] by (simp add: list_all_iff)
  ultimately show ?thesis by blast
qed

text \<open>
  C32: When the literals of an expression are enumerated within a limit, there are at most that
  many, without repetition, and every text that the expression matches in full is among them, for
  expressions without case folding.
\<close>

theorem enumeration_is_bounded_and_complete:
  assumes ws: "finite_literals rx pattern n = Some ws" and n: "n > 0"
    and r: "rx pattern = Some r" "case_sensitive r"
  shows "length ws \<le> n \<and> distinct ws \<and> (\<forall>v. full r v \<longrightarrow> v \<in> set ws)"
proof -
  have ws: "enumerate_re r n = Some ws" using ws r by (simp add: finite_literals_def)
  have "v \<in> set ws" if full: "full r v" for v
  proof -
    obtain j where "j \<in> set (ends r v 0)" and "matched v 0 j = v" using full_matched [OF full] by blast
    with enumerate_covers(1) [OF ws r(2)] show ?thesis by metis
  qed
  with enumerate_re_size(1) [OF ws n] show ?thesis by blast
qed

lemma enumeration_is_bounded_and_complete_witness:
  "\<exists>r ws. sample_rx ''https?'' = Some r \<and> finite_literals sample_rx ''https?'' 8 = Some ws \<and>
     ws = [''http'', ''https''] \<and> full r ''https'' \<and> (\<forall>v. full r v \<longrightarrow> v \<in> set ws)"
proof -
  let ?r = "ReConcat [ReLiteral False ''http'', ReQuest True (ReLiteral False ''s'')]"
  have r: "sample_rx ''https?'' = Some ?r" by (simp add: sample_rx_def)
  have ws: "finite_literals sample_rx ''https?'' 8 = Some [''http'', ''https'']" by code_simp
  have "full ?r ''https''" by code_simp
  with r ws enumeration_is_bounded_and_complete [OF ws _ r] show ?thesis by auto
qed

text \<open>An anchor inside an expression is enumerated as the empty text: \<open>a^b\<close> gives \<open>ab\<close>, which it never matches.\<close>

lemma inner_anchor_enumerated:
  "enumerate_re (ReConcat [ReLiteral False ''a'', ReBeginText, ReLiteral False ''b'']) 2 = Some [''ab''] \<and>
   \<not> full (ReConcat [ReLiteral False ''a'', ReBeginText, ReLiteral False ''b'']) ''ab''"
  by code_simp

end
