(* ===== verification/Normalize.thy ===== *)
theory Normalize
  imports GoURL GoRegexp
begin

text \<open>
  \<^verbatim>\<open>internal/normalize/url.go\<close>: the canonical text of a URL and the key of an endpoint. Parameters:
  \<open>parse\<close> (\<^verbatim>\<open>url.Parse\<close>) and \<open>sha\<close> (hexadecimal SHA-256).
\<close>

record endpoint_key =
  ek_exact_url :: string
  ek_route_signature :: string
  ek_method :: string
  ek_content_type :: string
  ek_query_parameters :: "string list"
  ek_digest :: string

subsection \<open>Dynamic path segments\<close>

definition hex_class :: regexp where
  "hex_class = ReClass [(CHR ''0'', CHR ''9''), (CHR ''a'', CHR ''f''), (CHR ''A'', CHR ''F'')]"

definition digit_class :: regexp where
  "digit_class = ReClass [(CHR ''0'', CHR ''9'')]"

definition literal :: "string \<Rightarrow> regexp" where
  "literal w = ReLiteral False w"

definition uuid :: regexp where
  "uuid = ReConcat
     ([ReBeginText] @ replicate 8 hex_class @ [literal ''-''] @ replicate 4 hex_class @ [literal ''-'']
      @ [ReClass [(CHR ''1'', CHR ''5'')]] @ replicate 3 hex_class @ [literal ''-'']
      @ [ReClass [(CHR ''8'', CHR ''9''), (CHR ''a'', CHR ''b''), (CHR ''A'', CHR ''B'')]] @ replicate 3 hex_class
      @ [literal ''-''] @ replicate 12 hex_class @ [ReEndText])"

definition hex_id :: regexp where
  "hex_id = ReConcat ([ReBeginText] @ replicate 16 hex_class @ [ReStar True hex_class, ReEndText])"

definition object_id :: regexp where
  "object_id = ReConcat ([ReBeginText] @ replicate 24 hex_class @ [ReEndText])"

definition date_sep :: regexp where
  "date_sep = ReClass [(CHR ''-'', CHR ''-''), (CHR ''/'', CHR ''/'')]"

definition date_id :: regexp where
  "date_id = ReConcat
     ([ReBeginText] @ replicate 4 digit_class @ [date_sep] @ replicate 2 digit_class @ [date_sep]
      @ replicate 2 digit_class
      @ [ReQuest True (ReConcat
           ([literal ''T''] @ replicate 2 digit_class @ [literal '':''] @ replicate 2 digit_class
            @ [ReQuest True (ReConcat ([literal '':''] @ replicate 2 digit_class)),
               ReQuest True (literal ''Z'')])), ReEndText])"

definition match_string :: "regexp \<Rightarrow> string \<Rightarrow> bool" where
  "match_string r s = (find_string_index r s \<noteq> None)"

definition char_classes :: "string \<Rightarrow> nat" where
  "char_classes s =
     (if list_ex (\<lambda>c. CHR ''a'' \<le> c \<and> c \<le> CHR ''z'') s then 1 else 0) +
     (if list_ex (\<lambda>c. CHR ''A'' \<le> c \<and> c \<le> CHR ''Z'') s then 1 else 0) +
     (if list_ex (\<lambda>c. CHR ''0'' \<le> c \<and> c \<le> CHR ''9'') s then 1 else 0) +
     (if list_ex (\<lambda>c. c = CHR ''-'' \<or> c = CHR ''_'') s then 1 else 0)"

definition dynamic_segment :: "string \<Rightarrow> bool" where
  "dynamic_segment s0 =
     (let s = (case unescape False s0 of None \<Rightarrow> s0 | Some d \<Rightarrow> d) in
      match_string uuid s \<or> match_string object_id s \<or> match_string hex_id s \<or> match_string date_id s \<or>
      (case atoi s of None \<Rightarrow> False | Some n \<Rightarrow> n \<ge> 0) \<or>
      (length s \<ge> 16 \<and> char_classes s \<ge> 3))"

definition route :: "string \<Rightarrow> string" where
  "route p =
     (let segs = split_on (CHR ''/'') (trim (\<lambda>c. c = CHR ''/'') p) in
      if segs = [[]] then ''/''
      else ''/'' @ join_with ''/'' (map (\<lambda>s. if dynamic_segment s then ''{id}'' else s) segs))"

subsection \<open>URLs and endpoints\<close>

definition default_port :: "string \<Rightarrow> string \<Rightarrow> bool" where
  "default_port scheme port \<longleftrightarrow> (scheme = ''https'' \<and> port = ''443'') \<or> (scheme = ''http'' \<and> port = ''80'')"

definition effective_port :: "full_url \<Rightarrow> string" where
  "effective_port u = (if default_port (url_scheme u) (url_port u) then [] else url_port u)"

definition join_host_port :: "string \<Rightarrow> string \<Rightarrow> string" where
  "join_host_port host port =
     (if CHR '':'' \<in> set host then ''['' @ host @ '']:'' @ port else host @ '':'' @ port)"

text \<open>The host of an IPv6 literal on its default port is written without brackets, as the code does.\<close>

definition normalize_parts :: "full_url \<Rightarrow> string res" where
  "normalize_parts u =
     (if url_scheme u \<noteq> ''http'' \<and> url_scheme u \<noteq> ''https''
      then Inl (Err (''unsupported URL scheme '' @ quoted (url_scheme u)))
      else if url_hostname u = [] then Inl (Err ''URL has no host'')
      else
        let host = to_lower (url_hostname u);
            port = effective_port u;
            path = clean_path (''/'' @ trim_prefix (url_escaped_path u) ''/'')
        in Inr (url_text (to_lower (url_scheme u)) (url_user u)
                  (if port \<noteq> [] then join_host_port host port else host)
                  (if path = ''/.'' then ''/'' else path) (url_force_query u)
                  (encode_query (query_pairs (url_raw_query u)))))"

definition normalize_url :: "full_url_parser \<Rightarrow> string \<Rightarrow> string res" where
  "normalize_url parse raw0 =
     (let raw1 = trim_space raw0 in
      if raw1 = [] then Inl (Err ''empty URL'')
      else
        let raw = (if str_contains raw1 ''://'' then raw1 else ''https://'' @ trim_prefix raw1 ''//'')
        in case parse raw of
             None \<Rightarrow> Inl (Err ''parse'')
           | Some u \<Rightarrow> normalize_parts u)"

definition endpoint_material :: "full_url \<Rightarrow> string \<Rightarrow> string \<Rightarrow> string" where
  "endpoint_material u request_method content_type =
     join_with [CHR 0x00]
       [url_scheme u, url_host u, route (url_path u), request_method, content_type,
        join_with '','' (query_names (url_raw_query u))]"

text \<open>\<open>None\<close> as an outcome is a panic: the text of a normalised URL is parsed without looking at the error.\<close>

definition normalize_endpoint ::
  "full_url_parser \<Rightarrow> (string \<Rightarrow> string) \<Rightarrow> string \<Rightarrow> string \<Rightarrow> string \<Rightarrow> endpoint_key res option" where
  "normalize_endpoint parse sha raw method0 content0 =
     (case normalize_url parse raw of
        Inl e \<Rightarrow> Some (Inl e)
      | Inr exact \<Rightarrow>
          (case parse exact of
             None \<Rightarrow> None
           | Some u \<Rightarrow>
               let m1 = to_upper (trim_space method0);
                   request_method = (if m1 = [] then ''GET'' else m1);
                   content_type = to_lower (trim_space (hd (split_on (CHR '';'') content0)))
               in Some (Inr \<lparr>ek_exact_url = exact, ek_route_signature = route (url_path u),
                    ek_method = request_method, ek_content_type = content_type,
                    ek_query_parameters = query_names (url_raw_query u),
                    ek_digest = sha (endpoint_material u request_method content_type)\<rparr>)))"

subsection \<open>Facts\<close>

lemma encode_query_cong:
  assumes "\<And>k. List.filter (\<lambda>p. fst p = k) ps = List.filter (\<lambda>p. fst p = k) qs"
  shows "encode_query ps = encode_query qs"
proof -
  have keys: "k \<in> set (map fst xs) \<longleftrightarrow> List.filter (\<lambda>p. fst p = k) xs \<noteq> []"
    for k and xs :: "(string \<times> string) list"
    by (induction xs) auto
  have "set (map fst ps) = set (map fst qs)" by (rule set_eqI) (simp only: keys assms)
  then have "unique_sorted (map fst ps) = unique_sorted (map fst qs)" by (rule unique_sorted_same_set)
  with assms show ?thesis by (simp add: encode_query_def)
qed

text \<open>
  Two URLs that differ only in the case of the host, in writing the default port, in the
  fragment or in the order of the query parameters with different names have the same normal form.
\<close>

theorem normal_form_ignores_presentation:
  assumes "url_scheme u = url_scheme v" and "to_lower (url_hostname u) = to_lower (url_hostname v)"
    and "effective_port u = effective_port v" and "url_user u = url_user v"
    and "url_escaped_path u = url_escaped_path v" and "url_force_query u = url_force_query v"
    and "\<And>k. List.filter (\<lambda>p. fst p = k) (query_pairs (url_raw_query u)) =
      List.filter (\<lambda>p. fst p = k) (query_pairs (url_raw_query v))"
  shows "normalize_parts u = normalize_parts v"
proof -
  have "(url_hostname u = []) = (url_hostname v = [])" using assms(2) by (metis to_lower_eq_Nil)
  moreover have "encode_query (query_pairs (url_raw_query u)) = encode_query (query_pairs (url_raw_query v))"
    using assms(7) by (rule encode_query_cong)
  ultimately show ?thesis using assms(1-6) by (simp add: normalize_parts_def Let_def)
qed

text \<open>The path of a URL is escaped twice, and an IPv6 host on its default port loses its brackets.\<close>

definition sample_full_url :: "string \<Rightarrow> string \<Rightarrow> string \<Rightarrow> full_url" where
  "sample_full_url host path query =
     \<lparr>url_scheme = ''https'', url_hostname = host, url_port = [], url_escaped_path = path, url_path = path,
      url_string = [], url_string_no_fragment = [], url_user = [], url_host = host, url_raw_query = query,
      url_force_query = False\<rparr>"

lemma escaped_path_is_escaped_again:
  "normalize_parts (sample_full_url ''h.io'' ''/a%20b'' []) = Inr ''https://h.io/a%2520b''"
  by code_simp

lemma ipv6_host_loses_brackets:
  "normalize_parts (sample_full_url ''2001:db8::abcd'' ''/'' []) = Inr ''https://2001:db8::abcd/''"
  by code_simp

lemma normal_form_ignores_presentation_witness:
  "normalize_parts ((sample_full_url ''H.io'' ''/x'' ''b=2&a=1'')\<lparr>url_port := ''443''\<rparr>) =
   normalize_parts (sample_full_url ''h.io'' ''/x'' ''a=1&b=2'')"
proof (rule normal_form_ignores_presentation)
  have "query_pairs ''b=2&a=1'' = [(''b'', ''2''), (''a'', ''1'')]" by code_simp
  moreover have "query_pairs ''a=1&b=2'' = [(''a'', ''1''), (''b'', ''2'')]" by code_simp
  ultimately show "List.filter (\<lambda>p. fst p = k)
        (query_pairs (url_raw_query ((sample_full_url ''H.io'' ''/x'' ''b=2&a=1'')\<lparr>url_port := ''443''\<rparr>))) =
      List.filter (\<lambda>p. fst p = k) (query_pairs (url_raw_query (sample_full_url ''h.io'' ''/x'' ''a=1&b=2'')))" for k
    by (auto simp: sample_full_url_def)
  show "to_lower (url_hostname ((sample_full_url ''H.io'' ''/x'' ''b=2&a=1'')\<lparr>url_port := ''443''\<rparr>)) =
      to_lower (url_hostname (sample_full_url ''h.io'' ''/x'' ''a=1&b=2''))"
    by code_simp
qed (simp_all add: sample_full_url_def effective_port_def default_port_def)

end
