(* ===== verification/ProviderOutput.thy ===== *)
theory ProviderOutput
  imports GoData
begin

text \<open>
  \<^verbatim>\<open>internal/provideroutput/parser.go\<close>: one record or one warning for every line of a provider's
  output. Parameters: \<open>jp\<close> (JSON), \<open>parse\<close> (\<^verbatim>\<open>url.Parse\<close>) and \<open>ip\<close> (\<^verbatim>\<open>net.ParseIP\<close>). A nil map of
  fields is \<open>None\<close>. The conversion of a JSON number to an \<^verbatim>\<open>int\<close> truncates; what Go does with a
  number outside the 64 bits depends on the machine and is not modelled.
\<close>

datatype record_kind = HostRecord | PortRecord | UrlRecord | OtherRecord string

record prov_record =
  po_provider :: string
  po_kind :: record_kind
  po_target :: string
  po_host :: string
  po_port :: int
  po_status_code :: int
  po_technologies :: "string list"
  po_fields :: "(string \<times> json) list option"

record parse_warning =
  pg_line :: nat
  pg_reason :: string

record batch =
  bt_records :: "prov_record list"
  bt_warnings :: "parse_warning list"

type_synonym members = "(string \<times> json) list"

fun first_string :: "members \<Rightarrow> string list \<Rightarrow> string" where
  "first_string v [] = []"
| "first_string v (k # ks) = (case map_of v k of Some (JStr s) \<Rightarrow> s | _ \<Rightarrow> first_string v ks)"

definition number_to_int :: "rat \<Rightarrow> int" where
  "number_to_int r = (if r < 0 then - \<lfloor>- r\<rfloor> else \<lfloor>r\<rfloor>)"

definition atoi_or_zero :: "string \<Rightarrow> int" where
  "atoi_or_zero s = (case atoi s of None \<Rightarrow> 0 | Some n \<Rightarrow> n)"

fun first_int :: "members \<Rightarrow> string list \<Rightarrow> int" where
  "first_int v [] = 0"
| "first_int v (k # ks) =
     (case map_of v k of
        Some (JNum r) \<Rightarrow> number_to_int r
      | Some (JStr s) \<Rightarrow> atoi_or_zero s
      | _ \<Rightarrow> first_int v ks)"

definition string_slice :: "json option \<Rightarrow> string list" where
  "string_slice v =
     (case v of
        Some (JArr xs) \<Rightarrow> List.map_filter (\<lambda>x. case x of JStr s \<Rightarrow> Some s | _ \<Rightarrow> None) xs
      | _ \<Rightarrow> [])"

definition plain_or_string_field :: "json_parser \<Rightarrow> string \<Rightarrow> string list \<Rightarrow> string" where
  "plain_or_string_field jp line ks = (case parse_object jp line of Some v \<Rightarrow> first_string v ks | None \<Rightarrow> line)"

definition host_record :: "ip_parser \<Rightarrow> string \<Rightarrow> string \<Rightarrow> prov_record res" where
  "host_record ip provider raw =
     (let host = trim_suffix (to_lower (trim_space raw)) ''.'' in
      if ip host = None \<and>
         (length host = 0 \<or> contains_any host '' /:@'' \<or> list_ex (\<lambda>l. l = []) (split_on (CHR ''.'') host))
      then Inl (Err ''invalid hostname'')
      else Inr \<lparr>po_provider = provider, po_kind = HostRecord, po_target = host, po_host = host, po_port = 0,
             po_status_code = 0, po_technologies = [], po_fields = None\<rparr>)"

definition join_address :: "string \<Rightarrow> string \<Rightarrow> string" where
  "join_address host port =
     (if CHR '':'' \<in> set host then ''['' @ host @ '']:'' @ port else host @ '':'' @ port)"

definition port_observation ::
  "ip_parser \<Rightarrow> string \<Rightarrow> string \<Rightarrow> int \<Rightarrow> members option \<Rightarrow> prov_record res" where
  "port_observation ip provider host port fs =
     bind_res (host_record ip provider host) (\<lambda>h.
       if port < 1 \<or> port > 65535 then Inl (Err ''invalid port'')
       else Inr \<lparr>po_provider = provider, po_kind = PortRecord, po_target = join_address (po_host h) (itoa port),
              po_host = po_host h, po_port = port, po_status_code = 0, po_technologies = [], po_fields = fs\<rparr>)"

definition parse_naabu :: "json_parser \<Rightarrow> ip_parser \<Rightarrow> string \<Rightarrow> prov_record res" where
  "parse_naabu jp ip line =
     (case parse_object jp line of
        Some v \<Rightarrow>
          let host = first_string v [''host'', ''ip'', ''input'']; port = first_int v [''port'']
          in if host = [] \<or> port = 0 then Inl (Err ''naabu record requires host and port'')
             else port_observation ip ''naabu'' host port
                    (if jp line = Some JNull then None else Some v)
      | None \<Rightarrow>
          (case cut line (CHR '':'') of
             (host, raw_port, found) \<Rightarrow>
               if \<not> found then Inl (Err ''invalid naabu record'')
               else case atoi raw_port of
                      None \<Rightarrow> Inl (Err ''invalid naabu port'')
                    | Some port \<Rightarrow> port_observation ip ''naabu'' host port None))"

definition parse_url_value :: "url_parser \<Rightarrow> string \<Rightarrow> string \<Rightarrow> members option \<Rightarrow> prov_record res" where
  "parse_url_value parse provider raw fs =
     (case parse (trim_space raw) of
        None \<Rightarrow> Inl (Err ''invalid HTTP URL'')
      | Some u \<Rightarrow>
          if \<not> http_url u then Inl (Err ''invalid HTTP URL'')
          else Inr \<lparr>po_provider = provider, po_kind = UrlRecord, po_target = url_string_no_fragment u,
                 po_host = to_lower (url_hostname u), po_port = 0, po_status_code = 0, po_technologies = [],
                 po_fields = fs\<rparr>)"

definition object_fields :: "json_parser \<Rightarrow> string \<Rightarrow> members option" where
  "object_fields jp line = (if jp line = Some JNull then None else parse_object jp line)"

definition parse_katana :: "json_parser \<Rightarrow> url_parser \<Rightarrow> string \<Rightarrow> prov_record res" where
  "parse_katana jp parse line =
     (case parse_object jp line of
        None \<Rightarrow> parse_url_value parse ''katana'' line None
      | Some v \<Rightarrow>
          let raw0 = first_string v [''url'', ''endpoint''];
              raw = (case map_of v ''request'' of
                       Some (JObj request) \<Rightarrow>
                         if raw0 = [] then first_string request [''endpoint'', ''url''] else raw0
                     | _ \<Rightarrow> raw0)
          in parse_url_value parse ''katana'' raw (object_fields jp line))"

definition parse_url_json ::
  "json_parser \<Rightarrow> url_parser \<Rightarrow> string \<Rightarrow> string \<Rightarrow> string list \<Rightarrow> prov_record res" where
  "parse_url_json jp parse provider line ks =
     (case parse_object jp line of
        None \<Rightarrow> parse_url_value parse provider line None
      | Some v \<Rightarrow>
          let raw0 = first_string v ks;
              host = first_string v [''host'', ''input'']; scheme = first_string v [''scheme''];
              raw = (if raw0 = [] \<and> provider = ''httpx'' \<and> scheme \<noteq> [] \<and> host \<noteq> []
                     then scheme @ ''://'' @ host else raw0);
              tech = string_slice (map_of v ''tech'')
          in bind_res (parse_url_value parse provider raw (object_fields jp line)) (\<lambda>r.
               Inr (r\<lparr>po_status_code := first_int v [''status_code'', ''status-code'', ''status''],
                      po_technologies := (if tech = [] then string_slice (map_of v ''technologies'') else tech)\<rparr>)))"

definition parse_one ::
  "json_parser \<Rightarrow> url_parser \<Rightarrow> ip_parser \<Rightarrow> string \<Rightarrow> string \<Rightarrow> prov_record res" where
  "parse_one jp parse ip provider line =
     (if line = [] then Inl (Err ''empty record'')
      else if provider = ''subfinder'' \<or> provider = ''chaos''
      then host_record ip provider (plain_or_string_field jp line [''host'', ''name'', ''domain''])
      else if provider = ''dnsx''
      then host_record ip provider (plain_or_string_field jp line [''host'', ''input'', ''name''])
      else if provider = ''naabu'' then parse_naabu jp ip line
      else if provider = ''httpx'' then parse_url_json jp parse provider line [''url'', ''final-url'', ''input'']
      else if provider = ''katana'' then parse_katana jp parse line
      else if provider = ''gau'' then parse_url_json jp parse provider line [''url'']
      else if provider = ''nuclei''
      then parse_url_json jp parse provider line [''matched-at'', ''matched'', ''url'']
      else Inl (Err (''unsupported provider adapter '' @ quoted provider)))"

fun parse_lines ::
  "json_parser \<Rightarrow> url_parser \<Rightarrow> ip_parser \<Rightarrow> string \<Rightarrow> nat \<Rightarrow> string list \<Rightarrow> batch" where
  "parse_lines jp parse ip provider n [] = \<lparr>bt_records = [], bt_warnings = []\<rparr>"
| "parse_lines jp parse ip provider n (line # ls) =
     (let rest = parse_lines jp parse ip provider (Suc n) ls in
      case parse_one jp parse ip (to_lower provider) (trim_space line) of
        Inl e \<Rightarrow> rest\<lparr>bt_warnings := \<lparr>pg_line = n, pg_reason = error_text e\<rparr> # bt_warnings rest\<rparr>
      | Inr r \<Rightarrow> rest\<lparr>bt_records := r # bt_records rest\<rparr>)"

definition parse_output ::
  "json_parser \<Rightarrow> url_parser \<Rightarrow> ip_parser \<Rightarrow> string \<Rightarrow> string list \<Rightarrow> batch" where
  "parse_output jp parse ip provider ls = parse_lines jp parse ip provider 1 ls"

end
