(* ===== verification/Classifier.thy ===== *)
theory Classifier
  imports Normalize ProviderOutput
begin

text \<open>
  \<^verbatim>\<open>internal/intelligence/classifier.go\<close>: endpoints, their signals, labels and scores from the
  observations of the providers. Parameters: \<open>parse\<close> (\<^verbatim>\<open>url.Parse\<close>) and \<open>sha\<close> (hexadecimal SHA-256).
  The sets of an aggregate are lists without duplicates, which finalising sorts; the tokens of a
  URL are visited in sorted order, where Go leaves the order open, since the signals are sorted
  afterwards. Bytes outside ASCII count as letters. Confidences are rationals. \<open>None\<close> as an outcome
  is a panic.
\<close>

subsection \<open>Data\<close>

record class_input =
  ci_http :: "prov_record list"
  ci_crawl :: "prov_record list"
  ci_passive :: "prov_record list"
  ci_historical :: "prov_record list"
  ci_api_schema :: "string list"

record signal =
  sg_type :: string
  sg_value :: string
  sg_weight :: int
  sg_source :: string

record relationship =
  rl_source :: string
  rl_target :: string
  rl_kind :: string

record historical_behavior =
  hb_seen_before :: bool
  hb_status_changed :: bool
  hb_technology_changed :: bool

record classification =
  cl_endpoint :: endpoint_key
  cl_labels :: "string list"
  cl_keywords :: "string list"
  cl_signals :: "signal list"
  cl_score :: int
  cl_confidence :: rat
  cl_sources :: "string list"
  cl_technologies :: "string list"
  cl_status_codes :: "int list"
  cl_redirects :: "string list"
  cl_relationships :: "relationship list"
  cl_historical :: historical_behavior

record class_output =
  co_endpoints :: "endpoint_key list"
  co_classifications :: "classification list"
  co_interesting :: "classification list"
  co_relationships :: "relationship list"

text \<open>The classification of an aggregate holds the signals and relationships; the sets are beside it.\<close>

record aggregate =
  ag_classification :: classification
  ag_labels :: "string list"
  ag_keywords :: "string list"
  ag_sources :: "string list"
  ag_technologies :: "string list"
  ag_statuses :: "int list"
  ag_redirects :: "string list"
  ag_confidence :: rat

record details =
  de_method :: string
  de_content_type :: string
  de_redirect :: string
  de_source_url :: string
  de_status :: int
  de_technologies :: "string list"

definition interesting_keywords :: "string list" where
  "interesting_keywords =
     [''admin'', ''api'', ''swagger'', ''openapi'', ''graphql'', ''oauth'', ''debug'', ''upload'']"

definition authentication_keywords :: "string list" where
  "authentication_keywords =
     [''auth'', ''login'', ''signin'', ''oauth'', ''sso'', ''token'', ''session'']"

subsection \<open>Values nested in the fields of a record\<close>

fun nested_values :: "(string \<Rightarrow> bool) \<Rightarrow> json \<Rightarrow> json list"
  and nested_members :: "(string \<Rightarrow> bool) \<Rightarrow> (string \<times> json) list \<Rightarrow> (string \<times> json list) list"
  and nested_items :: "(string \<Rightarrow> bool) \<Rightarrow> json list \<Rightarrow> json list" where
  "nested_values w (JObj kvs) = concat (map snd (sort_key fst (nested_members w kvs)))"
| "nested_values w (JArr xs) = nested_items w xs"
| "nested_values w v = []"
| "nested_members w [] = []"
| "nested_members w ((k, v) # kvs) =
     (k, (if w (to_lower k) then [v] else []) @ nested_values w v) # nested_members w kvs"
| "nested_items w [] = []"
| "nested_items w (x # xs) = nested_values w x @ nested_items w xs"

definition values_of :: "members option \<Rightarrow> string list \<Rightarrow> json list" where
  "values_of fs ks =
     (case fs of None \<Rightarrow> [] | Some kvs \<Rightarrow> nested_values (\<lambda>k. k \<in> set (map to_lower ks)) (JObj kvs))"

definition first_nested_string :: "members option \<Rightarrow> string list \<Rightarrow> string" where
  "first_nested_string fs ks =
     (case List.map_filter (\<lambda>v. case v of JStr s \<Rightarrow> if trim_space s \<noteq> [] then Some (trim_space s) else None
                              | _ \<Rightarrow> None) (values_of fs ks) of
        [] \<Rightarrow> [] | s # _ \<Rightarrow> s)"

definition first_nested_int :: "members option \<Rightarrow> string list \<Rightarrow> int" where
  "first_nested_int fs ks =
     (case List.map_filter (\<lambda>v. case v of
             JNum r \<Rightarrow> Some (number_to_int r)
           | JStr s \<Rightarrow> if atoi_or_zero s > 0 then Some (atoi_or_zero s) else None
           | _ \<Rightarrow> None) (values_of fs ks) of
        [] \<Rightarrow> 0 | n # _ \<Rightarrow> n)"

definition first_nested_strings :: "members option \<Rightarrow> string list \<Rightarrow> string list" where
  "first_nested_strings fs ks =
     (case List.filter (\<lambda>v. case v of JArr xs \<Rightarrow> True | _ \<Rightarrow> False) (values_of fs ks) of
        [] \<Rightarrow> [] | v # _ \<Rightarrow> string_slice (Some v))"

definition nested_float :: "members option \<Rightarrow> string \<Rightarrow> rat option" where
  "nested_float fs k =
     (case List.map_filter (\<lambda>v. case v of JNum r \<Rightarrow> Some r | _ \<Rightarrow> None) (values_of fs [k]) of
        [] \<Rightarrow> None | r # _ \<Rightarrow> Some r)"

definition has_authentication_header :: "members option \<Rightarrow> bool" where
  "has_authentication_header fs =
     list_ex (\<lambda>v. case v of JStr s \<Rightarrow> s \<noteq> [] | _ \<Rightarrow> False) (values_of fs [''www-authenticate''])"

definition normalized_strings :: "string list \<Rightarrow> string list" where
  "normalized_strings items =
     unique_sorted (List.filter (\<lambda>s. s \<noteq> []) (map (\<lambda>s. to_lower (trim_space s)) items))"

subsection \<open>Aggregates\<close>

definition new_aggregate :: "endpoint_key \<Rightarrow> aggregate" where
  "new_aggregate key =
     \<lparr>ag_classification =
        \<lparr>cl_endpoint = key, cl_labels = [], cl_keywords = [], cl_signals = [], cl_score = 0, cl_confidence = 0,
         cl_sources = [], cl_technologies = [], cl_status_codes = [], cl_redirects = [], cl_relationships = [],
         cl_historical = \<lparr>hb_seen_before = False, hb_status_changed = False, hb_technology_changed = False\<rparr>\<rparr>,
      ag_labels = [], ag_keywords = [], ag_sources = [], ag_technologies = [], ag_statuses = [], ag_redirects = [],
      ag_confidence = 0\<rparr>"

definition signal_key :: "signal \<Rightarrow> string" where
  "signal_key s = sg_type s @ [CHR 0x00] @ sg_value s @ [CHR 0x00] @ sg_source s"

definition relationship_key :: "relationship \<Rightarrow> string" where
  "relationship_key r = rl_source r @ [CHR 0x00] @ rl_target r @ [CHR 0x00] @ rl_kind r"

definition add_signal :: "string \<Rightarrow> string \<Rightarrow> int \<Rightarrow> string \<Rightarrow> aggregate \<Rightarrow> aggregate" where
  "add_signal kind v weight source a =
     (let s = \<lparr>sg_type = kind, sg_value = v, sg_weight = weight, sg_source = source\<rparr>; c = ag_classification a in
      if signal_key s \<in> set (map signal_key (cl_signals c)) then a
      else a\<lparr>ag_classification := c\<lparr>cl_signals := cl_signals c @ [s]\<rparr>\<rparr>)"

definition add_label :: "string \<Rightarrow> aggregate \<Rightarrow> aggregate" where
  "add_label v a = a\<lparr>ag_labels := append_unique (ag_labels a) v\<rparr>"

definition add_relationship :: "relationship \<Rightarrow> aggregate \<Rightarrow> aggregate" where
  "add_relationship r a =
     (let c = ag_classification a in
      if relationship_key r \<in> set (map relationship_key (cl_relationships c)) then a
      else a\<lparr>ag_classification := c\<lparr>cl_relationships := cl_relationships c @ [r]\<rparr>\<rparr>)"

definition add_both :: "string \<Rightarrow> string \<Rightarrow> string \<Rightarrow> int \<Rightarrow> string \<Rightarrow> aggregate \<Rightarrow> aggregate" where
  "add_both label kind v weight source a = add_signal kind v weight source (add_label label a)"

definition exact_of :: "aggregate \<Rightarrow> string" where
  "exact_of a = ek_exact_url (cl_endpoint (ag_classification a))"

definition source_confidence :: "string \<Rightarrow> rat" where
  "source_confidence source =
     (if source = ''httpx'' then 95 / 100 else if source = ''katana'' then 85 / 100
      else if source = ''gau'' then 55 / 100 else if source = ''historical'' then 65 / 100 else 5 / 10)"

definition token_char :: "char \<Rightarrow> bool" where
  "token_char c \<longleftrightarrow> is_alnum c \<or> (of_char c :: nat) \<ge> 128"

definition url_tokens :: "full_url \<Rightarrow> string list" where
  "url_tokens u =
     unique_sorted (concat (map (\<lambda>s. fields_by (\<lambda>c. \<not> token_char c) [] (to_lower s))
       (url_path u # query_names (url_raw_query u))))"

definition apply_token :: "string \<Rightarrow> string \<Rightarrow> aggregate \<Rightarrow> aggregate" where
  "apply_token source token a =
     (let a1 = (if token \<in> set interesting_keywords
                then add_both (''keyword:'' @ token) ''url_keyword'' token 2 source
                       (a\<lparr>ag_keywords := append_unique (ag_keywords a) token\<rparr>)
                else a)
      in if token \<in> set authentication_keywords
         then add_both ''authentication_indicator'' ''authentication_keyword'' token 2 source a1 else a1)"

definition apply_url_signals :: "full_url_parser \<Rightarrow> endpoint_key \<Rightarrow> string \<Rightarrow> aggregate \<Rightarrow> aggregate option" where
  "apply_url_signals parse e source a =
     (case parse (ek_exact_url e) of
        None \<Rightarrow> None
      | Some u \<Rightarrow>
          let a1 = fold (apply_token source) (url_tokens u) a;
              a2 = (if ek_query_parameters e \<noteq> []
                    then add_both ''query_parameters'' ''query_parameters'' (join_with '','' (ek_query_parameters e)) 1
                           source a1 else a1);
              a3 = (if str_contains (ek_route_signature e) ''{id}''
                    then add_both ''parameterized_path'' ''path_parameter'' (ek_route_signature e) 2 source a2 else a2);
              p = to_lower (url_path u)
          in Some (if has_suffix p ''/openapi.json'' \<or> has_suffix p ''/swagger.json'' \<or> has_suffix p ''/openapi.yaml'' \<or>
                      has_suffix p ''/openapi.yml''
                   then add_both ''api_schema_document'' ''api_schema_document'' (ek_exact_url e) 3 source a3 else a3))"

definition apply_status :: "int \<Rightarrow> string \<Rightarrow> aggregate \<Rightarrow> aggregate" where
  "apply_status status source a0 =
     (if status \<le> 0 then a0
      else
        let a = add_signal ''response_status'' (itoa status) 0 source
                  (a0\<lparr>ag_statuses := append_unique (ag_statuses a0) status\<rparr>)
        in if status = 401 \<or> status = 403
           then add_both ''authentication_required'' ''authentication_status'' (itoa status) 3 source a
           else if 300 \<le> status \<and> status \<le> 399 then add_both ''redirect'' ''redirect_status'' (itoa status) 1 source a
           else if status \<ge> 500 then add_both ''server_error'' ''server_error_status'' (itoa status) 1 source a
           else a)"

definition apply_technology :: "string \<Rightarrow> string \<Rightarrow> aggregate \<Rightarrow> aggregate" where
  "apply_technology source t a =
     add_signal ''technology'' t 0 source (a\<lparr>ag_technologies := append_unique (ag_technologies a) t\<rparr>)"

definition apply_content :: "details \<Rightarrow> string \<Rightarrow> aggregate \<Rightarrow> aggregate" where
  "apply_content d source a0 =
     (let a1 = (if de_method d \<notin> {''GET'', ''HEAD'', ''OPTIONS''}
                then add_both ''non_read_method'' ''http_method'' (de_method d) 2 source a0 else a0);
          ct = to_lower (de_content_type d);
          a2 = (if str_contains ct ''json'' \<or> str_contains ct ''graphql''
                then add_both ''api_content'' ''content_type'' ct 1 source a1 else a1)
      in if str_contains (to_lower (de_source_url d)) ''.js''
         then add_both ''javascript_discovered'' ''javascript_source'' (de_source_url d) 2 source
                (add_relationship \<lparr>rl_source = de_source_url d, rl_target = exact_of a2,
                   rl_kind = ''javascript_reference''\<rparr> a2)
         else a2)"

definition record_source :: "prov_record \<Rightarrow> string \<Rightarrow> string" where
  "record_source r fallback =
     (let s = to_lower (trim_space (po_provider r)) in if s = [] then fallback else s)"

definition record_confidence :: "prov_record \<Rightarrow> string \<Rightarrow> rat" where
  "record_confidence r source =
     (case nested_float (po_fields r) ''confidence'' of
        Some v \<Rightarrow> if 0 \<le> v \<and> v \<le> 1 then v else source_confidence source
      | None \<Rightarrow> source_confidence source)"

definition apply_observation ::
  "full_url_parser \<Rightarrow> prov_record \<Rightarrow> string \<Rightarrow> details \<Rightarrow> aggregate \<Rightarrow> aggregate option" where
  "apply_observation parse r fallback d a0 =
     (let source = record_source r fallback;
          a1 = a0\<lparr>ag_sources := append_unique (ag_sources a0) source,
                  ag_confidence := max (ag_confidence a0) (record_confidence r source)\<rparr>;
          a2 = apply_status (de_status d) source (fold (apply_technology source) (de_technologies d) a1);
          a3 = (if de_redirect d \<noteq> []
                then add_signal ''redirect_destination'' (de_redirect d) 1 source
                       (a2\<lparr>ag_redirects := append_unique (ag_redirects a2) (de_redirect d)\<rparr>)
                else a2)
      in case apply_url_signals parse (cl_endpoint (ag_classification a3)) source a3 of
           None \<Rightarrow> None
         | Some a4 \<Rightarrow>
             let a5 = apply_content d source a4 in
             (case parse (exact_of a5) of
                None \<Rightarrow> None
              | Some u \<Rightarrow>
                  let a6 = (if has_suffix (to_lower (url_path u)) ''.js''
                            then add_both ''javascript_asset'' ''javascript_asset'' (exact_of a5) 1 source a5 else a5)
                  in Some (if has_authentication_header (po_fields r)
                           then add_both ''authentication_required'' ''authentication_header'' ''www-authenticate'' 3
                                  source a6 else a6)))"

subsection \<open>Records and history\<close>

definition normalized_optional_url :: "full_url_parser \<Rightarrow> string \<Rightarrow> string" where
  "normalized_optional_url parse raw =
     (if raw = [] then [] else case normalize_url parse raw of Inl e \<Rightarrow> [] | Inr n \<Rightarrow> n)"

definition kind_text :: "record_kind \<Rightarrow> string" where
  "kind_text k =
     (case k of HostRecord \<Rightarrow> ''host'' | PortRecord \<Rightarrow> ''port'' | UrlRecord \<Rightarrow> ''url'' | OtherRecord s \<Rightarrow> s)"

definition record_details :: "full_url_parser \<Rightarrow> prov_record \<Rightarrow> details" where
  "record_details parse r =
     (let fs = po_fields r; m = to_upper (first_nested_string fs [''method''])
      in \<lparr>de_method = (if m = [] then ''GET'' else m),
          de_content_type = first_nested_string fs [''content_type'', ''content-type'', ''mime_type'', ''mime-type''],
          de_redirect = normalized_optional_url parse
            (first_nested_string fs [''final-url'', ''final_url'', ''redirect'', ''location'']),
          de_source_url = normalized_optional_url parse
            (first_nested_string fs [''source_url'', ''source'', ''referer'', ''referrer'']),
          de_status = (if po_status_code r = 0
                       then first_nested_int fs [''status_code'', ''status-code'', ''status''] else po_status_code r),
          de_technologies = normalized_strings
            (po_technologies r @ first_nested_strings fs [''tech'', ''technologies''])\<rparr>)"

definition endpoint_from_record ::
  "full_url_parser \<Rightarrow> (string \<Rightarrow> string) \<Rightarrow> prov_record \<Rightarrow> (endpoint_key \<times> details) res option" where
  "endpoint_from_record parse sha r =
     (if kind_text (po_kind r) \<noteq> [] \<and> kind_text (po_kind r) \<noteq> ''url''
      then Some (Inl (Err (''record kind '' @ quoted (kind_text (po_kind r)) @ '' is not a URL'')))
      else
        let d = record_details parse r
        in case normalize_endpoint parse sha (po_target r) (de_method d) (de_content_type d) of
             None \<Rightarrow> None
           | Some (Inl e) \<Rightarrow> Some (Inl e)
           | Some (Inr key) \<Rightarrow> Some (Inr (key, d)))"

definition history_key :: "endpoint_key \<Rightarrow> string" where
  "history_key k = ek_exact_url k @ [CHR 0x00] @ ek_method k"

fun historical_index ::
  "full_url_parser \<Rightarrow> (string \<Rightarrow> string) \<Rightarrow> prov_record list \<Rightarrow> (string \<times> details) list option" where
  "historical_index parse sha [] = Some []"
| "historical_index parse sha (r # rs) =
     (case endpoint_from_record parse sha r of
        None \<Rightarrow> None
      | Some (Inl e) \<Rightarrow> historical_index parse sha rs
      | Some (Inr (k, d)) \<Rightarrow> map_option (\<lambda>xs. (history_key k, d) # xs) (historical_index parse sha rs))"

definition history_of :: "(string \<times> details) list \<Rightarrow> string \<Rightarrow> details list" where
  "history_of idx k = map snd (List.filter (\<lambda>p. fst p = k) idx)"

definition status_differs :: "details \<Rightarrow> details \<Rightarrow> bool" where
  "status_differs d old \<longleftrightarrow> de_status d > 0 \<and> de_status old > 0 \<and> de_status d \<noteq> de_status old"

definition technology_differs :: "details \<Rightarrow> details \<Rightarrow> bool" where
  "technology_differs d old \<longleftrightarrow>
     normalized_strings (de_technologies d) \<noteq> [] \<and> de_technologies old \<noteq> [] \<and>
     set (normalized_strings (de_technologies d)) \<noteq> set (normalized_strings (de_technologies old))"

definition apply_history :: "details \<Rightarrow> details list \<Rightarrow> aggregate \<Rightarrow> aggregate" where
  "apply_history d previous a0 =
     (let c = ag_classification a0; h = cl_historical c;
          h' = h\<lparr>hb_status_changed := hb_status_changed h \<or> list_ex (status_differs d) previous,
                 hb_technology_changed := hb_technology_changed h \<or> list_ex (technology_differs d) previous\<rparr>;
          a1 = a0\<lparr>ag_classification := c\<lparr>cl_historical := h'\<rparr>\<rparr>;
          a2 = (if hb_status_changed h'
                then add_both ''status_changed'' ''historical_status_change'' ''changed'' 2 ''history'' a1 else a1)
      in if hb_technology_changed h'
         then add_both ''technology_changed'' ''historical_technology_change'' ''changed'' 1 ''history'' a2 else a2)"

definition mark_seen :: "aggregate \<Rightarrow> aggregate" where
  "mark_seen a =
     (let c = ag_classification a
      in a\<lparr>ag_classification := c\<lparr>cl_historical := (cl_historical c)\<lparr>hb_seen_before := True\<rparr>\<rparr>\<rparr>)"

fun schema_membership ::
  "full_url_parser \<Rightarrow> (string \<Rightarrow> string) \<Rightarrow> int \<Rightarrow> string list \<Rightarrow> (string list \<times> string list) res option" where
  "schema_membership parse sha i [] = Some (Inr ([], []))"
| "schema_membership parse sha i (raw # raws) =
     (case normalize_endpoint parse sha raw ''GET'' [] of
        None \<Rightarrow> None
      | Some (Inl e) \<Rightarrow> Some (Inl (Wrapped (''api schema endpoint '' @ itoa i @ '': '') e))
      | Some (Inr k) \<Rightarrow>
          map_option (\<lambda>r. bind_res r (\<lambda>(exact, routes). Inr (ek_exact_url k # exact, ek_route_signature k # routes)))
            (schema_membership parse sha (i + 1) raws))"

subsection \<open>Classifying\<close>

record class_context =
  cc_exact :: "string list"
  cc_routes :: "string list"
  cc_history :: "(string \<times> details) list"
  cc_any_history :: bool

definition apply_context :: "class_context \<Rightarrow> endpoint_key \<Rightarrow> details \<Rightarrow> aggregate \<Rightarrow> aggregate" where
  "apply_context x key d a0 =
     (let a1 = (if ek_exact_url key \<in> set (cc_exact x) \<or> ek_route_signature key \<in> set (cc_routes x)
                then add_both ''api_schema_member'' ''api_schema_membership'' (ek_route_signature key) 3 ''api_schema'' a0
                else a0);
          previous = history_of (cc_history x) (history_key key)
      in if previous \<noteq> []
         then apply_history d previous
                (add_both ''historically_observed'' ''historically_observed'' (ek_exact_url key) 0 ''history''
                   (mark_seen a1))
         else if cc_any_history x
         then add_both ''new_endpoint'' ''new_endpoint'' (ek_exact_url key) 1 ''history'' a1
         else a1)"

fun classify_all ::
  "full_url_parser \<Rightarrow> (string \<Rightarrow> string) \<Rightarrow> class_context \<Rightarrow> int \<Rightarrow> (prov_record \<times> string) list \<Rightarrow>
     (string \<times> aggregate) list \<Rightarrow> (string \<times> aggregate) list res option" where
  "classify_all parse sha x i [] m = Some (Inr m)"
| "classify_all parse sha x i ((r, source) # rs) m =
     (case endpoint_from_record parse sha r of
        None \<Rightarrow> None
      | Some (Inl e) \<Rightarrow> Some (Inl (Wrapped (source @ '' observation '' @ itoa i @ '': '') e))
      | Some (Inr (key, d)) \<Rightarrow>
          let a = (case map_of m (ek_digest key) of None \<Rightarrow> new_aggregate key | Some a \<Rightarrow> a)
          in (case apply_observation parse r source d a of
                None \<Rightarrow> None
              | Some a' \<Rightarrow>
                  classify_all parse sha x (i + 1) rs (AList.update (ek_digest key) (apply_context x key d a') m)))"

definition round_hundredths :: "rat \<Rightarrow> rat" where
  "round_hundredths x = of_int \<lfloor>x * 100 + 1 / 2\<rfloor> / 100"

definition finalize_aggregate :: "aggregate \<Rightarrow> classification" where
  "finalize_aggregate a =
     (let c = ag_classification a; signals = sort_key signal_key (cl_signals c);
          sources = unique_sorted (ag_sources a); labels = unique_sorted (ag_labels a);
          many = length sources > 1;
          weights = sum_list (map sg_weight signals);
          positive = length (List.filter (\<lambda>s. sg_weight s > 0) signals);
          confidence = ag_confidence a + of_nat (length sources - 1) * (5 / 100) + of_nat positive * (3 / 100)
      in c\<lparr>cl_labels := (if many then sort (append_unique labels ''multi_source'') else labels),
           cl_keywords := unique_sorted (ag_keywords a), cl_sources := sources,
           cl_technologies := unique_sorted (ag_technologies a), cl_status_codes := unique_sorted (ag_statuses a),
           cl_redirects := unique_sorted (ag_redirects a), cl_signals := signals,
           cl_relationships := sort_key relationship_key (cl_relationships c),
           cl_score := weights + (if many then 1 else 0),
           cl_confidence := round_hundredths (min (99 / 100) confidence)\<rparr>)"

definition collect_relationships :: "classification list \<Rightarrow> relationship list" where
  "collect_relationships cs =
     sort_key relationship_key
       (fold (\<lambda>r acc. if relationship_key r \<in> set (map relationship_key acc) then acc else acc @ [r])
          (concat (map cl_relationships cs)) [])"

definition class_output_of :: "(string \<times> aggregate) list \<Rightarrow> class_output" where
  "class_output_of m =
     (let cs = map (\<lambda>p. finalize_aggregate (snd p)) (sort_key fst m)
      in \<lparr>co_endpoints = map cl_endpoint cs, co_classifications = cs,
          co_interesting = List.filter (\<lambda>c. cl_score c \<ge> 2) cs, co_relationships = collect_relationships cs\<rparr>)"

definition current_records :: "class_input \<Rightarrow> (prov_record \<times> string) list" where
  "current_records i =
     map (\<lambda>r. (r, ''http'')) (ci_http i) @ map (\<lambda>r. (r, ''crawl'')) (ci_crawl i)
     @ map (\<lambda>r. (r, ''passive'')) (ci_passive i)"

definition classify :: "full_url_parser \<Rightarrow> (string \<Rightarrow> string) \<Rightarrow> class_input \<Rightarrow> class_output res option" where
  "classify parse sha i =
     (case schema_membership parse sha 0 (ci_api_schema i) of
        None \<Rightarrow> None
      | Some (Inl e) \<Rightarrow> Some (Inl e)
      | Some (Inr (exact, routes)) \<Rightarrow>
          (case historical_index parse sha (ci_historical i) of
             None \<Rightarrow> None
           | Some idx \<Rightarrow>
               map_option (\<lambda>r. bind_res r (\<lambda>m. Inr (class_output_of m)))
                 (classify_all parse sha
                    \<lparr>cc_exact = exact, cc_routes = routes, cc_history = idx, cc_any_history = ci_historical i \<noteq> []\<rparr>
                    0 (current_records i) [])))"

subsection \<open>A sample observation\<close>

definition sample_record :: "string \<Rightarrow> int \<Rightarrow> prov_record" where
  "sample_record target status =
     \<lparr>po_provider = ''gau'', po_kind = UrlRecord, po_target = target, po_host = ''h.io'', po_port = 0,
      po_status_code = status, po_technologies = [], po_fields = None\<rparr>"

definition sample_class_input :: class_input where
  "sample_class_input =
     \<lparr>ci_http = [sample_record ''https://h.io/api'' 500], ci_crawl = [], ci_passive = [], ci_historical = [],
      ci_api_schema = []\<rparr>"

definition sample_url_parser :: full_url_parser where
  "sample_url_parser s = Some (sample_full_url ''h.io'' ''/api'' [])"

lemma sample_endpoint:
  "(case endpoint_from_record sample_url_parser (\<lambda>s. ''d'') (sample_record ''https://h.io/api'' 500) of
      Some (Inr p) \<Rightarrow> True | _ \<Rightarrow> False)"
  by code_simp

subsection \<open>Facts on aggregates\<close>

definition aggregate_ok :: "endpoint_key \<Rightarrow> aggregate \<Rightarrow> bool" where
  "aggregate_ok key a \<longleftrightarrow>
     cl_endpoint (ag_classification a) = key \<and> 0 \<le> ag_confidence a \<and> ag_confidence a \<le> 1 \<and>
     (\<forall>s \<in> set (cl_signals (ag_classification a)). 0 \<le> sg_weight s) \<and>
     distinct (map signal_key (cl_signals (ag_classification a))) \<and>
     distinct (map relationship_key (cl_relationships (ag_classification a)))"

named_theorems aggregate_intro "the operations of an aggregate keep it well formed"

lemma new_aggregate_ok [aggregate_intro]: "aggregate_ok key (new_aggregate key)"
  by (simp add: aggregate_ok_def new_aggregate_def)

lemma aggregate_sets [simp]:
  "aggregate_ok key (a\<lparr>ag_labels := x\<rparr>) = aggregate_ok key a"
  "aggregate_ok key (a\<lparr>ag_keywords := x\<rparr>) = aggregate_ok key a"
  "aggregate_ok key (a\<lparr>ag_sources := x\<rparr>) = aggregate_ok key a"
  "aggregate_ok key (a\<lparr>ag_technologies := x\<rparr>) = aggregate_ok key a"
  "aggregate_ok key (a\<lparr>ag_statuses := y\<rparr>) = aggregate_ok key a"
  "aggregate_ok key (a\<lparr>ag_redirects := x\<rparr>) = aggregate_ok key a"
  "aggregate_ok key (a\<lparr>ag_classification := (ag_classification a)\<lparr>cl_historical := h\<rparr>\<rparr>) = aggregate_ok key a"
  by (simp_all add: aggregate_ok_def)

lemma add_signal_ok [aggregate_intro]:
  "aggregate_ok key a \<Longrightarrow> 0 \<le> w \<Longrightarrow> aggregate_ok key (add_signal kind v w source a)"
  by (auto simp: aggregate_ok_def add_signal_def Let_def)

lemma add_label_ok [aggregate_intro]: "aggregate_ok key a \<Longrightarrow> aggregate_ok key (add_label v a)"
  by (simp add: add_label_def)

lemma add_relationship_ok [aggregate_intro]: "aggregate_ok key a \<Longrightarrow> aggregate_ok key (add_relationship r a)"
  by (auto simp: aggregate_ok_def add_relationship_def Let_def)

lemma add_both_ok [aggregate_intro]:
  "aggregate_ok key a \<Longrightarrow> 0 \<le> w \<Longrightarrow> aggregate_ok key (add_both label kind v w source a)"
  unfolding add_both_def by (intro aggregate_intro)

lemma fold_ok: "(\<And>x a. aggregate_ok key a \<Longrightarrow> aggregate_ok key (f x a)) \<Longrightarrow> aggregate_ok key a \<Longrightarrow> aggregate_ok key (fold f xs a)"
  by (induction xs arbitrary: a) simp_all

lemma if_ok: "aggregate_ok key x \<Longrightarrow> aggregate_ok key y \<Longrightarrow> aggregate_ok key (if b then x else y)"
  by simp

lemma apply_token_ok: "aggregate_ok key a \<Longrightarrow> aggregate_ok key (apply_token source t a)"
  unfolding apply_token_def Let_def by (intro if_ok aggregate_intro) simp_all

lemma apply_url_signals_ok:
  assumes "aggregate_ok key a" and "apply_url_signals parse e source a = Some b"
  shows "aggregate_ok key b"
proof -
  obtain u where u: "parse (ek_exact_url e) = Some u" using assms(2) by (auto simp: apply_url_signals_def split: option.splits)
  have "aggregate_ok key (fold (apply_token source) (url_tokens u) a)"
    by (rule fold_ok [OF apply_token_ok assms(1)])
  then have "aggregate_ok key (the (apply_url_signals parse e source a))"
    unfolding apply_url_signals_def u Let_def option.case option.sel by (intro if_ok aggregate_intro) simp_all
  with assms(2) show ?thesis by simp
qed

lemma apply_status_ok: "aggregate_ok key a \<Longrightarrow> aggregate_ok key (apply_status status source a)"
  unfolding apply_status_def Let_def by (intro if_ok aggregate_intro) simp_all

lemma apply_technology_ok: "aggregate_ok key a \<Longrightarrow> aggregate_ok key (apply_technology source t a)"
  unfolding apply_technology_def by (intro aggregate_intro) simp_all

lemma apply_content_ok: "aggregate_ok key a \<Longrightarrow> aggregate_ok key (apply_content d source a)"
  unfolding apply_content_def Let_def by (intro if_ok aggregate_intro) simp_all

lemma source_confidence_range: "0 \<le> source_confidence s \<and> source_confidence s \<le> 1"
  by (simp add: source_confidence_def)

lemma record_confidence_range: "0 \<le> record_confidence r s \<and> record_confidence r s \<le> 1"
  using source_confidence_range [of s] by (auto simp: record_confidence_def split: option.splits)

lemma apply_observation_ok:
  assumes ok: "aggregate_ok key a" and b: "apply_observation parse r fallback d a = Some b"
  shows "aggregate_ok key b"
proof -
  define source where "source = record_source r fallback"
  define a1 where "a1 = a\<lparr>ag_sources := append_unique (ag_sources a) source,
      ag_confidence := max (ag_confidence a) (record_confidence r source)\<rparr>"
  define a2 where "a2 = apply_status (de_status d) source (fold (apply_technology source) (de_technologies d) a1)"
  define a3 where "a3 = (if de_redirect d \<noteq> []
      then add_signal ''redirect_destination'' (de_redirect d) 1 source
             (a2\<lparr>ag_redirects := append_unique (ag_redirects a2) (de_redirect d)\<rparr>) else a2)"
  obtain a4 where a4: "apply_url_signals parse (cl_endpoint (ag_classification a3)) source a3 = Some a4"
    using b unfolding apply_observation_def Let_def source_def [symmetric] a1_def [symmetric] a2_def [symmetric]
      a3_def [symmetric] by (auto split: option.splits)
  define a5 where "a5 = apply_content d source a4"
  obtain u where u: "parse (exact_of a5) = Some u"
    using b unfolding apply_observation_def Let_def source_def [symmetric] a1_def [symmetric] a2_def [symmetric]
      a3_def [symmetric] a4 option.case a5_def [symmetric] by (auto split: option.splits)
  have "aggregate_ok key a1"
    using ok record_confidence_range [of r source] by (auto simp: a1_def aggregate_ok_def max_def)
  then have "aggregate_ok key a2" unfolding a2_def by (intro apply_status_ok fold_ok [OF apply_technology_ok])
  then have "aggregate_ok key a3" unfolding a3_def by (intro if_ok aggregate_intro) simp_all
  then have "aggregate_ok key a5" unfolding a5_def by (intro apply_content_ok apply_url_signals_ok [OF _ a4])
  moreover have "b = the (apply_observation parse r fallback d a)" using b by simp
  ultimately show ?thesis
    unfolding apply_observation_def Let_def source_def [symmetric] a1_def [symmetric] a2_def [symmetric]
      a3_def [symmetric] a4 option.case a5_def [symmetric] u option.sel
    by (auto intro!: if_ok aggregate_intro)
qed

lemma apply_history_ok: "aggregate_ok key a \<Longrightarrow> aggregate_ok key (apply_history d previous a)"
  unfolding apply_history_def Let_def by (intro if_ok aggregate_intro) simp_all

lemma apply_context_ok: "aggregate_ok key a \<Longrightarrow> aggregate_ok key (apply_context x k d a)"
  unfolding apply_context_def Let_def mark_seen_def
  by (intro if_ok apply_history_ok add_both_ok) (auto intro: add_both_ok)

subsection \<open>What a classification holds\<close>

definition table_ok :: "(string \<times> aggregate) list \<Rightarrow> bool" where
  "table_ok m \<longleftrightarrow>
     distinct (map fst m) \<and> (\<forall>(k, a) \<in> set m. \<exists>key. ek_digest key = k \<and> aggregate_ok key a)"

lemma table_ok_update:
  assumes "table_ok m" and "aggregate_ok key a"
  shows "table_ok (AList.update (ek_digest key) a m)"
proof -
  have entries: "p \<in> set (AList.update k x m) \<Longrightarrow> p = (k, x) \<or> p \<in> set m" for p k x and m :: "(string \<times> aggregate) list"
    by (induction m) (auto split: if_splits)
  then show ?thesis
    using assms distinct_update [of m "ek_digest key" a] unfolding table_ok_def by fastforce
qed

lemma update_keys: "set (map fst (AList.update k v m)) = insert k (set (map fst m))"
  by (induction m) auto

lemma classify_all_spec:
  assumes "classify_all parse sha x i rs m = Some (Inr m')" and "table_ok m"
  shows "table_ok m' \<and>
    (\<forall>(r, s) \<in> set rs. \<exists>k d. endpoint_from_record parse sha r = Some (Inr (k, d))) \<and>
    set (map fst m') = set (map fst m) \<union>
      {ek_digest k | r s k d. (r, s) \<in> set rs \<and> endpoint_from_record parse sha r = Some (Inr (k, d))}"
  using assms
proof (induction rs arbitrary: i m)
  case (Cons p rs)
  obtain r s where p: "p = (r, s)" by (cases p)
  obtain key d where e: "endpoint_from_record parse sha r = Some (Inr (key, d))"
    using Cons.prems(1) by (auto simp: p split: option.splits sum.splits)
  define a where "a = (case map_of m (ek_digest key) of None \<Rightarrow> new_aggregate key | Some a \<Rightarrow> a)"
  obtain b where b: "apply_observation parse r s d a = Some b"
    using Cons.prems(1) e by (auto simp: p a_def [symmetric] Let_def split: option.splits)
  let ?m = "AList.update (ek_digest key) (apply_context x key d b) m"
  have rest: "classify_all parse sha x (i + 1) rs ?m = Some (Inr m')"
    using Cons.prems(1) e b by (simp add: p a_def [symmetric] Let_def)
  obtain key' where key': "ek_digest key' = ek_digest key" and a: "aggregate_ok key' a"
  proof (cases "map_of m (ek_digest key)")
    case None
    then show ?thesis using that [of key] new_aggregate_ok by (simp add: a_def)
  next
    case (Some a')
    then have "(ek_digest key, a') \<in> set m" by (rule map_of_SomeD)
    then obtain k where "ek_digest k = ek_digest key" and "aggregate_ok k a'"
      using Cons.prems(2) by (auto simp: table_ok_def)
    then show ?thesis using that [of k] Some by (simp add: a_def)
  qed
  have "aggregate_ok key' (apply_context x key d b)"
    by (rule apply_context_ok [OF apply_observation_ok [OF a b]])
  then have ok: "table_ok ?m" using table_ok_update [OF Cons.prems(2), of key'] key' by simp
  have keys: "set (map fst ?m) = insert (ek_digest key) (set (map fst m))" by (rule update_keys)
  have "{ek_digest k | r s k d. (r, s) \<in> set (p # rs) \<and> endpoint_from_record parse sha r = Some (Inr (k, d))} =
      insert (ek_digest key) {ek_digest k | r s k d. (r, s) \<in> set rs \<and> endpoint_from_record parse sha r = Some (Inr (k, d))}"
    using e by (auto simp: p)
  then show ?case using Cons.IH [OF rest ok] keys e by (auto simp: p)
qed simp

lemma finalize_ok:
  assumes "aggregate_ok key a" and c: "c = finalize_aggregate a"
  shows "cl_endpoint c = key \<and> sorted (map signal_key (cl_signals c)) \<and> distinct (map signal_key (cl_signals c)) \<and>
    cl_score c = sum_list (map sg_weight (cl_signals c)) + (if length (cl_sources c) > 1 then 1 else 0) \<and>
    0 \<le> cl_score c \<and> 0 \<le> cl_confidence c \<and> cl_confidence c \<le> 99 / 100"
proof -
  let ?signals = "sort_key signal_key (cl_signals (ag_classification a))"
  have weights: "\<forall>s \<in> set ?signals. 0 \<le> sg_weight s" and conf: "0 \<le> ag_confidence a"
    using assms(1) by (simp_all add: aggregate_ok_def)
  have "distinct (map signal_key ?signals)"
    using assms(1) by (simp add: aggregate_ok_def distinct_map)
  moreover have "0 \<le> sum_list (map sg_weight ?signals)"
    using weights by (intro sum_list_nonneg) auto
  moreover have "0 \<le> round_hundredths (min (99 / 100) x) \<and> round_hundredths (min (99 / 100) x) \<le> 99 / 100" if "0 \<le> x" for x
  proof -
    let ?y = "min (99 / 100) x * 100 + 1 / 2"
    have "?y < 100" and "0 \<le> ?y" using that by (auto simp: min_def)
    then have "0 \<le> \<lfloor>?y\<rfloor>" and "\<lfloor>?y\<rfloor> \<le> 99" by linarith+
    then have "(0 :: rat) \<le> of_int \<lfloor>?y\<rfloor>" and "(of_int \<lfloor>?y\<rfloor> :: rat) \<le> 99" by linarith+
    then show ?thesis by (simp add: round_hundredths_def)
  qed
  moreover have "0 \<le> ag_confidence a + of_nat n * (5 / 100) + of_nat k * (3 / 100)" for n k
    using conf by (intro add_nonneg_nonneg mult_nonneg_nonneg) simp_all
  ultimately show ?thesis using assms(1) by (simp add: c finalize_aggregate_def Let_def aggregate_ok_def)
qed

text \<open>
  C33: Classifying succeeds only when every current observation is a URL, and then yields exactly
  one classification per endpoint digest, sorted and without repetition; its score is the sum of
  the weights of its distinct signals plus one for several sources, its confidence lies between 0
  and 0.99, and the interesting endpoints are those with score at least 2.
\<close>

theorem classification_covers_every_observation:
  assumes "classify parse sha i = Some (Inr out)"
  shows "sorted (map ek_digest (co_endpoints out)) \<and> distinct (map ek_digest (co_endpoints out)) \<and>
    (\<forall>(r, s) \<in> set (current_records i). \<exists>k d. endpoint_from_record parse sha r = Some (Inr (k, d))) \<and>
    set (map ek_digest (co_endpoints out)) =
      {ek_digest k | r s k d. (r, s) \<in> set (current_records i) \<and> endpoint_from_record parse sha r = Some (Inr (k, d))} \<and>
    co_endpoints out = map cl_endpoint (co_classifications out) \<and>
    co_interesting out = List.filter (\<lambda>c. cl_score c \<ge> 2) (co_classifications out) \<and>
    (\<forall>c \<in> set (co_classifications out).
       sorted (map signal_key (cl_signals c)) \<and> distinct (map signal_key (cl_signals c)) \<and>
       cl_score c = sum_list (map sg_weight (cl_signals c)) + (if length (cl_sources c) > 1 then 1 else 0) \<and>
       0 \<le> cl_score c \<and> 0 \<le> cl_confidence c \<and> cl_confidence c \<le> 99 / 100)"
proof -
  obtain x m where run: "classify_all parse sha x 0 (current_records i) [] = Some (Inr m)" and out: "out = class_output_of m"
    using assms by (auto simp: classify_def bind_res_Inr split: option.splits sum.splits)
  note spec = classify_all_spec [OF run, unfolded table_ok_def, simplified]
  let ?m = "sort_key fst m"
  have entry: "\<exists>key. ek_digest key = fst p \<and> aggregate_ok key (snd p)" if "p \<in> set ?m" for p
  proof -
    have m: "p \<in> set m" using that by (simp only: set_sort)
    have "\<forall>(k, a) \<in> set m. \<exists>key. ek_digest key = k \<and> aggregate_ok key a"
      using spec by (elim conjE)
    from bspec [OF this m] show ?thesis by (simp add: case_prod_beta)
  qed
  have digest: "ek_digest (cl_endpoint (finalize_aggregate (snd p))) = fst p" if "p \<in> set ?m" for p
    using entry [OF that] finalize_ok by blast
  have endpoints: "map ek_digest (co_endpoints out) = map fst ?m"
    using digest by (simp add: out class_output_of_def Let_def)
  have keys: "sorted (map fst ?m)" "distinct (map fst ?m)" "set (map fst ?m) = set (map fst m)"
    using spec by (simp_all add: distinct_map)
  have each: "\<forall>c \<in> set (co_classifications out). \<exists>key a. aggregate_ok key a \<and> c = finalize_aggregate a"
    using entry by (fastforce simp: out class_output_of_def Let_def)
  have "\<forall>c \<in> set (co_classifications out).
       sorted (map signal_key (cl_signals c)) \<and> distinct (map signal_key (cl_signals c)) \<and>
       cl_score c = sum_list (map sg_weight (cl_signals c)) + (if length (cl_sources c) > 1 then 1 else 0) \<and>
       0 \<le> cl_score c \<and> 0 \<le> cl_confidence c \<and> cl_confidence c \<le> 99 / 100"
  proof
    fix c assume "c \<in> set (co_classifications out)"
    from bspec [OF each this] obtain key a where a: "aggregate_ok key a" and c: "c = finalize_aggregate a"
      by (elim exE conjE)
    show "sorted (map signal_key (cl_signals c)) \<and> distinct (map signal_key (cl_signals c)) \<and>
       cl_score c = sum_list (map sg_weight (cl_signals c)) + (if length (cl_sources c) > 1 then 1 else 0) \<and>
       0 \<le> cl_score c \<and> 0 \<le> cl_confidence c \<and> cl_confidence c \<le> 99 / 100"
      by (rule conjunct2 [OF finalize_ok [OF a c]])
  qed
  moreover have "co_endpoints out = map cl_endpoint (co_classifications out)"
      "co_interesting out = List.filter (\<lambda>c. cl_score c \<ge> 2) (co_classifications out)"
    by (simp_all add: out class_output_of_def Let_def)
  moreover have "\<forall>(r, s) \<in> set (current_records i). \<exists>k d. endpoint_from_record parse sha r = Some (Inr (k, d))"
    and "set (map fst ?m) =
      {ek_digest k | r s k d. (r, s) \<in> set (current_records i) \<and> endpoint_from_record parse sha r = Some (Inr (k, d))}"
    using spec keys(3) by (simp_all only:) simp_all
  ultimately show ?thesis using keys(1,2) unfolding endpoints by (intro conjI)
qed

lemma normalize_endpoint_digest:
  assumes "normalize_endpoint parse sha raw m c = Some (Inr k)"
  shows "\<exists>s. ek_digest k = sha s"
proof -
  obtain exact where exact: "normalize_url parse raw = Inr exact"
    using assms unfolding normalize_endpoint_def by (cases "normalize_url parse raw") simp_all
  obtain u where u: "parse exact = Some u"
    using assms unfolding normalize_endpoint_def exact sum.case by (cases "parse exact") simp_all
  have "k = projr (the (normalize_endpoint parse sha raw m c))" using assms by simp
  then show ?thesis unfolding normalize_endpoint_def exact sum.case u option.case Let_def by (simp split del: if_split) (rule exI, rule refl)
qed

lemma sample_digest:
  assumes "endpoint_from_record parse (\<lambda>s. ''d'') r = Some (Inr (k, d))"
  shows "ek_digest k = ''d''"
proof -
  let ?n = "normalize_endpoint parse (\<lambda>s. ''d'') (po_target r) (de_method (record_details parse r))
    (de_content_type (record_details parse r))"
  have "?n = Some (Inr k)"
  proof (cases ?n)
    case None
    then show ?thesis using assms by (simp add: endpoint_from_record_def Let_def split: if_splits)
  next
    case (Some e)
    then show ?thesis using assms by (cases e) (simp_all add: endpoint_from_record_def Let_def split: if_splits)
  qed
  from normalize_endpoint_digest [OF this] show ?thesis by (elim exE)
qed

lemma sample_observation: "\<exists>b. apply_observation sample_url_parser r s d a = Some b"
  unfolding apply_observation_def apply_url_signals_def sample_url_parser_def option.case Let_def
  by (rule exI, rule refl)

lemma sample_classified: "\<exists>out. classify sample_url_parser (\<lambda>s. ''d'') sample_class_input = Some (Inr out)"
proof -
  obtain k d where e: "endpoint_from_record sample_url_parser (\<lambda>s. ''d'') (sample_record ''https://h.io/api'' 500) =
      Some (Inr (k, d))"
    using sample_endpoint by (auto split: option.splits sum.splits)
  define x where "x = \<lparr>cc_exact = [], cc_routes = [], cc_history = [], cc_any_history = False\<rparr>"
  obtain b where "apply_observation sample_url_parser (sample_record ''https://h.io/api'' 500) ''http'' d (new_aggregate k) = Some b"
    using sample_observation by blast
  with e have "classify_all sample_url_parser (\<lambda>s. ''d'') x 0 (current_records sample_class_input) [] =
      Some (Inr [(ek_digest k, apply_context x k d b)])"
    by (simp add: sample_class_input_def current_records_def)
  then show ?thesis
    unfolding x_def by (simp add: classify_def sample_class_input_def)
qed

lemma classification_covers_every_observation_witness:
  "\<exists>out. classify sample_url_parser (\<lambda>s. ''d'') sample_class_input = Some (Inr out) \<and>
     set (map ek_digest (co_endpoints out)) = {''d''} \<and>
     (\<forall>c \<in> set (co_classifications out). cl_confidence c \<le> 99 / 100)"
proof -
  obtain out where out: "classify sample_url_parser (\<lambda>s. ''d'') sample_class_input = Some (Inr out)"
    using sample_classified by blast
  obtain k d where k: "endpoint_from_record sample_url_parser (\<lambda>s. ''d'') (sample_record ''https://h.io/api'' 500) =
      Some (Inr (k, d))"
    using sample_endpoint by (auto split: option.splits sum.splits)
  have "current_records sample_class_input = [(sample_record ''https://h.io/api'' 500, ''http'')]"
    by (simp add: sample_class_input_def current_records_def)
  note all = classification_covers_every_observation [OF out, unfolded this]
  have "set (map ek_digest (co_endpoints out)) =
      {ek_digest k | r s k d. (r, s) \<in> set [(sample_record ''https://h.io/api'' 500, ''http'')] \<and>
         endpoint_from_record sample_url_parser (\<lambda>s. ''d'') r = Some (Inr (k, d))}"
    using all by (elim conjE)
  also have "\<dots> = {''d''}" using k sample_digest [OF k] by auto
  finally have "set (map ek_digest (co_endpoints out)) = {''d''}" .
  moreover have "\<forall>c \<in> set (co_classifications out). cl_confidence c \<le> 99 / 100" using all by blast
  ultimately show ?thesis using out by blast
qed

end
