(* ===== verification/Database.thy ===== *)
theory Database
  imports Artifacts Capability
begin

text \<open>
  \<^verbatim>\<open>internal/database/store.go\<close>, the tables and transactions, programs with their scope versions,
  tasks and approvals. A table is the list of its rows in the order they were inserted, an SQL
  statement a function on the tables with the meaning PostgreSQL gives it; the unique constraints
  the statements rely on are written out, every other way a statement can fail (foreign keys,
  checks, the connection) is a fault of the environment. A commit that reports an error is taken to
  have been rolled back. Column values that are JSON texts of Go values are the values themselves.
\<close>

subsection \<open>Tables\<close>

datatype details =
    DProgram program
  | DTask task
  | DChange scope_change
  | DResult action_result
  | DJson json

record audit_event =
  au_id :: string
  au_type :: string
  au_component :: string
  au_actor :: string
  au_task_id :: "string option"
  au_program_id :: "string option"
  au_workflow_run_id :: "string option"
  au_step_run_id :: "string option"
  au_tool_run_id :: "string option"
  au_capability :: "string option"
  au_provider :: "string option"
  au_message :: string
  au_details :: details

record scope_version =
  sv_snapshot :: scope_snapshot
  sv_acknowledged_by :: "string option"
  sv_acknowledged_at :: "int option"
  sv_created_at :: int

record workflow_row =
  wd_row_id :: string
  wd_row_name :: string
  wd_row_version :: string
  wd_row_description :: string
  wd_row_definition :: string

record approval =
  ap_id :: string
  ap_request_id :: string
  ap_task_id :: string
  ap_action_request_id :: string
  ap_risk :: string
  ap_reason :: string
  ap_requested_at :: int
  ap_decision :: string
  ap_decided_by :: "string option"
  ap_decided_at :: "int option"
  ap_expires_at :: "int option"

record candidate =
  cd_id :: string
  cd_task_id :: string
  cd_workflow_run_id :: string
  cd_target_asset_id :: string
  cd_source_capability :: string
  cd_template_id :: string
  cd_claim :: string
  cd_severity :: string
  cd_evidence_artifact_ids :: "string list"
  cd_confidence :: rat
  cd_status :: string
  cd_updated_at :: int

record endpoint_row =
  en_id :: string
  en_program_id :: string
  en_exact_url :: string
  en_route_signature :: string
  en_method :: string
  en_content_type :: string
  en_parameters :: "string list"
  en_last_seen :: int

record database =
  db_programs :: "program list"
  db_scope_versions :: "scope_version list"
  db_workflows :: "workflow_row list"
  db_tasks :: "task list"
  db_approvals :: "approval list"
  db_runs :: "workflow_run list"
  db_steps :: "step_run list"
  db_tools :: "tool_run list"
  db_artifacts :: "artifact list"
  db_assets :: "asset list"
  db_observations :: "asset_observation list"
  db_candidates :: "candidate list"
  db_endpoints :: "endpoint_row list"
  db_audit :: "audit_event list"

definition duplicate_key :: go_error where
  "duplicate_key = Err ''duplicate key value violates unique constraint''"

definition no_rows :: go_error where
  "no_rows = Err ''no rows in result set''"

definition insert_unique :: "('r \<Rightarrow> 'k) \<Rightarrow> 'r \<Rightarrow> 'r list \<Rightarrow> 'r list res" where
  "insert_unique key r rs = (if key r \<in> key ` set rs then Inl duplicate_key else Inr (rs @ [r]))"

text \<open>\<^verbatim>\<open>INSERT ... ON CONFLICT(key) DO UPDATE\<close>: \<open>merge old new\<close> is the row after the update.\<close>

definition upsert :: "('r \<Rightarrow> 'k) \<Rightarrow> ('r \<Rightarrow> 'r \<Rightarrow> 'r) \<Rightarrow> 'r \<Rightarrow> 'r list \<Rightarrow> 'r list" where
  "upsert key merge new rs =
     (if key new \<in> key ` set rs then map (\<lambda>old. if key old = key new then merge old new else old) rs
      else rs @ [new])"

text \<open>\<^verbatim>\<open>ORDER BY at DESC LIMIT 1\<close>; of equal times the row inserted first is taken, where SQL leaves it open.\<close>

definition latest :: "('r \<Rightarrow> int) \<Rightarrow> 'r list \<Rightarrow> 'r option" where
  "latest time rs = (case sort_key (\<lambda>r. - time r) rs of [] \<Rightarrow> None | r # _ \<Rightarrow> Some r)"

subsection \<open>Transactions\<close>

text \<open>
  The environment of a call: the answer of the \<open>n\<close>-th access to the database (the start and the end
  of the transaction included), the ids that \<^verbatim>\<open>NewID\<close> draws, the time, and the JSON decoder.
\<close>

record store_env =
  se_fault :: "nat \<Rightarrow> go_error option"
  se_id :: "nat \<Rightarrow> string"
  se_now :: int
  se_json :: json_parser

record tx =
  tx_db :: database
  tx_count :: nat
  tx_ids :: nat

definition statement :: "store_env \<Rightarrow> (database \<Rightarrow> database res) \<Rightarrow> tx \<Rightarrow> tx res" where
  "statement v f t =
     (case se_fault v (tx_count t) of
        Some e \<Rightarrow> Inl e
      | None \<Rightarrow> bind_res (f (tx_db t)) (\<lambda>db. Inr (t\<lparr>tx_db := db, tx_count := Suc (tx_count t)\<rparr>)))"

definition insert_audit :: "store_env \<Rightarrow> (string \<Rightarrow> audit_event) \<Rightarrow> tx \<Rightarrow> tx res" where
  "insert_audit v ev t =
     statement v (\<lambda>db. Inr (db\<lparr>db_audit := db_audit db @ [ev (se_id v (tx_ids t))]\<rparr>))
       (t\<lparr>tx_ids := Suc (tx_ids t)\<rparr>)"

fun insert_audits :: "store_env \<Rightarrow> (string \<Rightarrow> audit_event) list \<Rightarrow> tx \<Rightarrow> tx res" where
  "insert_audits v [] t = Inr t"
| "insert_audits v (ev # evs) t = bind_res (insert_audit v ev t) (insert_audits v evs)"

definition commit :: "store_env \<Rightarrow> database \<Rightarrow> tx res \<Rightarrow> database \<times> go_error option" where
  "commit v db r =
     (case r of
        Inl e \<Rightarrow> (db, Some e)
      | Inr t \<Rightarrow> (case se_fault v (tx_count t) of Some e \<Rightarrow> (db, Some e) | None \<Rightarrow> (tx_db t, None)))"

definition start_tx :: "database \<Rightarrow> tx" where
  "start_tx db = \<lparr>tx_db = db, tx_count = 1, tx_ids = 0\<rparr>"

definition transaction ::
  "store_env \<Rightarrow> (tx \<Rightarrow> tx res) \<Rightarrow> database \<Rightarrow> database \<times> go_error option" where
  "transaction v body db =
     (case se_fault v 0 of Some e \<Rightarrow> (db, Some e) | None \<Rightarrow> commit v db (body (start_tx db)))"

text \<open>A single statement outside a transaction, and a query.\<close>

definition execute_one ::
  "store_env \<Rightarrow> (database \<Rightarrow> database res) \<Rightarrow> database \<Rightarrow> database \<times> go_error option" where
  "execute_one v f db =
     (case se_fault v 0 of
        Some e \<Rightarrow> (db, Some e)
      | None \<Rightarrow> (case f db of Inl e \<Rightarrow> (db, Some e) | Inr db' \<Rightarrow> (db', None)))"

definition query :: "store_env \<Rightarrow> 'a res \<Rightarrow> 'a res" where
  "query v r = (case se_fault v 0 of Some e \<Rightarrow> Inl e | None \<Rightarrow> r)"

definition program_event ::
  "string \<Rightarrow> string \<Rightarrow> string \<Rightarrow> string \<Rightarrow> string \<Rightarrow> details \<Rightarrow> string \<Rightarrow> audit_event" where
  "program_event typ component actor program message d i =
     \<lparr>au_id = i, au_type = typ, au_component = component, au_actor = actor, au_task_id = None,
      au_program_id = Some program, au_workflow_run_id = None, au_step_run_id = None,
      au_tool_run_id = None, au_capability = None, au_provider = None, au_message = message,
      au_details = d\<rparr>"

definition string_map :: "(string \<times> string) list \<Rightarrow> details" where
  "string_map kvs = DJson (JObj (map (\<lambda>(k, s). (k, JStr s)) kvs))"

subsection \<open>Changes of a scope\<close>

definition difference :: "string list \<Rightarrow> string list \<Rightarrow> string list" where
  "difference left right = sort (List.filter (\<lambda>s. s \<notin> set right) left)"

definition scope_change_of :: "string \<Rightarrow> string list \<Rightarrow> string list \<Rightarrow> scope_snapshot \<Rightarrow> scope_change" where
  "scope_change_of previous_plan previous_include previous_exclude s =
     (let added_include = difference (sn_include_rule_digests s) previous_include;
          removed_exclude = difference previous_exclude (sn_exclude_rule_digests s)
      in \<lparr>sch_changed = (previous_plan \<noteq> sn_target_plan_digest s),
          sch_expands_scope = (previous_plan \<noteq> [] \<and> (added_include \<noteq> [] \<or> removed_exclude \<noteq> [])),
          sch_acknowledged = False, sch_added_include_digests = added_include,
          sch_removed_include_digests = difference previous_include (sn_include_rule_digests s),
          sch_added_exclude_digests = difference (sn_exclude_rule_digests s) previous_exclude,
          sch_removed_exclude_digests = removed_exclude\<rparr>)"

text \<open>
  The lists of maps of a target plan that the audit log records; a text that does not decode
  records nothing. The field names are matched exactly. A raw message that is no JSON text makes
  the encoder fail, for which \<^verbatim>\<open>mustJSON\<close> stores an empty object.
\<close>

definition raw_json :: "store_env \<Rightarrow> string \<Rightarrow> json option" where
  "raw_json v s = (if s = [] then Some JNull else se_json v s)"

definition json_maps :: "json option \<Rightarrow> (string \<times> json) list list option" where
  "json_maps v =
     (case v of
        None \<Rightarrow> Some []
      | Some JNull \<Rightarrow> Some []
      | Some (JArr xs) \<Rightarrow>
          if list_all (\<lambda>x. case x of JObj kvs \<Rightarrow> True | JNull \<Rightarrow> True | _ \<Rightarrow> False) xs
          then Some (map (\<lambda>x. case x of JObj kvs \<Rightarrow> kvs | _ \<Rightarrow> []) xs) else None
      | _ \<Rightarrow> None)"

definition plan_events :: "store_env \<Rightarrow> scope_snapshot \<Rightarrow> string \<Rightarrow> (string \<Rightarrow> audit_event) list" where
  "plan_events v s actor =
     (case parse_object (se_json v) (sn_target_plan s) of
        None \<Rightarrow> []
      | Some kvs \<Rightarrow>
          (case (json_maps (map_of kvs ''discovery_roots''), json_maps (map_of kvs ''exact_active_seeds''),
                 json_maps (map_of kvs ''wildcard_rules'')) of
             (Some roots, Some seeds, Some wildcards) \<Rightarrow>
               map (\<lambda>m. program_event
                     (if as_string (map_of m ''source'') = Some ''manual'' then ''discovery_root_manually_supplied''
                      else ''discovery_root_derived'')
                     ''targeting'' actor (sn_program_id s) ''discovery root recorded'' (DJson (JObj m))) roots
               @ map (\<lambda>m. program_event ''exact_seed_derived'' ''targeting'' actor (sn_program_id s)
                     ''exact seed derived'' (DJson (JObj m))) seeds
               @ map (\<lambda>m. program_event ''wildcard_rule_derived'' ''targeting'' actor (sn_program_id s)
                     ''wildcard rule derived'' (DJson (JObj m))) wildcards
           | _ \<Rightarrow> []))"

subsection \<open>Programs and scope versions\<close>

definition version_key :: "scope_version \<Rightarrow> string \<times> string" where
  "version_key r = (sn_program_id (sv_snapshot r), sn_target_plan_digest (sv_snapshot r))"

text \<open>\<open>created = None\<close> is the zero time.\<close>

definition create_program ::
  "store_env \<Rightarrow> program \<Rightarrow> scope_snapshot \<Rightarrow> int option \<Rightarrow> database \<Rightarrow> database \<times> go_error option" where
  "create_program v p s0 created db0 =
     transaction v (\<lambda>t0.
       bind_res (statement v (\<lambda>db.
           if pg_id p \<in> pg_id ` set (db_programs db) then Inl duplicate_key
           else bind_res (insert_unique pg_name p (db_programs db)) (\<lambda>rows. Inr (db\<lparr>db_programs := rows\<rparr>))) t0)
       (\<lambda>t1.
         let drawn = (sn_id s0 = []);
             t2 = t1\<lparr>tx_ids := (if drawn then Suc (tx_ids t1) else tx_ids t1)\<rparr>;
             created_at = (case created of None \<Rightarrow> pg_created_at p | Some c \<Rightarrow> c);
             s = s0\<lparr>sn_id := (if drawn then se_id v (tx_ids t1) else sn_id s0), sn_program_id := pg_id p,
                    sn_created_at := created_at, sn_expands_scope := False\<rparr>;
             row = \<lparr>sv_snapshot = s,
                    sv_acknowledged_by =
                      Some (if sn_acknowledged_by s0 = [] then ''program-creator'' else sn_acknowledged_by s0),
                    sv_acknowledged_at =
                      Some (case sn_acknowledged_at s0 of None \<Rightarrow> created_at | Some a \<Rightarrow> a),
                    sv_created_at = created_at\<rparr>
         in bind_res (statement v (\<lambda>db.
                bind_res (insert_unique version_key row (db_scope_versions db))
                  (\<lambda>rows. Inr (db\<lparr>db_scope_versions := rows\<rparr>))) t2)
              (insert_audits v
                 ([program_event ''program_created'' ''platform'' ''cli'' (pg_id p)
                     ''program created with scope snapshot'' (DProgram p),
                   program_event ''target_plan_generated'' ''targeting'' ''cli'' (pg_id p)
                     ''initial target plan generated''
                     (DJson (case raw_json v (pg_scope_plan_warnings p) of
                        None \<Rightarrow> JObj []
                      | Some w \<Rightarrow> JObj [(''scope_digest'', JStr (pg_scope_digest p)),
                          (''target_plan_digest'', JStr (pg_target_plan_digest p)), (''warnings'', w)])),
                   program_event ''scope_file_loaded'' ''targeting'' ''cli'' (pg_id p) ''initial scope file loaded''
                     (string_map [(''scope_reference'', pg_scope_reference p),
                        (''scope_digest'', pg_scope_digest p)])]
                  @ plan_events v s ''cli'')))) db0"

definition list_programs :: "store_env \<Rightarrow> database \<Rightarrow> program list res" where
  "list_programs v db = query v (Inr (sort_key pg_name (db_programs db)))"

text \<open>The version a new snapshot is compared with: the latest one that is in force.\<close>

definition in_force :: "scope_version \<Rightarrow> bool" where
  "in_force r \<longleftrightarrow> \<not> sn_expands_scope (sv_snapshot r) \<or> sv_acknowledged_at r \<noteq> None"

definition previous_version :: "string \<Rightarrow> database \<Rightarrow> scope_version option" where
  "previous_version program db =
     latest sv_created_at
       (List.filter (\<lambda>r. sn_program_id (sv_snapshot r) = program \<and> in_force r) (db_scope_versions db))"

definition change_against :: "scope_version option \<Rightarrow> scope_snapshot \<Rightarrow> scope_change" where
  "change_against previous s =
     (case previous of
        None \<Rightarrow> scope_change_of [] [] [] s
      | Some r \<Rightarrow> scope_change_of (sn_target_plan_digest (sv_snapshot r))
          (sn_include_rule_digests (sv_snapshot r)) (sn_exclude_rule_digests (sv_snapshot r)) s)"

definition merge_version :: "scope_version \<Rightarrow> scope_version \<Rightarrow> scope_version" where
  "merge_version old new =
     old\<lparr>sv_acknowledged_by :=
           (case sv_acknowledged_by old of None \<Rightarrow> sv_acknowledged_by new | Some a \<Rightarrow> Some a),
         sv_acknowledged_at :=
           (case sv_acknowledged_at old of None \<Rightarrow> sv_acknowledged_at new | Some a \<Rightarrow> Some a)\<rparr>"

definition version_row :: "store_env \<Rightarrow> string \<Rightarrow> scope_snapshot \<Rightarrow> scope_change \<Rightarrow> string \<Rightarrow> scope_version" where
  "version_row v i s change actor =
     \<lparr>sv_snapshot = s\<lparr>sn_id := i, sn_expands_scope := sch_expands_scope change,
         sn_added_include_digests := sch_added_include_digests change,
         sn_removed_include_digests := sch_removed_include_digests change,
         sn_added_exclude_digests := sch_added_exclude_digests change,
         sn_removed_exclude_digests := sch_removed_exclude_digests change,
         sn_created_at := se_now v\<rparr>,
      sv_acknowledged_by = (if sch_acknowledged change then Some actor else None),
      sv_acknowledged_at = (if sch_acknowledged change then Some (se_now v) else None),
      sv_created_at = se_now v\<rparr>"

definition adopt_scope :: "int \<Rightarrow> scope_snapshot \<Rightarrow> database \<Rightarrow> database" where
  "adopt_scope now s db =
     db\<lparr>db_programs := map (\<lambda>p. if pg_id p = sn_program_id s
          then p\<lparr>pg_scope_reference := sn_scope_reference s, pg_scope_digest := sn_scope_digest s,
                 pg_include_rule_digests := sn_include_rule_digests s,
                 pg_exclude_rule_digests := sn_exclude_rule_digests s,
                 pg_target_plan_digest := sn_target_plan_digest s,
                 pg_scope_plan_warnings := sn_planning_warnings s, pg_updated_at := now\<rparr>
          else p) (db_programs db)\<rparr>"

definition change_events :: "scope_snapshot \<Rightarrow> scope_change \<Rightarrow> string \<Rightarrow> (string \<Rightarrow> audit_event) list" where
  "change_events s change actor =
     map (\<lambda>(typ, message). program_event typ ''targeting'' actor (sn_program_id s) message
            (if sch_changed change then DChange change
             else string_map [(''scope_digest'', sn_scope_digest s), (''target_plan_digest'', sn_target_plan_digest s)]))
       ([(''scope_file_loaded'', ''scope file loaded''), (''target_plan_generated'', ''target plan generated'')]
        @ (if sch_changed change then [(''scope_change_detected'', ''scope change detected'')] else []))"

definition record_change ::
  "store_env \<Rightarrow> scope_snapshot \<Rightarrow> scope_change \<Rightarrow> string \<Rightarrow> tx \<Rightarrow> tx res" where
  "record_change v s change actor t0 =
     bind_res (statement v (\<lambda>db. Inr (db\<lparr>db_scope_versions :=
         upsert version_key merge_version (version_row v (se_id v (tx_ids t0)) s change actor)
           (db_scope_versions db)\<rparr>)) (t0\<lparr>tx_ids := Suc (tx_ids t0)\<rparr>))
       (\<lambda>t1. if sch_acknowledged change then statement v (\<lambda>db. Inr (adopt_scope (se_now v) s db)) t1 else Inr t1)"

definition no_change :: scope_change where
  "no_change =
     \<lparr>sch_changed = False, sch_expands_scope = False, sch_acknowledged = False,
      sch_added_include_digests = [], sch_removed_include_digests = [],
      sch_added_exclude_digests = [], sch_removed_exclude_digests = []\<rparr>"

definition change_made :: "scope_snapshot \<Rightarrow> bool \<Rightarrow> database \<Rightarrow> scope_change" where
  "change_made s acknowledge db =
     (let found = change_against (previous_version (sn_program_id s) db) s
      in if sch_changed found then found\<lparr>sch_acknowledged := (\<not> sch_expands_scope found \<or> acknowledge)\<rparr> else found)"

definition check_and_record ::
  "store_env \<Rightarrow> scope_snapshot \<Rightarrow> bool \<Rightarrow> string \<Rightarrow> database \<Rightarrow>
     database \<times> scope_change \<times> go_error option" where
  "check_and_record v s acknowledge actor db =
     (case (se_fault v 0, se_fault v 1) of
        (Some e, _) \<Rightarrow> (db, no_change, Some e)
      | (None, Some e) \<Rightarrow> (db, no_change, Some e)
      | (None, None) \<Rightarrow>
          let change = change_made s acknowledge db;
              t = (start_tx db)\<lparr>tx_count := 2\<rparr>;
              recorded = (if sch_changed change then record_change v s change actor t else Inr t);
              result = commit v db (bind_res recorded
                (insert_audits v (change_events s change actor
                   @ plan_events v (if sch_changed change
                       then sv_snapshot (version_row v (se_id v 0) s change actor) else s) actor)))
          in (fst result, change, snd result))"

subsection \<open>Workflow definitions and tasks\<close>

definition create_workflow_definition ::
  "store_env \<Rightarrow> string \<Rightarrow> string \<Rightarrow> string \<Rightarrow> string \<Rightarrow> string \<Rightarrow> database \<Rightarrow>
     database \<times> go_error option" where
  "create_workflow_definition v i name version description definition_text db0 =
     execute_one v (\<lambda>db. Inr (db\<lparr>db_workflows :=
         upsert (\<lambda>r. (wd_row_name r, wd_row_version r))
           (\<lambda>old new. old\<lparr>wd_row_description := wd_row_description new, wd_row_definition := wd_row_definition new\<rparr>)
           \<lparr>wd_row_id = i, wd_row_name = name, wd_row_version = version, wd_row_description = description,
            wd_row_definition = definition_text\<rparr> (db_workflows db)\<rparr>)) db0"

definition workflow_definition_id :: "store_env \<Rightarrow> string \<Rightarrow> string \<Rightarrow> database \<Rightarrow> string res" where
  "workflow_definition_id v name version db =
     query v (case List.filter (\<lambda>r. wd_row_name r = name \<and> wd_row_version r = version) (db_workflows db) of
                [] \<Rightarrow> Inl no_rows | r # _ \<Rightarrow> Inr (wd_row_id r))"

definition task_event :: "string \<Rightarrow> string \<Rightarrow> string \<Rightarrow> string \<Rightarrow> details \<Rightarrow> string \<Rightarrow> audit_event" where
  "task_event typ actor task message d i =
     \<lparr>au_id = i, au_type = typ, au_component = ''platform'', au_actor = actor, au_task_id = Some task,
      au_program_id = None, au_workflow_run_id = None, au_step_run_id = None, au_tool_run_id = None,
      au_capability = None, au_provider = None, au_message = message, au_details = d\<rparr>"

text \<open>The columns a new task does not set have their defaults.\<close>

definition create_task :: "store_env \<Rightarrow> task \<Rightarrow> database \<Rightarrow> database \<times> go_error option" where
  "create_task v t db0 =
     transaction v (\<lambda>x.
       bind_res (statement v (\<lambda>db.
           bind_res (insert_unique tk_id
               (t\<lparr>tk_schedule_reference := None, tk_cancelled_at := None, tk_cancellation_reason := []\<rparr>) (db_tasks db))
             (\<lambda>rows. Inr (db\<lparr>db_tasks := rows\<rparr>))) x)
       (insert_audit v (task_event ''task_created'' (tk_requested_by t) (tk_id t) ''task created'' (DTask t)))) db0"

definition list_tasks :: "store_env \<Rightarrow> database \<Rightarrow> task list res" where
  "list_tasks v db = query v (Inr (sort_key (\<lambda>t. - tk_created_at t) (db_tasks db)))"

definition get_task :: "store_env \<Rightarrow> string \<Rightarrow> database \<Rightarrow> task res" where
  "get_task v i db =
     query v (case List.filter (\<lambda>t. tk_id t = i) (db_tasks db) of [] \<Rightarrow> Inl no_rows | t # _ \<Rightarrow> Inr t)"

definition set_task_status ::
  "store_env \<Rightarrow> string \<Rightarrow> task_status \<Rightarrow> string \<Rightarrow> database \<Rightarrow> database \<times> go_error option" where
  "set_task_status v i status why db0 =
     transaction v (\<lambda>x.
       bind_res (statement v (\<lambda>db.
           if i \<notin> tk_id ` set (db_tasks db) then Inl (Err (''task '' @ i @ '' not found''))
           else Inr (db\<lparr>db_tasks := map (\<lambda>t. if tk_id t = i
                then t\<lparr>tk_status := status, tk_updated_at := se_now v,
                       tk_cancelled_at := (if status = TaskCancelled then Some (se_now v) else tk_cancelled_at t),
                       tk_cancellation_reason := (if why \<noteq> [] then why else tk_cancellation_reason t)\<rparr>
                else t) (db_tasks db)\<rparr>)) x)
       (insert_audit v (task_event ''task_status_changed'' ''human'' i ''task status changed''
          (string_map [(''status'', task_status_string status), (''reason'', why)])))) db0"

definition create_workflow_run :: "store_env \<Rightarrow> workflow_run \<Rightarrow> database \<Rightarrow> database \<times> go_error option" where
  "create_workflow_run v r db0 =
     execute_one v (\<lambda>db. bind_res (insert_unique wr_id r (db_runs db)) (\<lambda>rows. Inr (db\<lparr>db_runs := rows\<rparr>))) db0"

definition get_workflow_run :: "store_env \<Rightarrow> string \<Rightarrow> database \<Rightarrow> workflow_run res" where
  "get_workflow_run v i db =
     query v (case List.filter (\<lambda>r. wr_id r = i) (db_runs db) of [] \<Rightarrow> Inl no_rows | r # _ \<Rightarrow> Inr r)"

subsection \<open>Approvals\<close>

definition list_approvals :: "store_env \<Rightarrow> database \<Rightarrow> approval list res" where
  "list_approvals v db = query v (Inr (sort_key (\<lambda>a. - ap_requested_at a) (db_approvals db)))"

definition decided_event :: "database \<Rightarrow> string \<Rightarrow> string \<Rightarrow> string \<Rightarrow> (string \<Rightarrow> audit_event) list" where
  "decided_event db i decision actor =
     concat (map (\<lambda>a. map (\<lambda>t.
         (\<lambda>j. \<lparr>au_id = j,
            au_type = (if decision = ''approved'' then ''moderate_approval_accepted'' else ''moderate_approval_rejected''),
            au_component = ''platform'', au_actor = actor, au_task_id = Some (ap_task_id a),
            au_program_id = Some (tk_program_id t), au_workflow_run_id = None, au_step_run_id = None,
            au_tool_run_id = None, au_capability = None, au_provider = None,
            au_message = ''moderate approval decided'', au_details = string_map [(''decision'', decision)]\<rparr>))
         (List.filter (\<lambda>t. tk_id t = ap_task_id a) (db_tasks db)))
       (List.filter (\<lambda>a. ap_id a = i) (db_approvals db)))"

text \<open>The event is one statement with one id, which selects its rows by joining the approval with its task.\<close>

definition insert_selected ::
  "store_env \<Rightarrow> (database \<Rightarrow> (string \<Rightarrow> audit_event) list) \<Rightarrow> tx \<Rightarrow> tx res" where
  "insert_selected v rows t =
     statement v (\<lambda>db. Inr (db\<lparr>db_audit := db_audit db @ map (\<lambda>ev. ev (se_id v (tx_ids t))) (rows db)\<rparr>))
       (t\<lparr>tx_ids := Suc (tx_ids t)\<rparr>)"

definition decide_approval ::
  "store_env \<Rightarrow> string \<Rightarrow> string \<Rightarrow> string \<Rightarrow> database \<Rightarrow> database \<times> go_error option" where
  "decide_approval v i decision actor db0 =
     (if decision \<noteq> ''approved'' \<and> decision \<noteq> ''rejected'' then (db0, Some (Err ''invalid decision''))
      else transaction v (\<lambda>x.
        bind_res (statement v (\<lambda>db.
            if \<not> list_ex (\<lambda>a. ap_id a = i \<and> ap_decision a = ''pending'') (db_approvals db)
            then Inl (Err (''pending approval '' @ i @ '' not found''))
            else Inr (db\<lparr>db_approvals := map (\<lambda>a. if ap_id a = i \<and> ap_decision a = ''pending''
                 then a\<lparr>ap_decision := decision, ap_decided_by := Some actor, ap_decided_at := Some (se_now v)\<rparr>
                 else a) (db_approvals db)\<rparr>)) x)
        (insert_selected v (\<lambda>db. decided_event db i decision actor))) db0)"

definition step_approved :: "store_env \<Rightarrow> string \<Rightarrow> database \<Rightarrow> bool res" where
  "step_approved v step db =
     query v (Inr (list_ex (\<lambda>a. ap_request_id a = step \<and> ap_decision a = ''approved'' \<and>
       (case ap_expires_at a of None \<Rightarrow> True | Some e \<Rightarrow> e > se_now v)) (db_approvals db)))"

definition step_approval_decision :: "store_env \<Rightarrow> string \<Rightarrow> database \<Rightarrow> string res" where
  "step_approval_decision v step db =
     query v (case List.filter (\<lambda>a. ap_request_id a = step) (db_approvals db) of
                [] \<Rightarrow> Inl no_rows | a # _ \<Rightarrow> Inr (ap_decision a))"

definition already_succeeded :: "store_env \<Rightarrow> string \<Rightarrow> database \<Rightarrow> bool res" where
  "already_succeeded v key db =
     query v (Inr (list_ex (\<lambda>s. sr_idempotency_key s = key \<and> sr_status s = StepSucceeded) (db_steps db)))"

subsection \<open>Policy decisions\<close>

definition policy_actor :: "decision_record \<Rightarrow> string" where
  "policy_actor r =
     (let a = trim_space (aq_requested_by (dr_action r)); p = trim_space (dr_phase r)
      in if a \<noteq> [] then a else if p \<noteq> [] then p else ''platform'')"

definition optional_id :: "string \<Rightarrow> string option" where
  "optional_id i = (if i = [] then None else Some i)"

definition policy_event_type :: "decision \<Rightarrow> string" where
  "policy_event_type d =
     (case d of Allow \<Rightarrow> ''policy_allowed'' | Deny \<Rightarrow> ''policy_denied'' | RequireApproval \<Rightarrow> ''policy_approval_required'')"

definition json_requirements :: "requirements \<Rightarrow> json" where
  "json_requirements r =
     JObj [(''authentication'', JBool (req_authentication r)), (''directory_fuzzing'', JBool (req_directory_fuzzing r)),
       (''cross_origin'', JBool (req_cross_origin r)), (''intrusive_checks'', JBool (req_intrusive_checks r))]"

definition record_policy_decision :: "store_env \<Rightarrow> decision_record \<Rightarrow> database \<Rightarrow> database \<times> go_error option" where
  "record_policy_decision v r db0 =
     (let a = dr_action r; e = dr_evaluation r in
      execute_one v (\<lambda>db. Inr (db\<lparr>db_audit := db_audit db @
        [\<lparr>au_id = se_id v 0, au_type = policy_event_type (pe_decision e), au_component = ''policy'',
          au_actor = policy_actor r, au_task_id = optional_id (aq_task_id a),
          au_program_id = optional_id (dr_program_id r), au_workflow_run_id = optional_id (aq_workflow_run_id a),
          au_step_run_id = optional_id (aq_step_run_id a), au_tool_run_id = None,
          au_capability = Some (aq_capability a), au_provider = Some (dr_provider r),
          au_message = ''policy '' @ decision_string (pe_decision e) @ '' for capability '' @ aq_capability a,
          au_details = DJson (JObj [(''policy_id'', JStr (dr_policy_id r)), (''phase'', JStr (dr_phase r)),
            (''decision'', JStr (decision_string (pe_decision e))), (''reason'', JStr (pe_reason e)),
            (''requirements'', json_requirements (dr_requirements r))])\<rparr>]\<rparr>)) db0)"

end
