(* ===== verification/DatabaseRuns.thy ===== *)
theory DatabaseRuns
  imports Database WorkflowFiles Normalize
begin

text \<open>
  \<^verbatim>\<open>internal/database/store.go\<close>, workflow states, results and artifacts. \<open>raws\<close> gives the raw texts
  of the elements of an array member of a JSON object (\<^verbatim>\<open>[]json.RawMessage\<close>), \<open>js\<close> is the JSON
  encoder. A workflow state is saved with the order in which Go ranges over its map of steps.
\<close>

subsection \<open>Saving the state of a workflow\<close>

definition merge_run :: "workflow_run \<Rightarrow> workflow_run \<Rightarrow> workflow_run" where
  "merge_run old new =
     old\<lparr>wr_status := wr_status new, wr_started_at := wr_started_at new, wr_completed_at := wr_completed_at new,
         wr_summary := wr_summary new\<rparr>"

definition merge_step :: "step_run \<Rightarrow> step_run \<Rightarrow> step_run" where
  "merge_step old new =
     old\<lparr>sr_status := sr_status new, sr_attempt_count := sr_attempt_count new, sr_input := sr_input new,
         sr_output := sr_output new, sr_error_classification := sr_error_classification new,
         sr_error_details := sr_error_details new, sr_started_at := sr_started_at new,
         sr_completed_at := sr_completed_at new, sr_approval_state := sr_approval_state new\<rparr>"

definition step_identity :: "step_run \<Rightarrow> string \<times> string \<times> string" where
  "step_identity s = (sr_workflow_run_id s, sr_step_definition_id s, sr_idempotency_key s)"

definition save_step_row :: "step_run \<Rightarrow> database \<Rightarrow> database res" where
  "save_step_row x db =
     (if sr_id x \<notin> sr_id ` set (db_steps db) \<and> step_identity x \<in> step_identity ` set (db_steps db)
      then Inl duplicate_key
      else Inr (db\<lparr>db_steps := upsert sr_id merge_step x (db_steps db)\<rparr>))"

definition merge_approval :: "approval \<Rightarrow> approval \<Rightarrow> approval" where
  "merge_approval old new =
     old\<lparr>ap_decision := (if ap_decision old \<in> {''approved'', ''rejected''} then ap_decision old else ap_decision new),
         ap_decided_by := (case ap_decided_by old of None \<Rightarrow> ap_decided_by new | Some a \<Rightarrow> Some a),
         ap_decided_at := (case ap_decided_at old of None \<Rightarrow> ap_decided_at new | Some a \<Rightarrow> Some a)\<rparr>"

definition approval_row :: "store_env \<Rightarrow> string \<Rightarrow> string \<Rightarrow> step_run \<Rightarrow> approval" where
  "approval_row v i task x =
     (let approved = (sr_approval_state x = ''approved'') in
      \<lparr>ap_id = i, ap_request_id = sr_id x, ap_task_id = task, ap_action_request_id = sr_id x, ap_risk = ''moderate'',
       ap_reason = ''workflow step '' @ sr_step_definition_id x, ap_requested_at = se_now v,
       ap_decision = sr_approval_state x, ap_decided_by = (if approved then Some ''workflow-operator'' else None),
       ap_decided_at = (if approved then Some (se_now v) else None), ap_expires_at = None\<rparr>)"

definition requested_event :: "string \<Rightarrow> string \<Rightarrow> step_run \<Rightarrow> database \<Rightarrow> (string \<Rightarrow> audit_event) list" where
  "requested_event task run x db =
     map (\<lambda>t. (\<lambda>i. \<lparr>au_id = i, au_type = ''moderate_approval_requested'', au_component = ''workflow'',
         au_actor = ''workflow'', au_task_id = Some task, au_program_id = Some (tk_program_id t),
         au_workflow_run_id = Some run, au_step_run_id = Some (sr_id x), au_tool_run_id = None,
         au_capability = Some (sr_capability x), au_provider = None, au_message = ''moderate approval requested'',
         au_details = string_map [(''step'', sr_step_definition_id x)]\<rparr>))
       (List.filter (\<lambda>t. tk_id t = task) (db_tasks db))"

definition save_step :: "store_env \<Rightarrow> workflow_run \<Rightarrow> step_run \<Rightarrow> tx \<Rightarrow> tx res" where
  "save_step v r x t0 =
     bind_res (statement v (save_step_row x) t0) (\<lambda>t1.
       if sr_approval_state x \<in> {''pending'', ''approved''}
       then bind_res (statement v (\<lambda>db. Inr (db\<lparr>db_approvals :=
              upsert ap_request_id merge_approval (approval_row v (se_id v (tx_ids t1)) (wr_task_id r) x)
                (db_approvals db)\<rparr>)) (t1\<lparr>tx_ids := Suc (tx_ids t1)\<rparr>))
            (\<lambda>t2. if sr_approval_state x = ''pending''
                  then insert_selected v (requested_event (wr_task_id r) (wr_id r) x) t2 else Inr t2)
       else Inr t1)"

fun save_steps :: "store_env \<Rightarrow> workflow_run \<Rightarrow> step_run list \<Rightarrow> tx \<Rightarrow> tx res" where
  "save_steps v r [] t = Inr t"
| "save_steps v r (x # xs) t = bind_res (save_step v r x t) (save_steps v r xs)"

definition state_event :: "wf_state \<Rightarrow> string \<Rightarrow> audit_event" where
  "state_event st i =
     (let r = ws_run st in
      \<lparr>au_id = i, au_type = ''workflow_state'', au_component = ''workflow'', au_actor = ''workflow'',
       au_task_id = Some (wr_task_id r), au_program_id = None, au_workflow_run_id = Some (wr_id r),
       au_step_run_id = None, au_tool_run_id = None, au_capability = None, au_provider = None,
       au_message = ''workflow state persisted'',
       au_details = DJson (JObj [(''status'', JStr (run_status_string (wr_status r))),
         (''event_count'', JNum (of_nat (length (ws_events st))))])\<rparr>)"

definition save_workflow_state ::
  "store_env \<Rightarrow> step_run list \<Rightarrow> wf_state \<Rightarrow> database \<Rightarrow> database \<times> go_error option" where
  "save_workflow_state v visited st db0 =
     transaction v (\<lambda>t.
       bind_res (statement v (\<lambda>db. Inr (db\<lparr>db_runs := upsert wr_id merge_run (ws_run st) (db_runs db)\<rparr>)) t)
       (\<lambda>t. bind_res (save_steps v (ws_run st) visited t) (insert_audit v (state_event st)))) db0"

text \<open>The persister of a workflow saves into the database first and then into the file store.\<close>

definition persister_save ::
  "store_env \<Rightarrow> step_run list \<Rightarrow> string res \<Rightarrow> faults \<Rightarrow> (wf_state \<Rightarrow> string res) \<Rightarrow> string \<Rightarrow> wf_state \<Rightarrow>
     database \<times> file_system \<Rightarrow> (database \<times> file_system) \<times> go_error option" where
  "persister_save v visited getwd w encode rdir st s =
     (case save_workflow_state v visited st (fst s) of
        (db, Some e) \<Rightarrow> ((db, snd s), Some e)
      | (db, None) \<Rightarrow> (case save_state getwd w encode rdir (Some st) (snd s) of (fs, e) \<Rightarrow> ((db, fs), e)))"

subsection \<open>What a result contains\<close>

fun string_items :: "json list \<Rightarrow> string list option" where
  "string_items [] = Some []"
| "string_items (x # xs) =
     (case x of
        JStr s \<Rightarrow> map_option (\<lambda>r. s # r) (string_items xs)
      | JNull \<Rightarrow> map_option (\<lambda>r. [] # r) (string_items xs)
      | _ \<Rightarrow> None)"

definition strings_field :: "json option \<Rightarrow> string list option" where
  "strings_field x =
     (case x of None \<Rightarrow> Some [] | Some JNull \<Rightarrow> Some [] | Some (JArr xs) \<Rightarrow> string_items xs | _ \<Rightarrow> None)"

definition text_field :: "json option \<Rightarrow> string option" where
  "text_field x = (case x of None \<Rightarrow> Some [] | Some JNull \<Rightarrow> Some [] | Some (JStr s) \<Rightarrow> Some s | _ \<Rightarrow> None)"

definition output_lines :: "json_parser \<Rightarrow> string \<Rightarrow> string list" where
  "output_lines jp raw =
     (case parse_object jp raw of
        None \<Rightarrow> []
      | Some kvs \<Rightarrow> (case strings_field (map_of kvs ''lines'') of None \<Rightarrow> [] | Some ls \<Rightarrow> ls))"

definition observation_lines :: "json_parser \<Rightarrow> (string \<Rightarrow> string \<Rightarrow> string list option) \<Rightarrow> string \<Rightarrow> string list" where
  "observation_lines jp raws raw =
     (case (if parse_object jp raw = None then None else raws raw ''authorized_records'') of
        Some (r # rs) \<Rightarrow> List.filter (\<lambda>x. jp x \<noteq> None) (r # rs)
      | _ \<Rightarrow> output_lines jp raw)"

fun string_field :: "(string \<times> json) list \<Rightarrow> string list \<Rightarrow> string" where
  "string_field kvs [] = []"
| "string_field kvs (k # ks) =
     (case map_of kvs k of
        Some (JStr s) \<Rightarrow> if s \<noteq> [] then s else string_field kvs ks
      | _ \<Rightarrow> string_field kvs ks)"

definition extract_value :: "json_parser \<Rightarrow> string \<Rightarrow> string" where
  "extract_value jp line =
     (case parse_object jp line of
        Some kvs \<Rightarrow>
          let s = string_field kvs [''target'', ''url'', ''input'', ''host'', ''ip'', ''matched-at'']
          in if s \<noteq> [] then s else trim_space line
      | None \<Rightarrow> trim_space line)"

definition asset_type_of :: "string \<Rightarrow> string" where
  "asset_type_of c =
     (if c = ''discover.subdomains'' \<or> c = ''resolve.dns'' then ''subdomain''
      else if c = ''scan.ports'' then ''network_service'' else if c = ''probe.http'' then ''http_service''
      else if c = ''crawl.web'' \<or> c = ''discover.archive_urls'' then ''url'' else [])"

subsection \<open>Observations, candidates and endpoints\<close>

definition asset_key :: "asset \<Rightarrow> string \<times> string \<times> string" where
  "asset_key a = (as_program_id a, as_type a, as_canonical_value a)"

definition upsert_asset :: "store_env \<Rightarrow> string \<Rightarrow> string \<Rightarrow> string \<Rightarrow> tx \<Rightarrow> tx res" where
  "upsert_asset v program typ canonical t =
     statement v (\<lambda>db. Inr (db\<lparr>db_assets :=
         upsert asset_key (\<lambda>old new. old\<lparr>as_updated_at := se_now v\<rparr>)
           \<lparr>as_id = se_id v (tx_ids t), as_program_id = program, as_type = typ, as_canonical_value = canonical,
            as_created_at = se_now v, as_updated_at = se_now v\<rparr> (db_assets db)\<rparr>))
       (t\<lparr>tx_ids := Suc (tx_ids t)\<rparr>)"

text \<open>The id that the statement returns: of the row with the key, old or new.\<close>

definition asset_id_of :: "string \<Rightarrow> string \<Rightarrow> string \<Rightarrow> database \<Rightarrow> string" where
  "asset_id_of program typ canonical db =
     (case List.filter (\<lambda>a. asset_key a = (program, typ, canonical)) (db_assets db) of
        [] \<Rightarrow> [] | a # _ \<Rightarrow> as_id a)"

definition observation_key :: "asset_observation \<Rightarrow> string \<times> string \<times> string \<times> string" where
  "observation_key b =
     (ob_asset_id b, ob_workflow_run_id b, ob_source_capability b, ob_observed_value b)"

fun persist_observations ::
  "store_env \<Rightarrow> json_printer \<Rightarrow> string \<Rightarrow> step_run \<Rightarrow> string list \<Rightarrow> string list \<Rightarrow> tx \<Rightarrow> tx res" where
  "persist_observations v js program step evidence [] t = Inr t"
| "persist_observations v js program step evidence (line # lines) t =
     (let seen = extract_value (se_json v) line; typ = asset_type_of (sr_capability step) in
      if seen = [] then persist_observations v js program step evidence lines t
      else bind_res (upsert_asset v program typ seen t) (\<lambda>t1.
        bind_res (statement v (\<lambda>db. Inr (db\<lparr>db_observations :=
            upsert observation_key
              (\<lambda>old new. old\<lparr>ob_metadata := ob_metadata new, ob_observed_at := ob_observed_at new,
                             ob_evidence_artifact_ids := ob_evidence_artifact_ids new\<rparr>)
              \<lparr>ob_id = se_id v (tx_ids t1), ob_asset_id = asset_id_of program typ seen db,
               ob_workflow_run_id = sr_workflow_run_id step, ob_source_capability = sr_capability step,
               ob_observed_value = seen,
               ob_metadata = (if se_json v line = None then js (JObj [(''value'', JStr line)]) else line),
               ob_first_seen_at = se_now v, ob_observed_at = se_now v, ob_confidence = 1,
               ob_evidence_artifact_ids = evidence\<rparr> (db_observations db)\<rparr>))
            (t1\<lparr>tx_ids := Suc (tx_ids t1)\<rparr>))
          (persist_observations v js program step evidence lines)))"

definition candidate_key :: "candidate \<Rightarrow> string \<times> string \<times> string" where
  "candidate_key c = (cd_workflow_run_id c, cd_target_asset_id c, cd_template_id c)"

definition match_info :: "(string \<times> json) list \<Rightarrow> string \<times> string" where
  "match_info kvs =
     (case map_of kvs ''info'' of
        Some (JObj info) \<Rightarrow> (string_field info [''name''], string_field info [''severity''])
      | _ \<Rightarrow> (''Nuclei scanner match'', ''unknown''))"

text \<open>The candidate takes the task of its run; without the run nothing is inserted.\<close>

definition insert_candidate ::
  "store_env \<Rightarrow> string \<Rightarrow> step_run \<Rightarrow> string list \<Rightarrow> string \<Rightarrow> string \<times> string \<Rightarrow> string \<Rightarrow> string \<Rightarrow> database \<Rightarrow>
     database" where
  "insert_candidate v program step evidence template info target i db =
     (case List.filter (\<lambda>r. wr_id r = sr_workflow_run_id step) (db_runs db) of
        [] \<Rightarrow> db
      | r # _ \<Rightarrow>
          db\<lparr>db_candidates :=
            upsert candidate_key
              (\<lambda>old new. old\<lparr>cd_evidence_artifact_ids := cd_evidence_artifact_ids new, cd_updated_at := se_now v\<rparr>)
              \<lparr>cd_id = i, cd_task_id = wr_task_id r, cd_workflow_run_id = sr_workflow_run_id step,
               cd_target_asset_id = asset_id_of program ''url'' target db,
               cd_source_capability = sr_capability step, cd_template_id = template, cd_claim = fst info,
               cd_severity = snd info, cd_evidence_artifact_ids = evidence, cd_confidence = 7 / 10,
               cd_status = ''new'', cd_updated_at = se_now v\<rparr> (db_candidates db)\<rparr>)"

fun persist_candidates ::
  "store_env \<Rightarrow> string \<Rightarrow> step_run \<Rightarrow> string list \<Rightarrow> string list \<Rightarrow> tx \<Rightarrow> tx res" where
  "persist_candidates v program step evidence [] t = Inr t"
| "persist_candidates v program step evidence (line # lines) t =
     (case parse_object (se_json v) line of
        None \<Rightarrow> persist_candidates v program step evidence lines t
      | Some kvs \<Rightarrow>
          let template = string_field kvs [''template-id'', ''templateID'', ''template''];
              target = string_field kvs [''matched-at'', ''matched'', ''host'', ''url'']
          in if template = [] \<or> target = [] then persist_candidates v program step evidence lines t
             else bind_res (upsert_asset v program ''url'' target t) (\<lambda>t1.
               bind_res (statement v
                   (\<lambda>db. Inr (insert_candidate v program step evidence template (match_info kvs) target
                              (se_id v (tx_ids t1)) db)) (t1\<lparr>tx_ids := Suc (tx_ids t1)\<rparr>))
                 (persist_candidates v program step evidence lines)))"

text \<open>A missing list of query parameters counts as an empty one.\<close>

definition decode_endpoint :: "json \<Rightarrow> endpoint_key option" where
  "decode_endpoint x =
     (let kvs = (case x of JObj kvs \<Rightarrow> kvs | _ \<Rightarrow> []) in
      if (case x of JObj _ \<Rightarrow> False | JNull \<Rightarrow> False | _ \<Rightarrow> True) then None
      else case (text_field (map_of kvs ''exact_url''), text_field (map_of kvs ''route_signature''),
                 text_field (map_of kvs ''method''), text_field (map_of kvs ''content_type''),
                 strings_field (map_of kvs ''query_parameters''), text_field (map_of kvs ''digest'')) of
             (Some e, Some r, Some m, Some c, Some q, Some d) \<Rightarrow>
               Some \<lparr>ek_exact_url = e, ek_route_signature = r, ek_method = m, ek_content_type = c,
                     ek_query_parameters = q, ek_digest = d\<rparr>
           | _ \<Rightarrow> None)"

fun decode_endpoints :: "json list \<Rightarrow> endpoint_key list option" where
  "decode_endpoints [] = Some []"
| "decode_endpoints (x # xs) =
     (case (decode_endpoint x, decode_endpoints xs) of (Some k, Some ks) \<Rightarrow> Some (k # ks) | _ \<Rightarrow> None)"

definition endpoint_row_key :: "endpoint_row \<Rightarrow> string \<times> string \<times> string \<times> string \<times> string list" where
  "endpoint_row_key r =
     (en_program_id r, en_route_signature r, en_method r, en_content_type r, en_parameters r)"

fun insert_endpoints :: "store_env \<Rightarrow> string \<Rightarrow> endpoint_key list \<Rightarrow> tx \<Rightarrow> tx res" where
  "insert_endpoints v program [] t = Inr t"
| "insert_endpoints v program (k # ks) t =
     bind_res (statement v (\<lambda>db. Inr (db\<lparr>db_endpoints :=
         upsert endpoint_row_key
           (\<lambda>old new. old\<lparr>en_exact_url := en_exact_url new, en_last_seen := se_now v\<rparr>)
           \<lparr>en_id = se_id v (tx_ids t), en_program_id = program, en_exact_url = ek_exact_url k,
            en_route_signature = ek_route_signature k, en_method = ek_method k,
            en_content_type = ek_content_type k, en_parameters = ek_query_parameters k,
            en_last_seen = se_now v\<rparr> (db_endpoints db)\<rparr>)) (t\<lparr>tx_ids := Suc (tx_ids t)\<rparr>))
       (insert_endpoints v program ks)"

definition persist_endpoints :: "store_env \<Rightarrow> string \<Rightarrow> string \<Rightarrow> tx \<Rightarrow> tx res" where
  "persist_endpoints v program raw t =
     (case parse_object (se_json v) raw of
        None \<Rightarrow> Inl json_error
      | Some kvs \<Rightarrow>
          (case map_of kvs ''endpoints'' of
             None \<Rightarrow> Inr t
           | Some JNull \<Rightarrow> Inr t
           | Some (JArr xs) \<Rightarrow>
               (case decode_endpoints xs of
                  None \<Rightarrow> Inl json_error | Some ks \<Rightarrow> insert_endpoints v program ks t)
           | _ \<Rightarrow> Inl json_error))"

subsection \<open>Persisting a result\<close>

definition provider_name :: "tool_run option \<Rightarrow> string" where
  "provider_name t = (case t of None \<Rightarrow> ''platform'' | Some r \<Rightarrow> tr_provider r)"

definition step_event ::
  "string \<Rightarrow> string \<Rightarrow> string \<Rightarrow> step_run \<Rightarrow> tool_run option \<Rightarrow> string \<Rightarrow> details \<Rightarrow> string \<Rightarrow> audit_event" where
  "step_event typ component program step tool message d i =
     \<lparr>au_id = i, au_type = typ, au_component = component, au_actor = ''worker'', au_task_id = None,
      au_program_id = Some program, au_workflow_run_id = Some (sr_workflow_run_id step),
      au_step_run_id = Some (sr_id step), au_tool_run_id = map_option tr_id tool,
      au_capability = Some (sr_capability step), au_provider = Some (provider_name tool), au_message = message,
      au_details = d\<rparr>"

definition artifact_event :: "string \<Rightarrow> step_run \<Rightarrow> tool_run option \<Rightarrow> artifact \<Rightarrow> string \<Rightarrow> audit_event" where
  "artifact_event program step tool a i =
     \<lparr>au_id = i, au_type = ''artifact_retention_applied'', au_component = ''retention'', au_actor = ''worker'',
      au_task_id = Some (art_task_id a), au_program_id = Some program,
      au_workflow_run_id = Some (art_workflow_run_id a), au_step_run_id = Some (art_step_run_id a),
      au_tool_run_id = Some (art_tool_run_id a), au_capability = Some (sr_capability step),
      au_provider = Some (provider_name tool), au_message = ''artifact retention recorded'',
      au_details = DJson (JObj [(''artifact_id'', JStr (art_id a)),
        (''expires_at'', case art_expires_at a of None \<Rightarrow> JNull | Some t \<Rightarrow> JNum (of_int t))])\<rparr>"

definition execution_event ::
  "step_run \<Rightarrow> tool_run option \<Rightarrow> action_result \<Rightarrow> database \<Rightarrow> (string \<Rightarrow> audit_event) list" where
  "execution_event step tool r db =
     map (\<lambda>w. (\<lambda>i. (step_event ''tool_execution'' ''worker'' [] step tool (ar_summary r) (DResult r) i)
                     \<lparr>au_task_id := Some (wr_task_id w), au_program_id := None\<rparr>))
       (List.filter (\<lambda>w. wr_id w = sr_workflow_run_id step) (db_runs db))"

text \<open>The decisions on targets that the output of a step reports; an output of another shape reports none.\<close>

definition filtered_type :: "string \<Rightarrow> string" where
  "filtered_type why =
     (if why = ''matched_exclusion'' then ''exclusion_matched''
      else if why = ''protocol_not_authorized'' \<or> why = ''port_not_authorized'' then ''protocol_or_port_rejected''
      else ''target_filtered'')"

fun filtered_items :: "json list \<Rightarrow> (string \<times> string) list option" where
  "filtered_items [] = Some []"
| "filtered_items (x # xs) =
     (case x of
        JObj kvs \<Rightarrow>
          (case (text_field (map_of kvs ''target''), text_field (map_of kvs ''reason''), filtered_items xs) of
             (Some t, Some r, Some rest) \<Rightarrow> Some ((t, r) # rest) | _ \<Rightarrow> None)
      | JNull \<Rightarrow> map_option (\<lambda>rest. ([], []) # rest) (filtered_items xs)
      | _ \<Rightarrow> None)"

definition decision_events ::
  "json_parser \<Rightarrow> string \<Rightarrow> step_run \<Rightarrow> tool_run option \<Rightarrow> string \<Rightarrow> (string \<Rightarrow> audit_event) list" where
  "decision_events jp program step tool raw =
     (case parse_object jp raw of
        None \<Rightarrow> []
      | Some kvs \<Rightarrow>
          (case (strings_field (map_of kvs ''authorized''),
                 case map_of kvs ''filtered'' of
                   None \<Rightarrow> Some [] | Some JNull \<Rightarrow> Some [] | Some (JArr xs) \<Rightarrow> filtered_items xs | _ \<Rightarrow> None) of
             (Some targets, Some items) \<Rightarrow>
               map (\<lambda>t. step_event ''target_accepted'' ''targeting'' program step tool ''target accepted''
                          (string_map [(''target'', t)])) targets
               @ map (\<lambda>(t, why). step_event (filtered_type why) ''targeting'' program step tool ''target filtered''
                          (string_map [(''target'', t), (''reason'', why)])) items
           | _ \<Rightarrow> []))"

definition update_step :: "step_run \<Rightarrow> database \<Rightarrow> database res" where
  "update_step x db =
     (if sr_id x \<notin> sr_id ` set (db_steps db) then Inl (Err (''step run '' @ sr_id x @ '' does not exist''))
      else Inr (db\<lparr>db_steps := map (\<lambda>s. if sr_id s = sr_id x
           then s\<lparr>sr_status := sr_status x, sr_output := sr_output x,
                  sr_error_classification := sr_error_classification x, sr_error_details := sr_error_details x,
                  sr_completed_at := sr_completed_at x\<rparr>
           else s) (db_steps db)\<rparr>))"

fun persist_artifacts ::
  "store_env \<Rightarrow> string \<Rightarrow> step_run \<Rightarrow> tool_run option \<Rightarrow> artifact list \<Rightarrow> tx \<Rightarrow> tx res" where
  "persist_artifacts v program step tool [] t = Inr t"
| "persist_artifacts v program step tool (a # artifacts) t =
     bind_res (statement v (\<lambda>db. Inr (db\<lparr>db_artifacts := upsert art_id (\<lambda>old new. old) a (db_artifacts db)\<rparr>)) t)
       (\<lambda>t. bind_res (insert_audit v (artifact_event program step tool a) t)
              (persist_artifacts v program step tool artifacts))"

definition persist_output ::
  "store_env \<Rightarrow> json_printer \<Rightarrow> (string \<Rightarrow> string \<Rightarrow> string list option) \<Rightarrow> string \<Rightarrow> step_run \<Rightarrow> artifact list \<Rightarrow>
     action_result \<Rightarrow> tx \<Rightarrow> tx res" where
  "persist_output v js raws program step artifacts r t0 =
     (let evidence = map art_id artifacts; c = sr_capability step; out = ar_output r in
      if sr_status step \<noteq> StepSucceeded then Inr t0
      else bind_res (if asset_type_of c = [] then Inr t0
                     else persist_observations v js program step evidence (observation_lines (se_json v) raws out) t0)
        (\<lambda>t1. if c = ''scan.nuclei''
               then persist_candidates v program step evidence (output_lines (se_json v) out) t1
               else if c = ''classify.endpoint'' then persist_endpoints v program out t1
               else Inr t1))"

definition persist_result ::
  "store_env \<Rightarrow> json_printer \<Rightarrow> (string \<Rightarrow> string \<Rightarrow> string list option) \<Rightarrow> string \<Rightarrow> step_run \<Rightarrow>
     tool_run option \<Rightarrow> artifact list \<Rightarrow> action_result \<Rightarrow> database \<Rightarrow> database \<times> go_error option" where
  "persist_result v js raws program step tool artifacts r db0 =
     transaction v (\<lambda>t.
       bind_res (statement v (update_step step) t) (\<lambda>t.
       bind_res (case tool of
                   None \<Rightarrow> Inr t
                 | Some x \<Rightarrow> statement v (\<lambda>db. Inr (db\<lparr>db_tools := upsert tr_id (\<lambda>old new. old) x (db_tools db)\<rparr>)) t)
         (\<lambda>t.
       bind_res (persist_artifacts v program step tool artifacts t) (\<lambda>t.
       bind_res (persist_output v js raws program step artifacts r t) (\<lambda>t.
       bind_res (insert_selected v (execution_event step tool r) t)
         (insert_audits v (decision_events (se_json v) program step tool (ar_output r)))))))) db0"

subsection \<open>Retention and history\<close>

definition expired :: "int \<Rightarrow> artifact \<Rightarrow> bool" where
  "expired now a \<longleftrightarrow> (case art_expires_at a of None \<Rightarrow> False | Some e \<Rightarrow> e \<le> now)"

definition expired_artifacts :: "store_env \<Rightarrow> int \<Rightarrow> database \<Rightarrow> artifact list res" where
  "expired_artifacts v max_items db =
     query v (Inr (take (nat max_items)
       (sort_key (\<lambda>a. (the (art_expires_at a), art_id a)) (List.filter (expired (se_now v)) (db_artifacts db)))))"

definition expired_event :: "string \<Rightarrow> int \<Rightarrow> database \<Rightarrow> (string \<Rightarrow> audit_event) list" where
  "expired_event i now db =
     concat (map (\<lambda>a. map (\<lambda>t. (\<lambda>j.
         \<lparr>au_id = j, au_type = ''artifact_expired'', au_component = ''retention'', au_actor = ''retention'',
          au_task_id = Some (art_task_id a), au_program_id = Some (tk_program_id t),
          au_workflow_run_id = Some (art_workflow_run_id a), au_step_run_id = Some (art_step_run_id a),
          au_tool_run_id = Some (art_tool_run_id a),
          au_capability = map_option tr_capability (find (\<lambda>x. tr_id x = art_tool_run_id a) (db_tools db)),
          au_provider = map_option tr_provider (find (\<lambda>x. tr_id x = art_tool_run_id a) (db_tools db)),
          au_message = ''expired artifact removed'', au_details = string_map [(''artifact_id'', i)]\<rparr>))
         (List.filter (\<lambda>t. tk_id t = art_task_id a) (db_tasks db)))
       (List.filter (\<lambda>a. art_id a = i \<and> expired now a) (db_artifacts db)))"

definition forget_stdout :: "string \<Rightarrow> database \<Rightarrow> database" where
  "forget_stdout i db =
     db\<lparr>db_tools := map (\<lambda>x. if tr_stdout_artifact_id x = Some i then x\<lparr>tr_stdout_artifact_id := None\<rparr> else x) (db_tools db)\<rparr>"

definition forget_stderr :: "string \<Rightarrow> database \<Rightarrow> database" where
  "forget_stderr i db =
     db\<lparr>db_tools := map (\<lambda>x. if tr_stderr_artifact_id x = Some i then x\<lparr>tr_stderr_artifact_id := None\<rparr> else x) (db_tools db)\<rparr>"

definition forget_observed :: "string \<Rightarrow> database \<Rightarrow> database" where
  "forget_observed i db =
     db\<lparr>db_observations :=
       map (\<lambda>b. b\<lparr>ob_evidence_artifact_ids := removeAll i (ob_evidence_artifact_ids b)\<rparr>) (db_observations db)\<rparr>"

definition forget_candidates :: "string \<Rightarrow> database \<Rightarrow> database" where
  "forget_candidates i db =
     db\<lparr>db_candidates :=
       map (\<lambda>c. c\<lparr>cd_evidence_artifact_ids := removeAll i (cd_evidence_artifact_ids c)\<rparr>) (db_candidates db)\<rparr>"

text \<open>The table of verification results has no other writer and is left out; its update can still fail.\<close>

definition delete_artifact_row :: "store_env \<Rightarrow> string \<Rightarrow> database \<Rightarrow> database \<times> go_error option" where
  "delete_artifact_row v i db0 =
     transaction v (\<lambda>t.
       bind_res (statement v (\<lambda>db.
           if expired_event i (se_now v) db = [] then Inl (Err (''expired artifact '' @ i @ '' not found''))
           else Inr (db\<lparr>db_audit := db_audit db @ map (\<lambda>ev. ev (se_id v 0)) (expired_event i (se_now v) db)\<rparr>)) t)
       (\<lambda>t. bind_res (statement v (\<lambda>db. Inr (forget_stdout i db)) t)
       (\<lambda>t. bind_res (statement v (\<lambda>db. Inr (forget_stderr i db)) t)
       (\<lambda>t. bind_res (statement v (\<lambda>db. Inr (forget_observed i db)) t)
       (\<lambda>t. bind_res (statement v (\<lambda>db. Inr (forget_candidates i db)) t)
       (\<lambda>t. bind_res (statement v Inr t)
       (statement v (\<lambda>db. Inr (db\<lparr>db_artifacts :=
          List.filter (\<lambda>a. \<not> (art_id a = i \<and> expired (se_now v) a)) (db_artifacts db)\<rparr>))))))))) db0"

text \<open>The runs of a program that completed, latest first (\<^verbatim>\<open>NULLS LAST\<close>).\<close>

definition completed_runs :: "string \<Rightarrow> database \<Rightarrow> workflow_run list" where
  "completed_runs program db =
     sort_key (\<lambda>r. case wr_completed_at r of None \<Rightarrow> (1 :: int, 0) | Some t \<Rightarrow> (0, - t))
       (List.filter (\<lambda>r. wr_status r = RunCompleted \<and>
          list_ex (\<lambda>t. tk_id t = wr_task_id r \<and> tk_program_id t = program) (db_tasks db)) (db_runs db))"

definition latest_changes :: "store_env \<Rightarrow> string \<Rightarrow> database \<Rightarrow> string res" where
  "latest_changes v program db =
     query v (case completed_runs program db of [] \<Rightarrow> Inl no_rows | r # _ \<Rightarrow> Inr (wr_summary r))"

definition previous_observation_values :: "store_env \<Rightarrow> string \<Rightarrow> string \<Rightarrow> string \<Rightarrow> database \<Rightarrow> string list res" where
  "previous_observation_values v program run c db =
     query v (Inr (case List.filter (\<lambda>r. wr_id r \<noteq> run) (completed_runs program db) of
        [] \<Rightarrow> []
      | r # _ \<Rightarrow> map ob_metadata (sort_key ob_observed_value
          (List.filter (\<lambda>b. ob_workflow_run_id b = wr_id r \<and> ob_source_capability b = c) (db_observations db)))))"

end
