(* ===== verification/DatabaseFacts.thy ===== *)
theory DatabaseFacts
  imports DatabaseRuns Worker
begin

text \<open>
  What holds of the operations of \<^verbatim>\<open>internal/database/store.go\<close>. The locales say what follows from a
  relation on databases that every statement respects: the transactions, the audited operations and the saving
  of a result respect it as well. They are interpreted with the permanence of history, with the frames of the
  scope operations and of the retention pass, and with the steps alone. The second half composes the store
  with the worker and with the purge of artifacts.
\<close>

subsection \<open>What a relation on databases that every statement respects gives\<close>

locale tx_relation =
  fixes rel :: "database \<Rightarrow> database \<Rightarrow> bool"
  assumes rel_refl: "rel db db"
    and rel_trans: "rel a b \<Longrightarrow> rel b c \<Longrightarrow> rel a c"
begin

definition keeps :: "(tx \<Rightarrow> tx res) \<Rightarrow> bool" where
  "keeps f \<longleftrightarrow> (\<forall>t t'. f t = Inr t' \<longrightarrow> rel (tx_db t) (tx_db t'))"

lemma keepsD: "keeps f \<Longrightarrow> f t = Inr t' \<Longrightarrow> rel (tx_db t) (tx_db t')"
  by (simp add: keeps_def)

lemma keeps_Inr: "keeps Inr"
  by (simp add: keeps_def rel_refl)

lemma keeps_Inl: "keeps (\<lambda>t. Inl (e t))"
  by (simp add: keeps_def)

lemma keeps_bind: "keeps f \<Longrightarrow> (\<And>t. keeps (g t)) \<Longrightarrow> keeps (\<lambda>t. bind_res (f t) (\<lambda>x. g t x))"
  unfolding keeps_def bind_res_Inr by (blast intro: rel_trans)

lemma keeps_if: "keeps f \<Longrightarrow> keeps g \<Longrightarrow> keeps (\<lambda>t. if b t then f t else g t)"
  by (simp add: keeps_def)

lemma keeps_ids: "keeps f \<Longrightarrow> keeps (\<lambda>t. f (t\<lparr>tx_ids := n t\<rparr>))"
  unfolding keeps_def by (metis tx.select_convs(1) tx.surjective tx.update_convs(3))

lemma keeps_statement:
  assumes "\<And>t db db'. f t db = Inr db' \<Longrightarrow> rel db db'"
  shows "keeps (\<lambda>t. statement v (f t) t)"
  using assms by (auto simp: keeps_def statement_def bind_res_Inr split: option.splits)

lemma keeps_statement_ids:
  assumes "\<And>t db db'. f t db = Inr db' \<Longrightarrow> rel db db'"
  shows "keeps (\<lambda>t. statement v (f t) (t\<lparr>tx_ids := n t\<rparr>))"
  using assms by (auto simp: keeps_def statement_def bind_res_Inr split: option.splits)

lemma commit_rel: "keeps f \<Longrightarrow> tx_db t = db \<Longrightarrow> rel db (fst (commit v db (f t)))"
  unfolding commit_def using keepsD [of f t] rel_refl by (auto split: sum.splits option.splits)

lemma transaction_rel: "keeps f \<Longrightarrow> rel db (fst (transaction v f db))"
  unfolding transaction_def using commit_rel [of f "start_tx db" db] rel_refl
  by (auto simp: start_tx_def split: option.splits)

lemma execute_one_rel:
  assumes "\<And>db'. f db = Inr db' \<Longrightarrow> rel db db'"
  shows "rel db (fst (execute_one v f db))"
  unfolding execute_one_def using assms rel_refl by (auto split: option.splits sum.splits)

end

text \<open>A relation that appending to the audit log respects as well.\<close>

locale audited_relation = tx_relation +
  assumes audit_rel: "rel db (db\<lparr>db_audit := db_audit db @ evs\<rparr>)"
begin

lemma keeps_audit: "keeps (insert_audit v ev)"
  unfolding insert_audit_def by (rule keeps_statement_ids) (auto simp: audit_rel)

lemma keeps_audits: "keeps (insert_audits v evs)"
proof (induction evs)
  case Nil
  then show ?case using keeps_Inr by (simp add: keeps_def)
next
  case (Cons ev evs)
  have "insert_audits v (ev # evs) = (\<lambda>t. bind_res (insert_audit v ev t) (insert_audits v evs))" by (rule ext) simp
  then show ?case using keeps_bind [OF keeps_audit Cons.IH] by simp
qed

lemma keeps_selected: "keeps (insert_selected v rows)"
  unfolding insert_selected_def by (rule keeps_statement_ids) (auto simp: audit_rel)

lemmas keeps_intros = keeps_bind keeps_if keeps_Inr keeps_Inl keeps_audit keeps_audits keeps_selected

end


text \<open>A relation that the statements a result is written with respect: each inserts a row or merges it into the
  row that has its key.\<close>

locale output_relation = audited_relation +
  assumes tools_rel: "rel db (db\<lparr>db_tools := upsert tr_id (\<lambda>old new. old) tool (db_tools db)\<rparr>)"
    and artifacts_rel: "rel db (db\<lparr>db_artifacts := upsert art_id (\<lambda>old new. old) art (db_artifacts db)\<rparr>)"
    and assets_rel: "rel db (db\<lparr>db_assets := upsert asset_key (\<lambda>old new. old\<lparr>as_updated_at := now\<rparr>) asset (db_assets db)\<rparr>)"
    and observations_rel: "rel db (db\<lparr>db_observations := upsert observation_key
      (\<lambda>old new. old\<lparr>ob_metadata := ob_metadata new, ob_observed_at := ob_observed_at new,
                     ob_evidence_artifact_ids := ob_evidence_artifact_ids new\<rparr>) seen (db_observations db)\<rparr>)"
    and candidates_rel: "rel db (db\<lparr>db_candidates := upsert candidate_key
      (\<lambda>old new. old\<lparr>cd_evidence_artifact_ids := cd_evidence_artifact_ids new, cd_updated_at := now\<rparr>)
      cand (db_candidates db)\<rparr>)"
    and endpoints_rel: "rel db (db\<lparr>db_endpoints := upsert endpoint_row_key
      (\<lambda>old new. old\<lparr>en_exact_url := en_exact_url new, en_last_seen := now\<rparr>) endp (db_endpoints db)\<rparr>)"
begin

lemma keeps_upsert_asset: "keeps (upsert_asset v program typ c)"
  unfolding upsert_asset_def by (rule keeps_statement_ids) (auto simp: assets_rel)

lemma insert_candidate_rel: "rel db (insert_candidate v program step evidence template info target i db)"
  unfolding insert_candidate_def by (auto simp: candidates_rel rel_refl split: list.splits)

lemma keeps_observations: "keeps (persist_observations v js program step evidence lines)"
proof (induction lines)
  case Nil
  then show ?case using keeps_Inr by (simp add: keeps_def)
next
  case (Cons line lines)
  have "keeps (\<lambda>t. persist_observations v js program step evidence (line # lines) t)"
    unfolding persist_observations.simps Let_def
    by (intro keeps_if Cons.IH keeps_bind keeps_upsert_asset keeps_statement_ids) (auto simp: observations_rel)
  then show ?case by simp
qed

lemma keeps_candidates: "keeps (persist_candidates v program step evidence lines)"
proof (induction lines)
  case Nil
  then show ?case using keeps_Inr by (simp add: keeps_def)
next
  case (Cons line lines)
  show ?case
  proof (cases "parse_object (se_json v) line")
    case None
    then show ?thesis using Cons.IH by (simp add: keeps_def)
  next
    case (Some kvs)
    have "keeps (\<lambda>t. persist_candidates v program step evidence (line # lines) t)"
      unfolding persist_candidates.simps Let_def Some option.case
      by (intro keeps_if Cons.IH keeps_bind keeps_upsert_asset keeps_statement_ids) (auto simp: insert_candidate_rel)
    then show ?thesis by simp
  qed
qed

lemma keeps_endpoints: "keeps (persist_endpoints v program raw)"
proof -
  have ks: "keeps (insert_endpoints v program ks)" for ks
  proof (induction ks)
    case Nil
    then show ?case using keeps_Inr by (simp add: keeps_def)
  next
    case (Cons k ks)
    have "keeps (\<lambda>t. insert_endpoints v program (k # ks) t)"
      unfolding insert_endpoints.simps
      by (intro Cons.IH keeps_bind keeps_statement_ids) (auto simp: endpoints_rel)
    then show ?case by simp
  qed
  show ?thesis
    unfolding keeps_def persist_endpoints_def
    using keepsD [OF ks] rel_refl by (auto split: option.splits json.splits)
qed

lemma keeps_artifacts: "keeps (persist_artifacts v program step tool artifacts)"
proof (induction artifacts)
  case Nil
  then show ?case using keeps_Inr by (simp add: keeps_def)
next
  case (Cons a artifacts)
  have "keeps (\<lambda>t. persist_artifacts v program step tool (a # artifacts) t)"
    unfolding persist_artifacts.simps
    by (intro Cons.IH keeps_bind keeps_statement keeps_audit) (auto simp: artifacts_rel)
  then show ?case by simp
qed

lemma keeps_tool:
  "keeps (\<lambda>t. case tool of None \<Rightarrow> Inr t
     | Some x \<Rightarrow> statement v (\<lambda>db. Inr (db\<lparr>db_tools := upsert tr_id (\<lambda>old new. old) x (db_tools db)\<rparr>)) t)"
  by (cases tool) (auto intro!: keeps_Inr keeps_statement tools_rel)

lemma keeps_output: "keeps (persist_output v js raws program step artifacts r)"
  unfolding persist_output_def Let_def
  by (intro keeps_if keeps_bind keeps_Inr keeps_observations keeps_candidates keeps_endpoints)

text \<open>Everything of a result after the row of the step.\<close>

lemma keeps_result_rest:
  "keeps (\<lambda>t. bind_res (case tool of None \<Rightarrow> Inr t
       | Some x \<Rightarrow> statement v (\<lambda>db. Inr (db\<lparr>db_tools := upsert tr_id (\<lambda>old new. old) x (db_tools db)\<rparr>)) t)
     (\<lambda>t. bind_res (persist_artifacts v program step tool artifacts t) (\<lambda>t.
       bind_res (persist_output v js raws program step artifacts r t) (\<lambda>t.
       bind_res (insert_selected v (execution_event step tool r) t) (insert_audits v evs)))))"
  by (intro keeps_bind keeps_tool keeps_artifacts keeps_output keeps_selected keeps_audits)

end

subsection \<open>The operations as steps\<close>

text \<open>Everything the store does to the database, in any order, by any caller.\<close>

inductive store_step :: "database \<Rightarrow> database \<Rightarrow> bool" where
  program_created: "store_step db (fst (create_program v p s c db))"
| scope_recorded: "store_step db (fst (check_and_record v s acknowledge actor db))"
| definition_created: "store_step db (fst (create_workflow_definition v i name version description d db))"
| task_created: "store_step db (fst (create_task v t db))"
| status_set: "store_step db (fst (set_task_status v i status why db))"
| run_created: "store_step db (fst (create_workflow_run v r db))"
| approval_decided: "store_step db (fst (decide_approval v i decision actor db))"
| policy_recorded: "store_step db (fst (record_policy_decision v dr db))"
| state_saved: "store_step db (fst (save_workflow_state v visited st db))"
| result_persisted: "store_step db (fst (persist_result v js raws program step tool artifacts res db))"
| artifact_deleted: "store_step db (fst (delete_artifact_row v i db))"

subsection \<open>History\<close>

definition decided :: "approval \<Rightarrow> bool" where
  "decided a \<longleftrightarrow> ap_decision a \<in> {''approved'', ''rejected''}"

definition keeps_history :: "database \<Rightarrow> database \<Rightarrow> bool" where
  "keeps_history db db' \<longleftrightarrow>
     (\<exists>evs. db_audit db' = db_audit db @ evs) \<and>
     (\<forall>a \<in> set (db_approvals db). decided a \<longrightarrow>
        (\<exists>b \<in> set (db_approvals db'). ap_id b = ap_id a \<and> ap_request_id b = ap_request_id a \<and>
           ap_decision b = ap_decision a))"

interpretation history: audited_relation keeps_history
proof unfold_locales
  show "keeps_history db db" for db by (auto simp: keeps_history_def)
  show "keeps_history db (db\<lparr>db_audit := db_audit db @ evs\<rparr>)" for db evs by (auto simp: keeps_history_def)
  show "keeps_history a c" if ab: "keeps_history a b" and bc: "keeps_history b c" for a b c
  proof -
    have "\<exists>z \<in> set (db_approvals c). ap_id z = ap_id x \<and> ap_request_id z = ap_request_id x \<and> ap_decision z = ap_decision x"
      if x: "x \<in> set (db_approvals a)" "decided x" for x
    proof -
      obtain y where y: "y \<in> set (db_approvals b)" "ap_id y = ap_id x" "ap_request_id y = ap_request_id x"
          "ap_decision y = ap_decision x"
        using ab x by (auto simp: keeps_history_def)
      then have "decided y" using x(2) by (simp add: decided_def)
      with bc y(1) obtain z where "z \<in> set (db_approvals c)" "ap_id z = ap_id y" "ap_request_id z = ap_request_id y"
          "ap_decision z = ap_decision y"
        unfolding keeps_history_def by blast
      with y show ?thesis by metis
    qed
    then show ?thesis using ab bc by (auto simp: keeps_history_def)
  qed
qed

text \<open>Statements that touch neither the log nor the approvals.\<close>

lemma history_same:
  "db_audit db' = db_audit db \<Longrightarrow> db_approvals db' = db_approvals db \<Longrightarrow> keeps_history db db'"
  by (auto simp: keeps_history_def)

lemma history_approvals:
  assumes "db_audit db' = db_audit db" and "db_approvals db' = map f (db_approvals db) @ new"
    and "\<And>a. decided a \<Longrightarrow> ap_id (f a) = ap_id a \<and> ap_request_id (f a) = ap_request_id a \<and> ap_decision (f a) = ap_decision a"
  shows "keeps_history db db'"
  using assms unfolding keeps_history_def by (fastforce intro: bexI)

lemma history_upsert_approval:
  "keeps_history db (db\<lparr>db_approvals := upsert ap_request_id merge_approval x (db_approvals db)\<rparr>)"
proof (cases "ap_request_id x \<in> ap_request_id ` set (db_approvals db)")
  case True
  then show ?thesis
    by (intro history_approvals [where new = "[]" and f = "\<lambda>old. if ap_request_id old = ap_request_id x then merge_approval old x else old"])
      (auto simp: upsert_def merge_approval_def decided_def)
next
  case False
  then show ?thesis
    by (intro history_approvals [where new = "[x]" and f = "\<lambda>a. a"]) (auto simp: upsert_def)
qed

lemma history_decide:
  "keeps_history db (db\<lparr>db_approvals := map (\<lambda>a. if ap_id a = i \<and> ap_decision a = ''pending''
     then a\<lparr>ap_decision := decision, ap_decided_by := b, ap_decided_at := t\<rparr> else a) (db_approvals db)\<rparr>)"
  by (rule history_approvals [where new = "[]" and f = "\<lambda>a. if ap_id a = i \<and> ap_decision a = ''pending''
     then a\<lparr>ap_decision := decision, ap_decided_by := b, ap_decided_at := t\<rparr> else a"]) (auto simp: decided_def)

subsection \<open>Keys\<close>

text \<open>
  The keys that a statement of the store checks or merges on. The ids that \<^verbatim>\<open>NewID\<close> draws (of scope
  versions, approvals, assets, observations, candidates, endpoints and audit events) and the ids of workflow
  definitions are not among them: nothing in the store compares them, the database refuses a repeated one.
\<close>

definition keys_ok :: "database \<Rightarrow> bool" where
  "keys_ok db \<longleftrightarrow>
     distinct (map pg_id (db_programs db)) \<and> distinct (map pg_name (db_programs db)) \<and>
     distinct (map version_key (db_scope_versions db)) \<and> distinct (map tk_id (db_tasks db)) \<and>
     distinct (map wr_id (db_runs db)) \<and> distinct (map sr_id (db_steps db)) \<and>
     distinct (map step_identity (db_steps db)) \<and> distinct (map ap_request_id (db_approvals db)) \<and>
     distinct (map (\<lambda>r. (wd_row_name r, wd_row_version r)) (db_workflows db)) \<and>
     distinct (map tr_id (db_tools db)) \<and> distinct (map art_id (db_artifacts db)) \<and>
     distinct (map asset_key (db_assets db)) \<and> distinct (map observation_key (db_observations db)) \<and>
     distinct (map candidate_key (db_candidates db)) \<and> distinct (map endpoint_row_key (db_endpoints db))"

lemma insert_unique_keys: "insert_unique key r rs = Inr rows \<Longrightarrow> distinct (map key rs) \<Longrightarrow> distinct (map key rows)"
  by (auto simp: insert_unique_def split: if_splits)

lemma upsert_map:
  assumes "\<And>old. key old = key new \<Longrightarrow> f (merge old new) = f old"
  shows "map f (upsert key merge new rs) =
    (if key new \<in> key ` set rs then map f rs else map f rs @ [f new])"
  using assms by (auto simp: upsert_def)

lemma upsert_keys:
  assumes "\<And>old. key old = key new \<Longrightarrow> key (merge old new) = key old" and "distinct (map key rs)"
  shows "distinct (map key (upsert key merge new rs))"
  using assms by (auto simp: upsert_map)

lemma map_if_keys: "(\<And>x. x \<in> set xs \<Longrightarrow> key (f x) = key x) \<Longrightarrow> map key (map f xs) = map key xs"
  by simp

definition store_rel :: "database \<Rightarrow> database \<Rightarrow> bool" where
  "store_rel db db' \<longleftrightarrow> keeps_history db db' \<and> (keys_ok db \<longrightarrow> keys_ok db')"

lemma store_same_history:
  "db_audit db' = db_audit db \<Longrightarrow> db_approvals db' = db_approvals db \<Longrightarrow> (keys_ok db \<Longrightarrow> keys_ok db') \<Longrightarrow> store_rel db db'"
  by (simp add: store_rel_def history_same)

interpretation store: output_relation store_rel
proof unfold_locales
  show "store_rel db db" for db by (simp add: store_rel_def history.rel_refl)
  show "store_rel a c" if "store_rel a b" "store_rel b c" for a b c
    using that history.rel_trans by (auto simp: store_rel_def)
  show "store_rel db (db\<lparr>db_audit := db_audit db @ evs\<rparr>)" for db evs
    using history.audit_rel by (simp add: store_rel_def keys_ok_def)
qed (rule store_same_history; simp add: keys_ok_def upsert_keys asset_key_def observation_key_def candidate_key_def
  endpoint_row_key_def)+

subsection \<open>Every operation respects history and keys\<close>

lemma create_program_rel: "store_rel db (fst (create_program v p s c db))"
  unfolding create_program_def Let_def
  by (intro store.transaction_rel store.keeps_bind store.keeps_statement_ids store.keeps_statement store.keeps_audits)
    (auto simp: bind_res_Inr keys_ok_def insert_unique_def split: if_splits intro!: store_same_history)

lemma check_and_record_rel: "store_rel db (fst (check_and_record v s acknowledge actor db))"
proof -
  have merge: "version_key (merge_version a b) = version_key a" for a b by (simp add: version_key_def merge_version_def)
  have adopt: "store_rel db (adopt_scope now s db)" for now s db
    by (rule store_same_history) (auto simp: adopt_scope_def keys_ok_def comp_def if_distrib cong: if_cong)
  have rc: "store.keeps (record_change v s change actor)" for change
    unfolding record_change_def
    by (intro store.keeps_bind store.keeps_statement_ids store.keeps_if store.keeps_statement store.keeps_Inr)
      (auto simp: adopt keys_ok_def merge intro!: store_same_history upsert_keys)
  have run: "store_rel db (fst (commit v db (bind_res (if b then record_change v s change actor t else Inr t)
      (insert_audits v evs))))" if t: "tx_db t = db" for b change t evs
  proof -
    have "store.keeps (\<lambda>t. bind_res (if b then record_change v s change actor t else Inr t) (insert_audits v evs))"
      by (intro store.keeps_bind store.keeps_if rc store.keeps_Inr store.keeps_audits)
    from store.commit_rel [OF this t] show ?thesis .
  qed
  show ?thesis
  proof (cases "se_fault v 0 = None \<and> se_fault v 1 = None")
    case True
    then show ?thesis
      unfolding check_and_record_def Let_def by (simp only: fst_conv prod.case option.case) (rule run, simp add: start_tx_def)
  next
    case False
    then have "fst (check_and_record v s acknowledge actor db) = db"
      by (auto simp: check_and_record_def split: option.splits)
    then show ?thesis by (simp add: store.rel_refl)
  qed
qed

lemma create_workflow_definition_rel: "store_rel db (fst (create_workflow_definition v i name version description d db))"
  unfolding create_workflow_definition_def
  by (rule store.execute_one_rel) (auto simp: keys_ok_def intro!: store_same_history upsert_keys)

lemma create_task_rel: "store_rel db (fst (create_task v t db))"
  unfolding create_task_def
  by (intro store.transaction_rel store.keeps_bind store.keeps_statement store.keeps_audit)
    (auto simp: bind_res_Inr keys_ok_def insert_unique_def split: if_splits intro!: store_same_history)

lemma set_task_status_rel: "store_rel db (fst (set_task_status v i status why db))"
  unfolding set_task_status_def
  by (intro store.transaction_rel store.keeps_bind store.keeps_statement store.keeps_audit)
    (auto simp: keys_ok_def comp_def if_distrib split: if_splits intro!: store_same_history cong: if_cong)

lemma create_workflow_run_rel: "store_rel db (fst (create_workflow_run v r db))"
  unfolding create_workflow_run_def
  by (rule store.execute_one_rel)
    (auto simp: bind_res_Inr keys_ok_def insert_unique_def split: if_splits intro!: store_same_history)

lemma decide_approval_rel: "store_rel db (fst (decide_approval v i decision actor db))"
proof -
  let ?f = "\<lambda>t. \<lambda>a. if ap_id a = i \<and> ap_decision a = ''pending''
     then a\<lparr>ap_decision := decision, ap_decided_by := Some actor, ap_decided_at := Some t\<rparr> else a"
  have keys: "keys_ok db \<Longrightarrow> keys_ok (db\<lparr>db_approvals := map (?f t) (db_approvals db)\<rparr>)" for t db
    by (simp add: keys_ok_def comp_def if_distrib [of ap_request_id] cong: if_cong)
  have "store_rel db (db\<lparr>db_approvals := map (?f t) (db_approvals db)\<rparr>)" for t db
    using history_decide keys by (simp add: store_rel_def)
  then have "store_rel db (fst (transaction v (\<lambda>x.
        bind_res (statement v (\<lambda>db.
            if \<not> list_ex (\<lambda>a. ap_id a = i \<and> ap_decision a = ''pending'') (db_approvals db)
            then Inl (Err (''pending approval '' @ i @ '' not found''))
            else Inr (db\<lparr>db_approvals := map (?f (se_now v)) (db_approvals db)\<rparr>)) x)
        (insert_selected v (\<lambda>db. decided_event db i decision actor))) db))"
    by (intro store.transaction_rel store.keeps_bind store.keeps_statement store.keeps_selected) (auto split: if_splits)
  then show ?thesis unfolding decide_approval_def by (simp add: store.rel_refl)
qed

lemma record_policy_decision_rel: "store_rel db (fst (record_policy_decision v r db))"
  unfolding record_policy_decision_def Let_def by (rule store.execute_one_rel) (auto intro: store.audit_rel)

lemma save_step_row_rel: "save_step_row x db = Inr db' \<Longrightarrow> store_rel db db'"
proof (rule store_same_history)
  assume r: "save_step_row x db = Inr db'"
  then have db': "db' = db\<lparr>db_steps := upsert sr_id merge_step x (db_steps db)\<rparr>"
    and new: "sr_id x \<notin> sr_id ` set (db_steps db) \<Longrightarrow> step_identity x \<notin> step_identity ` set (db_steps db)"
    by (auto simp: save_step_row_def split: if_splits)
  show "db_audit db' = db_audit db" "db_approvals db' = db_approvals db" by (simp_all add: db')
  have keep: "sr_id (merge_step a b) = sr_id a" "step_identity (merge_step a b) = step_identity a" for a b
    by (simp_all add: merge_step_def step_identity_def)
  show "keys_ok db'" if "keys_ok db"
    using that new unfolding keys_ok_def db' by (simp add: upsert_map keep)
qed

lemma save_step_keeps: "store.keeps (save_step v r x)"
proof -
  have keep: "ap_request_id (merge_approval a b) = ap_request_id a" for a b by (simp add: merge_approval_def)
  have "store_rel db (db\<lparr>db_approvals := upsert ap_request_id merge_approval a (db_approvals db)\<rparr>)" for db a
    using history_upsert_approval [of db a] by (auto simp: store_rel_def keys_ok_def upsert_map keep)
  then show ?thesis
    unfolding save_step_def
    by (intro store.keeps_bind store.keeps_if store.keeps_statement store.keeps_statement_ids store.keeps_selected store.keeps_Inr)
      (auto intro: save_step_row_rel)
qed

lemma save_steps_keeps: "store.keeps (save_steps v r xs)"
proof (induction xs)
  case Nil
  then show ?case using store.keeps_Inr by (simp add: store.keeps_def)
next
  case (Cons x xs)
  have "store.keeps (\<lambda>t. save_steps v r (x # xs) t)"
    unfolding save_steps.simps by (intro store.keeps_bind save_step_keeps Cons.IH)
  then show ?case by simp
qed

lemma save_workflow_state_rel: "store_rel db (fst (save_workflow_state v visited st db))"
  unfolding save_workflow_state_def
  by (intro store.transaction_rel store.keeps_bind store.keeps_statement save_steps_keeps store.keeps_audit)
    (auto simp: keys_ok_def merge_run_def intro!: store_same_history upsert_keys)

lemma update_step_rel: "update_step x db = Inr db' \<Longrightarrow> store_rel db db'"
  by (auto simp: update_step_def keys_ok_def comp_def step_identity_def [abs_def] if_distrib split: if_splits
      intro!: store_same_history cong: if_cong)

lemma persist_result_rel: "store_rel db (fst (persist_result v js raws program step tool artifacts r db))"
  unfolding persist_result_def
  by (rule store.transaction_rel, rule store.keeps_bind, rule store.keeps_statement, erule update_step_rel,
      rule store.keeps_result_rest)

text \<open>Forgetting an artifact changes the rows that name it in place.\<close>

lemma forget_rels:
  "store_rel db (forget_stdout i db)" "store_rel db (forget_stderr i db)"
  "store_rel db (forget_observed i db)" "store_rel db (forget_candidates i db)"
  by (rule store_same_history; simp add: forget_stdout_def forget_stderr_def forget_observed_def
      forget_candidates_def keys_ok_def comp_def observation_key_def [abs_def] candidate_key_def [abs_def]
      if_distrib cong: if_cong)+

lemma drop_artifact_rel: "store_rel db (db\<lparr>db_artifacts := List.filter keep (db_artifacts db)\<rparr>)"
  by (rule store_same_history) (simp_all add: keys_ok_def distinct_map_filter)

lemma delete_artifact_row_rel: "store_rel db (fst (delete_artifact_row v i db))"
  unfolding delete_artifact_row_def
  by (intro store.transaction_rel store.keeps_bind store.keeps_statement)
    (auto simp: store.rel_refl forget_rels drop_artifact_rel split: if_splits intro!: store.audit_rel)

lemma store_step_rel: "store_step db db' \<Longrightarrow> store_rel db db'"
  by (induction rule: store_step.induct)
    (rule create_program_rel check_and_record_rel create_workflow_definition_rel create_task_rel set_task_status_rel
      create_workflow_run_rel decide_approval_rel record_policy_decision_rel save_workflow_state_rel
      persist_result_rel delete_artifact_row_rel)+

lemma store_steps_rel: "store_step\<^sup>*\<^sup>* db db' \<Longrightarrow> store_rel db db'"
  by (induction rule: rtranclp_induct) (auto intro: store.rel_refl store.rel_trans [OF _ store_step_rel])

subsection \<open>What recording a scope change does\<close>

interpretation audit_only: audited_relation "\<lambda>db db'. \<exists>evs. db' = db\<lparr>db_audit := evs\<rparr>"
proof unfold_locales
  show "\<exists>evs. db = db\<lparr>db_audit := evs\<rparr>" for db :: database by (rule exI [of _ "db_audit db"]) simp
qed auto

lemma commit_None: "commit v db r = (db', None) \<Longrightarrow> \<exists>t. r = Inr t \<and> db' = tx_db t"
  by (auto simp: commit_def split: sum.splits option.splits)

lemma commit_Some: "commit v db r = (db', Some e) \<Longrightarrow> db' = db"
  by (auto simp: commit_def split: sum.splits option.splits)

lemma statement_Inr: "statement v f t = Inr t' \<Longrightarrow> f (tx_db t) = Inr (tx_db t')"
  by (auto simp: statement_def bind_res_Inr split: option.splits)

lemma record_change_Inr:
  assumes "record_change v s change actor t = Inr t'"
  shows "tx_db t' =
    (let db = tx_db t;
         db1 = db\<lparr>db_scope_versions :=
           upsert version_key merge_version (version_row v (se_id v (tx_ids t)) s change actor) (db_scope_versions db)\<rparr>
     in if sch_acknowledged change then adopt_scope (se_now v) s db1 else db1)"
  using assms unfolding record_change_def bind_res_Inr
  by (auto simp: Let_def dest!: statement_Inr split: if_splits)

lemma change_made_parts:
  "sch_changed (change_made s acknowledge db) = sch_changed (change_against (previous_version (sn_program_id s) db) s)"
  "sch_expands_scope (change_made s acknowledge db) =
     sch_expands_scope (change_against (previous_version (sn_program_id s) db) s)"
  by (simp_all add: change_made_def Let_def)

lemma check_and_record_spec:
  assumes "check_and_record v s acknowledge actor db = (db', change, e)"
  shows "(e \<noteq> None \<longrightarrow> db' = db) \<and>
    (e = None \<longrightarrow> change = change_made s acknowledge db \<and>
      (\<exists>evs. db' =
        (if sch_changed change
         then (let db1 = db\<lparr>db_scope_versions :=
                 upsert version_key merge_version (version_row v (se_id v 0) s change actor) (db_scope_versions db)\<rparr>
               in if sch_acknowledged change then adopt_scope (se_now v) s db1 else db1)
         else db)\<lparr>db_audit := evs\<rparr>)) \<and>
    (change = no_change \<or> change = change_made s acknowledge db)"
proof (cases "se_fault v 0 = None \<and> se_fault v 1 = None")
  case False
  then show ?thesis using assms by (auto simp: check_and_record_def split: option.splits)
next
  case True
  let ?c = "change_made s acknowledge db" and ?t = "(start_tx db)\<lparr>tx_count := 2\<rparr>"
  define evs where "evs = change_events s ?c actor
      @ plan_events v (if sch_changed ?c then sv_snapshot (version_row v (se_id v 0) s ?c actor) else s) actor"
  define rec where "rec = (if sch_changed ?c then record_change v s ?c actor ?t else Inr ?t)"
  have run: "commit v db (bind_res rec (insert_audits v evs)) = (db', e)" and c: "change = ?c"
    using assms True unfolding check_and_record_def Let_def rec_def evs_def by (auto simp: prod_eq_iff)
  have "\<exists>evs. db' = (if sch_changed change
         then (let db1 = db\<lparr>db_scope_versions :=
                 upsert version_key merge_version (version_row v (se_id v 0) s change actor) (db_scope_versions db)\<rparr>
               in if sch_acknowledged change then adopt_scope (se_now v) s db1 else db1)
         else db)\<lparr>db_audit := evs\<rparr>" if none: "e = None"
  proof -
    obtain t1 t2 where t1: "rec = Inr t1" and t2: "insert_audits v evs t1 = Inr t2" and db': "db' = tx_db t2"
      using commit_None [OF run [unfolded none]] by (auto simp: bind_res_Inr)
    have "tx_db t1 = (if sch_changed change
         then (let db1 = db\<lparr>db_scope_versions :=
                 upsert version_key merge_version (version_row v (se_id v 0) s change actor) (db_scope_versions db)\<rparr>
               in if sch_acknowledged change then adopt_scope (se_now v) s db1 else db1)
         else db)"
      using t1 record_change_Inr [of v s ?c actor ?t t1] unfolding rec_def c
      by (auto simp: start_tx_def Let_def split: if_splits)
    then show ?thesis using audit_only.keepsD [OF audit_only.keeps_audits t2] db' by simp
  qed
  then show ?thesis using run c commit_Some by (cases e) auto
qed


text \<open>
  The version a program is held to: the digest of its plan and the digests of its include and
  exclude rules. Recording a snapshot is meant to replace it unless nothing changed, or the change
  widens the scope and nobody acknowledged it.
\<close>

type_synonym scope_reference = "string \<times> string list \<times> string list"

definition reference_of :: "scope_snapshot \<Rightarrow> scope_reference" where
  "reference_of s = (sn_target_plan_digest s, sn_include_rule_digests s, sn_exclude_rule_digests s)"

definition reference :: "string \<Rightarrow> database \<Rightarrow> scope_reference option" where
  "reference program db = map_option (\<lambda>r. reference_of (sv_snapshot r)) (previous_version program db)"

definition widens :: "scope_reference \<Rightarrow> scope_snapshot \<Rightarrow> bool" where
  "widens old s = (case old of (_, includes, excludes) \<Rightarrow>
     \<not> (set (sn_include_rule_digests s) \<subseteq> set includes \<and> set excludes \<subseteq> set (sn_exclude_rule_digests s)))"

definition next_reference :: "scope_reference option \<Rightarrow> scope_snapshot \<Rightarrow> bool \<Rightarrow> scope_reference option" where
  "next_reference old s acknowledge =
     (case old of
        None \<Rightarrow> Some (reference_of s)
      | Some r \<Rightarrow>
          if fst r = sn_target_plan_digest s \<or> widens r s \<and> \<not> acknowledge then Some r else Some (reference_of s))"

lemma difference_Nil: "difference xs ys = [] \<longleftrightarrow> set xs \<subseteq> set ys"
  by (auto simp: difference_def filter_empty_conv)

lemma latest_Some: "latest time rs = Some r \<Longrightarrow> r \<in> set rs \<and> (\<forall>q \<in> set rs. time q \<le> time r)"
proof -
  assume "latest time rs = Some r"
  then obtain zs where zs: "sort_key (\<lambda>r. - time r) rs = r # zs" by (auto simp: latest_def split: list.splits)
  have "sorted (map (\<lambda>r. - time r) (r # zs))" using sorted_sort_key [of "\<lambda>r. - time r" rs] by (simp add: zs)
  moreover have "set rs = set (r # zs)" using set_sort [of "\<lambda>r. - time r" rs] by (simp add: zs)
  ultimately show ?thesis by auto
qed

lemma latest_None [simp]: "latest time rs = None \<longleftrightarrow> rs = []"
  by (auto simp: latest_def split: list.splits)

lemma latest_append:
  assumes "\<And>r. r \<in> set rs \<Longrightarrow> time r < time x"
  shows "latest time (rs @ [x]) = Some x"
proof (cases "latest time (rs @ [x])")
  case (Some y)
  then show ?thesis using latest_Some [OF Some] assms by force
qed simp

lemma previous_versions:
  "db_scope_versions db' = db_scope_versions db \<Longrightarrow> previous_version p db' = previous_version p db"
  by (simp add: previous_version_def)

text \<open>A row that is not in force changes no reference, whether it is inserted or merged into an older one.\<close>

lemma upsert_pending_version:
  assumes "sn_expands_scope (sv_snapshot x)" and "sv_acknowledged_at x = None" and "sv_acknowledged_by x = None"
    and "db_scope_versions db' = upsert version_key merge_version x (db_scope_versions db)"
  shows "previous_version p db' = previous_version p db"
proof -
  have "merge_version old x = old" for old using assms(2,3) by (auto simp: merge_version_def split: option.splits)
  then show ?thesis using assms by (auto simp: previous_version_def upsert_def in_force_def cong: if_cong)
qed

text \<open>A row in force with a new key and a later time than all becomes the reference of its program.\<close>

lemma upsert_new_version:
  assumes "version_key x \<notin> version_key ` set (db_scope_versions db)" and "in_force x"
    and "\<And>r. r \<in> set (db_scope_versions db) \<Longrightarrow> sv_created_at r < sv_created_at x"
    and "db_scope_versions db' = upsert version_key merge_version x (db_scope_versions db)"
  shows "previous_version p db' = (if p = sn_program_id (sv_snapshot x) then Some x else previous_version p db)"
proof -
  have rows: "db_scope_versions db' = db_scope_versions db @ [x]" using assms(1,4) by (simp add: upsert_def)
  show ?thesis
  proof (cases "p = sn_program_id (sv_snapshot x)")
    case True
    have "latest sv_created_at (List.filter (\<lambda>r. sn_program_id (sv_snapshot r) = p \<and> in_force r) (db_scope_versions db) @ [x]) = Some x"
      by (rule latest_append) (simp add: assms(3))
    then show ?thesis using True assms(2) by (simp add: previous_version_def rows)
  qed (auto simp: previous_version_def rows)
qed

lemma version_row_parts [simp]:
  "sn_program_id (sv_snapshot (version_row v i s c actor)) = sn_program_id s"
  "sn_expands_scope (sv_snapshot (version_row v i s c actor)) = sch_expands_scope c"
  "version_key (version_row v i s c actor) = (sn_program_id s, sn_target_plan_digest s)"
  "sv_created_at (version_row v i s c actor) = se_now v"
  "sv_acknowledged_at (version_row v i s c actor) = None \<longleftrightarrow> \<not> sch_acknowledged c"
  "sv_acknowledged_by (version_row v i s c actor) = None \<longleftrightarrow> \<not> sch_acknowledged c"
  "reference_of (sv_snapshot (version_row v i s c actor)) = reference_of s"
  by (simp_all add: version_row_def version_key_def reference_of_def)

text \<open>
  C10: Recording a scope changes nothing when it reports an error; a change that widens the scope
  is acknowledged only when the caller acknowledges the expansion, and while it is not, every
  program keeps the version it is compared with and no program row is updated.
\<close>

theorem unacknowledged_expansion_is_never_the_reference:
  assumes run: "check_and_record v s acknowledge actor db = (db', change, e)"
  shows "(e \<noteq> None \<longrightarrow> db' = db) \<and>
    (sch_expands_scope change \<and> sch_acknowledged change \<longrightarrow> acknowledge) \<and>
    (sch_expands_scope change \<and> \<not> sch_acknowledged change \<longrightarrow>
       (\<forall>p. previous_version p db' = previous_version p db) \<and> db_programs db' = db_programs db)"
proof -
  note spec = check_and_record_spec [OF run]
  have parts: "\<not> sch_expands_scope no_change" by (simp add: no_change_def)
  have made: "sch_expands_scope (change_made s acknowledge db) \<Longrightarrow> sch_acknowledged (change_made s acknowledge db) \<Longrightarrow> acknowledge"
    by (auto simp: change_made_def Let_def change_against_def scope_change_of_def split: option.splits if_splits)
  have "(\<forall>p. previous_version p db' = previous_version p db) \<and> db_programs db' = db_programs db"
    if c: "sch_expands_scope change" "\<not> sch_acknowledged change"
  proof (cases "e = None \<and> sch_changed change")
    case True
    then have versions: "db_scope_versions db' =
        upsert version_key merge_version (version_row v (se_id v 0) s change actor) (db_scope_versions db)"
      and "db_programs db' = db_programs db"
      using spec c(2) by (auto simp: Let_def)
    moreover have "previous_version p db' = previous_version p db" for p
      by (rule upsert_pending_version [OF _ _ _ versions]) (use c in simp_all)
    ultimately show ?thesis by simp
  next
    case False
    then show ?thesis using spec previous_versions [of db' db] by (cases "e = None") auto
  qed
  then show ?thesis using spec parts made by metis
qed

text \<open>
  C16: With a clock that advances and a target plan recorded for the first time (or again the one
  in force), recording a scope implements one step of the reference: the reference of the program
  becomes the new scope unless it widens the scope without an acknowledgement, and the references
  of other programs do not move.
\<close>

theorem recorded_scopes_refine_the_reference:
  assumes run: "check_and_record v s acknowledge actor db = (db', change, e)"
    and plan: "sn_target_plan_digest s \<noteq> []"
      "\<And>r. r \<in> set (db_scope_versions db) \<Longrightarrow> sn_target_plan_digest (sv_snapshot r) \<noteq> []"
    and clock: "\<And>r. r \<in> set (db_scope_versions db) \<Longrightarrow> sv_created_at r < se_now v"
    and fresh: "\<And>r. r \<in> set (db_scope_versions db) \<Longrightarrow>
      version_key r = (sn_program_id s, sn_target_plan_digest s) \<Longrightarrow> previous_version (sn_program_id s) db = Some r"
  shows "reference p db' =
    (if e = None \<and> p = sn_program_id s then next_reference (reference p db) s acknowledge else reference p db)"
proof (cases "e = None")
  case False
  then have "db' = db" using check_and_record_spec [OF run] by (cases e) auto
  then show ?thesis using False by auto
next
  case True
  note spec = check_and_record_spec [OF run]
  let ?c = "change_made s acknowledge db" and ?previous = "previous_version (sn_program_id s) db"
  have c: "change = ?c" using spec True by simp
  show ?thesis
  proof (cases "sch_changed change")
    case False
    then have "db_scope_versions db' = db_scope_versions db" using spec True by auto
    moreover have "\<exists>r. reference (sn_program_id s) db = Some r \<and> fst r = sn_target_plan_digest s"
      using False plan unfolding c change_made_parts
      by (auto simp: change_against_def scope_change_of_def Let_def reference_def reference_of_def split: option.splits)
    ultimately show ?thesis using True by (auto simp: reference_def previous_version_def next_reference_def)
  next
    case changed: True
    let ?x = "version_row v (se_id v 0) s change actor"
    have versions: "db_scope_versions db' = upsert version_key merge_version ?x (db_scope_versions db)"
      using spec True changed by (auto simp: Let_def adopt_scope_def)
    have digest: "\<And>r. ?previous = Some r \<Longrightarrow> sn_target_plan_digest (sv_snapshot r) \<noteq> sn_target_plan_digest s"
      using changed unfolding c change_made_parts by (auto simp: change_against_def scope_change_of_def Let_def)
    have new: "version_key ?x \<notin> version_key ` set (db_scope_versions db)"
    proof
      assume "version_key ?x \<in> version_key ` set (db_scope_versions db)"
      then obtain r where r: "r \<in> set (db_scope_versions db)" "version_key r = (sn_program_id s, sn_target_plan_digest s)"
        by auto
      from digest [OF fresh [OF this]] show False using r(2) by (simp add: version_key_def)
    qed
    have pw: "\<And>r. ?previous = Some r \<Longrightarrow> sn_target_plan_digest (sv_snapshot r) \<noteq> []"
      using plan(2) latest_Some unfolding previous_version_def by fastforce
    have expands: "sch_expands_scope change \<longleftrightarrow> (\<exists>r. reference (sn_program_id s) db = Some r \<and> widens r s)"
      using pw unfolding c change_made_parts
      by (auto simp: change_against_def scope_change_of_def Let_def reference_def reference_of_def widens_def
          difference_Nil split: option.splits)
    have ack: "sch_acknowledged change \<longleftrightarrow> \<not> sch_expands_scope change \<or> acknowledge"
      using changed unfolding c by (auto simp: change_made_def Let_def split: if_splits)
    show ?thesis
    proof (cases "sch_acknowledged change")
      case False
      then have "previous_version p db' = previous_version p db"
        using upsert_pending_version [OF _ _ _ versions] ack by simp
      moreover have "\<exists>r. reference (sn_program_id s) db = Some r \<and> widens r s" and "\<not> acknowledge"
        using False ack expands by auto
      ultimately show ?thesis using True by (auto simp: reference_def next_reference_def)
    next
      case acked: True
      have "in_force ?x" using acked by (simp add: in_force_def)
      from upsert_new_version [OF new this _ versions] clock
      have "previous_version p db' = (if p = sn_program_id s then Some ?x else previous_version p db)" by simp
      moreover have "next_reference (reference (sn_program_id s) db) s acknowledge = Some (reference_of s)"
        using ack acked expands digest
        by (auto simp: next_reference_def reference_def reference_of_def split: option.splits)
      ultimately show ?thesis using True by (auto simp: reference_def)
    qed
  qed
qed

subsection \<open>Samples\<close>

definition empty_store :: database where
  "empty_store =
     \<lparr>db_programs = [], db_scope_versions = [], db_workflows = [], db_tasks = [], db_approvals = [], db_runs = [],
      db_steps = [], db_tools = [], db_artifacts = [], db_assets = [], db_observations = [], db_candidates = [],
      db_endpoints = [], db_audit = []\<rparr>"

definition sample_store_env :: "int \<Rightarrow> store_env" where
  "sample_store_env now = \<lparr>se_fault = (\<lambda>n. None), se_id = itoa \<circ> int, se_now = now, se_json = (\<lambda>s. None)\<rparr>"

definition sample_snapshot :: "string \<Rightarrow> string list \<Rightarrow> scope_snapshot" where
  "sample_snapshot plan includes =
     \<lparr>sn_id = [], sn_program_id = ''p'', sn_scope_reference = ''scope.json'', sn_scope_digest = plan,
      sn_include_rule_digests = includes, sn_exclude_rule_digests = [], sn_target_plan_digest = plan,
      sn_planning_warnings = [], sn_target_plan = [], sn_expands_scope = False, sn_added_include_digests = [],
      sn_removed_include_digests = [], sn_added_exclude_digests = [], sn_removed_exclude_digests = [],
      sn_acknowledged_by = [], sn_acknowledged_at = None, sn_created_at = 0\<rparr>"

definition sample_store :: database where
  "sample_store = empty_store\<lparr>db_scope_versions :=
     [\<lparr>sv_snapshot = sample_snapshot ''A'' [''1''], sv_acknowledged_by = Some ''cli'', sv_acknowledged_at = Some 0,
       sv_created_at = 0\<rparr>]\<rparr>"

definition wider :: scope_snapshot where
  "wider = sample_snapshot ''B'' [''1'', ''2'']"

lemma sample_refused:
  "(case check_and_record (sample_store_env 5) wider False ''cli'' sample_store of (db', change, e) \<Rightarrow>
      e = None \<and> sch_expands_scope change \<and> \<not> sch_acknowledged change \<and> length (db_scope_versions db') = 2)"
  by code_simp

lemma unacknowledged_expansion_is_never_the_reference_witness:
  "\<exists>db' change. check_and_record (sample_store_env 5) wider False ''cli'' sample_store = (db', change, None) \<and>
     length (db_scope_versions db') = 2 \<and> previous_version ''p'' db' = previous_version ''p'' sample_store"
proof -
  obtain db' change where run: "check_and_record (sample_store_env 5) wider False ''cli'' sample_store = (db', change, None)"
    and c: "sch_expands_scope change" "\<not> sch_acknowledged change" "length (db_scope_versions db') = 2"
    using sample_refused by (auto split: prod.splits)
  with unacknowledged_expansion_is_never_the_reference [OF run] show ?thesis by blast
qed

lemma sample_accepted:
  "snd (snd (check_and_record (sample_store_env 5) wider True ''cli'' sample_store)) = None"
  by code_simp

lemma recorded_scopes_refine_the_reference_witness:
  "reference ''p'' (fst (check_and_record (sample_store_env 5) wider True ''cli'' sample_store)) =
     Some (''B'', [''1'', ''2''], [])"
proof -
  obtain db' change where run: "check_and_record (sample_store_env 5) wider True ''cli'' sample_store = (db', change, None)"
    using sample_accepted by (metis prod.collapse)
  have "reference ''p'' db' =
      (if (None :: go_error option) = None \<and> ''p'' = sn_program_id wider
       then next_reference (reference ''p'' sample_store) wider True else reference ''p'' sample_store)"
    by (rule recorded_scopes_refine_the_reference [OF run])
      (auto simp: wider_def sample_snapshot_def sample_store_def empty_store_def sample_store_env_def version_key_def)
  also have "\<dots> = next_reference (reference ''p'' sample_store) wider True" by (simp add: wider_def sample_snapshot_def)
  also have "\<dots> = Some (''B'', [''1'', ''2''], [])" by code_simp
  finally show ?thesis unfolding run fst_conv .
qed

text \<open>
  A row that is merged keeps its time. A program that goes back to an older scope is still compared
  with the newer one, so widening it again is no change and needs no acknowledgement.
\<close>

definition narrowed_again :: database where
  "narrowed_again =
     fst (check_and_record (sample_store_env 6) (sample_snapshot ''A'' [''1'']) False ''cli''
       (fst (check_and_record (sample_store_env 5) wider True ''cli'' sample_store)))"

lemma widening_again_goes_unnoticed:
  "(case check_and_record (sample_store_env 7) wider False ''cli'' narrowed_again of (db', change, e) \<Rightarrow>
      e = None \<and> \<not> sch_changed change \<and> \<not> sch_expands_scope change)"
  by code_simp

subsection \<open>History is permanent\<close>

text \<open>
  C17: Whatever operations of the store run, with whatever faults of the database: the audit log
  only grows at its end, an approval that was approved or rejected keeps its decision, and the
  keys that the statements check or merge on stay distinct: ids and names of programs, program and
  plan digest of scope versions, name and version of workflow definitions, ids of tasks, runs,
  steps, tool runs and artifacts, the identity of a step in its run, the request of an approval,
  and the natural keys of assets, observations, candidates and endpoints. The ids drawn for
  approvals, scope versions, audit events and the rows of the last four tables are not covered.
\<close>

theorem audit_log_and_decisions_are_permanent:
  assumes "store_step\<^sup>*\<^sup>* db db'"
  shows "(\<exists>evs. db_audit db' = db_audit db @ evs) \<and>
    (\<forall>a \<in> set (db_approvals db). ap_decision a \<in> {''approved'', ''rejected''} \<longrightarrow>
       (\<exists>b \<in> set (db_approvals db'). ap_id b = ap_id a \<and> ap_request_id b = ap_request_id a \<and>
          ap_decision b = ap_decision a)) \<and>
    (keys_ok db \<longrightarrow> keys_ok db')"
  using store_steps_rel [OF assms] unfolding store_rel_def keeps_history_def decided_def by blast

definition sample_pending :: database where
  "sample_pending = empty_store\<lparr>db_approvals :=
     [\<lparr>ap_id = ''a'', ap_request_id = ''s'', ap_task_id = ''t'', ap_action_request_id = ''s'', ap_risk = ''moderate'',
       ap_reason = [], ap_requested_at = 0, ap_decision = ''pending'', ap_decided_by = None, ap_decided_at = None,
       ap_expires_at = None\<rparr>]\<rparr>"

lemma sample_pending_decided:
  "map ap_decision (db_approvals (fst (decide_approval (sample_store_env 1) ''a'' ''rejected'' ''op'' sample_pending))) =
     [''rejected'']"
  by code_simp

lemma audit_log_and_decisions_are_permanent_witness:
  "\<exists>db. db = fst (decide_approval (sample_store_env 1) ''a'' ''rejected'' ''op'' sample_pending) \<and>
     map ap_decision (db_approvals db) = [''rejected''] \<and>
     (\<exists>b \<in> set (db_approvals (fst (decide_approval (sample_store_env 2) ''a'' ''approved'' ''op'' db))).
        ap_decision b = ''rejected'')"
proof -
  let ?db = "fst (decide_approval (sample_store_env 1) ''a'' ''rejected'' ''op'' sample_pending)"
  have decisions: "map ap_decision (db_approvals ?db) = [''rejected'']" by (rule sample_pending_decided)
  then obtain a where a: "db_approvals ?db = [a]" "ap_decision a = ''rejected''" by auto
  then have mem: "a \<in> set (db_approvals ?db)" "ap_decision a \<in> {''approved'', ''rejected''}" by simp_all
  have "store_step\<^sup>*\<^sup>* ?db (fst (decide_approval (sample_store_env 2) ''a'' ''approved'' ''op'' ?db))"
    by (intro r_into_rtranclp approval_decided)
  from audit_log_and_decisions_are_permanent [OF this]
  have "\<forall>a \<in> set (db_approvals ?db). ap_decision a \<in> {''approved'', ''rejected''} \<longrightarrow>
      (\<exists>b \<in> set (db_approvals (fst (decide_approval (sample_store_env 2) ''a'' ''approved'' ''op'' ?db))).
         ap_id b = ap_id a \<and> ap_request_id b = ap_request_id a \<and> ap_decision b = ap_decision a)"
    by (elim conjE)
  from mp [OF bspec [OF this mem(1)] mem(2)] obtain b
    where "b \<in> set (db_approvals (fst (decide_approval (sample_store_env 2) ''a'' ''approved'' ''op'' ?db)))"
      and "ap_decision b = ap_decision a"
    by (elim bexE conjE)
  then have "\<exists>b \<in> set (db_approvals (fst (decide_approval (sample_store_env 2) ''a'' ''approved'' ''op'' ?db))).
      ap_decision b = ''rejected''"
    using a(2) by (intro bexI [of _ b]) simp_all
  with decisions show ?thesis by (intro exI [of _ ?db] conjI refl)
qed

subsection \<open>A persisted success\<close>

interpretation steps_only: output_relation "\<lambda>db db'. db_steps db' = db_steps db"
  by unfold_locales auto

lemma persisted_steps:
  assumes "persist_result v js raws program step tool artifacts r db = (db', None)"
  shows "\<exists>db1. update_step step db = Inr db1 \<and> db_steps db' = db_steps db1"
proof -
  obtain t where "bind_res (statement v (update_step step) (start_tx db)) (\<lambda>t.
       bind_res (case tool of
                   None \<Rightarrow> Inr t
                 | Some x \<Rightarrow> statement v (\<lambda>db. Inr (db\<lparr>db_tools := upsert tr_id (\<lambda>old new. old) x (db_tools db)\<rparr>)) t)
         (\<lambda>t.
       bind_res (persist_artifacts v program step tool artifacts t) (\<lambda>t.
       bind_res (persist_output v js raws program step artifacts r t) (\<lambda>t.
       bind_res (insert_selected v (execution_event step tool r) t)
         (insert_audits v (decision_events (se_json v) program step tool (ar_output r))))))) = Inr t"
    and db': "db' = tx_db t"
    using assms commit_None unfolding persist_result_def transaction_def by (fastforce split: option.splits)
  then obtain t1 where t1: "statement v (update_step step) (start_tx db) = Inr t1"
    and rest: "bind_res (case tool of
                   None \<Rightarrow> Inr t1
                 | Some x \<Rightarrow> statement v (\<lambda>db. Inr (db\<lparr>db_tools := upsert tr_id (\<lambda>old new. old) x (db_tools db)\<rparr>)) t1)
         (\<lambda>t.
       bind_res (persist_artifacts v program step tool artifacts t) (\<lambda>t.
       bind_res (persist_output v js raws program step artifacts r t) (\<lambda>t.
       bind_res (insert_selected v (execution_event step tool r) t)
         (insert_audits v (decision_events (se_json v) program step tool (ar_output r)))))) = Inr t"
    unfolding bind_res_Inr by blast
  show ?thesis
    using statement_Inr [OF t1] steps_only.keepsD [OF steps_only.keeps_result_rest rest] db'
    by (auto simp: start_tx_def)
qed

text \<open>
  C11: Once the result of a succeeded step is persisted, a delivery with the idempotency key of
  that step executes nothing: the worker only reports the result as already present and
  acknowledges the message.
\<close>

theorem persisted_success_is_not_executed_again:
  assumes persisted: "persist_result v js raws program step tool artifacts r db = (db', None)"
    and success: "sr_status step = StepSucceeded"
    and row: "x \<in> set (db_steps db)" "sr_id x = sr_id step"
    and job: "aq_idempotency_key (jb_action (dl_job d)) = sr_idempotency_key x"
    and worker: "wk_already_succeeded w = (\<lambda>key. already_succeeded u key db')" and up: "se_fault u 0 = None"
  shows "handle_delivery env w d = ack_delivery env w d (duplicate_result (dl_job d)) \<and>
    (\<forall>q. WorkerCalled q \<notin> set (fst (handle_delivery env w d)))"
proof -
  obtain db1 where db1: "update_step step db = Inr db1" and steps: "db_steps db' = db_steps db1"
    using persisted_steps [OF persisted] by blast
  let ?f = "\<lambda>s. if sr_id s = sr_id step
      then s\<lparr>sr_status := sr_status step, sr_output := sr_output step,
             sr_error_classification := sr_error_classification step, sr_error_details := sr_error_details step,
             sr_completed_at := sr_completed_at step\<rparr> else s"
  have "db_steps db1 = map ?f (db_steps db)" using db1 by (auto simp: update_step_def split: if_splits)
  then have "?f x \<in> set (db_steps db1)" using row(1) by (simp only: set_map) (rule imageI)
  moreover have "sr_idempotency_key (?f x) = sr_idempotency_key x" and "sr_status (?f x) = StepSucceeded"
    using row(2) success by simp_all
  ultimately have "\<exists>y \<in> set (db_steps db1). sr_idempotency_key y = sr_idempotency_key x \<and> sr_status y = StepSucceeded"
    by blast
  then have "already_succeeded u (sr_idempotency_key x) db' = Inr True"
    using up by (auto simp: already_succeeded_def query_def steps list_ex_iff)
  then have run: "handle_delivery env w d = ack_delivery env w d (duplicate_result (dl_job d))"
    by (simp add: handle_delivery_def worker job)
  then show ?thesis by (auto simp: ack_delivery_def split: prod.splits)
qed


definition sample_step_row :: step_run where
  "sample_step_row =
     \<lparr>sr_id = ''s'', sr_workflow_run_id = ''r'', sr_step_definition_id = ''probe'', sr_capability = ''http.probe'',
      sr_status = StepRunning, sr_attempt_count = 1, sr_input = [], sr_output = [], sr_error_classification = [],
      sr_error_details = [], sr_started_at = None, sr_completed_at = None, sr_idempotency_key = ''k'',
      sr_approval_state = ''not_required''\<rparr>"

definition sample_steps_store :: database where
  "sample_steps_store = empty_store\<lparr>db_steps := [sample_step_row]\<rparr>"

lemma sample_persisted:
  "snd (persist_result (sample_store_env 3) (\<lambda>j. []) (\<lambda>d k. None) ''p'' (sample_step_row\<lparr>sr_status := StepSucceeded\<rparr>)
     None [] (duplicate_result (dl_job sample_delivery)) sample_steps_store) = None"
  by (simp add: persist_result_def transaction_def commit_def statement_def bind_res_Inr start_tx_def update_step_def
      sample_steps_store_def sample_step_row_def empty_store_def sample_store_env_def persist_output_def
      insert_selected_def decision_events_def parse_object_def asset_type_of_def)

lemma persisted_success_is_not_executed_again_witness:
  "\<exists>db' w. persist_result (sample_store_env 3) (\<lambda>j. []) (\<lambda>d k. None) ''p'' (sample_step_row\<lparr>sr_status := StepSucceeded\<rparr>)
       None [] (duplicate_result (dl_job sample_delivery)) sample_steps_store = (db', None) \<and>
     w = sample_worker\<lparr>wk_already_succeeded := (\<lambda>key. already_succeeded (sample_store_env 4) key db')\<rparr> \<and>
     (\<forall>q. WorkerCalled q \<notin> set (fst (handle_delivery sample_env w sample_delivery)))"
proof -
  let ?step = "sample_step_row\<lparr>sr_status := StepSucceeded\<rparr>"
  obtain db' where run: "persist_result (sample_store_env 3) (\<lambda>j. []) (\<lambda>d k. None) ''p'' ?step
       None [] (duplicate_result (dl_job sample_delivery)) sample_steps_store = (db', None)"
    using sample_persisted by (metis prod.collapse)
  let ?w = "sample_worker\<lparr>wk_already_succeeded := (\<lambda>key. already_succeeded (sample_store_env 4) key db')\<rparr>"
  have "handle_delivery sample_env ?w sample_delivery =
      ack_delivery sample_env ?w sample_delivery (duplicate_result (dl_job sample_delivery)) \<and>
    (\<forall>q. WorkerCalled q \<notin> set (fst (handle_delivery sample_env ?w sample_delivery)))"
    by (rule persisted_success_is_not_executed_again [OF run, of sample_step_row _ _ "sample_store_env 4"])
      (simp_all add: sample_steps_store_def sample_step_row_def sample_delivery_def sample_action_def sample_store_env_def)
  from run conjunct2 [OF this] show ?thesis by (intro exI [of _ db'] exI [of _ ?w] conjI refl)
qed

subsection \<open>Purging the database and the disk\<close>

definition disk_delete ::
  "string res \<Rightarrow> faults \<Rightarrow> local_store \<Rightarrow> artifact \<Rightarrow> file_system \<times> database \<Rightarrow> (file_system \<times> database) \<times> go_error option" where
  "disk_delete getwd w l a s = (case delete_artifact getwd w l a (fst s) of (fs, e) \<Rightarrow> ((fs, snd s), e))"

definition row_delete ::
  "store_env \<Rightarrow> string \<Rightarrow> file_system \<times> database \<Rightarrow> (file_system \<times> database) \<times> go_error option" where
  "row_delete v i s = (case delete_artifact_row v i (snd s) of (db, e) \<Rightarrow> ((fst s, db), e))"

definition disk_gone :: "string res \<Rightarrow> artifact \<Rightarrow> file_system \<times> database \<Rightarrow> bool" where
  "disk_gone getwd a s =
     (case abs_path getwd (art_storage_location a) of
        Inl e \<Rightarrow> False | Inr location \<Rightarrow> fst s (path_parts location) = None)"

definition expired_ids :: "int \<Rightarrow> file_system \<times> database \<Rightarrow> string set" where
  "expired_ids now s = art_id ` {a \<in> set (db_artifacts (snd s)). expired now a}"

lemma delete_artifact_row_rows:
  assumes "delete_artifact_row v i db = (db', e)"
  shows "if e = None then db_artifacts db' = List.filter (\<lambda>a. \<not> (art_id a = i \<and> expired (se_now v) a)) (db_artifacts db)
    else db' = db"
proof (cases e)
  case None
  then show ?thesis
    using assms unfolding delete_artifact_row_def transaction_def
    by (auto simp: bind_res_Inr start_tx_def forget_stdout_def forget_stderr_def forget_observed_def
        forget_candidates_def split: option.splits if_splits dest!: commit_None statement_Inr [THEN sym])
next
  case (Some x)
  then show ?thesis using assms commit_Some by (fastforce simp: delete_artifact_row_def transaction_def split: option.splits)
qed

text \<open>The local store and the database keep the contract of the retention pass.\<close>

interpretation database_retention:
  retention_stores "disk_delete getwd w l" "row_delete v" "disk_gone getwd" "\<lambda>i s. i \<in> expired_ids (se_now v) s"
  for getwd w l v
proof
  fix a s s' assume "disk_delete getwd w l a s = (s', None)"
  then show "disk_gone getwd a s'"
    by (auto simp: disk_delete_def delete_artifact_def disk_gone_def intro: remove_file_gone
        split: sum.splits if_splits prod.splits option.splits)
next
  fix a b s s' e assume "disk_delete getwd w l a s = (s', e)" and "disk_gone getwd b s"
  then show "disk_gone getwd b s'"
    by (auto simp: disk_delete_def delete_artifact_def disk_gone_def intro: remove_file_keeps
        split: sum.splits if_splits prod.splits option.splits)
next
  fix i j s s' e assume r: "row_delete v i s = (s', e)"
  then have "delete_artifact_row v i (snd s) = (snd s', e)" and "fst s' = fst s"
    by (auto simp: row_delete_def split: prod.splits)
  from delete_artifact_row_rows [OF this(1)]
  show "(j \<in> expired_ids (se_now v) s') = (j \<in> expired_ids (se_now v) s \<and> \<not> (e = None \<and> j = i))"
    by (auto simp: expired_ids_def split: if_splits)
qed (auto simp: disk_delete_def row_delete_def disk_gone_def expired_ids_def split: prod.splits sum.splits)

definition stored_at :: "string res \<Rightarrow> artifact \<Rightarrow> string list \<Rightarrow> bool" where
  "stored_at getwd a p \<longleftrightarrow>
     (case abs_path getwd (art_storage_location a) of Inl e \<Rightarrow> False | Inr location \<Rightarrow> p = path_parts location)"

lemma disk_delete_touches:
  assumes "disk_delete getwd w l a s = (s', e)"
  shows "snd s' = snd s" and "fst s' p \<noteq> fst s p \<Longrightarrow> stored_at getwd a p"
  using assms
  by (auto simp: disk_delete_def delete_artifact_def remove_file_def stored_at_def
      split: prod.splits sum.splits if_splits option.splits)

lemma row_delete_touches:
  assumes "row_delete v (art_id a) s = (s', e)" and "distinct (map art_id (db_artifacts (snd s)))"
    and "a \<in> set (db_artifacts (snd s))" and "expired (se_now v) a"
  shows "fst s' = fst s" and "e \<noteq> None \<Longrightarrow> snd s' = snd s"
    and "e = None \<Longrightarrow> db_artifacts (snd s') = List.filter (\<lambda>b. b \<noteq> a) (db_artifacts (snd s))"
proof -
  have run: "delete_artifact_row v (art_id a) (snd s) = (snd s', e)" and same: "fst s' = fst s"
    using assms(1) by (auto simp: row_delete_def split: prod.splits)
  show "fst s' = fst s" by (rule same)
  show "e \<noteq> None \<Longrightarrow> snd s' = snd s" using delete_artifact_row_rows [OF run] by simp
  have "(art_id b = art_id a \<and> expired (se_now v) b) = (b = a)" if "b \<in> set (db_artifacts (snd s))" for b
    using assms(2-4) that by (auto simp: distinct_map inj_on_def)
  then show "e = None \<Longrightarrow> db_artifacts (snd s') = List.filter (\<lambda>b. b \<noteq> a) (db_artifacts (snd s))"
    using delete_artifact_row_rows [OF run] by (auto intro: filter_cong)
qed

text \<open>A purge removes the rows and the contents of the first \<open>k\<close> items, and stops at the first that fails.\<close>

lemma purge_items_rows:
  assumes "purge_items (disk_delete getwd w l) (row_delete v) chosen n s = (s', m, e)"
    and "distinct (map art_id (db_artifacts (snd s)))" and "distinct chosen"
    and "set chosen \<subseteq> {a \<in> set (db_artifacts (snd s)). expired (se_now v) a}"
  shows "\<exists>k \<le> length chosen. m = n + k \<and> (e = None \<longrightarrow> k = length chosen) \<and>
    db_artifacts (snd s') = List.filter (\<lambda>a. a \<notin> set (take k chosen)) (db_artifacts (snd s)) \<and>
    (\<forall>a \<in> set (take k chosen). disk_gone getwd a s') \<and>
    (\<forall>p. fst s' p \<noteq> fst s p \<longrightarrow> list_ex (\<lambda>a. stored_at getwd a p) (take (Suc k) chosen))"
  using assms
proof (induction chosen arbitrary: n s)
  case (Cons a chosen)
  obtain s1 e1 where d: "disk_delete getwd w l a s = (s1, e1)" by fastforce
  obtain s2 e2 where r: "row_delete v (art_id a) s1 = (s2, e2)" by fastforce
  note d' = disk_delete_touches [OF d]
  have a: "a \<in> set (db_artifacts (snd s1))" "expired (se_now v) a" "distinct (map art_id (db_artifacts (snd s1)))"
    using Cons.prems(2,4) d'(1) by auto
  note r' = row_delete_touches [OF r a(3) a(1) a(2)]
  show ?case
  proof (cases "e1 = None \<and> e2 = None")
    case False
    then have stop: "m = n \<and> e \<noteq> None \<and> (s' = s1 \<or> s' = s2 \<and> e2 \<noteq> None)"
      using Cons.prems(1) d r by (cases e1; cases e2) auto
    then have "snd s' = snd s" and "fst s' = fst s1" using d'(1) r'(1,2) by auto
    then show ?thesis using stop d'(2) by (intro exI [of _ 0]) auto
  next
    case True
    then have rest: "purge_items (disk_delete getwd w l) (row_delete v) chosen (Suc n) s2 = (s', m, e)"
      using Cons.prems(1) d r by simp
    have rows: "db_artifacts (snd s2) = List.filter (\<lambda>b. b \<noteq> a) (db_artifacts (snd s))" using r'(3) True d'(1) by simp
    have pre: "distinct (map art_id (db_artifacts (snd s2)))" "distinct chosen"
      "set chosen \<subseteq> {b \<in> set (db_artifacts (snd s2)). expired (se_now v) b}"
      using Cons.prems(2-4) by (auto simp: rows distinct_map_filter)
    obtain k where k: "k \<le> length chosen" "m = Suc n + k" "e = None \<longrightarrow> k = length chosen"
      "db_artifacts (snd s') = List.filter (\<lambda>b. b \<notin> set (take k chosen)) (db_artifacts (snd s2))"
      "\<forall>b \<in> set (take k chosen). disk_gone getwd b s'"
      "\<forall>p. fst s' p \<noteq> fst s2 p \<longrightarrow> list_ex (\<lambda>a. stored_at getwd a p) (take (Suc k) chosen)"
      using Cons.IH [OF rest pre] by blast
    have "disk_gone getwd a s2" 
      using database_retention.del_gone [of getwd w l a s s1] d r'(1) True by (simp add: disk_gone_def split: sum.splits)
    then have "disk_gone getwd a s'" by (rule database_retention.purge_keeps_gone [OF rest])
    moreover have "list_ex (\<lambda>a. stored_at getwd a p) (take (Suc (Suc k)) (a # chosen))" if "fst s' p \<noteq> fst s p" for p
      using that k(6) d'(2) [of p] r'(1) by (cases "fst s2 p = fst s p") auto
    moreover have "db_artifacts (snd s') =
        List.filter (\<lambda>b. b \<notin> set (take (Suc k) (a # chosen))) (db_artifacts (snd s))"
      unfolding k(4) rows by (auto intro: filter_cong)
    ultimately show ?thesis
      using k(1-3,5) by (intro exI [of _ "Suc k"]) auto
  qed
qed simp

text \<open>
  C30: A purge of expired artifacts that reports n, whatever failed on the disk or in the
  database, removed exactly the rows of the first n of the artifacts chosen (the expired ones in
  the order of expiry, up to the limit) and no other row, the content of each of these is gone
  from the disk, so no file is left without a row, and no file was touched but the contents of
  these and of the next one chosen; without an error n is the number of all that were chosen.
\<close>

theorem purge_keeps_disk_and_database_together:
  assumes purge: "purge_expired (Some (\<lambda>k s. expired_artifacts v k (snd s))) (row_delete v)
      (Some (disk_delete getwd w l)) max_items s = (s', n, e)"
    and ids: "distinct (map art_id (db_artifacts (snd s)))"
    and chosen: "chosen = take (nat max_items) (sort_key (\<lambda>a. (the (art_expires_at a), art_id a))
      (List.filter (expired (se_now v)) (db_artifacts (snd s))))"
  shows "n \<le> length chosen \<and> (e = None \<longrightarrow> n = length chosen) \<and>
    db_artifacts (snd s') = List.filter (\<lambda>a. a \<notin> set (take n chosen)) (db_artifacts (snd s)) \<and>
    (\<forall>a \<in> set (take n chosen). disk_gone getwd a s') \<and>
    (\<forall>p. fst s' p \<noteq> fst s p \<longrightarrow> list_ex (\<lambda>a. stored_at getwd a p) (take (Suc n) chosen)) \<and>
    (\<forall>a \<in> set (db_artifacts (snd s)). expired (se_now v) a \<and> art_id a \<notin> expired_ids (se_now v) s' \<longrightarrow>
        disk_gone getwd a s') \<and>
    (e = None \<longrightarrow> n = min (nat max_items) (length (List.filter (expired (se_now v)) (db_artifacts (snd s)))))"
proof -
  have parts: "n \<le> length chosen \<and> (e = None \<longrightarrow> n = length chosen) \<and>
    db_artifacts (snd s') = List.filter (\<lambda>a. a \<notin> set (take n chosen)) (db_artifacts (snd s)) \<and>
    (\<forall>a \<in> set (take n chosen). disk_gone getwd a s') \<and>
    (\<forall>p. fst s' p \<noteq> fst s p \<longrightarrow> list_ex (\<lambda>a. stored_at getwd a p) (take (Suc n) chosen))"
  proof (cases "max_items < 1 \<or> se_fault v 0 \<noteq> None")
    case True
    then have "s' = s" and "e \<noteq> None" and "n = 0"
      using purge by (cases "se_fault v 0"; auto simp: purge_expired_def expired_artifacts_def query_def split: if_splits)+
    then show ?thesis by auto
  next
    case False
    have run: "purge_items (disk_delete getwd w l) (row_delete v) chosen 0 s = (s', n, e)"
      using False purge by (simp add: purge_expired_def expired_artifacts_def query_def chosen)
    have "distinct chosen" using ids by (simp add: chosen distinct_map)
    moreover have "set chosen \<subseteq> {a \<in> set (db_artifacts (snd s)). expired (se_now v) a}"
      unfolding chosen using set_take_subset by fastforce
    ultimately show ?thesis
      using purge_items_rows [OF run ids] by fastforce
  qed
  have "disk_gone getwd a s'"
    if "a \<in> set (db_artifacts (snd s))" "expired (se_now v) a" "art_id a \<notin> expired_ids (se_now v) s'" for a
    using that conjunct1 [OF conjunct2 [OF conjunct2 [OF parts]]] parts by (auto simp: expired_ids_def)
  moreover have "length chosen = min (nat max_items) (length (List.filter (expired (se_now v)) (db_artifacts (snd s))))"
    by (simp add: chosen)
  ultimately show ?thesis using parts by simp
qed


definition sample_retention :: database where
  "sample_retention = empty_store\<lparr>
     db_artifacts := [(sample_artifact ''a'' ''/data/x'')\<lparr>art_task_id := ''t'', art_expires_at := Some 1\<rparr>],
     db_tasks := [\<lparr>tk_id = ''t'', tk_program_id = ''p'', tk_objective = [], tk_workflow_definition_id = [],
       tk_status = TaskCompleted, tk_requested_by = [], tk_created_at = 0, tk_updated_at = 0,
       tk_schedule_reference = None, tk_cancelled_at = None, tk_cancellation_reason = []\<rparr>]\<rparr>"

lemma sample_purge:
  "(case purge_expired (Some (\<lambda>k s. expired_artifacts (sample_store_env 5) k (snd s))) (row_delete (sample_store_env 5))
      (Some (disk_delete (Inr ''/'') no_faults sample_local)) 10
      ([[''data'', ''x''] \<mapsto> File []], sample_retention) of (s', n, e) \<Rightarrow>
      e = None \<and> db_artifacts (snd s') = [])"
  by code_simp

lemma purge_keeps_disk_and_database_together_witness:
  "\<exists>s' n. purge_expired (Some (\<lambda>k s. expired_artifacts (sample_store_env 5) k (snd s))) (row_delete (sample_store_env 5))
      (Some (disk_delete (Inr ''/'') no_faults sample_local)) 10
      ([[''data'', ''x''] \<mapsto> File []], sample_retention) = (s', n, None) \<and>
     db_artifacts (snd s') = [] \<and> n = 1 \<and> disk_gone (Inr ''/'') (hd (db_artifacts sample_retention)) s'"
proof -
  let ?s = "([[''data'', ''x''] \<mapsto> File []], sample_retention)" and ?v = "sample_store_env 5"
  obtain s' n where run: "purge_expired (Some (\<lambda>k s. expired_artifacts ?v k (snd s))) (row_delete ?v)
      (Some (disk_delete (Inr ''/'') no_faults sample_local)) 10 ?s = (s', n, None)"
    and rows: "db_artifacts (snd s') = []"
    using sample_purge by (auto split: prod.splits)
  have now: "se_now ?v = 5" by (simp add: sample_store_env_def)
  have "distinct (map art_id (db_artifacts (snd ?s)))" by (simp add: sample_retention_def)
  note all = purge_keeps_disk_and_database_together [OF run this refl, unfolded now]
  have "hd (db_artifacts sample_retention) \<in> set (db_artifacts (snd ?s))"
      "expired 5 (hd (db_artifacts sample_retention))"
      "length (List.filter (expired 5) (db_artifacts (snd ?s))) = 1"
    by (simp_all add: sample_retention_def expired_def)
  moreover have "expired_ids 5 s' = {}" by (simp add: expired_ids_def rows)
  ultimately have "n = 1" and "disk_gone (Inr ''/'') (hd (db_artifacts sample_retention)) s'" using all by auto
  with run rows show ?thesis by (intro exI [of _ s'] exI [of _ n] conjI)
qed

end
