(* ===== verification/Config.thy ===== *)
theory Config
  imports Policy
begin

text \<open>
  \<^verbatim>\<open>internal/config/config.go\<close>: the configuration read from the environment, its validation, and the
  environment file. Parameters: \<open>get\<close> (\<^verbatim>\<open>os.Getenv\<close>), \<open>pd\<close> (\<^verbatim>\<open>time.ParseDuration\<close>, in nanoseconds),
  \<open>host\<close> (\<^verbatim>\<open>os.Hostname\<close>) and the current time. An \<^verbatim>\<open>int\<close> that \<^verbatim>\<open>Atoi\<close> reads has 64 bits.
\<close>

subsection \<open>Data\<close>

record redis_config =
  cfr_address :: string
  cfr_username :: string
  cfr_password :: string
  cfr_db :: int
  cfr_tls :: bool

record tools_config =
  cft_subfinder :: string
  cft_chaos :: string
  cft_dnsx :: string
  cft_naabu :: string
  cft_httpx :: string
  cft_katana :: string
  cft_gau :: string
  cft_nuclei :: string

record recon_config =
  cfc_pipeline :: string
  cfc_headless :: bool
  cfc_chaos_key :: string
  cfc_timeout :: int
  cfc_rate_limit :: int
  cfc_concurrency :: int
  cfc_provider_update :: bool

record worker_config =
  cfw_consumer_group :: string
  cfw_consumer_name :: string
  cfw_pool_size :: int
  cfw_lease_timeout :: int
  cfw_read_block :: int
  cfw_max_retries :: int
  cfw_retry_base :: int

record nuclei_config =
  cfn_rate_limit :: int
  cfn_host_concurrency :: int
  cfn_template_concurrency :: int
  cfn_headless_concurrency :: int
  cfn_timeout :: int
  cfn_severity :: "string list"
  cfn_include_tags :: "string list"
  cfn_exclude_tags :: "string list"
  cfn_template_directory :: string
  cfn_update_templates :: bool

record storage_config =
  cfs_driver :: string
  cfs_root :: string

record policy_config =
  cfp_rate_limit :: int
  cfp_concurrency :: int
  cfp_provider_concurrency :: int
  cfp_host_concurrency :: int
  cfp_max_payload_bytes :: int
  cfp_allowed_methods :: "string list"
  cfp_follow_redirects :: bool
  cfp_scan_windows :: "string list"
  cfp_authentication_usage :: bool
  cfp_directory_fuzzing :: bool
  cfp_cross_origin :: bool
  cfp_intrusive_checks :: bool
  cfp_artifact_retention :: int

record logging_config =
  cfl_level :: string
  cfl_secret_names :: "string list"

record app_config =
  cf_database_url :: string
  cf_redis :: redis_config
  cf_tools :: tools_config
  cf_recon :: recon_config
  cf_worker :: worker_config
  cf_nuclei :: nuclei_config
  cf_storage :: storage_config
  cf_policy :: policy_config
  cf_logging :: logging_config

type_synonym lookup = "string \<Rightarrow> string"
type_synonym duration_parser = "string \<Rightarrow> int option"

subsection \<open>Reading values\<close>

definition parse_bool :: "string \<Rightarrow> bool option" where
  "parse_bool s =
     (if s \<in> {''1'', ''t'', ''T'', ''true'', ''TRUE'', ''True''} then Some True
      else if s \<in> {''0'', ''f'', ''F'', ''false'', ''FALSE'', ''False''} then Some False
      else None)"

definition env_value :: "lookup \<Rightarrow> string \<Rightarrow> string \<Rightarrow> string" where
  "env_value get key fallback = (let v = trim_space (get key) in if v \<noteq> [] then v else fallback)"

definition env_integer :: "lookup \<Rightarrow> string \<Rightarrow> int \<Rightarrow> int" where
  "env_integer get key fallback =
     (if get key = [] then fallback else case atoi (get key) of None \<Rightarrow> -1 | Some n \<Rightarrow> n)"

definition env_boolean :: "lookup \<Rightarrow> string \<Rightarrow> bool \<Rightarrow> bool" where
  "env_boolean get key fallback =
     (if get key = [] then fallback else case parse_bool (get key) of None \<Rightarrow> False | Some b \<Rightarrow> b)"

definition env_duration :: "duration_parser \<Rightarrow> lookup \<Rightarrow> string \<Rightarrow> int \<Rightarrow> int" where
  "env_duration pd get key fallback =
     (if get key = [] then fallback else case pd (get key) of None \<Rightarrow> -1 | Some d \<Rightarrow> d)"

definition env_csv :: "lookup \<Rightarrow> string \<Rightarrow> string \<Rightarrow> string list" where
  "env_csv get key fallback =
     (let raw = env_value get key fallback in
      if raw = [] then []
      else List.filter (\<lambda>p. p \<noteq> []) (map trim_space (split_on (CHR '','') raw)))"

definition worker_hostname :: "string res \<Rightarrow> string" where
  "worker_hostname host = (case host of Inl e \<Rightarrow> ''worker'' | Inr h \<Rightarrow> if h = [] then ''worker'' else h)"

definition nanos :: "int \<Rightarrow> int" where
  "nanos seconds = seconds * 1000000000"

definition read_config :: "duration_parser \<Rightarrow> string res \<Rightarrow> lookup \<Rightarrow> app_config" where
  "read_config pd host get =
     \<lparr>cf_database_url = get ''DATABASE_URL'',
      cf_redis =
        \<lparr>cfr_address = env_value get ''REDIS_ADDR'' ''localhost:6379'', cfr_username = get ''REDIS_USERNAME'',
         cfr_password = get ''REDIS_PASSWORD'', cfr_db = env_integer get ''REDIS_DB'' 0,
         cfr_tls = env_boolean get ''REDIS_TLS'' False\<rparr>,
      cf_tools =
        \<lparr>cft_subfinder = env_value get ''SUBFINDER_EXECUTABLE'' ''subfinder'',
         cft_chaos = env_value get ''CHAOS_EXECUTABLE'' ''chaos'', cft_dnsx = env_value get ''DNSX_EXECUTABLE'' ''dnsx'',
         cft_naabu = env_value get ''NAABU_EXECUTABLE'' ''naabu'', cft_httpx = env_value get ''HTTPX_EXECUTABLE'' ''httpx'',
         cft_katana = env_value get ''KATANA_EXECUTABLE'' ''katana'', cft_gau = env_value get ''GAU_EXECUTABLE'' ''gau'',
         cft_nuclei = env_value get ''NUCLEI_EXECUTABLE'' ''nuclei''\<rparr>,
      cf_recon =
        \<lparr>cfc_pipeline = env_value get ''RECON_PIPELINE'' ''sdnhkga'',
         cfc_headless = env_boolean get ''RECON_HEADLESS'' False, cfc_chaos_key = get ''CHAOS_KEY'',
         cfc_timeout = env_duration pd get ''RECON_TIMEOUT'' (nanos (15 * 60)),
         cfc_rate_limit = env_integer get ''RECON_RATE_LIMIT'' 75,
         cfc_concurrency = env_integer get ''RECON_CONCURRENCY'' 20,
         cfc_provider_update = env_boolean get ''RECON_PROVIDER_UPDATE'' False\<rparr>,
      cf_worker =
        \<lparr>cfw_consumer_group = env_value get ''WORKER_CONSUMER_GROUP'' ''capability-workers'',
         cfw_consumer_name = env_value get ''WORKER_CONSUMER_NAME'' (worker_hostname host),
         cfw_pool_size = env_integer get ''WORKER_POOL_SIZE'' 4,
         cfw_lease_timeout = env_duration pd get ''WORKER_LEASE_TIMEOUT'' (nanos (2 * 60)),
         cfw_read_block = env_duration pd get ''WORKER_READ_BLOCK'' (nanos 5),
         cfw_max_retries = env_integer get ''WORKER_MAX_RETRIES'' 3,
         cfw_retry_base = env_duration pd get ''WORKER_RETRY_BASE'' (nanos 2)\<rparr>,
      cf_nuclei =
        \<lparr>cfn_rate_limit = env_integer get ''NUCLEI_RATE_LIMIT'' 50,
         cfn_host_concurrency = env_integer get ''NUCLEI_HOST_CONCURRENCY'' 10,
         cfn_template_concurrency = env_integer get ''NUCLEI_TEMPLATE_CONCURRENCY'' 10,
         cfn_headless_concurrency = env_integer get ''NUCLEI_HEADLESS_CONCURRENCY'' 2,
         cfn_timeout = env_duration pd get ''NUCLEI_TIMEOUT'' (nanos (10 * 60)),
         cfn_severity = env_csv get ''NUCLEI_SEVERITY'' ''low,medium,high,critical'',
         cfn_include_tags = env_csv get ''NUCLEI_INCLUDE_TAGS'' ''cve,exposure,misconfig'',
         cfn_exclude_tags = env_csv get ''NUCLEI_EXCLUDE_TAGS'' ''dos,fuzz,bruteforce,intrusive'',
         cfn_template_directory = get ''NUCLEI_TEMPLATE_DIR'',
         cfn_update_templates = env_boolean get ''NUCLEI_UPDATE_TEMPLATES'' False\<rparr>,
      cf_storage =
        \<lparr>cfs_driver = env_value get ''ARTIFACT_DRIVER'' ''local'', cfs_root = env_value get ''ARTIFACT_ROOT'' ''artifacts''\<rparr>,
      cf_policy =
        \<lparr>cfp_rate_limit = env_integer get ''POLICY_RATE_LIMIT'' 50,
         cfp_concurrency = env_integer get ''POLICY_CONCURRENCY'' 10,
         cfp_provider_concurrency = env_integer get ''POLICY_PROVIDER_CONCURRENCY'' 2,
         cfp_host_concurrency = env_integer get ''POLICY_HOST_CONCURRENCY'' 1,
         cfp_max_payload_bytes = env_integer get ''POLICY_MAX_PAYLOAD_BYTES'' 1048576,
         cfp_allowed_methods = env_csv get ''POLICY_ALLOWED_METHODS'' ''GET,HEAD,OPTIONS'',
         cfp_follow_redirects = env_boolean get ''POLICY_FOLLOW_REDIRECTS'' False,
         cfp_scan_windows = env_csv get ''POLICY_SCAN_WINDOWS'' [],
         cfp_authentication_usage = env_boolean get ''POLICY_AUTHENTICATION_USAGE'' False,
         cfp_directory_fuzzing = env_boolean get ''POLICY_DIRECTORY_FUZZING'' False,
         cfp_cross_origin = env_boolean get ''POLICY_CROSS_ORIGIN'' False,
         cfp_intrusive_checks = env_boolean get ''POLICY_INTRUSIVE_CHECKS'' False,
         cfp_artifact_retention = env_duration pd get ''POLICY_ARTIFACT_RETENTION'' (nanos (720 * 3600))\<rparr>,
      cf_logging =
        \<lparr>cfl_level = env_value get ''LOG_LEVEL'' ''info'', cfl_secret_names = env_csv get ''REDACT_SECRET_NAMES'' []\<rparr>\<rparr>"

subsection \<open>Validation\<close>

definition flag_keys :: "string list" where
  "flag_keys =
     [''REDIS_TLS'', ''RECON_HEADLESS'', ''RECON_PROVIDER_UPDATE'', ''NUCLEI_UPDATE_TEMPLATES'',
      ''POLICY_FOLLOW_REDIRECTS'', ''POLICY_AUTHENTICATION_USAGE'', ''POLICY_DIRECTORY_FUZZING'',
      ''POLICY_CROSS_ORIGIN'', ''POLICY_INTRUSIVE_CHECKS'']"

definition duration_keys :: "string list" where
  "duration_keys =
     [''RECON_TIMEOUT'', ''WORKER_LEASE_TIMEOUT'', ''WORKER_READ_BLOCK'', ''WORKER_RETRY_BASE'', ''NUCLEI_TIMEOUT'',
      ''POLICY_ARTIFACT_RETENTION'']"

definition malformed :: "(string \<Rightarrow> 'a option) \<Rightarrow> string \<Rightarrow> lookup \<Rightarrow> string \<Rightarrow> go_error option" where
  "malformed parse what get key =
     (let v = trim_space (get key) in
      if v \<noteq> [] \<and> parse v = None then Some (Err (key @ what)) else None)"

definition zero_policy :: policy where
  "zero_policy =
     \<lparr>pol_id = [], allowed_capabilities = [], denied_capabilities = [], rate_limit = 0, concurrency = 0,
      provider_concurrency = 0, host_concurrency = 0, scan_windows = [], allowed_http_methods = [],
      authentication_usage = False, headless_browser = False, directory_fuzzing = False, template_tags = [],
      excluded_template_tags = [], maximum_payload_size = 0, follow_redirects = False, cross_origin = False,
      intrusive_checks = False, artifact_retention = 0, moderate_approved = False\<rparr>"

text \<open>A window is tried with a policy that has nothing else; the input is nil, so nothing is decoded.\<close>

definition window_error :: "utc_time \<Rightarrow> string \<Rightarrow> go_error option" where
  "window_error now window =
     (let e = evaluate_at (\<lambda>_. None) (zero_policy\<lparr>scan_windows := [window]\<rparr>) ''config.validate'' Passive False
          no_requirements [] now
      in if pe_decision e = Deny \<and> str_contains (pe_reason e) ''invalid''
         then Some (Err (''POLICY_SCAN_WINDOWS: '' @ pe_reason e)) else None)"

definition stage_error :: "char \<Rightarrow> go_error option" where
  "stage_error stage =
     (if stage \<in> set ''sdnhkga'' then None
      else Some (Err (''RECON_PIPELINE contains unknown stage '' @ [CHR 0x27, stage, CHR 0x27])))"

definition require :: "bool \<Rightarrow> string \<Rightarrow> go_error option" where
  "require ok message = (if ok then None else Some (Err message))"

definition config_errors :: "utc_time \<Rightarrow> bool \<Rightarrow> app_config \<Rightarrow> go_error option list" where
  "config_errors now require_database c =
     (let r = cf_recon c; w = cf_worker c; n = cf_nuclei c; p = cf_policy c in
      [require (\<not> require_database \<or> cf_database_url c \<noteq> []) ''DATABASE_URL is required'',
       require (str_contains (cfr_address (cf_redis c)) '':'') ''REDIS_ADDR must be host:port'',
       require (cfr_db (cf_redis c) \<ge> 0) ''REDIS_DB must be non-negative'',
       require (cfc_timeout r > 0 \<and> cfc_rate_limit r \<ge> 1 \<and> cfc_concurrency r \<ge> 1)
         ''recon timeout, rate limit, and concurrency must be positive'',
       require (cfw_pool_size w \<ge> 1 \<and> cfw_max_retries w \<ge> 0)
         ''worker pool must be positive and retries non-negative'',
       require (cfw_lease_timeout w > 0 \<and> cfw_read_block w > 0)
         ''worker lease and read block must be positive durations'',
       require (cfw_retry_base w > 0) ''worker retry base must be positive'',
       require (cfn_rate_limit n \<ge> 1 \<and> cfn_host_concurrency n \<ge> 1 \<and> cfn_template_concurrency n \<ge> 1 \<and>
           cfn_headless_concurrency n \<ge> 1)
         ''nuclei limits and concurrency values must be positive'',
       require (cfn_timeout n > 0) ''NUCLEI_TIMEOUT must be positive'',
       require (cfs_driver (cf_storage c) = ''local'')
         (''unsupported ARTIFACT_DRIVER '' @ quoted (cfs_driver (cf_storage c))),
       require (trim_space (cfs_root (cf_storage c)) \<noteq> []) ''ARTIFACT_ROOT is required'',
       require (cfp_rate_limit p \<ge> 1 \<and> cfp_concurrency p \<ge> 1 \<and> cfp_provider_concurrency p \<ge> 1 \<and>
           cfp_host_concurrency p \<ge> 1 \<and> cfp_max_payload_bytes p \<ge> 1)
         ''policy rate limit, concurrency, and maximum payload size must be positive'',
       require (cfp_allowed_methods p \<noteq> []) ''at least one policy HTTP method is required'',
       require (cfp_artifact_retention p \<ge> 0) ''POLICY_ARTIFACT_RETENTION must be non-negative'']
      @ map (window_error now) (cfp_scan_windows p) @ map stage_error (cfc_pipeline r))"

definition validate_config :: "utc_time \<Rightarrow> bool \<Rightarrow> app_config \<Rightarrow> go_error option" where
  "validate_config now require_database c = join_errors (config_errors now require_database c)"

definition load_with ::
  "duration_parser \<Rightarrow> string res \<Rightarrow> utc_time \<Rightarrow> lookup \<Rightarrow> bool \<Rightarrow> app_config \<times> go_error option" where
  "load_with pd host now get require_database =
     (let c = read_config pd host get in
      (c, join_errors
         (map (malformed parse_bool '' must be true or false'' get) flag_keys
          @ map (malformed pd '' must be a Go duration'' get) duration_keys
          @ [validate_config now require_database c])))"

definition config_string :: "app_config \<Rightarrow> string" where
  "config_string c =
     ''database=<configured> redis='' @ cfr_address (cf_redis c) @ '' redis_password=<redacted> recon=''
     @ cfc_pipeline (cf_recon c) @ '' worker_pool='' @ itoa (cfw_pool_size (cf_worker c)) @ '' nuclei_rl=''
     @ itoa (cfn_rate_limit (cf_nuclei c)) @ '' artifacts='' @ cfs_root (cf_storage c)"

subsection \<open>The environment file\<close>

text \<open>
  \<open>os.Setenv\<close> refuses the empty name and NUL bytes. A file that does not exist is \<open>Inr None\<close>; otherwise
  the lines that the scanner yields and the error it stops with.
\<close>

type_synonym environment = "string \<rightharpoonup> string"

definition set_env :: "string \<Rightarrow> string \<Rightarrow> environment \<Rightarrow> environment res" where
  "set_env key v env =
     (if key = [] \<or> CHR 0x00 \<in> set key \<or> CHR 0x00 \<in> set v then Inl (Err ''setenv: invalid argument'')
      else Inr (env(key \<mapsto> v)))"

definition env_line :: "string \<Rightarrow> environment \<Rightarrow> environment res" where
  "env_line raw env =
     (let line = trim_space raw in
      if line = [] \<or> has_prefix line ''#'' then Inr env
      else (case cut line (CHR ''='') of
              (k, v, found) \<Rightarrow>
                if \<not> found then Inl (Err (''invalid env line '' @ quoted line))
                else let key = trim_space k; val = trim (\<lambda>c. c = CHR 0x22 \<or> c = CHR 0x27) (trim_space v)
                     in if env key \<noteq> None then Inr env else set_env key val env))"

fun env_lines :: "string list \<Rightarrow> environment \<Rightarrow> environment \<times> go_error option" where
  "env_lines [] env = (env, None)"
| "env_lines (l # ls) env = (case env_line l env of Inl e \<Rightarrow> (env, Some e) | Inr env' \<Rightarrow> env_lines ls env')"

definition load_env_file ::
  "(string list \<times> go_error option) option res \<Rightarrow> environment \<Rightarrow> environment \<times> go_error option" where
  "load_env_file file env =
     (case file of
        Inl e \<Rightarrow> (env, Some e)
      | Inr None \<Rightarrow> (env, None)
      | Inr (Some (ls, stop)) \<Rightarrow>
          (case env_lines ls env of (env', Some e) \<Rightarrow> (env', Some e) | (env', None) \<Rightarrow> (env', stop)))"

subsection \<open>What a loaded configuration satisfies\<close>

lemma require_None [simp]: "require ok message = None \<longleftrightarrow> ok"
  by (simp add: require_def)

lemma malformed_None [simp]:
  "malformed parse what get key = None \<longleftrightarrow> (trim_space (get key) \<noteq> [] \<longrightarrow> parse (trim_space (get key)) \<noteq> None)"
  by (simp add: malformed_def Let_def)

lemma stage_error_None [simp]: "stage_error stage = None \<longleftrightarrow> stage \<in> set ''sdnhkga''"
  by (simp add: stage_error_def)

lemma str_contains_append: "has_prefix s p \<Longrightarrow> str_contains (t @ s) p"
proof (induction t)
  case Nil
  then show ?case by (cases s; cases p) simp_all
qed simp

lemma has_prefix_longer: "has_prefix (p @ s) p"
  by (induction p) auto

lemma window_error_None: "window_error now window = None \<Longrightarrow> \<exists>w. parse_scan_window window = Inr w"
proof (rule ccontr)
  let ?at = "evaluate_at (\<lambda>_. None) (zero_policy\<lparr>scan_windows := [window]\<rparr>) ''config.validate'' Passive False
    no_requirements [] now"
  assume none: "window_error now window = None" and "\<nexists>w. parse_scan_window window = Inr w"
  then obtain e where e: "parse_scan_window window = Inl e" by (cases "parse_scan_window window") auto
  let ?reason = "(''scan window '' @ itoa (int 1) @ '' is '') @ (''invalid'' @ ('': '' @ error_text e))"
  have "within_scan_windows [window] now = (False, ?reason)" by (simp add: within_scan_windows_def e)
  then have "?at = deny ?reason" by (simp only: evaluate_at_def zero_policy_def) simp
  moreover have "str_contains ?reason ''invalid''" by (intro str_contains_append has_prefix_longer)
  ultimately show False using none by (simp only: window_error_def Let_def deny_def) simp
qed

definition positive_limits :: "app_config \<Rightarrow> bool" where
  "positive_limits c \<longleftrightarrow>
     cfc_timeout (cf_recon c) > 0 \<and> cfc_rate_limit (cf_recon c) > 0 \<and> cfc_concurrency (cf_recon c) > 0 \<and>
     cfw_pool_size (cf_worker c) > 0 \<and> cfw_max_retries (cf_worker c) \<ge> 0 \<and> cfw_lease_timeout (cf_worker c) > 0 \<and>
     cfw_read_block (cf_worker c) > 0 \<and> cfw_retry_base (cf_worker c) > 0 \<and>
     cfn_rate_limit (cf_nuclei c) > 0 \<and> cfn_host_concurrency (cf_nuclei c) > 0 \<and>
     cfn_template_concurrency (cf_nuclei c) > 0 \<and> cfn_headless_concurrency (cf_nuclei c) > 0 \<and>
     cfn_timeout (cf_nuclei c) > 0 \<and>
     cfp_rate_limit (cf_policy c) > 0 \<and> cfp_concurrency (cf_policy c) > 0 \<and> cfp_provider_concurrency (cf_policy c) > 0 \<and>
     cfp_host_concurrency (cf_policy c) > 0 \<and> cfp_max_payload_bytes (cf_policy c) > 0 \<and>
     cfp_artifact_retention (cf_policy c) \<ge> 0"

definition integer_keys :: "string list" where
  "integer_keys =
     [''REDIS_DB'', ''RECON_RATE_LIMIT'', ''RECON_CONCURRENCY'', ''WORKER_POOL_SIZE'', ''WORKER_MAX_RETRIES'',
      ''NUCLEI_RATE_LIMIT'', ''NUCLEI_HOST_CONCURRENCY'', ''NUCLEI_TEMPLATE_CONCURRENCY'',
      ''NUCLEI_HEADLESS_CONCURRENCY'', ''POLICY_RATE_LIMIT'', ''POLICY_CONCURRENCY'',
      ''POLICY_PROVIDER_CONCURRENCY'', ''POLICY_HOST_CONCURRENCY'', ''POLICY_MAX_PAYLOAD_BYTES'']"

lemma env_integer_read: "env_integer get key fallback \<ge> 0 \<Longrightarrow> get key = [] \<or> (\<exists>n. atoi (get key) = Some n)"
  by (auto simp: env_integer_def split: if_splits option.splits)

lemma env_duration_read: "env_duration pd get key fallback \<ge> 0 \<Longrightarrow> get key = [] \<or> (\<exists>n. pd (get key) = Some n)"
  by (auto simp: env_duration_def split: if_splits option.splits)

lemma load_with_None:
  assumes "load_with pd host now get rd = (c, None)"
  shows "c = read_config pd host get" and "\<forall>e \<in> set (config_errors now rd c). e = None"
    and "\<forall>key \<in> set flag_keys. malformed parse_bool '' must be true or false'' get key = None"
  using assms
  by (simp_all add: load_with_def Let_def validate_config_def ball_Un ball_simps del: malformed_None)

lemma config_errors_None:
  assumes "\<forall>e \<in> set (config_errors now rd c). e = None"
  shows "positive_limits c" and "rd \<Longrightarrow> cf_database_url c \<noteq> []" and "cfr_db (cf_redis c) \<ge> 0"
    and "cfs_driver (cf_storage c) = ''local''" and "trim_space (cfs_root (cf_storage c)) \<noteq> []"
    and "cfp_allowed_methods (cf_policy c) \<noteq> []"
    and "\<forall>window \<in> set (cfp_scan_windows (cf_policy c)). \<exists>w. parse_scan_window window = Inr w"
    and "set (cfc_pipeline (cf_recon c)) \<subseteq> set ''sdnhkga''"
proof -
  note all = assms [unfolded config_errors_def Let_def set_append ball_Un list.set ball_simps set_map ball_simps
      require_None stage_error_None]
  show "positive_limits c" using all unfolding positive_limits_def by linarith
  show "rd \<Longrightarrow> cf_database_url c \<noteq> []" using all by blast
  show "cfr_db (cf_redis c) \<ge> 0" using all by blast
  show "cfs_driver (cf_storage c) = ''local''" using all by blast
  show "trim_space (cfs_root (cf_storage c)) \<noteq> []" using all by blast
  show "cfp_allowed_methods (cf_policy c) \<noteq> []" using all by blast
  have "\<forall>x \<in> set (cfp_scan_windows (cf_policy c)). window_error now x = None" using all by blast
  then show "\<forall>window \<in> set (cfp_scan_windows (cf_policy c)). \<exists>w. parse_scan_window window = Inr w"
    using window_error_None by blast
  have "\<forall>x \<in> set (cfc_pipeline (cf_recon c)). stage_error x = None"
    using assms unfolding config_errors_def Let_def set_append set_map by blast
  then show "set (cfc_pipeline (cf_recon c)) \<subseteq> set ''sdnhkga''"
    unfolding stage_error_None by blast
qed

text \<open>
  C36: A configuration that loads without an error is well formed: all its limits and durations
  are in range, the database is named when it is required, the driver is the local one, a method
  is allowed, every scan window parses, the pipeline holds known stages only, and every integer
  and duration of the environment was readable.
\<close>

theorem loaded_configuration_is_well_formed:
  assumes load: "load_with pd host now get require_database = (c, None)"
  shows "positive_limits c \<and> (require_database \<longrightarrow> get ''DATABASE_URL'' \<noteq> []) \<and>
    cfs_driver (cf_storage c) = ''local'' \<and> cfp_allowed_methods (cf_policy c) \<noteq> [] \<and>
    (\<forall>window \<in> set (cfp_scan_windows (cf_policy c)). \<exists>w. parse_scan_window window = Inr w) \<and>
    set (cfc_pipeline (cf_recon c)) \<subseteq> set ''sdnhkga'' \<and>
    (\<forall>key \<in> set integer_keys. get key = [] \<or> (\<exists>n. atoi (get key) = Some n)) \<and>
    (\<forall>key \<in> set duration_keys. get key = [] \<or> (\<exists>n. pd (get key) = Some n))"
proof -
  note errs = config_errors_None [OF load_with_None(2) [OF load]]
  have c: "c = read_config pd host get" by (rule load_with_None(1) [OF load])
  have "\<forall>key \<in> set integer_keys. get key = [] \<or> (\<exists>n. atoi (get key) = Some n)"
    using errs(1,3) env_integer_read unfolding c
    by (simp add: positive_limits_def read_config_def integer_keys_def) (meson less_imp_le)
  moreover have "\<forall>key \<in> set duration_keys. get key = [] \<or> (\<exists>n. pd (get key) = Some n)"
    using errs(1) env_duration_read unfolding c
    by (simp add: positive_limits_def read_config_def duration_keys_def) (meson less_imp_le)
  moreover have "require_database \<longrightarrow> get ''DATABASE_URL'' \<noteq> []"
    using errs(2) unfolding c by (simp add: read_config_def)
  ultimately show ?thesis using errs by blast
qed

definition sample_lookup :: lookup where
  "sample_lookup key = (if key = ''DATABASE_URL'' then ''db'' else if key = ''REDIS_TLS'' then '' true'' else [])"

lemma sample_loads: "snd (load_with (\<lambda>_. None) (Inr ''w'') \<lparr>ut_weekday = 0, ut_hour = 0, ut_minute = 0\<rparr> sample_lookup True) = None"
  by code_simp

lemma loaded_configuration_is_well_formed_witness:
  "\<exists>c. load_with (\<lambda>_. None) (Inr ''w'') \<lparr>ut_weekday = 0, ut_hour = 0, ut_minute = 0\<rparr> sample_lookup True = (c, None) \<and>
     positive_limits c"
proof -
  obtain c where run: "load_with (\<lambda>_. None) (Inr ''w'') \<lparr>ut_weekday = 0, ut_hour = 0, ut_minute = 0\<rparr> sample_lookup True = (c, None)"
    using sample_loads by (metis prod.collapse)
  from conjunct1 [OF loaded_configuration_is_well_formed [OF run]] run show ?thesis by blast
qed

text \<open>
  The check of the flags trims the text, the reading of the flag does not: \<^verbatim>\<open>REDIS_TLS=" true"\<close> is accepted
  and turns encryption off.
\<close>

lemma padded_flag_is_read_as_false:
  "snd (load_with (\<lambda>_. None) (Inr ''w'') \<lparr>ut_weekday = 0, ut_hour = 0, ut_minute = 0\<rparr> sample_lookup True) = None \<and>
   parse_bool (trim_space (sample_lookup ''REDIS_TLS'')) = Some True \<and>
   \<not> cfr_tls (cf_redis (fst (load_with (\<lambda>_. None) (Inr ''w'') \<lparr>ut_weekday = 0, ut_hour = 0, ut_minute = 0\<rparr>
       sample_lookup True)))"
  by (rule conjI [OF sample_loads]) code_simp

subsection \<open>Loading the environment file\<close>

lemma env_line_keeps:
  assumes "env_line l env = Inr env'"
  shows "env \<subseteq>\<^sub>m env'" and "env_line l env' = Inr env'"
  using assms by (auto simp: env_line_def Let_def set_env_def map_le_def split: if_splits prod.splits)

lemma env_lines_keeps: "env_lines ls env = (env', e) \<Longrightarrow> env \<subseteq>\<^sub>m env'"
proof (induction ls arbitrary: env)
  case (Cons l ls)
  show ?case
  proof (cases "env_line l env")
    case (Inl x)
    then show ?thesis using Cons.prems by simp
  next
    case (Inr env1)
    then show ?thesis
      using Cons.prems Cons.IH [of env1] env_line_keeps(1) [OF Inr] map_le_trans by fastforce
  qed
qed simp

lemma env_line_settled:
  assumes "env_line l env = Inr env1" and "env1 \<subseteq>\<^sub>m env'"
  shows "env_line l env' = Inr env'"
proof -
  have unset: "env1 k = None" if "env' k = None" for k using assms(2) that by (force simp: map_le_def dom_def)
  show ?thesis
    using assms(1) by (auto simp: env_line_def Let_def set_env_def split: if_splits prod.splits dest!: unset)
qed

lemma env_lines_again: "env_lines ls env = (env1, None) \<Longrightarrow> env1 \<subseteq>\<^sub>m env' \<Longrightarrow> env_lines ls env' = (env', None)"
proof (induction ls arbitrary: env)
  case (Cons l ls)
  then obtain env2 where l: "env_line l env = Inr env2" and ls: "env_lines ls env2 = (env1, None)"
    by (auto split: sum.splits)
  have "env2 \<subseteq>\<^sub>m env'" using env_lines_keeps [OF ls] Cons.prems(2) by (rule map_le_trans)
  then show ?case using env_line_settled [OF l] Cons.IH [OF ls Cons.prems(2)] by simp
qed simp

text \<open>What is set stays as it is, and loading the file again changes nothing.\<close>

lemma env_file_never_overrides:
  assumes "load_env_file file env = (env', e)"
  shows "env \<subseteq>\<^sub>m env' \<and> (e = None \<longrightarrow> load_env_file file env' = (env', None))"
  using assms env_lines_keeps env_lines_again [OF _ map_le_refl]
  by (auto simp: load_env_file_def split: sum.splits option.splits prod.splits)

end
