(* ===== verification/ProviderCheck.thy ===== *)
theory ProviderCheck
  imports GoData
begin

text \<open>
  \<^verbatim>\<open>internal/providercheck/providercheck.go\<close>: whether a configured executable is the expected provider in
  a compatible version. The two regular expressions are written out as functions that return what
  the leftmost match captures, trying the alternatives in the order of the expression. Texts are
  ASCII: a control character is one byte.
\<close>

datatype check_status = Compatible | Missing | WrongBinary | Incompatible

fun status_string :: "check_status \<Rightarrow> string" where
  "status_string Compatible = ''compatible''"
| "status_string Missing = ''missing''"
| "status_string WrongBinary = ''wrong_binary''"
| "status_string Incompatible = ''incompatible''"

record check_spec =
  sp_name :: string
  sp_display_name :: string
  sp_executable :: string
  sp_executable_env :: string
  sp_version_args :: "string list"
  sp_compatible_prefix :: string
  sp_pinned_version :: string
  sp_required :: bool

record check_result =
  kr_component :: string
  kr_kind :: string
  kr_required :: bool
  kr_status :: check_status
  kr_detected_version :: string
  kr_expected_version :: string
  kr_path :: string
  kr_details :: string

definition no_spec :: check_spec where
  "no_spec =
     \<lparr>sp_name = [], sp_display_name = [], sp_executable = [], sp_executable_env = [], sp_version_args = [],
      sp_compatible_prefix = [], sp_pinned_version = [], sp_required = False\<rparr>"

subsection \<open>The expressions\<close>

definition is_digit :: "char \<Rightarrow> bool" where
  "is_digit c \<longleftrightarrow> CHR ''0'' \<le> c \<and> c \<le> CHR ''9''"

definition is_letter :: "char \<Rightarrow> bool" where
  "is_letter c \<longleftrightarrow> (CHR ''a'' \<le> c \<and> c \<le> CHR ''z'') \<or> (CHR ''A'' \<le> c \<and> c \<le> CHR ''Z'')"

definition is_control :: "char \<Rightarrow> bool" where
  "is_control c \<longleftrightarrow> c < CHR '' '' \<or> c = CHR 0x7F"

text \<open>\<^verbatim>\<open>\d+\<close>: what it takes and what is left, longest first.\<close>

definition digit_runs :: "string \<Rightarrow> (string \<times> string) list" where
  "digit_runs s = map (\<lambda>k. (take k s, drop k s)) (rev [1..<Suc (length (takeWhile is_digit s))])"

definition dotted_run :: "string \<Rightarrow> (string \<times> string) list" where
  "dotted_run s =
     (case s of
        c # s' \<Rightarrow> if c = CHR ''.'' then map (\<lambda>(d, r). (''.'' @ d, r)) (digit_runs s') else []
      | [] \<Rightarrow> [])"

text \<open>\<^verbatim>\<open>\d+\.\d+(?:\.\d+)?\<close>\<close>

definition number_runs :: "string \<Rightarrow> (string \<times> string) list" where
  "number_runs s =
     concat (map (\<lambda>(a, r1). concat (map (\<lambda>(b, r2).
         map (\<lambda>(c, r3). (a @ b @ c, r3)) (dotted_run r2) @ [(a @ b, r2)]) (dotted_run r1))) (digit_runs s))"

text \<open>\<^verbatim>\<open>v?(...)(?:[^0-9]|$)\<close>, then the same behind \<^verbatim>\<open>(?:^|[^0-9])\<close>, the first position that matches.\<close>

definition version_here :: "string \<Rightarrow> string list" where
  "version_here s =
     concat (map (\<lambda>t. map fst (List.filter (\<lambda>(n, r). r = [] \<or> \<not> is_digit (hd r)) (number_runs t)))
       (case s of c # t \<Rightarrow> if c = CHR ''v'' \<or> c = CHR ''V'' then [t, s] else [s] | [] \<Rightarrow> [s]))"

fun version_after :: "string \<Rightarrow> string option" where
  "version_after [] = None"
| "version_after (c # s) =
     (case (if is_digit c then [] else version_here s) of v # _ \<Rightarrow> Some v | [] \<Rightarrow> version_after s)"

definition find_version :: "string \<Rightarrow> string option" where
  "find_version s = (case version_here s of v # _ \<Rightarrow> Some v | [] \<Rightarrow> version_after s)"

text \<open>Removing \<^verbatim>\<open>\x1b\[[0-9;]*[A-Za-z]\<close>.\<close>

definition ansi_end :: "string \<Rightarrow> string option" where
  "ansi_end s =
     (case s of
        c # s' \<Rightarrow>
          if c \<noteq> CHR ''['' then None
          else (case dropWhile (\<lambda>d. is_digit d \<or> d = CHR '';'') s' of
                  l # rest \<Rightarrow> if is_letter l then Some rest else None
                | [] \<Rightarrow> None)
      | [] \<Rightarrow> None)"

lemma ansi_end_shorter: "ansi_end s = Some rest \<Longrightarrow> length rest < length s"
proof -
  assume a: "ansi_end s = Some rest"
  then obtain c s' l where s: "s = c # s'" and d: "dropWhile (\<lambda>d. is_digit d \<or> d = CHR '';'') s' = l # rest"
    by (auto simp: ansi_end_def split: list.splits if_splits)
  from length_dropWhile_le [of "\<lambda>d. is_digit d \<or> d = CHR '';''" s'] show ?thesis unfolding s d by simp
qed

function strip_ansi :: "string \<Rightarrow> string" where
  "strip_ansi [] = []"
| "strip_ansi (c # s) =
     (case (if c = CHR 0x1B then ansi_end s else None) of
        Some rest \<Rightarrow> strip_ansi rest | None \<Rightarrow> c # strip_ansi s)"
  by pat_completeness auto
termination
  by (relation "measure length") (auto split: if_splits dest: ansi_end_shorter)

definition safe_detail :: "string \<Rightarrow> nat \<Rightarrow> string" where
  "safe_detail v limit =
     take limit (join_with '' '' (str_fields (map (\<lambda>c. if is_control c then CHR '' '' else c) (strip_ansi v))))"

subsection \<open>The check\<close>

definition base_result :: "check_spec \<Rightarrow> check_result" where
  "base_result s =
     \<lparr>kr_component = sp_display_name s, kr_kind = ''provider'', kr_required = sp_required s, kr_status = Missing,
      kr_detected_version = [],
      kr_expected_version = sp_compatible_prefix s @ ''x''
        @ (if sp_pinned_version s \<noteq> [] then '' (worker '' @ sp_pinned_version s @ '')'' else []),
      kr_path = [], kr_details = []\<rparr>"

definition evaluate_version :: "check_spec \<Rightarrow> string \<Rightarrow> go_error option \<Rightarrow> check_result" where
  "evaluate_version s output probe_error =
     (let r = base_result s; out = safe_detail output 512 in
      case probe_error of
        Some e \<Rightarrow>
          r\<lparr>kr_status := WrongBinary,
            kr_details := (if errors_is e DeadlineExceeded then ''version probe timed out''
                           else if out \<noteq> [] then out else safe_detail (error_text e) 256)\<rparr>
      | None \<Rightarrow>
          (case find_version out of
             None \<Rightarrow>
               r\<lparr>kr_status := WrongBinary,
                 kr_details := ''version output did not identify a semantic version''
                   @ (if out \<noteq> [] then '': '' @ out else [])\<rparr>
           | Some found \<Rightarrow>
               if \<not> has_prefix found (sp_compatible_prefix s)
               then r\<lparr>kr_detected_version := ''v'' @ found, kr_status := Incompatible,
                      kr_details := ''installed provider is outside the tested compatibility family''\<rparr>
               else r\<lparr>kr_detected_version := ''v'' @ found, kr_status := Compatible,
                      kr_details := ''provider identity and version probe succeeded''\<rparr>))"

text \<open>\<^verbatim>\<open>filepath.Base\<close> and \<^verbatim>\<open>filepath.Ext\<close>.\<close>

definition file_base :: "string \<Rightarrow> string" where
  "file_base path =
     (let p = trim_right (\<lambda>c. c = CHR ''/'') path in
      if path = [] then ''.'' else if p = [] then ''/'' else last (split_on (CHR ''/'') p))"

definition file_ext :: "string \<Rightarrow> string" where
  "file_ext path =
     (let name = last (split_on (CHR ''/'') path) in
      if CHR ''.'' \<in> set name then ''.'' @ last (split_on (CHR ''.'') name) else [])"

definition evaluate_executable :: "check_spec \<Rightarrow> string \<Rightarrow> string \<Rightarrow> go_error option \<Rightarrow> check_result" where
  "evaluate_executable s executable output probe_error =
     (let r = evaluate_version s output probe_error;
          base = trim_suffix (file_base executable) (file_ext executable)
      in if kr_status r \<noteq> Compatible then r
         else if sp_name s \<noteq> [] \<and> \<not> equal_fold base (sp_name s)
         then r\<lparr>kr_status := WrongBinary,
                kr_details := ''resolved executable name '' @ quoted base @ '' does not match provider '' @ quoted (sp_name s)\<rparr>
         else r)"

text \<open>The runner's \<^verbatim>\<open>LookPath\<close>, its output of a command with its error, and the error of the probe's context.\<close>

definition check_provider ::
  "(string \<Rightarrow> string res) \<Rightarrow> (string \<Rightarrow> string list \<Rightarrow> string \<times> go_error option) \<Rightarrow> go_error option \<Rightarrow>
     check_spec \<Rightarrow> check_result" where
  "check_provider look_path combined_output probe_context s =
     (case look_path (sp_executable s) of
        Inl e \<Rightarrow> (base_result s)\<lparr>kr_status := Missing,
            kr_details := ''configure '' @ sp_executable_env s @ '' with the executable path''\<rparr>
      | Inr path \<Rightarrow>
          (case combined_output path (sp_version_args s) of
             (output, probe_error) \<Rightarrow>
               (evaluate_executable s path output
                  (case probe_context of Some e \<Rightarrow> Some e | None \<Rightarrow> probe_error))\<lparr>kr_path := path\<rparr>))"

subsection \<open>What compatible means\<close>

lemma evaluate_version_status:
  "kr_status (evaluate_version s output e) = Compatible \<longleftrightarrow>
     e = None \<and> (\<exists>found. find_version (safe_detail output 512) = Some found \<and> has_prefix found (sp_compatible_prefix s))"
  by (auto simp: evaluate_version_def base_result_def Let_def split: option.splits)

lemma evaluate_executable_status:
  "kr_status (evaluate_executable s executable output e) = Compatible \<longleftrightarrow>
     e = None \<and>
     (\<exists>found. find_version (safe_detail output 512) = Some found \<and> has_prefix found (sp_compatible_prefix s)) \<and>
     (sp_name s = [] \<or> equal_fold (trim_suffix (file_base executable) (file_ext executable)) (sp_name s))"
  by (auto simp: evaluate_executable_def Let_def evaluate_version_status)

lemma check_provider_status:
  "kr_status (check_provider look_path combined_output probe_context s) = Compatible \<longleftrightarrow>
     (\<exists>path output found. look_path (sp_executable s) = Inr path \<and> probe_context = None \<and>
        combined_output path (sp_version_args s) = (output, None) \<and>
        find_version (safe_detail output 512) = Some found \<and> has_prefix found (sp_compatible_prefix s) \<and>
        (sp_name s = [] \<or> equal_fold (trim_suffix (file_base path) (file_ext path)) (sp_name s)))"
  by (auto simp: check_provider_def evaluate_executable_status base_result_def split: sum.splits prod.splits option.splits)

text \<open>A version the expression finds is two or three numbers that stand alone in the text.\<close>

lemma digit_runs_spec: "(d, r) \<in> set (digit_runs s) \<longleftrightarrow> s = d @ r \<and> d \<noteq> [] \<and> list_all is_digit d"
proof
  assume "(d, r) \<in> set (digit_runs s)"
  then obtain k where k: "1 \<le> k" "k \<le> length (takeWhile is_digit s)" "d = take k s" "r = drop k s"
    by (auto simp: digit_runs_def)
  have "k \<le> length s" using k(2) length_takeWhile_le [of is_digit s] by linarith
  moreover have "take k s = take k (takeWhile is_digit s)"
    by (metis k(2) takeWhile_eq_take take_take min.absorb1)
  ultimately have "\<forall>x \<in> set (take k s). is_digit x" using set_takeWhileD [of _ is_digit s] by (auto dest!: in_set_takeD)
  then show "s = d @ r \<and> d \<noteq> [] \<and> list_all is_digit d"
    using k \<open>k \<le> length s\<close> by (auto simp: list_all_iff)
next
  assume a: "s = d @ r \<and> d \<noteq> [] \<and> list_all is_digit d"
  then have "length d \<le> length (takeWhile is_digit s)" by (simp add: list_all_iff takeWhile_append)
  then show "(d, r) \<in> set (digit_runs s)"
    using a by (auto simp: digit_runs_def Suc_le_eq intro!: image_eqI [of _ _ "length d"])
qed

lemma find_version_samples:
  "find_version ''Current Version: v1.10.0'' = Some ''1.10.0''"
  "find_version ''10.4.3.1 (v2.6)'' = Some ''10.4.3''"
  "find_version ''naabu 2'' = None"
  by code_simp+

end
