(* ===== verification/Commands.thy ===== *)
theory Commands
  imports Targeting ProviderOutput Capability ProviderCheck
begin

text \<open>
  \<^verbatim>\<open>internal/providers/command/command.go\<close>: capabilities that run an external program. A definition builds
  the arguments; validating a request checks its targets against the scope; executing it probes the
  version of the program, runs it, parses its output and keeps what the scope authorises. The
  programs that are started are returned as a trace of \<open>cmd_event\<close>s. The environment of a call gives the
  parsers (\<open>ce_json\<close> a whole text, \<open>ce_decode\<close> the first value of a text, as a \<^verbatim>\<open>Decoder\<close> reads it), the
  JSON encoder, the redactor, the runner and the clock. JSON objects go to the encoder with the
  keys of a Go map sorted and the fields of a struct in their order. Texts of diagnostics are ASCII.
  An object that has two members for one field of the input is not modelled beyond the later
  member replacing the earlier one.
\<close>

subsection \<open>Data\<close>

record cmd_input =
  ci_domain :: string
  ci_domains :: "string list"
  ci_targets :: "string list"
  ci_headless :: bool
  ci_ports :: string
  ci_method :: string
  ci_plan_digest :: string

record invocation =
  iv_args :: "string list"
  iv_stdin :: string

record command_def =
  dd_name :: string
  dd_description :: string
  dd_provider :: string
  dd_executable :: string
  dd_version :: string
  dd_risk :: risk
  dd_scope_type :: string
  dd_retry_safe :: bool
  dd_idempotent :: bool
  dd_required_secrets :: "string list"
  dd_requirements :: requirements
  dd_timeout :: int
  dd_passive_input :: bool
  dd_output_adapter :: string
  dd_build_args :: "(cmd_input \<Rightarrow> policy \<Rightarrow> string list res) option"
  dd_build_invocation :: "(cmd_input \<Rightarrow> policy \<Rightarrow> invocation res) option"
  dd_probe :: check_spec

datatype cmd_event =
    VersionProbed string "string list"
  | ProcessRun string "string list" string

text \<open>How a process ended, for \<^verbatim>\<open>OSRunner\<close>.\<close>

datatype process_end =
    ExitedZero
  | ExitedWith int go_error
  | NotStarted go_error

record cmd_env =
  ce_json :: json_parser
  ce_decode :: json_parser
  ce_print :: json_printer
  ce_url :: url_parser
  ce_ip :: ip_parser
  ce_rx :: rx_parser
  ce_redact :: "string \<Rightarrow> string"
  ce_version :: "string \<Rightarrow> string list \<Rightarrow> string \<times> go_error option"
  ce_run :: "string \<Rightarrow> string list \<Rightarrow> string \<Rightarrow> string \<times> string \<times> int \<times> go_error option"
  ce_context :: "go_error option"
  ce_not_found :: "go_error \<Rightarrow> bool"
  ce_started :: int
  ce_completed :: int
  ce_new_id :: string

definition os_run ::
  "(string \<Rightarrow> string list \<Rightarrow> string \<Rightarrow> string \<times> string \<times> process_end) \<Rightarrow> string \<Rightarrow> string list \<Rightarrow> string \<Rightarrow>
     string \<times> string \<times> int \<times> go_error option" where
  "os_run process name args stdin =
     (case process name args stdin of
        (out, err, ExitedZero) \<Rightarrow> (out, err, 0, None)
      | (out, err, ExitedWith code e) \<Rightarrow> (out, err, code, Some e)
      | (out, err, NotStarted e) \<Rightarrow> (out, err, -1, Some e))"

definition os_version ::
  "(string \<Rightarrow> string list \<Rightarrow> string \<times> process_end) \<Rightarrow> string \<Rightarrow> string list \<Rightarrow> string \<times> go_error option" where
  "os_version process name args =
     (case process name args of
        (out, ExitedZero) \<Rightarrow> (trim_space out, None)
      | (out, ExitedWith code e) \<Rightarrow> (trim_space out, Some e)
      | (out, NotStarted e) \<Rightarrow> (trim_space out, Some e))"

subsection \<open>The input\<close>

definition no_input :: cmd_input where
  "no_input =
     \<lparr>ci_domain = [], ci_domains = [], ci_targets = [], ci_headless = False, ci_ports = [], ci_method = [],
      ci_plan_digest = []\<rparr>"

definition decode_text :: "json \<Rightarrow> string \<Rightarrow> string option" where
  "decode_text v old = (case v of JStr s \<Rightarrow> Some s | JNull \<Rightarrow> Some old | _ \<Rightarrow> None)"

definition decode_flag :: "json \<Rightarrow> bool \<Rightarrow> bool option" where
  "decode_flag v old = (case v of JBool b \<Rightarrow> Some b | JNull \<Rightarrow> Some old | _ \<Rightarrow> None)"

definition decode_texts :: "json \<Rightarrow> string list option" where
  "decode_texts v = (case v of JArr xs \<Rightarrow> those (map (\<lambda>x. decode_text x []) xs) | JNull \<Rightarrow> Some [] | _ \<Rightarrow> None)"

definition decode_member :: "bool \<Rightarrow> string \<Rightarrow> json \<Rightarrow> cmd_input \<Rightarrow> cmd_input option" where
  "decode_member strict k v i =
     (if equal_fold k ''domain'' then map_option (\<lambda>s. i\<lparr>ci_domain := s\<rparr>) (decode_text v (ci_domain i))
      else if equal_fold k ''domains'' then map_option (\<lambda>s. i\<lparr>ci_domains := s\<rparr>) (decode_texts v)
      else if equal_fold k ''targets'' then map_option (\<lambda>s. i\<lparr>ci_targets := s\<rparr>) (decode_texts v)
      else if equal_fold k ''headless'' then map_option (\<lambda>b. i\<lparr>ci_headless := b\<rparr>) (decode_flag v (ci_headless i))
      else if equal_fold k ''ports'' then map_option (\<lambda>s. i\<lparr>ci_ports := s\<rparr>) (decode_text v (ci_ports i))
      else if equal_fold k ''method'' then map_option (\<lambda>s. i\<lparr>ci_method := s\<rparr>) (decode_text v (ci_method i))
      else if equal_fold k ''target_plan_digest''
      then map_option (\<lambda>s. i\<lparr>ci_plan_digest := s\<rparr>) (decode_text v (ci_plan_digest i))
      else if strict then None else Some i)"

fun decode_members :: "bool \<Rightarrow> (string \<times> json) list \<Rightarrow> cmd_input \<Rightarrow> cmd_input option" where
  "decode_members strict [] i = Some i"
| "decode_members strict ((k, v) # kvs) i =
     (case decode_member strict k v i of None \<Rightarrow> None | Some i' \<Rightarrow> decode_members strict kvs i')"

definition decode_input :: "json_parser \<Rightarrow> bool \<Rightarrow> string \<Rightarrow> cmd_input res" where
  "decode_input jp strict raw =
     (case parse_object jp raw of
        None \<Rightarrow> Inl (Err ''json'')
      | Some kvs \<Rightarrow> (case decode_members strict kvs no_input of None \<Rightarrow> Inl (Err ''json'') | Some i \<Rightarrow> Inr i))"

definition all_domains :: "cmd_input \<Rightarrow> string list" where
  "all_domains i = ci_domains i @ (if ci_domain i \<noteq> [] then [ci_domain i] else [])"

definition validate_passive_root :: "ip_parser \<Rightarrow> string \<Rightarrow> go_error option" where
  "validate_passive_root ip raw =
     (let host = trim_suffix (to_lower (trim_space raw)) ''.'' in
      if ip host \<noteq> None then None
      else if host = [] \<or> contains_any host '' /:@'' \<or> list_ex (\<lambda>l. l = []) (split_on (CHR ''.'') host)
      then Some (Err ''invalid hostname'')
      else None)"

subsection \<open>Validating a request\<close>

definition invocation_of :: "command_def \<Rightarrow> cmd_input \<Rightarrow> policy \<Rightarrow> invocation res" where
  "invocation_of d i p =
     (case dd_build_invocation d of
        Some build \<Rightarrow> build i p
      | None \<Rightarrow>
          (case dd_build_args d of
             None \<Rightarrow> Inl (Err ''provider invocation builder is required'')
           | Some build \<Rightarrow> bind_res (build i p) (\<lambda>args. Inr \<lparr>iv_args = args, iv_stdin = []\<rparr>)))"

fun first_error :: "('a \<Rightarrow> go_error option) \<Rightarrow> 'a list \<Rightarrow> go_error option" where
  "first_error f [] = None"
| "first_error f (x # xs) = (case f x of Some e \<Rightarrow> Some e | None \<Rightarrow> first_error f xs)"

definition root_error :: "ip_parser \<Rightarrow> string \<Rightarrow> go_error option" where
  "root_error ip r =
     (case validate_passive_root ip r of
        None \<Rightarrow> None | Some e \<Rightarrow> Some (Wrapped (''discovery root '' @ quoted r @ '': '') e))"

definition target_error :: "(string \<Rightarrow> bool) \<Rightarrow> string \<Rightarrow> go_error option" where
  "target_error allowed t =
     (if \<not> str_contains t ''://''
      then Some (Err (''active target '' @ quoted t @ '' must be an authorized URL with explicit protocol''))
      else if \<not> allowed t then Some (Err (''target '' @ quoted t @ '' is outside authorized scope''))
      else None)"

definition method_error :: "policy \<Rightarrow> string \<Rightarrow> go_error option" where
  "method_error p m = (if m = [] then None else validate_http_method p m)"

definition command_validate :: "cmd_env \<Rightarrow> command_def \<Rightarrow> cap_request \<Rightarrow> go_error option" where
  "command_validate v d q =
     (let p = cq_policy q; raw = aq_input (cq_action q) in
      case decode_input (ce_decode v) True raw of
        Inl e \<Rightarrow> Some (Wrapped (dd_name d @ '' input: '') e)
      | Inr i \<Rightarrow>
          if all_domains i = [] \<and> ci_targets i = [] then Some (Err ''domains or targets are required'')
          else (case cq_scope q of
            None \<Rightarrow> Some (Err ''validated scope is required'')
          | Some allowed \<Rightarrow>
              if maximum_payload_size p > 0 \<and> int (length raw) > maximum_payload_size p
              then Some (Err ''input exceeds policy maximum payload size'')
              else if ci_headless i \<and> \<not> headless_browser p
              then Some (Err ''headless browser use is denied by policy'')
              else (case method_error p (ci_method i) of
                Some e \<Rightarrow> Some e
              | None \<Rightarrow>
                  if all_domains i \<noteq> [] \<and> \<not> dd_passive_input d
                  then Some (Err ''bare domains are permitted only for passive discovery providers'')
                  else (case first_error (root_error (ce_ip v)) (all_domains i) of
                    Some e \<Rightarrow> Some e
                  | None \<Rightarrow>
                      (case first_error (target_error allowed) (ci_targets i) of
                         Some e \<Rightarrow> Some e
                       | None \<Rightarrow> (case invocation_of d i p of Inl e \<Rightarrow> Some e | Inr iv \<Rightarrow> None))))))"

definition command_validate_definition :: "cmd_env \<Rightarrow> string \<Rightarrow> go_error option" where
  "command_validate_definition v raw =
     (case decode_input (ce_decode v) True raw of Inl e \<Rightarrow> Some e | Inr i \<Rightarrow> None)"

subsection \<open>Keeping what the scope authorises\<close>

fun reason_text :: "reason \<Rightarrow> string" where
  "reason_text ReasonAllowed = ''allowed''"
| "reason_text ReasonInvalidTarget = ''unsupported_target''"
| "reason_text ReasonInvalidHostname = ''invalid_hostname''"
| "reason_text ReasonExcluded = ''matched_exclusion''"
| "reason_text ReasonProtocolMismatch = ''protocol_not_authorized''"
| "reason_text ReasonHostMismatch = ''host_mismatch''"
| "reason_text ReasonPortMismatch = ''port_not_authorized''"
| "reason_text ReasonPathMismatch = ''path_not_authorized''"
| "reason_text ReasonNoInclude = ''no_matching_include''"

record kept =
  kp_accepted :: "string list"
  kp_urls :: "string list"
  kp_records :: "prov_record list"
  kp_filtered :: "filter_decision list"

type_synonym detailed = "(string \<Rightarrow> evaluation) \<times> normalized_rule list"

definition url_port_number :: "url \<Rightarrow> int" where
  "url_port_number u =
     atoi_or_zero (if url_port u \<noteq> [] then url_port u else if url_scheme u = ''https'' then ''443'' else ''80'')"

definition port_matches :: "url_parser \<Rightarrow> int \<Rightarrow> string \<Rightarrow> bool" where
  "port_matches parse port raw = (case parse raw of None \<Rightarrow> False | Some u \<Rightarrow> url_port_number u = port)"

definition keep_result :: "filter_result \<Rightarrow> prov_record \<Rightarrow> kept \<Rightarrow> kept" where
  "keep_result r record k =
     (if fr_authorized r \<noteq> []
      then k\<lparr>kp_accepted := kp_accepted k @ fr_authorized r, kp_urls := kp_urls k @ fr_authorized_urls r,
             kp_records := kp_records k @ [record]\<rparr>
      else k\<lparr>kp_filtered := kp_filtered k @ fr_filtered r\<rparr>)"

definition filter_record ::
  "rx_parser \<Rightarrow> ip_parser \<Rightarrow> url_parser \<Rightarrow> detailed \<Rightarrow> prov_record \<Rightarrow> kept \<Rightarrow> kept" where
  "filter_record rx ip parse sc record k =
     (case po_kind record of
        HostRecord \<Rightarrow> keep_result (filter_discovered_hosts rx ip (fst sc) (snd sc) [po_host record]) record k
      | UrlRecord \<Rightarrow> keep_result (filter_urls parse (fst sc) [po_target record]) record k
      | PortRecord \<Rightarrow>
          let r = filter_discovered_hosts rx ip (fst sc) (snd sc) [po_host record]
          in if list_ex (port_matches parse (po_port record)) (fr_authorized_urls r)
             then k\<lparr>kp_accepted := kp_accepted k @ [po_target record], kp_records := kp_records k @ [record]\<rparr>
             else k\<lparr>kp_filtered := kp_filtered k @ [rejected (po_target record)
                 (case fr_filtered r of [] \<Rightarrow> ReasonPortMismatch | f # _ \<Rightarrow> fd_reason f)]\<rparr>
      | OtherRecord s \<Rightarrow> k)"

definition filter_records ::
  "rx_parser \<Rightarrow> ip_parser \<Rightarrow> url_parser \<Rightarrow> detailed \<Rightarrow> prov_record list \<Rightarrow> kept" where
  "filter_records rx ip parse sc records =
     (let k = fold (filter_record rx ip parse sc) records
          \<lparr>kp_accepted = [], kp_urls = [], kp_records = [], kp_filtered = []\<rparr>
      in k\<lparr>kp_accepted := remdups_adj (sort (kp_accepted k)), kp_urls := remdups_adj (sort (kp_urls k)),
           kp_records := sort_key po_target (kp_records k)\<rparr>)"

subsection \<open>Executing a request\<close>

fun sort_json :: "json \<Rightarrow> json" where
  "sort_json (JArr xs) = JArr (map sort_json xs)"
| "sort_json (JObj kvs) = JObj (sort_key fst (map (\<lambda>(k, v). (k, sort_json v)) kvs))"
| "sort_json v = v"

definition present :: "bool \<Rightarrow> string \<Rightarrow> json \<Rightarrow> (string \<times> json) list" where
  "present shown k v = (if shown then [(k, v)] else [])"

definition json_texts :: "string list \<Rightarrow> json" where
  "json_texts ss = JArr (map JStr ss)"

definition record_kind_text :: "record_kind \<Rightarrow> string" where
  "record_kind_text k = (case k of HostRecord \<Rightarrow> ''host'' | PortRecord \<Rightarrow> ''port'' | UrlRecord \<Rightarrow> ''url'' | OtherRecord s \<Rightarrow> s)"

definition record_json :: "prov_record \<Rightarrow> json" where
  "record_json r =
     (let fs = (case po_fields r of None \<Rightarrow> [] | Some m \<Rightarrow> m) in
      JObj ([(''provider'', JStr (po_provider r)), (''kind'', JStr (record_kind_text (po_kind r))), (''target'', JStr (po_target r))]
        @ present (po_host r \<noteq> []) ''host'' (JStr (po_host r))
        @ present (po_port r \<noteq> 0) ''port'' (JNum (of_int (po_port r)))
        @ present (po_status_code r \<noteq> 0) ''status_code'' (JNum (of_int (po_status_code r)))
        @ present (po_technologies r \<noteq> []) ''technologies'' (json_texts (po_technologies r))
        @ present (fs \<noteq> []) ''fields'' (sort_json (JObj fs))))"

definition decision_json :: "filter_decision \<Rightarrow> json" where
  "decision_json d =
     JObj ([(''target'', JStr (fd_target d)), (''accepted'', JBool (fd_accepted d)),
            (''reason'', JStr (reason_text (fd_reason d)))]
       @ present (fd_authorized_urls d \<noteq> []) ''authorized_urls'' (json_texts (fd_authorized_urls d))
       @ present (fd_source_rule_ids d \<noteq> []) ''source_rule_ids'' (json_texts (fd_source_rule_ids d)))"

definition warning_json :: "parse_warning \<Rightarrow> json" where
  "warning_json w = JObj [(''line'', JNum (of_nat (pg_line w))), (''reason'', JStr (pg_reason w))]"

definition plain_output :: "string list \<Rightarrow> json" where
  "plain_output ls =
     JObj [(''accepted_count'', JNum (of_nat (length ls))), (''authorized'', json_texts ls), (''filtered'', JArr []),
       (''filtered_count'', JNum 0), (''lines'', json_texts ls), (''warnings'', JArr [])]"

definition adapted_output :: "batch \<Rightarrow> kept \<Rightarrow> json" where
  "adapted_output b k =
     JObj [(''accepted_count'', JNum (of_nat (length (kp_accepted k)))), (''authorized'', json_texts (kp_accepted k)),
       (''authorized_records'', JArr (map record_json (kp_records k))), (''authorized_urls'', json_texts (kp_urls k)),
       (''filtered'', JArr (map decision_json (kp_filtered k))),
       (''filtered_count'', JNum (of_nat (length (kp_filtered k)))), (''lines'', json_texts (kp_accepted k)),
       (''records'', JArr (map record_json (bt_records b))), (''warnings'', JArr (map warning_json (bt_warnings b)))]"

text \<open>\<^verbatim>\<open>splitLines\<close>; replacing CR LF by LF changes no trimmed line.\<close>

definition split_lines :: "string \<Rightarrow> string list" where
  "split_lines s = List.filter (\<lambda>l. l \<noteq> []) (map trim_space (split_on (CHR 0x0A) s))"

definition diagnostic_snippet :: "string \<Rightarrow> nat \<Rightarrow> string" where
  "diagnostic_snippet v limit =
     join_with '' '' (str_fields (take limit (map (\<lambda>c. if is_control c then CHR '' '' else c) v)))"

definition classify_failure :: "cmd_env \<Rightarrow> go_error \<Rightarrow> string" where
  "classify_failure v e =
     (if (case ce_context v of None \<Rightarrow> False | Some c \<Rightarrow> errors_is c DeadlineExceeded) then ''timeout''
      else if ce_not_found v e then ''provider_unavailable'' else ''provider_error'')"

definition safe_arguments :: "command_def \<Rightarrow> cmd_input \<Rightarrow> invocation \<Rightarrow> json" where
  "safe_arguments d i iv =
     JObj [(''discovery_root_count'', JNum (of_nat (length (all_domains i)))), (''headless'', JBool (ci_headless i)),
       (''provider'', JStr (dd_provider d)), (''stdin_bytes'', JNum (of_nat (length (iv_stdin iv)))),
       (''target_count'', JNum (of_nat (length (ci_targets i)))),
       (''target_plan_digest'', JStr (ci_plan_digest i))]"

definition command_tool_run ::
  "cmd_env \<Rightarrow> command_def \<Rightarrow> cap_request \<Rightarrow> cmd_input \<Rightarrow> invocation \<Rightarrow> string \<Rightarrow> int \<Rightarrow> bool \<Rightarrow> tool_run" where
  "command_tool_run v d q i iv version exit timed_out =
     \<lparr>tr_id = ce_new_id v, tr_step_run_id = aq_step_run_id (cq_action q), tr_capability = dd_name d,
      tr_provider = dd_provider d, tr_tool_version = version, tr_sanitized_arguments = ce_print v (safe_arguments d i iv),
      tr_execution_environment = ce_print v (JObj [(''kind'', JStr ''local-process''), (''shell'', JBool False)]),
      tr_started_at = ce_started v, tr_completed_at = Some (ce_completed v), tr_exit_code = Some exit,
      tr_timed_out = timed_out, tr_artifact_ids = [], tr_stdout_artifact_id = None, tr_stderr_artifact_id = None\<rparr>"

definition version_failure ::
  "cmd_env \<Rightarrow> command_def \<Rightarrow> cap_request \<Rightarrow> cmd_input \<Rightarrow> invocation \<Rightarrow> check_result \<Rightarrow> go_error option \<Rightarrow>
     cap_result \<times> go_error option" where
  "version_failure v d q i iv check version_error =
     (let detail = diagnostic_snippet (ce_redact v (kr_details check)) 1024;
          message = dd_provider d @ '' executable verification failed ('' @ status_string (kr_status check)
            @ ''): expected '' @ kr_expected_version check @ ''; configure '' @ sp_executable_env (dd_probe d)
            @ '' with its full path'' @ (if detail \<noteq> [] then '': '' @ detail else [])
      in (\<lparr>rs_action = zero_action_result\<lparr>ar_request_id := aq_id (cq_action q), ar_status := ''failed'',
             ar_summary := dd_provider d @ '' executable verification failed'',
             ar_error := Some \<lparr>se_classification = ''provider_unavailable'', se_message = message, se_retryable = False\<rparr>\<rparr>,
           rs_tool_run = Some (command_tool_run v d q i iv detail (-1) False),
           rs_raw_stdout = [], rs_raw_stderr = detail\<rparr>, Some (Masked message version_error)))"

definition finish_run ::
  "cmd_env \<Rightarrow> command_def \<Rightarrow> detailed option \<Rightarrow> cap_request \<Rightarrow> cmd_input \<Rightarrow> invocation \<Rightarrow> string \<Rightarrow>
     string \<Rightarrow> string \<Rightarrow> int \<Rightarrow> go_error option \<Rightarrow> cap_result \<times> go_error option" where
  "finish_run v d scope q i iv version out err exit run_error =
     (let safe_out = ce_redact v out; safe_err = ce_redact v err; ls = split_lines safe_out;
          timed_out = (case ce_context v of None \<Rightarrow> False | Some c \<Rightarrow> errors_is c DeadlineExceeded);
          b = parse_output (ce_json v) (ce_url v) (ce_ip v) (dd_output_adapter d) ls
      in case (if dd_output_adapter d = [] then Some (plain_output ls, length ls)
               else map_option (\<lambda>sc. let k = filter_records (ce_rx v) (ce_ip v) (ce_url v) sc (bt_records b)
                                     in (adapted_output b k, length (kp_accepted k))) scope) of
        None \<Rightarrow>
          (zero_result, Some (Err (''provider '' @ dd_provider d @ '' requires detailed scope evaluation'')))
      | Some (output, n) \<Rightarrow>
          let result =
              \<lparr>rs_action = zero_action_result\<lparr>ar_request_id := aq_id (cq_action q), ar_status := ''succeeded'',
                 ar_summary := dd_provider d @ '' accepted '' @ itoa (int n) @ '' normalized records'',
                 ar_output := ce_print v output\<rparr>,
               rs_tool_run = Some (command_tool_run v d q i iv (ce_redact v version) exit timed_out),
               rs_raw_stdout = safe_out, rs_raw_stderr = safe_err\<rparr>
          in (case run_error of
                None \<Rightarrow> (result, None)
              | Some e \<Rightarrow>
                  let diagnostic = diagnostic_snippet safe_err 3072;
                      why = diagnostic_snippet (ce_redact v (error_text e)) 512;
                      message = (if why = [] then ''provider execution failed'' else why)
                        @ (if diagnostic \<noteq> [] then '': '' @ diagnostic else [])
                  in (result\<lparr>rs_action := (rs_action result)\<lparr>ar_status := ''failed'',
                         ar_summary := dd_provider d @ '' execution failed'',
                         ar_error := Some \<lparr>se_classification = classify_failure v e, se_message = message,
                           se_retryable = (exit < 0 \<or> ce_context v \<noteq> None)\<rparr>\<rparr>\<rparr>,
                      Some (Masked message (Some e)))))"

text \<open>
  \<open>scope\<close> is the request's scope when it implements \<^verbatim>\<open>DetailedScope\<close>. The timeouts of the definition bound
  the contexts of the two programs; what happens then is in the answers of the runner.
\<close>

definition command_execute ::
  "cmd_env \<Rightarrow> command_def \<Rightarrow> detailed option \<Rightarrow> cap_request \<Rightarrow> cmd_event list \<times> cap_result \<times> go_error option" where
  "command_execute v d scope q =
     (case decode_input (ce_json v) False (aq_input (cq_action q)) of
        Inl e \<Rightarrow> ([], zero_result, Some e)
      | Inr i \<Rightarrow>
          (case invocation_of d i (cq_policy q) of
             Inl e \<Rightarrow> ([], zero_result, Some e)
           | Inr iv \<Rightarrow>
               let version_args = (if sp_version_args (dd_probe d) = [] then [''-version''] else sp_version_args (dd_probe d));
                   probed = VersionProbed (dd_executable d) version_args
               in (case ce_version v (dd_executable d) version_args of
                     (version, version_error) \<Rightarrow>
                       let check = evaluate_executable (dd_probe d) (dd_executable d) version version_error in
                       if sp_name (dd_probe d) \<noteq> [] \<and> kr_status check \<noteq> Compatible
                       then ([probed], version_failure v d q i iv check version_error)
                       else (case ce_run v (dd_executable d) (iv_args iv) (iv_stdin iv) of
                               (out, err, exit, run_error) \<Rightarrow>
                                 ([probed, ProcessRun (dd_executable d) (iv_args iv) (iv_stdin iv)],
                                  finish_run v d scope q i iv version out err exit run_error)))))"

definition command_manifest :: "json_printer \<Rightarrow> command_def \<Rightarrow> manifest" where
  "command_manifest js d =
     (let text_type = JObj [(''type'', JStr ''string'')];
          texts_type = JObj [(''type'', JStr ''array''), (''items'', text_type)];
          array_type = JObj [(''type'', JStr ''array'')]
      in \<lparr>mf_name = dd_name d, mf_description = dd_description d, mf_version = dd_version d, mf_risk = dd_risk d,
          mf_input_schema = js (JObj [(''type'', JStr ''object''), (''additionalProperties'', JBool False),
            (''properties'', JObj [(''domain'', text_type), (''domains'', texts_type), (''targets'', texts_type),
              (''headless'', JObj [(''type'', JStr ''boolean'')]), (''ports'', text_type), (''method'', text_type),
              (''target_plan_digest'', text_type)])]),
          mf_output_schema = js (JObj [(''type'', JStr ''object''), (''properties'', JObj [(''lines'', texts_type),
            (''authorized'', array_type), (''filtered'', array_type), (''warnings'', array_type)])]),
          mf_required_scope_type = dd_scope_type d, mf_approval_required = (dd_risk d = Moderate \<or> dd_risk d = High),
          mf_retry_safe = dd_retry_safe d, mf_idempotent = dd_idempotent d, mf_supported_providers = [dd_provider d],
          mf_produced_artifact_types = [''raw-provider-output'', ''normalized-json''],
          mf_required_secrets = dd_required_secrets d, mf_policy_requirements = dd_requirements d,
          mf_default_timeout = dd_timeout d\<rparr>)"

definition command_capability :: "cmd_env \<Rightarrow> detailed option \<Rightarrow> command_def \<Rightarrow> capability" where
  "command_capability v scope d =
     \<lparr>cap_manifest = command_manifest (ce_print v) d, cap_validate = command_validate v d,
      cap_execute = (\<lambda>q. snd (command_execute v d scope q)),
      cap_definition_validator = Some (command_validate_definition v)\<rparr>"

end
