(* ===== verification/Providers.thy ===== *)
theory Providers
  imports Commands Config
begin

text \<open>
  \<^verbatim>\<open>internal/providers/registry.go\<close> and \<^verbatim>\<open>specs.go\<close>: the definitions of the external providers, the
  arguments they build, and the registry of all capabilities.
\<close>

subsection \<open>Arguments\<close>

definition bounded :: "int \<Rightarrow> int \<Rightarrow> int" where
  "bounded configured policy_limit =
     (if policy_limit > 0 \<and> policy_limit < configured then policy_limit else configured)"

definition host_concurrency_of :: "policy \<Rightarrow> int" where
  "host_concurrency_of p = (if host_concurrency p > 0 then host_concurrency p else concurrency p)"

definition flagged :: "string \<Rightarrow> string list \<Rightarrow> string list" where
  "flagged flag vs = concat (map (\<lambda>v. [flag, v]) vs)"

definition targets_args :: "cmd_input \<Rightarrow> string \<Rightarrow> string list res" where
  "targets_args i flag =
     (if ci_targets i = [] then Inl (Err ''targets are required'') else Inr (flagged flag (ci_targets i)))"

definition domains_args :: "cmd_input \<Rightarrow> string \<Rightarrow> string list res" where
  "domains_args i flag =
     (if all_domains i = [] then Inl (Err ''domains are required'') else Inr (flagged flag (all_domains i)))"

definition target_host :: "url_parser \<Rightarrow> ip_parser \<Rightarrow> string \<Rightarrow> string res" where
  "target_host parse ip t =
     (case parse t of
        None \<Rightarrow> Inl (Err (''target '' @ quoted t @ '' must be an HTTP URL''))
      | Some u \<Rightarrow>
          if url_hostname u = [] \<or> (url_scheme u \<noteq> ''http'' \<and> url_scheme u \<noteq> ''https'')
          then Inl (Err (''target '' @ quoted t @ '' must be an HTTP URL''))
          else let host = trim_right (\<lambda>c. c = CHR ''.'') (to_lower (url_hostname u));
                   name = (case ip host of Some address \<Rightarrow> address | None \<Rightarrow> host)
               in if name = [] then Inl (Err (''target '' @ quoted t @ '' has an invalid hostname'')) else Inr name)"

fun target_hosts :: "url_parser \<Rightarrow> ip_parser \<Rightarrow> string list \<Rightarrow> string list res" where
  "target_hosts parse ip [] = Inr []"
| "target_hosts parse ip (t # ts) =
     bind_res (target_host parse ip t) (\<lambda>h. bind_res (target_hosts parse ip ts) (\<lambda>hs. Inr (h # hs)))"

definition normalized_target_hosts :: "url_parser \<Rightarrow> ip_parser \<Rightarrow> string list \<Rightarrow> string list res" where
  "normalized_target_hosts parse ip targets =
     (if targets = [] then Inl (Err ''targets are required'')
      else bind_res (target_hosts parse ip targets) (\<lambda>hs. Inr (unique_sorted hs)))"

definition target_hosts_args :: "url_parser \<Rightarrow> ip_parser \<Rightarrow> cmd_input \<Rightarrow> string \<Rightarrow> string list res" where
  "target_hosts_args parse ip i flag =
     bind_res (normalized_target_hosts parse ip (ci_targets i)) (\<lambda>hs. Inr (flagged flag hs))"

definition subfinder_args :: "cmd_input \<Rightarrow> policy \<Rightarrow> string list res" where
  "subfinder_args i p = bind_res (domains_args i ''-d'') (\<lambda>args. Inr (args @ [''-silent'']))"

definition chaos_args :: "string \<Rightarrow> cmd_input \<Rightarrow> policy \<Rightarrow> string list res" where
  "chaos_args key i p =
     (if key = [] then Inl (Err ''CHAOS_KEY is required for the chaos provider'')
      else bind_res (domains_args i ''-d'') (\<lambda>args. Inr (args @ [''-silent''])))"

definition naabu_args :: "url_parser \<Rightarrow> ip_parser \<Rightarrow> recon_config \<Rightarrow> cmd_input \<Rightarrow> policy \<Rightarrow> string list res" where
  "naabu_args parse ip c i p =
     bind_res (target_hosts_args parse ip i ''-host'') (\<lambda>args.
       Inr (args @ [''-silent'', ''-rate'', itoa (bounded (cfc_rate_limit c) (rate_limit p))]
         @ (if ci_ports i \<noteq> [] then [''-p'', ci_ports i] else [])))"

definition httpx_args :: "recon_config \<Rightarrow> cmd_input \<Rightarrow> policy \<Rightarrow> string list res" where
  "httpx_args c i p =
     bind_res (targets_args i ''-u'') (\<lambda>args.
       Inr (args @ [''-silent'', ''-json'', ''-status-code'', ''-tech-detect'', ''-threads'',
         itoa (bounded (cfc_concurrency c) (concurrency p))]))"

definition katana_args :: "recon_config \<Rightarrow> cmd_input \<Rightarrow> policy \<Rightarrow> string list res" where
  "katana_args c i p =
     bind_res (targets_args i ''-u'') (\<lambda>args.
       Inr (args @ [''-silent'', ''-jsonl'', ''-fs'', ''fqdn'', ''-rate-limit'',
           itoa (bounded (cfc_rate_limit c) (rate_limit p)), ''-concurrency'',
           itoa (bounded (cfc_concurrency c) (host_concurrency_of p))]
         @ (if ci_headless i then [''-headless''] else [])))"

definition gau_args :: "cmd_input \<Rightarrow> policy \<Rightarrow> string list res" where
  "gau_args i p =
     (if all_domains i = [] then Inl (Err ''domains are required'') else Inr (''--json'' # all_domains i))"

definition nuclei_args :: "nuclei_config \<Rightarrow> cmd_input \<Rightarrow> policy \<Rightarrow> string list res" where
  "nuclei_args c i p =
     bind_res (targets_args i ''-u'') (\<lambda>args.
       Inr (args @ [''-jsonl'', ''-silent'', ''-dr'', ''-rl'', itoa (bounded (cfn_rate_limit c) (rate_limit p)),
           ''-c'', itoa (bounded (cfn_template_concurrency c) (concurrency p)),
           ''-bulk-size'', itoa (bounded (cfn_host_concurrency c) (host_concurrency_of p)),
           ''-headc'', itoa (bounded (cfn_headless_concurrency c) (concurrency p)),
           ''-severity'', join_with '','' (cfn_severity c), ''-tags'', join_with '','' (cfn_include_tags c),
           ''-etags'', join_with '','' (cfn_exclude_tags c)]
         @ (if cfn_template_directory c \<noteq> [] then [''-t'', cfn_template_directory c] else [])))"

definition dnsx_invocation :: "url_parser \<Rightarrow> ip_parser \<Rightarrow> cmd_input \<Rightarrow> policy \<Rightarrow> invocation res" where
  "dnsx_invocation parse ip i p =
     bind_res (normalized_target_hosts parse ip (ci_targets i)) (\<lambda>hs.
       Inr \<lparr>iv_args = [''-silent''], iv_stdin = join_with [CHR 0x0A] hs @ [CHR 0x0A]\<rparr>)"

subsection \<open>Specifications\<close>

definition provider_spec ::
  "string \<Rightarrow> string \<Rightarrow> string \<Rightarrow> string \<Rightarrow> string \<Rightarrow> string \<Rightarrow> string \<Rightarrow> bool \<Rightarrow> check_spec" where
  "provider_spec name display executable env version_arg prefix pinned required =
     \<lparr>sp_name = name, sp_display_name = display, sp_executable = executable, sp_executable_env = env,
      sp_version_args = [version_arg], sp_compatible_prefix = prefix, sp_pinned_version = pinned,
      sp_required = required\<rparr>"

definition external_provider_specs :: "app_config \<Rightarrow> check_spec list" where
  "external_provider_specs cfg =
     (let t = cf_tools cfg in
      [provider_spec ''subfinder'' ''Subfinder'' (cft_subfinder t) ''SUBFINDER_EXECUTABLE'' ''-version'' ''2.'' ''v2.14.0'' True,
       provider_spec ''chaos'' ''Chaos'' (cft_chaos t) ''CHAOS_EXECUTABLE'' ''-version'' ''0.5.'' ''v0.5.2'' False,
       provider_spec ''dnsx'' ''DNSx'' (cft_dnsx t) ''DNSX_EXECUTABLE'' ''-version'' ''1.'' ''v1.3.0'' True,
       provider_spec ''naabu'' ''Naabu'' (cft_naabu t) ''NAABU_EXECUTABLE'' ''-version'' ''2.'' ''v2.6.1'' True,
       provider_spec ''httpx'' ''HTTPX'' (cft_httpx t) ''HTTPX_EXECUTABLE'' ''-version'' ''1.'' ''v1.10.0'' True,
       provider_spec ''katana'' ''Katana'' (cft_katana t) ''KATANA_EXECUTABLE'' ''-version'' ''1.'' ''v1.6.1'' True,
       provider_spec ''gau'' ''GAU'' (cft_gau t) ''GAU_EXECUTABLE'' ''--version'' ''2.'' ''v2.2.4'' True,
       provider_spec ''nuclei'' ''Nuclei'' (cft_nuclei t) ''NUCLEI_EXECUTABLE'' ''-version'' ''3.'' ''v3.10.0'' True])"

definition probe_of :: "app_config \<Rightarrow> string \<Rightarrow> check_spec" where
  "probe_of cfg name =
     (case find (\<lambda>s. sp_name s = name) (rev (external_provider_specs cfg)) of None \<Rightarrow> no_spec | Some s \<Rightarrow> s)"

definition provider_def ::
  "app_config \<Rightarrow> string \<Rightarrow> string \<Rightarrow> string \<Rightarrow> string \<Rightarrow> string \<Rightarrow> risk \<Rightarrow> command_def" where
  "provider_def cfg name description provider executable version r =
     \<lparr>dd_name = name, dd_description = description, dd_provider = provider, dd_executable = executable,
      dd_version = version, dd_risk = r, dd_scope_type = (if r = Passive then ''discovery-root'' else ''url''),
      dd_retry_safe = True, dd_idempotent = True, dd_required_secrets = [], dd_requirements = no_requirements,
      dd_timeout = cfc_timeout (cf_recon cfg), dd_passive_input = (r = Passive), dd_output_adapter = provider,
      dd_build_args = None, dd_build_invocation = None, dd_probe = probe_of cfg provider\<rparr>"

definition subfinder_def :: "app_config \<Rightarrow> command_def" where
  "subfinder_def cfg =
     (provider_def cfg ''discover.subdomains'' ''Discover candidate subdomains from passive roots'' ''subfinder''
        (cft_subfinder (cf_tools cfg)) ''2'' Passive)\<lparr>dd_build_args := Some subfinder_args\<rparr>"

definition chaos_def :: "app_config \<Rightarrow> command_def" where
  "chaos_def cfg =
     (provider_def cfg ''discover.subdomains'' ''Enrich candidate subdomains from ProjectDiscovery Chaos'' ''chaos''
        (cft_chaos (cf_tools cfg)) ''2'' Passive)
       \<lparr>dd_required_secrets := [''CHAOS_KEY''], dd_build_args := Some (chaos_args (cfc_chaos_key (cf_recon cfg)))\<rparr>"

definition single_provider_defs :: "url_parser \<Rightarrow> ip_parser \<Rightarrow> app_config \<Rightarrow> command_def list" where
  "single_provider_defs parse ip cfg =
     (let t = cf_tools cfg; r = cf_recon cfg in
      [(provider_def cfg ''resolve.dns'' ''Resolve scope-authorized names'' ''dnsx'' (cft_dnsx t) ''3'' Low)
         \<lparr>dd_build_invocation := Some (dnsx_invocation parse ip)\<rparr>,
       (provider_def cfg ''scan.ports'' ''Discover scope-authorized network ports'' ''naabu'' (cft_naabu t) ''2'' Low)
         \<lparr>dd_build_args := Some (naabu_args parse ip r)\<rparr>,
       (provider_def cfg ''probe.http'' ''Probe authorized HTTP services'' ''httpx'' (cft_httpx t) ''3'' Low)
         \<lparr>dd_build_args := Some (httpx_args r)\<rparr>,
       (provider_def cfg ''crawl.web'' ''Crawl an authorized web target'' ''katana'' (cft_katana t) ''2'' Low)
         \<lparr>dd_build_args := Some (katana_args r)\<rparr>,
       (provider_def cfg ''discover.archive_urls'' ''Discover passive archive URLs'' ''gau'' (cft_gau t) ''2'' Passive)
         \<lparr>dd_build_args := Some gau_args\<rparr>,
       (provider_def cfg ''scan.nuclei'' ''Run a policy-constrained safe Nuclei profile'' ''nuclei'' (cft_nuclei t) ''2'' Moderate)
         \<lparr>dd_timeout := cfn_timeout (cf_nuclei cfg), dd_build_args := Some (nuclei_args (cf_nuclei cfg))\<rparr>])"

definition command_defs :: "url_parser \<Rightarrow> ip_parser \<Rightarrow> app_config \<Rightarrow> command_def list" where
  "command_defs parse ip cfg = subfinder_def cfg # chaos_def cfg # single_provider_defs parse ip cfg"

text \<open>A duplicate name or a missing default is a panic, here \<open>Inl\<close>.\<close>

definition provider_registry ::
  "cmd_env \<Rightarrow> detailed option \<Rightarrow> app_config \<Rightarrow> capability list \<Rightarrow> registry res" where
  "provider_registry v scope cfg internal =
     bind_res (new_multi ''subfinder''
         [(''subfinder'', command_capability v scope (subfinder_def cfg)),
          (''chaos'', command_capability v scope (chaos_def cfg))])
       (\<lambda>multi. bind_res (registry_register [] (multi_capability multi)) (\<lambda>r.
          capability_registry.register_all r
            (map (command_capability v scope) (single_provider_defs (ce_url v) (ce_ip v) cfg) @ internal)))"

end
