(* ===== verification/ProviderFacts.thy ===== *)
theory ProviderFacts
  imports Providers
begin

text \<open>
  What holds of the external providers: the programs that run after a validated request name only
  authorised targets and stay within the limits of the policy, and what is kept of their output
  is authorised.
\<close>

subsection \<open>Validation and execution read the same input\<close>

lemma decode_member_lax: "decode_member True k v i = Some i' \<Longrightarrow> decode_member False k v i = Some i'"
  unfolding decode_member_def by (simp split: if_splits)

lemma decode_members_lax: "decode_members True kvs i = Some i' \<Longrightarrow> decode_members False kvs i = Some i'"
proof (induction kvs arbitrary: i)
  case (Cons m kvs)
  obtain k v where m: "m = (k, v)" by (cases m)
  obtain i1 where "decode_member True k v i = Some i1" and "decode_members True kvs i1 = Some i'"
    using Cons.prems by (auto simp: m split: option.splits)
  then show ?case using Cons.IH [of i1] decode_member_lax by (simp add: m)
qed simp

lemma decode_input_lax:
  assumes "decode_input jd True raw = Inr i" and "decode_input jp False raw = Inr i'"
    and "\<And>j. jp raw = Some j \<Longrightarrow> jd raw = Some j"
  shows "i' = i"
proof -
  obtain j where j: "jp raw = Some j" and "parse_object jp raw \<noteq> None"
    using assms(2) by (cases "jp raw") (auto simp: decode_input_def parse_object_def split: option.splits)
  then have "parse_object jd raw = parse_object jp raw" using assms(3) by (simp add: parse_object_def)
  then show ?thesis
    using assms(1,2) decode_members_lax by (fastforce simp: decode_input_def split: option.splits)
qed

lemma first_target_error_None [simp]: "first_error f xs = None \<longleftrightarrow> (\<forall>x \<in> set xs. f x = None)"
  by (induction xs) (auto split: option.splits)

lemma command_validate_None:
  assumes "command_validate v d q = None"
  shows "\<exists>i iv allowed. decode_input (ce_decode v) True (aq_input (cq_action q)) = Inr i \<and> cq_scope q = Some allowed \<and>
    invocation_of d i (cq_policy q) = Inr iv \<and>
    (\<forall>t \<in> set (ci_targets i). str_contains t ''://'' \<and> allowed t) \<and>
    (all_domains i \<noteq> [] \<longrightarrow> dd_passive_input d) \<and>
    (\<forall>r \<in> set (all_domains i). validate_passive_root (ce_ip v) r = None) \<and>
    (ci_headless i \<longrightarrow> headless_browser (cq_policy q))"
  using assms
  by (auto simp: command_validate_def Let_def root_error_def target_error_def
      split: sum.splits option.splits if_splits)

text \<open>A program runs only once its version was found compatible, with the arguments of the input.\<close>

lemma command_execute_runs:
  assumes "ProcessRun exe args stdin \<in> set (fst (command_execute v d scope q))"
  shows "exe = dd_executable d"
    and "\<exists>i. decode_input (ce_json v) False (aq_input (cq_action q)) = Inr i \<and>
      invocation_of d i (cq_policy q) = Inr \<lparr>iv_args = args, iv_stdin = stdin\<rparr>"
    and "sp_name (dd_probe d) \<noteq> [] \<Longrightarrow>
      (\<exists>version e. ce_version v exe (if sp_version_args (dd_probe d) = [] then [''-version''] else sp_version_args (dd_probe d)) = (version, e) \<and>
         kr_status (evaluate_executable (dd_probe d) exe version e) = Compatible)"
  using assms
  by (auto simp: command_execute_def Let_def split: sum.splits prod.splits if_splits
      intro!: invocation.equality)

lemma validated_run:
  assumes "command_validate v d q = None"
    and "\<And>j. ce_json v (aq_input (cq_action q)) = Some j \<Longrightarrow> ce_decode v (aq_input (cq_action q)) = Some j"
    and "ProcessRun exe args stdin \<in> set (fst (command_execute v d scope q))"
  shows "\<exists>i allowed. cq_scope q = Some allowed \<and>
    invocation_of d i (cq_policy q) = Inr \<lparr>iv_args = args, iv_stdin = stdin\<rparr> \<and>
    (\<forall>t \<in> set (ci_targets i). allowed t) \<and> (all_domains i \<noteq> [] \<longrightarrow> dd_passive_input d) \<and>
    (\<forall>r \<in> set (all_domains i). validate_passive_root (ce_ip v) r = None)"
proof -
  obtain i where i: "decode_input (ce_json v) False (aq_input (cq_action q)) = Inr i"
    and run: "invocation_of d i (cq_policy q) = Inr \<lparr>iv_args = args, iv_stdin = stdin\<rparr>"
    using command_execute_runs(2) [OF assms(3)] by blast
  obtain i' allowed where i': "decode_input (ce_decode v) True (aq_input (cq_action q)) = Inr i'"
    and rest: "cq_scope q = Some allowed" "\<forall>t \<in> set (ci_targets i'). allowed t"
      "all_domains i' \<noteq> [] \<longrightarrow> dd_passive_input d" "\<forall>r \<in> set (all_domains i'). validate_passive_root (ce_ip v) r = None"
    using command_validate_None [OF assms(1)] by blast
  have "i = i'" by (rule decode_input_lax [OF i' i]) (rule assms(2))
  with run rest show ?thesis by blast
qed

subsection \<open>Reading the arguments\<close>

text \<open>The options of a command line: every word that is no switch takes the next word as its value.\<close>

definition switches :: "string list" where
  "switches = [''-silent'', ''-json'', ''-status-code'', ''-tech-detect'', ''-jsonl'', ''-headless'', ''-dr'']"

fun option_pairs :: "string list \<Rightarrow> (string \<times> string) list" where
  "option_pairs (a # rest) =
     (if a \<in> set switches then option_pairs rest
      else (case rest of [] \<Rightarrow> [] | b # rest' \<Rightarrow> (a, b) # option_pairs rest'))"
| "option_pairs [] = []"

lemma option_pairs_flagged:
  "f \<notin> set switches \<Longrightarrow> option_pairs (flagged f vs @ rest) = map (Pair f) vs @ option_pairs rest"
  by (induction vs) (simp_all add: flagged_def)

definition limit_of :: "policy \<Rightarrow> string \<Rightarrow> int" where
  "limit_of p flag =
     (if flag \<in> {''-rate'', ''-rate-limit'', ''-rl''} then rate_limit p
      else if flag \<in> {''-threads'', ''-c'', ''-headc''} then concurrency p
      else if flag \<in> {''-concurrency'', ''-bulk-size''} then host_concurrency_of p else 0)"

definition good_option ::
  "url_parser \<Rightarrow> ip_parser \<Rightarrow> policy \<Rightarrow> cmd_input \<Rightarrow> string \<times> string \<Rightarrow> bool" where
  "good_option parse ip p i o' =
     (case o' of (f, x) \<Rightarrow>
        (f = ''-u'' \<longrightarrow> x \<in> set (ci_targets i)) \<and>
        (f = ''-host'' \<longrightarrow> (\<exists>t \<in> set (ci_targets i). target_host parse ip t = Inr x)) \<and>
        (f = ''-d'' \<longrightarrow> x \<in> set (all_domains i)) \<and>
        (limit_of p f > 0 \<longrightarrow> (\<exists>n. x = itoa n \<and> n \<le> limit_of p f)))"

lemma bounded_le: "0 < l \<Longrightarrow> bounded c l \<le> l"
  by (simp add: bounded_def)

lemma target_hosts_Inr: "target_hosts parse ip ts = Inr hs \<Longrightarrow> h \<in> set hs \<Longrightarrow> \<exists>t \<in> set ts. target_host parse ip t = Inr h"
  by (induction ts arbitrary: hs) (auto simp: bind_res_Inr)

lemma normalized_target_hosts_Inr:
  "normalized_target_hosts parse ip ts = Inr hs \<Longrightarrow> h \<in> set hs \<Longrightarrow> \<exists>t \<in> set ts. target_host parse ip t = Inr h"
  using target_hosts_Inr by (fastforce simp: normalized_target_hosts_def bind_res_Inr split: if_splits)

lemma good_option_flagged:
  "list_all (good_option parse ip p i) (map (Pair ''-u'') (ci_targets i))"
  "normalized_target_hosts parse ip (ci_targets i) = Inr hs \<Longrightarrow> list_all (good_option parse ip p i) (map (Pair ''-host'') hs)"
  "list_all (good_option parse ip p i) (map (Pair ''-d'') (all_domains i))"
  using normalized_target_hosts_Inr
  by (fastforce simp: list_all_iff good_option_def limit_of_def)+

lemma subfinder_options:
  "subfinder_args i p = Inr args \<Longrightarrow> list_all (good_option parse ip p i) (option_pairs args)"
  using good_option_flagged(3)
  by (auto simp: subfinder_args_def domains_args_def bind_res_Inr option_pairs_flagged switches_def split: if_splits)

lemma chaos_options:
  "chaos_args key i p = Inr args \<Longrightarrow> list_all (good_option parse ip p i) (option_pairs args)"
  using good_option_flagged(3)
  by (auto simp: chaos_args_def domains_args_def bind_res_Inr option_pairs_flagged switches_def split: if_splits)

lemma naabu_options:
  "naabu_args parse ip c i p = Inr args \<Longrightarrow> list_all (good_option parse ip p i) (option_pairs args)"
  using good_option_flagged(2) bounded_le [of "rate_limit p"]
  by (fastforce simp: naabu_args_def target_hosts_args_def bind_res_Inr option_pairs_flagged switches_def
      good_option_def limit_of_def split: if_splits)

lemma httpx_options:
  "httpx_args c i p = Inr args \<Longrightarrow> list_all (good_option parse ip p i) (option_pairs args)"
  using good_option_flagged(1) bounded_le [of "concurrency p"]
  by (fastforce simp: httpx_args_def targets_args_def bind_res_Inr option_pairs_flagged switches_def
      good_option_def limit_of_def split: if_splits)

lemma katana_options:
  "katana_args c i p = Inr args \<Longrightarrow> list_all (good_option parse ip p i) (option_pairs args)"
  using good_option_flagged(1) bounded_le [of "rate_limit p"] bounded_le [of "host_concurrency_of p"]
  by (fastforce simp: katana_args_def targets_args_def bind_res_Inr option_pairs_flagged switches_def
      good_option_def limit_of_def split: if_splits)

lemma nuclei_options:
  "nuclei_args c i p = Inr args \<Longrightarrow> list_all (good_option parse ip p i) (option_pairs args)"
  using good_option_flagged(1) bounded_le [of "rate_limit p"] bounded_le [of "host_concurrency_of p"] bounded_le [of "concurrency p"]
  by (fastforce simp: nuclei_args_def targets_args_def bind_res_Inr option_pairs_flagged switches_def
      good_option_def limit_of_def split: if_splits)

lemma command_defs_options:
  assumes "d \<in> set (command_defs parse ip cfg)" and "invocation_of d i p = Inr iv"
  shows "if dd_provider d = ''gau'' then iv_args iv = ''--json'' # all_domains i \<and> iv_stdin iv = []
    else list_all (good_option parse ip p i) (option_pairs (iv_args iv)) \<and>
      (iv_stdin iv \<noteq> [] \<longrightarrow> (\<exists>hs. iv_stdin iv = join_with [CHR 0x0A] hs @ [CHR 0x0A] \<and>
         (\<forall>h \<in> set hs. \<exists>t \<in> set (ci_targets i). target_host parse ip t = Inr h)))"
proof -
  note defs = command_defs_def single_provider_defs_def subfinder_def_def chaos_def_def provider_def_def invocation_of_def
  consider (built) build args where "dd_build_invocation d = None" "dd_build_args d = Some build" "build i p = Inr args"
      "iv = \<lparr>iv_args = args, iv_stdin = []\<rparr>" "dd_provider d \<noteq> ''gau''"
      "build \<in> {subfinder_args, chaos_args (cfc_chaos_key (cf_recon cfg)), naabu_args parse ip (cf_recon cfg),
         httpx_args (cf_recon cfg), katana_args (cf_recon cfg), nuclei_args (cf_nuclei cfg)}"
    | (gau) "dd_provider d = ''gau''" "gau_args i p = Inr (iv_args iv)" "iv_stdin iv = []"
    | (dnsx) "dd_provider d = ''dnsx''" "dnsx_invocation parse ip i p = Inr iv"
    using assms by (auto simp: defs Let_def bind_res_Inr)
  then show ?thesis
  proof cases
    case built
    then show ?thesis
      using subfinder_options chaos_options naabu_options httpx_options katana_options nuclei_options by auto
  next
    case gau
    then show ?thesis by (simp add: gau_args_def split: if_splits)
  next
    case dnsx
    then show ?thesis
      using normalized_target_hosts_Inr
      by (auto simp: dnsx_invocation_def bind_res_Inr switches_def)
  qed
qed

text \<open>
  C3: A provider program that an accepted request runs is started with arguments the scope and the
  policy allow: every URL it gets is a target the scope of the request allows, every host option
  and every line of standard input is the host of such a target, a root domain is a valid name and
  goes only to a passive provider, and every rate, thread and concurrency option is at most the
  positive limit of the policy for it.
\<close>

theorem executed_programs_stay_within_scope_and_policy:
  assumes def': "d \<in> set (command_defs (ce_url v) (ce_ip v) cfg)"
    and valid: "command_validate v d q = None"
    and decoder: "\<And>j. ce_json v (aq_input (cq_action q)) = Some j \<Longrightarrow> ce_decode v (aq_input (cq_action q)) = Some j"
    and runs: "ProcessRun exe args stdin \<in> set (fst (command_execute v d scope q))"
  shows "\<exists>allowed ts. cq_scope q = Some allowed \<and> (\<forall>t \<in> set ts. allowed t) \<and>
    (if dd_provider d = ''gau'' then list_all (\<lambda>a. validate_passive_root (ce_ip v) a = None) (tl args) \<and> stdin = []
     else list_all (\<lambda>(f, x).
         (f = ''-u'' \<longrightarrow> x \<in> set ts) \<and>
         (f = ''-host'' \<longrightarrow> (\<exists>t \<in> set ts. target_host (ce_url v) (ce_ip v) t = Inr x)) \<and>
         (f = ''-d'' \<longrightarrow> dd_passive_input d \<and> validate_passive_root (ce_ip v) x = None) \<and>
         (limit_of (cq_policy q) f > 0 \<longrightarrow> (\<exists>n. x = itoa n \<and> n \<le> limit_of (cq_policy q) f))) (option_pairs args) \<and>
       (stdin \<noteq> [] \<longrightarrow> (\<exists>hs. stdin = join_with [CHR 0x0A] hs @ [CHR 0x0A] \<and>
          (\<forall>h \<in> set hs. \<exists>t \<in> set ts. target_host (ce_url v) (ce_ip v) t = Inr h))))"
proof -
  obtain i allowed where i: "cq_scope q = Some allowed" "\<forall>t \<in> set (ci_targets i). allowed t"
      "invocation_of d i (cq_policy q) = Inr \<lparr>iv_args = args, iv_stdin = stdin\<rparr>"
      "all_domains i \<noteq> [] \<longrightarrow> dd_passive_input d" "\<forall>r \<in> set (all_domains i). validate_passive_root (ce_ip v) r = None"
    using validated_run [OF valid decoder runs] by blast
  have good: "list_all (good_option (ce_url v) (ce_ip v) (cq_policy q) i) os \<Longrightarrow>
    list_all (\<lambda>(f, x).
         (f = ''-u'' \<longrightarrow> x \<in> set (ci_targets i)) \<and>
         (f = ''-host'' \<longrightarrow> (\<exists>t \<in> set (ci_targets i). target_host (ce_url v) (ce_ip v) t = Inr x)) \<and>
         (f = ''-d'' \<longrightarrow> dd_passive_input d \<and> validate_passive_root (ce_ip v) x = None) \<and>
         (limit_of (cq_policy q) f > 0 \<longrightarrow> (\<exists>n. x = itoa n \<and> n \<le> limit_of (cq_policy q) f))) os" for os
    using i(4,5) by (fastforce simp: list_all_iff good_option_def)
  note options = command_defs_options [OF def' i(3), simplified]
  show ?thesis
  proof (cases "dd_provider d = ''gau''")
    case True
    with options have "args = ''--json'' # all_domains i" and "stdin = []" by simp_all
    then show ?thesis using True i(1,2,5) by (intro exI [of _ allowed] exI [of _ "ci_targets i"]) (simp add: list_all_iff)
  next
    case False
    with options have "list_all (good_option (ce_url v) (ce_ip v) (cq_policy q) i) (option_pairs args)" by simp
    from good [OF this] False options i(1,2) show ?thesis
      by (intro exI [of _ allowed] exI [of _ "ci_targets i"]) simp
  qed
qed

definition sample_cmd_env :: cmd_env where
  "sample_cmd_env =
     \<lparr>ce_json = (\<lambda>s. Some (JObj [(''targets'', JArr [JStr ''https://a.example/''])])),
      ce_decode = (\<lambda>s. Some (JObj [(''targets'', JArr [JStr ''https://a.example/''])])),
      ce_print = (\<lambda>j. ''{}''), ce_url = (\<lambda>s. None), ce_ip = (\<lambda>s. None), ce_rx = (\<lambda>s. None), ce_redact = (\<lambda>s. s),
      ce_version = (\<lambda>exe args. (''Current Version: v1.10.0'', None)), ce_run = (\<lambda>exe args stdin. ([], [], 0, None)),
      ce_context = None, ce_not_found = (\<lambda>e. False), ce_started = 0, ce_completed = 1, ce_new_id = ''id''\<rparr>"

definition sample_app_config :: app_config where
  "sample_app_config = read_config (\<lambda>_. None) (Inr ''w'') sample_lookup"

definition sample_cmd_request :: cap_request where
  "sample_cmd_request =
     \<lparr>cq_action = \<lparr>aq_id = ''a'', aq_task_id = ''t'', aq_workflow_run_id = ''r'', aq_step_run_id = ''s'',
        aq_requested_by = [], aq_capability = ''probe.http'', aq_reason = [], aq_input = ''{}'', aq_idempotency_key = []\<rparr>,
      cq_program_id = ''p'', cq_provider = ''httpx'', cq_approved = False, cq_policy = zero_policy\<lparr>concurrency := 3\<rparr>,
      cq_scope = Some (\<lambda>t. t = ''https://a.example/''), cq_policy_phase = [], cq_decision_recorder = None\<rparr>"

definition sample_httpx :: command_def where
  "sample_httpx = single_provider_defs (ce_url sample_cmd_env) (ce_ip sample_cmd_env) sample_app_config ! 2"

definition sample_httpx_args :: "string list" where
  "sample_httpx_args =
     [''-u'', ''https://a.example/'', ''-silent'', ''-json'', ''-status-code'', ''-tech-detect'', ''-threads'', ''3'']"

lemma sample_httpx_member: "sample_httpx \<in> set (command_defs (ce_url sample_cmd_env) (ce_ip sample_cmd_env) sample_app_config)"
proof -
  have "sample_httpx \<in> set (single_provider_defs (ce_url sample_cmd_env) (ce_ip sample_cmd_env) sample_app_config)"
    unfolding sample_httpx_def by (intro nth_mem) (simp add: single_provider_defs_def Let_def)
  then show ?thesis by (simp add: command_defs_def)
qed

lemma sample_httpx_valid: "command_validate sample_cmd_env sample_httpx sample_cmd_request = None"
  by code_simp

lemma sample_httpx_runs:
  "fst (command_execute sample_cmd_env sample_httpx None sample_cmd_request) =
     [VersionProbed ''httpx'' [''-version''], ProcessRun ''httpx'' sample_httpx_args []]"
  by code_simp

lemma executed_programs_stay_within_scope_and_policy_witness:
  "command_validate sample_cmd_env sample_httpx sample_cmd_request = None \<and>
   ProcessRun ''httpx'' sample_httpx_args [] \<in> set (fst (command_execute sample_cmd_env sample_httpx None sample_cmd_request)) \<and>
   (\<exists>n. ''3'' = itoa n \<and> n \<le> 3)"
proof -
  have runs: "ProcessRun ''httpx'' sample_httpx_args [] \<in> set (fst (command_execute sample_cmd_env sample_httpx None sample_cmd_request))"
    unfolding sample_httpx_runs by simp
  have "dd_provider sample_httpx = ''httpx''" by code_simp
  then have provider: "dd_provider sample_httpx \<noteq> ''gau''" by simp
  have pairs: "option_pairs sample_httpx_args = [(''-u'', ''https://a.example/''), (''-threads'', ''3'')]" by code_simp
  have l: "limit_of (cq_policy sample_cmd_request) ''-threads'' = 3" by code_simp
  have "\<exists>n. ''3'' = itoa n \<and> n \<le> 3"
    using executed_programs_stay_within_scope_and_policy [OF sample_httpx_member sample_httpx_valid _ runs] provider
    by (auto simp: pairs l sample_cmd_env_def)
  with sample_httpx_valid runs show ?thesis by blast
qed

text \<open>
  A root that begins with a hyphen is accepted as a hostname, and the archive provider gets it where
  it reads its options.
\<close>

lemma root_can_be_an_option:
  "validate_passive_root (\<lambda>_. None) ''--o=results.txt'' = None \<and>
   gau_args (no_input\<lparr>ci_domains := [''--o=results.txt'']\<rparr>) zero_policy = Inr [''--json'', ''--o=results.txt'']"
  by code_simp

subsection \<open>What is kept of the output\<close>

definition host_evidence ::
  "rx_parser \<Rightarrow> ip_parser \<Rightarrow> normalized_rule list \<Rightarrow> string \<Rightarrow> string \<Rightarrow> string \<Rightarrow> bool" where
  "host_evidence rx ip rules h name raw \<longleftrightarrow>
     normalize_hostname ip h = Inr name \<and>
     (\<exists>r \<in> set rules. rule_matches_host rx name r \<and> raw \<in> set (rule_urls rx ip name r))"

text \<open>Why a record may be kept, and the name it is kept under.\<close>

definition authorised_as ::
  "rx_parser \<Rightarrow> ip_parser \<Rightarrow> url_parser \<Rightarrow> scope \<Rightarrow> normalized_rule list \<Rightarrow> prov_record \<Rightarrow> string \<Rightarrow> bool" where
  "authorised_as rx ip parse sc rules r name \<longleftrightarrow>
     (case po_kind r of
        HostRecord \<Rightarrow> \<exists>raw. host_evidence rx ip rules (po_host r) name raw \<and> allows parse sc raw
      | UrlRecord \<Rightarrow> \<exists>u. parse (trim_space (po_target r)) = Some u \<and> http_url u \<and> name = url_string u \<and> allows parse sc name
      | PortRecord \<Rightarrow> name = po_target r \<and>
          (\<exists>host raw. host_evidence rx ip rules (po_host r) host raw \<and> allows parse sc raw \<and>
             port_matches parse (po_port r) raw)
      | OtherRecord s \<Rightarrow> False)"

lemma unique_sorted_single [simp]: "unique_sorted [x] = [x]"
  by (simp add: unique_sorted_def append_unique_def)

lemma filter_one_host:
  fixes rx ip parse sc rules h
  defines "r \<equiv> filter_discovered_hosts rx ip (Scope.evaluate parse sc) rules [h]"
  shows "length (fr_filtered r) = (if fr_authorized r = [] then 1 else 0)"
    and "fr_authorized r = [] \<Longrightarrow> fr_authorized_urls r = []"
    and "name \<in> set (fr_authorized r) \<Longrightarrow> normalize_hostname ip h = Inr name \<and> fr_authorized_urls r \<noteq> []"
    and "raw \<in> set (fr_authorized_urls r) \<Longrightarrow>
      allows parse sc raw \<and> (\<exists>name. fr_authorized r = [name] \<and> host_evidence rx ip rules h name raw)"
proof -
  have "(\<exists>d. r = finish_filter (add_rejected d no_filtering)) \<or>
      (\<exists>name d. normalize_hostname ip h = Inr name \<and> d = authorize_host rx ip (Scope.evaluate parse sc) rules name \<and>
         r = finish_filter (add_decision d (fd_authorized_urls d) no_filtering))"
    by (auto simp: r_def filter_discovered_hosts_def filter_host_def no_filtering_def Let_def split: sum.splits)
  then consider (bad) d where "r = finish_filter (add_rejected d no_filtering)"
    | (good) name d where "normalize_hostname ip h = Inr name" "d = authorize_host rx ip (Scope.evaluate parse sc) rules name"
        "r = finish_filter (add_decision d (fd_authorized_urls d) no_filtering)" "fd_accepted d"
    | (refused) name d where "normalize_hostname ip h = Inr name" "d = authorize_host rx ip (Scope.evaluate parse sc) rules name"
        "r = finish_filter (add_decision d (fd_authorized_urls d) no_filtering)" "\<not> fd_accepted d"
    by blast
  then have "length (fr_filtered r) = (if fr_authorized r = [] then 1 else 0) \<and>
     (fr_authorized r = [] \<longrightarrow> fr_authorized_urls r = []) \<and>
     (name \<in> set (fr_authorized r) \<longrightarrow> normalize_hostname ip h = Inr name \<and> fr_authorized_urls r \<noteq> []) \<and>
     (raw \<in> set (fr_authorized_urls r) \<longrightarrow>
        allows parse sc raw \<and> (\<exists>name. fr_authorized r = [name] \<and> host_evidence rx ip rules h name raw))"
  proof cases
    case bad
    then show ?thesis by (simp add: finish_filter_def add_rejected_def no_filtering_def unique_sorted_def)
  next
    case refused
    then show ?thesis
      by (simp add: finish_filter_def add_decision_def add_rejected_def no_filtering_def unique_sorted_def Let_def)
  next
    case good
    let ?raws = "concat (map (rule_urls rx ip name) (List.filter (rule_matches_host rx name) rules))"
    have urls: "fd_authorized_urls d = unique_sorted (List.filter (\<lambda>raw. ev_allowed (Scope.evaluate parse sc raw)) ?raws)"
      and some: "List.filter (\<lambda>raw. ev_allowed (Scope.evaluate parse sc raw)) ?raws \<noteq> []"
      and target: "fd_target d = name"
      using good(2,4) by (auto simp: authorize_host_def rejected_def Let_def split: if_splits)
    have r: "fr_filtered r = []" "fr_authorized r = [name]" "set (fr_authorized_urls r) = set (fd_authorized_urls d)"
      using good(3,4) by (simp_all add: finish_filter_def add_decision_def no_filtering_def Let_def target)
    have "fr_authorized_urls r \<noteq> []" using r(3) some by (auto simp: urls set_empty [symmetric] simp del: set_empty)
    then show ?thesis using r good(1) by (auto simp: urls allows_def host_evidence_def)
  qed
  then show "length (fr_filtered r) = (if fr_authorized r = [] then 1 else 0)"
    and "fr_authorized r = [] \<Longrightarrow> fr_authorized_urls r = []"
    and "name \<in> set (fr_authorized r) \<Longrightarrow> normalize_hostname ip h = Inr name \<and> fr_authorized_urls r \<noteq> []"
    and "raw \<in> set (fr_authorized_urls r) \<Longrightarrow>
      allows parse sc raw \<and> (\<exists>name. fr_authorized r = [name] \<and> host_evidence rx ip rules h name raw)"
    by blast+
qed

lemma filter_one_url:
  fixes parse sc t
  defines "r \<equiv> filter_urls parse (Scope.evaluate parse sc) [t]"
  shows "length (fr_filtered r) = (if fr_authorized r = [] then 1 else 0)"
    and "fr_authorized_urls r = fr_authorized r"
    and "name \<in> set (fr_authorized r) \<Longrightarrow>
      allows parse sc name \<and> (\<exists>u. parse (trim_space t) = Some u \<and> http_url u \<and> name = url_string u)"
  by (auto simp: r_def filter_urls_def filter_url_def no_filtering_def finish_filter_def add_decision_def add_rejected_def
      allows_def rejected_def unique_sorted_def append_unique_def Let_def split: option.splits if_splits)

definition known_kind :: "prov_record \<Rightarrow> bool" where
  "known_kind r \<longleftrightarrow> po_kind r \<in> {HostRecord, UrlRecord, PortRecord}"

definition kept_inv ::
  "rx_parser \<Rightarrow> ip_parser \<Rightarrow> url_parser \<Rightarrow> scope \<Rightarrow> normalized_rule list \<Rightarrow> prov_record list \<Rightarrow> kept \<Rightarrow> bool" where
  "kept_inv rx ip parse sc rules seen k \<longleftrightarrow>
     (\<forall>u \<in> set (kp_urls k). allows parse sc u) \<and>
     (\<forall>r \<in> set (kp_records k). r \<in> set seen \<and> (\<exists>name \<in> set (kp_accepted k). authorised_as rx ip parse sc rules r name)) \<and>
     (\<forall>name \<in> set (kp_accepted k). \<exists>r \<in> set (kp_records k). authorised_as rx ip parse sc rules r name) \<and>
     length (kp_records k) + length (kp_filtered k) = length (List.filter known_kind seen)"

lemma keep_result_inv:
  assumes inv: "kept_inv rx ip parse sc rules seen k" and known: "known_kind record"
    and count: "length (fr_filtered r) = (if fr_authorized r = [] then 1 else 0)"
    and urls: "\<forall>u \<in> set (fr_authorized_urls r). allows parse sc u"
    and names: "\<And>name. name \<in> set (fr_authorized r) \<Longrightarrow> authorised_as rx ip parse sc rules record name"
  shows "kept_inv rx ip parse sc rules (seen @ [record]) (keep_result r record k)"
proof (cases "fr_authorized r = []")
  case True
  then show ?thesis using inv known count by (auto simp: keep_result_def kept_inv_def)
next
  case False
  then obtain name where "name \<in> set (fr_authorized r)" by (cases "fr_authorized r") auto
  then show ?thesis
    using inv known urls names False by (auto simp: keep_result_def kept_inv_def)
qed

lemma filter_record_inv:
  assumes "kept_inv rx ip parse sc rules seen k"
  shows "kept_inv rx ip parse sc rules (seen @ [record]) (filter_record rx ip parse (Scope.evaluate parse sc, rules) record k)"
proof (cases "po_kind record")
  case HostRecord
  let ?r = "filter_discovered_hosts rx ip (Scope.evaluate parse sc) rules [po_host record]"
  have names: "authorised_as rx ip parse sc rules record name" if name: "name \<in> set (fr_authorized ?r)" for name
  proof -
    obtain raw where "raw \<in> set (fr_authorized_urls ?r)"
      using filter_one_host(3) [OF name] by (cases "fr_authorized_urls ?r") auto
    from filter_one_host(4) [OF this] name show ?thesis by (auto simp: authorised_as_def HostRecord)
  qed
  have "kept_inv rx ip parse sc rules (seen @ [record]) (keep_result ?r record k)"
    by (rule keep_result_inv [OF assms _ filter_one_host(1) _ names])
      (use filter_one_host(4) in \<open>auto simp: known_kind_def HostRecord\<close>)
  then show ?thesis by (simp add: filter_record_def HostRecord)
next
  case UrlRecord
  have "kept_inv rx ip parse sc rules (seen @ [record])
      (keep_result (filter_urls parse (Scope.evaluate parse sc) [po_target record]) record k)"
    by (rule keep_result_inv [OF assms _ filter_one_url(1)])
      (use filter_one_url(3) in \<open>auto simp: known_kind_def UrlRecord authorised_as_def filter_one_url(2)\<close>)
  then show ?thesis by (simp add: filter_record_def UrlRecord)
next
  case PortRecord
  let ?r = "filter_discovered_hosts rx ip (Scope.evaluate parse sc) rules [po_host record]"
  have known: "known_kind record" by (simp add: known_kind_def PortRecord)
  show ?thesis
  proof (cases "list_ex (port_matches parse (po_port record)) (fr_authorized_urls ?r)")
    case True
    then obtain raw where "raw \<in> set (fr_authorized_urls ?r)" and "port_matches parse (po_port record) raw"
      by (auto simp: list_ex_iff)
    from filter_one_host(4) [OF this(1)] this(2) have "authorised_as rx ip parse sc rules record (po_target record)"
      by (auto simp: authorised_as_def PortRecord)
    then show ?thesis using assms True known by (auto simp: filter_record_def PortRecord kept_inv_def Let_def)
  next
    case False
    then show ?thesis using assms known by (auto simp: filter_record_def PortRecord kept_inv_def Let_def)
  qed
next
  case (OtherRecord x)
  then show ?thesis using assms by (auto simp: filter_record_def kept_inv_def known_kind_def)
qed

lemma filter_records_inv:
  "kept_inv rx ip parse sc rules seen k \<Longrightarrow>
     kept_inv rx ip parse sc rules (seen @ records) (fold (filter_record rx ip parse (Scope.evaluate parse sc, rules)) records k)"
proof (induction records arbitrary: seen k)
  case (Cons r records)
  from Cons.IH [OF filter_record_inv [OF Cons.prems, of r]] show ?case by simp
qed simp


definition sample_records :: "prov_record list" where
  "sample_records =
     map (\<lambda>t. \<lparr>po_provider = ''httpx'', po_kind = UrlRecord, po_target = t, po_host = [], po_port = 0, po_status_code = 200,
         po_technologies = [], po_fields = None\<rparr>) [''https://example.com/'', ''https://other.org/'']"

lemma sample_kept:
  "kp_urls (filter_records sample_rx (\<lambda>s. None) sample_url (Scope.evaluate sample_url sample_scope, []) sample_records) =
     [''https://example.com/''] \<and>
   length (kp_filtered (filter_records sample_rx (\<lambda>s. None) sample_url (Scope.evaluate sample_url sample_scope, []) sample_records)) = 1"
  by code_simp


subsection \<open>What an execution reports\<close>

definition is_run :: "cmd_event \<Rightarrow> bool" where
  "is_run ev \<longleftrightarrow> (case ev of ProcessRun exe args stdin \<Rightarrow> True | VersionProbed exe args \<Rightarrow> False)"

lemma zero_result_parts [simp]:
  "ar_status (rs_action zero_result) = []" "ar_error (rs_action zero_result) = None"
  by (simp_all add: zero_result_def zero_action_result_def)

lemma finish_run_cases:
  assumes "finish_run v d scope q i iv version out err exit run_error = (r, e)"
  shows "(r = zero_result \<and> (\<exists>m. e = Some (Err m))) \<or>
    (rs_raw_stdout r = ce_redact v out \<and> rs_raw_stderr r = ce_redact v err \<and>
     (if run_error = None then e = None \<and> ar_status (rs_action r) = ''succeeded'' \<and> ar_error (rs_action r) = None
      else ar_status (rs_action r) = ''failed'' \<and>
        (\<exists>s. ar_error (rs_action r) = Some s \<and> e = Some (Masked (se_message s) run_error))))"
  using assms by (auto simp: finish_run_def Let_def zero_action_result_def split: option.splits if_splits)

text \<open>
  Executing a provider reports success exactly when it returns no error, and then the one
  program it ran returned none and its redacted streams are the raw output; a structured error
  carries the message of the returned error and is retryable only when the program was started.
\<close>

theorem execution_reports_what_the_program_did:
  assumes run: "command_execute v d scope q = (ev, r, e)"
  shows "(e = None \<longleftrightarrow> ar_status (rs_action r) = ''succeeded'') \<and>
    (e = None \<longrightarrow> (\<exists>args stdin out err code. ProcessRun (dd_executable d) args stdin \<in> set ev \<and>
       ce_run v (dd_executable d) args stdin = (out, err, code, None) \<and>
       rs_raw_stdout r = ce_redact v out \<and> rs_raw_stderr r = ce_redact v err)) \<and>
    (\<forall>s. ar_error (rs_action r) = Some s \<longrightarrow>
       (\<exists>cause. e = Some (Masked (se_message s) cause)) \<and> (se_retryable s \<longrightarrow> list_ex is_run ev)) \<and>
    length (List.filter is_run ev) \<le> 1"
proof -
  consider (input) "ev = []" "r = zero_result" "e \<noteq> None"
    | (version) i iv check ve where "\<not> list_ex is_run ev" "version_failure v d q i iv check ve = (r, e)"
        "length (List.filter is_run ev) \<le> 1"
    | (ran) i iv version out err code re where "finish_run v d scope q i iv version out err code re = (r, e)"
        "ce_run v (dd_executable d) (iv_args iv) (iv_stdin iv) = (out, err, code, re)"
        "ProcessRun (dd_executable d) (iv_args iv) (iv_stdin iv) \<in> set ev" "length (List.filter is_run ev) \<le> 1"
    using run
    by (auto simp: command_execute_def Let_def is_run_def split: sum.splits prod.splits if_splits)
  then show ?thesis
  proof cases
    case input
    then show ?thesis by simp
  next
    case version
    then show ?thesis by (auto simp: version_failure_def Let_def zero_action_result_def)
  next
    case ran
    then have "list_ex is_run ev" unfolding list_ex_iff by (intro bexI) (auto simp: is_run_def)
    moreover have "\<exists>args stdin out err code. ProcessRun (dd_executable d) args stdin \<in> set ev \<and>
        ce_run v (dd_executable d) args stdin = (out, err, code, None) \<and>
        rs_raw_stdout r = ce_redact v out \<and> rs_raw_stderr r = ce_redact v err" if "e = None"
    proof -
      from finish_run_cases [OF ran(1)] that have "re = None" "rs_raw_stdout r = ce_redact v out" "rs_raw_stderr r = ce_redact v err"
        by (auto split: if_splits)
      with ran(2,3) show ?thesis by blast
    qed
    ultimately show ?thesis using finish_run_cases [OF ran(1)] ran(4) by (auto split: if_splits)
  qed
qed

lemma execution_reports_what_the_program_did_witness:
  "\<exists>ev r. command_execute sample_cmd_env sample_httpx (Some (\<lambda>s. Scope.evaluate sample_url sample_scope s, [])) sample_cmd_request =
      (ev, r, None) \<and> ar_status (rs_action r) = ''succeeded''"
proof -
  let ?x = "command_execute sample_cmd_env sample_httpx (Some (\<lambda>s. Scope.evaluate sample_url sample_scope s, [])) sample_cmd_request"
  have "snd (snd ?x) = None" by code_simp
  then obtain ev r where run: "?x = (ev, r, None)" by (metis prod.collapse)
  with execution_reports_what_the_program_did [OF run] show ?thesis by blast
qed

end
