(* ===== verification/InternalCaps.thy ===== *)
theory InternalCaps
  imports Commands Classifier
begin

text \<open>
  \<^verbatim>\<open>internal/providers/internal_capabilities.go\<close>: the four capabilities that run no program. Inputs are decoded
  strictly and once more for validation and for execution. Parameters, beside those of \<open>cmd_env\<close>:
  \<open>fu\<close> (\<^verbatim>\<open>url.Parse\<close> with the parts that normalising needs) and \<open>sha\<close>. A slice that may be nil is an
  optional list. A JSON number is an \<^verbatim>\<open>int\<close> when its value is one; an object has no two members for one field.
  As in the classifier, \<open>None\<close> as an outcome is a panic.
\<close>

subsection \<open>Decoding\<close>

definition member_of :: "members \<Rightarrow> string \<Rightarrow> json option" where
  "member_of kvs field = map_option snd (find (\<lambda>(k, v). equal_fold k field) kvs)"

definition known_members :: "string list \<Rightarrow> members \<Rightarrow> bool" where
  "known_members names kvs \<longleftrightarrow> list_all (\<lambda>(k, v). list_ex (equal_fold k) names) kvs"

definition get_text :: "json option \<Rightarrow> string option" where
  "get_text v = (case v of None \<Rightarrow> Some [] | Some j \<Rightarrow> decode_text j [])"

definition get_flag :: "json option \<Rightarrow> bool option" where
  "get_flag v = (case v of None \<Rightarrow> Some False | Some j \<Rightarrow> decode_flag j False)"

definition decode_int :: "json \<Rightarrow> int option" where
  "decode_int j =
     (case j of
        JNum r \<Rightarrow> let n = \<lfloor>r\<rfloor> in if of_int n = r \<and> - (2 ^ 63) \<le> n \<and> n < 2 ^ 63 then Some n else None
      | JNull \<Rightarrow> Some 0
      | _ \<Rightarrow> None)"

definition get_int :: "json option \<Rightarrow> int option" where
  "get_int v = (case v of None \<Rightarrow> Some 0 | Some j \<Rightarrow> decode_int j)"

definition get_number :: "json option \<Rightarrow> rat option" where
  "get_number v = (case v of None \<Rightarrow> Some 0 | Some JNull \<Rightarrow> Some 0 | Some (JNum r) \<Rightarrow> Some r | _ \<Rightarrow> None)"

definition get_slice :: "(json \<Rightarrow> 'a option) \<Rightarrow> json option \<Rightarrow> 'a list option option" where
  "get_slice dec v =
     (case v of
        None \<Rightarrow> Some None
      | Some JNull \<Rightarrow> Some None
      | Some (JArr xs) \<Rightarrow> map_option Some (those (map dec xs))
      | _ \<Rightarrow> None)"

definition items :: "'a list option \<Rightarrow> 'a list" where
  "items xs = (case xs of None \<Rightarrow> [] | Some ys \<Rightarrow> ys)"

definition get_texts :: "json option \<Rightarrow> string list option option" where
  "get_texts v = get_slice (\<lambda>j. decode_text j []) v"

definition get_object :: "string list \<Rightarrow> json option \<Rightarrow> members option" where
  "get_object names v =
     (case v of
        None \<Rightarrow> Some []
      | Some JNull \<Rightarrow> Some []
      | Some (JObj kvs) \<Rightarrow> if known_members names kvs then Some kvs else None
      | _ \<Rightarrow> None)"

definition kind_of_text :: "string \<Rightarrow> record_kind" where
  "kind_of_text s =
     (if s = ''host'' then HostRecord else if s = ''port'' then PortRecord else if s = ''url'' then UrlRecord
      else OtherRecord s)"

definition get_fields :: "json option \<Rightarrow> members option option" where
  "get_fields v = (case v of None \<Rightarrow> Some None | Some JNull \<Rightarrow> Some None | Some (JObj kvs) \<Rightarrow> Some (Some kvs) | _ \<Rightarrow> None)"

definition decode_record :: "json \<Rightarrow> prov_record option" where
  "decode_record j =
     (case get_object [''provider'', ''kind'', ''target'', ''host'', ''port'', ''status_code'', ''technologies'', ''fields'']
         (Some j) of
        None \<Rightarrow> None
      | Some kvs \<Rightarrow>
          (case (get_text (member_of kvs ''provider''), get_text (member_of kvs ''kind''),
                 get_text (member_of kvs ''target''), get_text (member_of kvs ''host''), get_int (member_of kvs ''port''),
                 get_int (member_of kvs ''status_code''), get_texts (member_of kvs ''technologies''),
                 get_fields (member_of kvs ''fields'')) of
             (Some p, Some k, Some t, Some h, Some port, Some status, Some tech, Some fs) \<Rightarrow>
               Some \<lparr>po_provider = p, po_kind = kind_of_text k, po_target = t, po_host = h, po_port = port,
                      po_status_code = status, po_technologies = items tech, po_fields = fs\<rparr>
           | _ \<Rightarrow> None))"

subsection \<open>Inputs and outputs\<close>

record prepare_input =
  ti_exact_urls :: "string list"
  ti_discovered_urls :: "string list"
  ti_ports :: "int list"
  ti_digest :: string

record prepare_output =
  to_urls :: "string list"
  to_port_targets :: "string list"
  to_filtered :: "filter_decision list"
  to_accepted_count :: nat
  to_filtered_count :: nat
  to_digest :: string

record compare_input =
  mi_current :: "string list"
  mi_previous :: "string list"
  mi_coverage_complete :: bool
  mi_digest :: string

record status_routes =
  ro_active :: "string list"
  ro_redirects :: "string list"
  ro_authentication :: "string list"
  ro_ignored :: "string list"

record asset_change =
  ch_kind :: string
  ch_value :: string

record compare_output =
  mo_changed :: "string list"
  mo_crawl_targets :: "string list"
  mo_scan_targets :: "string list"
  mo_routes :: status_routes
  mo_removed :: "string list"
  mo_changes :: "asset_change list"

record classify_input =
  yi_active :: "string list"
  yi_passive :: "string list"
  yi_http :: "prov_record list"
  yi_crawl :: "prov_record list"
  yi_passive_records :: "prov_record list"
  yi_historical :: "prov_record list"
  yi_api_schema :: "string list"
  yi_digest :: string

record reported_endpoint =
  re_exact_url :: string
  re_route_signature :: string
  re_method :: string
  re_content_type :: string
  re_query_parameters :: "string list option"
  re_digest :: string
  re_labels :: "string list option"
  re_keywords :: "string list option"
  re_signals :: "signal list option"
  re_score :: int
  re_confidence :: rat
  re_sources :: "string list option"
  re_technologies :: "string list option"
  re_status_codes :: "int list option"
  re_redirects :: "string list option"
  re_relationships :: "relationship list option"
  re_historical :: historical_behavior

record report =
  rp_changes :: "asset_change list"
  rp_endpoints :: "reported_endpoint list"
  rp_candidates :: "string list"
  rp_digest :: string

definition decode_prepare :: "members \<Rightarrow> prepare_input option" where
  "decode_prepare kvs =
     (if \<not> known_members [''exact_urls'', ''discovered_urls'', ''ports'', ''target_plan_digest''] kvs then None
      else (case (get_texts (member_of kvs ''exact_urls''), get_texts (member_of kvs ''discovered_urls''),
                  get_slice decode_int (member_of kvs ''ports''), get_text (member_of kvs ''target_plan_digest'')) of
              (Some e, Some d, Some ps, Some g) \<Rightarrow>
                Some \<lparr>ti_exact_urls = items e, ti_discovered_urls = items d, ti_ports = items ps, ti_digest = g\<rparr>
            | _ \<Rightarrow> None))"

definition decode_compare :: "members \<Rightarrow> compare_input option" where
  "decode_compare kvs =
     (if \<not> known_members [''current'', ''previous'', ''coverage_complete'', ''target_plan_digest''] kvs then None
      else (case (get_texts (member_of kvs ''current''), get_texts (member_of kvs ''previous''),
                  get_flag (member_of kvs ''coverage_complete''), get_text (member_of kvs ''target_plan_digest'')) of
              (Some c, Some p, Some b, Some g) \<Rightarrow>
                Some \<lparr>mi_current = items c, mi_previous = items p, mi_coverage_complete = b, mi_digest = g\<rparr>
            | _ \<Rightarrow> None))"

definition decode_classify :: "members \<Rightarrow> classify_input option" where
  "decode_classify kvs =
     (if \<not> known_members [''active'', ''passive'', ''http_observations'', ''crawl_observations'', ''passive_observations'',
            ''historical_observations'', ''api_schema_endpoints'', ''target_plan_digest''] kvs then None
      else (case (get_texts (member_of kvs ''active''), get_texts (member_of kvs ''passive''),
                  get_slice decode_record (member_of kvs ''http_observations''),
                  get_slice decode_record (member_of kvs ''crawl_observations''),
                  get_slice decode_record (member_of kvs ''passive_observations''),
                  get_slice decode_record (member_of kvs ''historical_observations''),
                  get_texts (member_of kvs ''api_schema_endpoints''), get_text (member_of kvs ''target_plan_digest'')) of
              (Some a, Some p, Some h, Some c, Some po, Some hi, Some s, Some g) \<Rightarrow>
                Some \<lparr>yi_active = items a, yi_passive = items p, yi_http = items h, yi_crawl = items c,
                       yi_passive_records = items po, yi_historical = items hi, yi_api_schema = items s, yi_digest = g\<rparr>
            | _ \<Rightarrow> None))"

definition decode_change :: "json \<Rightarrow> asset_change option" where
  "decode_change j =
     (case get_object [''kind'', ''value''] (Some j) of
        None \<Rightarrow> None
      | Some kvs \<Rightarrow>
          (case (get_text (member_of kvs ''kind''), get_text (member_of kvs ''value'')) of
             (Some k, Some v) \<Rightarrow> Some \<lparr>ch_kind = k, ch_value = v\<rparr> | _ \<Rightarrow> None))"

definition decode_signal :: "json \<Rightarrow> signal option" where
  "decode_signal j =
     (case get_object [''type'', ''value'', ''weight'', ''source''] (Some j) of
        None \<Rightarrow> None
      | Some kvs \<Rightarrow>
          (case (get_text (member_of kvs ''type''), get_text (member_of kvs ''value''), get_int (member_of kvs ''weight''),
                 get_text (member_of kvs ''source'')) of
             (Some t, Some v, Some w, Some s) \<Rightarrow> Some \<lparr>sg_type = t, sg_value = v, sg_weight = w, sg_source = s\<rparr>
           | _ \<Rightarrow> None))"

definition decode_relationship :: "json \<Rightarrow> relationship option" where
  "decode_relationship j =
     (case get_object [''source'', ''target'', ''kind''] (Some j) of
        None \<Rightarrow> None
      | Some kvs \<Rightarrow>
          (case (get_text (member_of kvs ''source''), get_text (member_of kvs ''target''), get_text (member_of kvs ''kind'')) of
             (Some s, Some t, Some k) \<Rightarrow> Some \<lparr>rl_source = s, rl_target = t, rl_kind = k\<rparr> | _ \<Rightarrow> None))"

definition decode_history :: "json option \<Rightarrow> historical_behavior option" where
  "decode_history v =
     (case get_object [''seen_before'', ''status_changed'', ''technology_changed''] v of
        None \<Rightarrow> None
      | Some kvs \<Rightarrow>
          (case (get_flag (member_of kvs ''seen_before''), get_flag (member_of kvs ''status_changed''),
                 get_flag (member_of kvs ''technology_changed'')) of
             (Some a, Some b, Some c) \<Rightarrow>
               Some \<lparr>hb_seen_before = a, hb_status_changed = b, hb_technology_changed = c\<rparr>
           | _ \<Rightarrow> None))"

definition decode_reported :: "json \<Rightarrow> reported_endpoint option" where
  "decode_reported j =
     (case get_object [''endpoint'', ''labels'', ''matched_keywords'', ''signals'', ''interest_score'', ''confidence'',
         ''sources'', ''technologies'', ''status_codes'', ''redirect_destinations'', ''relationships'', ''historical'']
         (Some j) of
        None \<Rightarrow> None
      | Some kvs \<Rightarrow>
          (case get_object [''exact_url'', ''route_signature'', ''method'', ''content_type'', ''query_parameters'', ''digest'']
              (member_of kvs ''endpoint'') of
             None \<Rightarrow> None
           | Some es \<Rightarrow>
               (case (get_text (member_of es ''exact_url''), get_text (member_of es ''route_signature''),
                      get_text (member_of es ''method''), get_text (member_of es ''content_type''),
                      get_texts (member_of es ''query_parameters''), get_text (member_of es ''digest'')) of
                  (Some u, Some r, Some m, Some c, Some ps, Some g) \<Rightarrow>
                    (case (get_texts (member_of kvs ''labels''), get_texts (member_of kvs ''matched_keywords''),
                           get_slice decode_signal (member_of kvs ''signals''), get_int (member_of kvs ''interest_score''),
                           get_number (member_of kvs ''confidence''), get_texts (member_of kvs ''sources''),
                           get_texts (member_of kvs ''technologies''),
                           get_slice decode_int (member_of kvs ''status_codes''),
                           get_texts (member_of kvs ''redirect_destinations''),
                           get_slice decode_relationship (member_of kvs ''relationships''),
                           decode_history (member_of kvs ''historical'')) of
                       (Some ls, Some ks, Some sgs, Some n, Some x, Some ss, Some ts, Some cs, Some ds, Some rs, Some h) \<Rightarrow>
                         Some \<lparr>re_exact_url = u, re_route_signature = r, re_method = m, re_content_type = c,
                                re_query_parameters = ps, re_digest = g, re_labels = ls, re_keywords = ks,
                                re_signals = sgs, re_score = n, re_confidence = x, re_sources = ss,
                                re_technologies = ts, re_status_codes = cs, re_redirects = ds, re_relationships = rs,
                                re_historical = h\<rparr>
                     | _ \<Rightarrow> None)
                | _ \<Rightarrow> None)))"

definition decode_report :: "members \<Rightarrow> report option" where
  "decode_report kvs =
     (if \<not> known_members [''changes'', ''endpoints'', ''candidate_matches'', ''target_plan_digest''] kvs then None
      else (case (get_slice decode_change (member_of kvs ''changes''),
                  get_slice decode_reported (member_of kvs ''endpoints''), get_texts (member_of kvs ''candidate_matches''),
                  get_text (member_of kvs ''target_plan_digest'')) of
              (Some c, Some e, Some m, Some g) \<Rightarrow>
                Some \<lparr>rp_changes = items c, rp_endpoints = items e, rp_candidates = items m, rp_digest = g\<rparr>
            | _ \<Rightarrow> None))"

definition strict_internal :: "cmd_env \<Rightarrow> (members \<Rightarrow> 'i option) \<Rightarrow> string list \<Rightarrow> string \<Rightarrow> 'i res" where
  "strict_internal v dec required raw =
     (if raw = [] then Inl (Err ''structured input is required'')
      else (case parse_object (ce_decode v) raw of
        None \<Rightarrow> Inl (Err ''json'')
      | Some kvs \<Rightarrow>
          (case dec kvs of
             None \<Rightarrow> Inl (Err ''json'')
           | Some i \<Rightarrow>
               (case parse_object (ce_json v) raw of
                  None \<Rightarrow> Inl (Err ''input must contain exactly one JSON object'')
                | Some all \<Rightarrow>
                    (case find (\<lambda>field. map_of all field = None \<or> map_of all field = Some JNull) required of
                       Some field \<Rightarrow> Inl (Err (''field '' @ quoted field @ '' is required and cannot be null''))
                     | None \<Rightarrow> Inr i)))))"

definition require_digest :: "string \<Rightarrow> go_error option" where
  "require_digest d = (if trim_space d = [] then Some (Err ''target_plan_digest is required'') else None)"

subsection \<open>Observations\<close>

definition extract_url :: "json_parser \<Rightarrow> string \<Rightarrow> string" where
  "extract_url jp raw =
     (case parse_object jp raw of
        None \<Rightarrow> raw
      | Some kvs \<Rightarrow>
          (case (get_text (member_of kvs ''url''), get_text (member_of kvs ''input''), get_text (member_of kvs ''host'')) of
             (Some u, Some i, Some h) \<Rightarrow> if u \<noteq> [] then u else if i \<noteq> [] then i else if h \<noteq> [] then h else raw
           | _ \<Rightarrow> raw))"

definition extract_status :: "json_parser \<Rightarrow> string \<Rightarrow> int" where
  "extract_status jp raw =
     (case parse_object jp raw of
        None \<Rightarrow> 0
      | Some kvs \<Rightarrow>
          (case List.map_filter (\<lambda>k. Option.bind (map_of kvs k) decode_int) [''status_code'', ''status-code'', ''status''] of
             [] \<Rightarrow> 0 | n # _ \<Rightarrow> n))"

definition stable_keys :: "string list" where
  "stable_keys =
     [''status_code'', ''status-code'', ''host'', ''url'', ''input'', ''tech'', ''technologies'', ''webserver'', ''ip'',
      ''a'', ''cname'', ''port'', ''scheme'', ''title'']"

definition observation_fingerprint :: "json_parser \<Rightarrow> json_printer \<Rightarrow> string \<Rightarrow> string" where
  "observation_fingerprint jp js raw =
     (case parse_object jp raw of
        None \<Rightarrow> raw
      | Some kvs \<Rightarrow>
          js (sort_json (JObj (List.map_filter (\<lambda>k. map_option (Pair k) (map_of kvs k)) stable_keys))))"

fun validate_observations :: "json_parser \<Rightarrow> full_url_parser \<Rightarrow> int \<Rightarrow> string list \<Rightarrow> go_error option" where
  "validate_observations jp fu i [] = None"
| "validate_observations jp fu i (v # vs) =
     (case normalize_url fu (extract_url jp v) of
        Inl e \<Rightarrow> Some (Wrapped (''item '' @ itoa i @ '' does not contain a valid HTTP URL: '') e)
      | Inr u \<Rightarrow> validate_observations jp fu (i + 1) vs)"

definition records_from_strings :: "json_parser \<Rightarrow> string \<Rightarrow> string list \<Rightarrow> prov_record list" where
  "records_from_strings jp provider vs =
     map (\<lambda>v. \<lparr>po_provider = provider, po_kind = UrlRecord, po_target = extract_url jp v, po_host = [], po_port = 0,
                po_status_code = 0, po_technologies = [], po_fields = Some []\<rparr>) vs"

definition classify_endpoints ::
  "json_parser \<Rightarrow> full_url_parser \<Rightarrow> (string \<Rightarrow> string) \<Rightarrow> classify_input \<Rightarrow> class_output res option" where
  "classify_endpoints jp fu sha i =
     classify fu sha
       \<lparr>ci_http = yi_http i, ci_crawl = yi_crawl i @ records_from_strings jp ''katana'' (yi_active i),
        ci_passive = yi_passive_records i @ records_from_strings jp ''gau'' (yi_passive i),
        ci_historical = yi_historical i, ci_api_schema = yi_api_schema i\<rparr>"

subsection \<open>Validation\<close>

fun port_errors :: "int list \<Rightarrow> int list \<Rightarrow> go_error option" where
  "port_errors seen [] = None"
| "port_errors seen (p # ps) =
     (if p < 1 \<or> p > 65535 then Some (Err (''targeting.prepare input: port '' @ itoa p @ '' is outside 1-65535''))
      else if p \<in> set seen then Some (Err (''targeting.prepare input: duplicate port '' @ itoa p))
      else port_errors (p # seen) ps)"

fun indexed_error :: "(int \<Rightarrow> 'a \<Rightarrow> go_error option) \<Rightarrow> int \<Rightarrow> 'a list \<Rightarrow> go_error option" where
  "indexed_error f i [] = None"
| "indexed_error f i (x # xs) = (case f i x of Some e \<Rightarrow> Some e | None \<Rightarrow> indexed_error f (i + 1) xs)"

definition blank :: "string \<Rightarrow> bool" where
  "blank s \<longleftrightarrow> trim_space s = []"

definition change_error :: "int \<Rightarrow> asset_change \<Rightarrow> go_error option" where
  "change_error i c =
     (if blank (ch_kind c) \<or> blank (ch_value c)
      then Some (Err (''report.changes input: change '' @ itoa i @ '' requires kind and value''))
      else if ch_kind c \<noteq> ''new_or_changed'' \<and> ch_kind c \<noteq> ''removed''
      then Some (Err (''report.changes input: change '' @ itoa i @ '' has unsupported kind '' @ quoted (ch_kind c)))
      else None)"

definition signal_error :: "int \<Rightarrow> signal \<Rightarrow> go_error option" where
  "signal_error i s =
     (if blank (sg_type s) \<or> blank (sg_value s) \<or> blank (sg_source s) \<or> sg_weight s < 0
      then Some (Err (''signal '' @ itoa i @ '' requires type, value, source, and non-negative weight'')) else None)"

definition relationship_error :: "full_url_parser \<Rightarrow> int \<Rightarrow> relationship \<Rightarrow> go_error option" where
  "relationship_error fu i r =
     (case normalize_url fu (rl_source r) of
        Inl e \<Rightarrow> Some (Wrapped (''relationship '' @ itoa i @ '' source: '') e)
      | Inr _ \<Rightarrow>
          (case normalize_url fu (rl_target r) of
             Inl e \<Rightarrow> Some (Wrapped (''relationship '' @ itoa i @ '' target: '') e)
           | Inr _ \<Rightarrow>
               if blank (rl_kind r) then Some (Err (''relationship '' @ itoa i @ '' kind is required'')) else None))"

definition validate_reported :: "full_url_parser \<Rightarrow> reported_endpoint \<Rightarrow> go_error option" where
  "validate_reported fu r =
     (case normalize_url fu (re_exact_url r) of
        Inl e \<Rightarrow> Some (Wrapped ''invalid exact_url: '' e)
      | Inr _ \<Rightarrow>
          if blank (re_route_signature r) \<or> blank (re_method r) \<or> blank (re_digest r)
          then Some (Err ''endpoint route_signature, method, and digest are required'')
          else if re_query_parameters r = None
          then Some (Err ''endpoint query_parameters is required and cannot be null'')
          else if re_labels r = None \<or> re_keywords r = None \<or> re_signals r = None \<or> re_sources r = None \<or>
            re_technologies r = None \<or> re_status_codes r = None \<or> re_redirects r = None \<or> re_relationships r = None
          then Some (Err ''classification collections are required and cannot be null'')
          else if re_score r < 2 then Some (Err ''interesting endpoint requires interest_score of at least 2'')
          else if re_confidence r < 0 \<or> re_confidence r > 1 then Some (Err ''confidence must be between zero and one'')
          else (case indexed_error signal_error 0 (items (re_signals r)) of
                  Some e \<Rightarrow> Some e
                | None \<Rightarrow> indexed_error (relationship_error fu) 0 (items (re_relationships r))))"

definition candidate_error :: "int \<Rightarrow> string \<Rightarrow> go_error option" where
  "candidate_error i c =
     (if blank c then Some (Err (''report.changes input: candidate match '' @ itoa i @ '' is empty'')) else None)"

definition wrap_error :: "string \<Rightarrow> go_error option \<Rightarrow> go_error option" where
  "wrap_error m e = map_option (Wrapped m) e"

fun first_of :: "go_error option list \<Rightarrow> go_error option" where
  "first_of [] = None"
| "first_of (Some e # es) = Some e"
| "first_of (None # es) = first_of es"

definition prepare_required :: "string list" where
  "prepare_required = [''exact_urls'', ''discovered_urls'', ''ports'', ''target_plan_digest'']"

definition compare_required :: "string list" where
  "compare_required = [''current'', ''previous'', ''coverage_complete'', ''target_plan_digest'']"

definition classify_required :: "string list" where
  "classify_required =
     [''active'', ''passive'', ''http_observations'', ''crawl_observations'', ''passive_observations'',
      ''historical_observations'', ''api_schema_endpoints'', ''target_plan_digest'']"

definition report_required :: "string list" where
  "report_required = [''changes'', ''endpoints'', ''candidate_matches'', ''target_plan_digest'']"

definition validate_prepare :: "cmd_env \<Rightarrow> string \<Rightarrow> go_error option" where
  "validate_prepare v raw =
     (case strict_internal v decode_prepare prepare_required raw of
        Inl e \<Rightarrow> Some (Wrapped ''targeting.prepare input: '' e)
      | Inr i \<Rightarrow> first_of [require_digest (ti_digest i), port_errors [] (ti_ports i)])"

definition validate_compare :: "cmd_env \<Rightarrow> full_url_parser \<Rightarrow> string \<Rightarrow> go_error option" where
  "validate_compare v fu raw =
     (case strict_internal v decode_compare compare_required raw of
        Inl e \<Rightarrow> Some (Wrapped ''compare.assets input: '' e)
      | Inr i \<Rightarrow> first_of [require_digest (mi_digest i),
          wrap_error ''compare.assets input: '' (validate_observations (ce_json v) fu 0 (mi_current i @ mi_previous i))])"

definition validate_classify ::
  "cmd_env \<Rightarrow> full_url_parser \<Rightarrow> (string \<Rightarrow> string) \<Rightarrow> string \<Rightarrow> go_error option option" where
  "validate_classify v fu sha raw =
     (case strict_internal v decode_classify classify_required raw of
        Inl e \<Rightarrow> Some (Some (Wrapped ''classify.endpoint input: '' e))
      | Inr i \<Rightarrow>
          (case first_of [require_digest (yi_digest i), wrap_error ''classify.endpoint input: ''
              (validate_observations (ce_json v) fu 0 (yi_active i @ yi_passive i))] of
             Some e \<Rightarrow> Some (Some e)
           | None \<Rightarrow> map_option (\<lambda>r. case r of Inl e \<Rightarrow> Some (Wrapped ''classify.endpoint input: '' e) | Inr x \<Rightarrow> None)
               (classify_endpoints (ce_json v) fu sha i)))"

definition validate_report :: "cmd_env \<Rightarrow> full_url_parser \<Rightarrow> string \<Rightarrow> go_error option" where
  "validate_report v fu raw =
     (case strict_internal v decode_report report_required raw of
        Inl e \<Rightarrow> Some (Wrapped ''report.changes input: '' e)
      | Inr i \<Rightarrow> first_of [require_digest (rp_digest i), indexed_error change_error 0 (rp_changes i),
          indexed_error (\<lambda>k r. wrap_error (''report.changes input: endpoint '' @ itoa k @ '': '') (validate_reported fu r)) 0
            (rp_endpoints i),
          indexed_error candidate_error 0 (rp_candidates i)])"

definition validate_internal_input ::
  "cmd_env \<Rightarrow> full_url_parser \<Rightarrow> (string \<Rightarrow> string) \<Rightarrow> string \<Rightarrow> string \<Rightarrow> go_error option option" where
  "validate_internal_input v fu sha name raw =
     (if name = ''targeting.prepare'' then Some (validate_prepare v raw)
      else if name = ''compare.assets'' then Some (validate_compare v fu raw)
      else if name = ''classify.endpoint'' then validate_classify v fu sha raw
      else if name = ''report.changes'' then Some (validate_report v fu raw)
      else Some (Some (Err (''unsupported internal capability '' @ quoted name))))"

subsection \<open>Execution\<close>

definition execute_prepare :: "cmd_env \<Rightarrow> detailed option \<Rightarrow> string \<Rightarrow> (prepare_output \<times> string) res" where
  "execute_prepare v scope raw =
     bind_res (strict_internal v decode_prepare prepare_required raw) (\<lambda>i.
       case scope of
         None \<Rightarrow> Inl (Err ''target preparation requires detailed scope evaluation'')
       | Some sc \<Rightarrow>
           let f = filter_urls (ce_url v) (fst sc) (ti_exact_urls i @ ti_discovered_urls i)
           in if fr_authorized_urls f = [] then Inl (Err ''target plan has no executable authorized targets'')
              else Inr (\<lparr>to_urls = fr_authorized_urls f,
                  to_port_targets = sort (List.filter (\<lambda>raw. case ce_url v raw of
                      None \<Rightarrow> False | Some u \<Rightarrow> url_port_number u \<in> set (ti_ports i)) (fr_authorized_urls f)),
                  to_filtered = fr_filtered f, to_accepted_count = fr_accepted_count f,
                  to_filtered_count = fr_filtered_count f, to_digest = ti_digest i\<rparr>,
                ''prepared '' @ itoa (int (length (fr_authorized_urls f))) @ '' fully authorized active targets''))"

text \<open>Comparing: what the previous run knew of a URL is the fingerprint of its last observation of it.\<close>

definition previous_fingerprint :: "json_parser \<Rightarrow> json_printer \<Rightarrow> string list \<Rightarrow> string \<Rightarrow> string option" where
  "previous_fingerprint jp js previous target =
     map_option (observation_fingerprint jp js) (find (\<lambda>v. extract_url jp v = target) (rev previous))"

definition is_changed :: "json_parser \<Rightarrow> json_printer \<Rightarrow> string list \<Rightarrow> string \<Rightarrow> bool" where
  "is_changed jp js previous v \<longleftrightarrow>
     previous_fingerprint jp js previous (extract_url jp v) \<noteq> Some (observation_fingerprint jp js v)"

datatype status_route = RouteActive | RouteRedirect | RouteAuthentication | RouteIgnored

definition route_of :: "int \<Rightarrow> status_route" where
  "route_of status =
     (if 200 \<le> status \<and> status \<le> 299 then RouteActive
      else if status \<in> {301, 302, 307, 308} then RouteRedirect
      else if status = 401 \<or> status = 403 then RouteAuthentication
      else RouteIgnored)"

definition change_rows :: "string \<Rightarrow> string list \<Rightarrow> asset_change list" where
  "change_rows kind vs = map (\<lambda>x. \<lparr>ch_kind = kind, ch_value = x\<rparr>) vs"

definition compare_observations :: "json_parser \<Rightarrow> json_printer \<Rightarrow> compare_input \<Rightarrow> compare_output" where
  "compare_observations jp js i =
     (let changed = List.filter (is_changed jp js (mi_previous i)) (mi_current i);
          routed = (\<lambda>r. map (extract_url jp) (List.filter (\<lambda>v. route_of (extract_status jp v) = r) changed));
          targets = map (extract_url jp) changed;
          removed = (if mi_coverage_complete i
            then List.filter (\<lambda>t. t \<notin> extract_url jp ` set (mi_current i)) (map (extract_url jp) (mi_previous i)) else [])
      in \<lparr>mo_changed = targets, mo_crawl_targets = routed RouteActive,
          mo_scan_targets = routed RouteActive @ routed RouteRedirect @ routed RouteAuthentication,
          mo_routes = \<lparr>ro_active = routed RouteActive, ro_redirects = routed RouteRedirect,
            ro_authentication = routed RouteAuthentication, ro_ignored = routed RouteIgnored\<rparr>,
          mo_removed = removed,
          mo_changes = change_rows ''new_or_changed'' targets @ change_rows ''removed'' removed\<rparr>)"

definition execute_compare :: "cmd_env \<Rightarrow> string \<Rightarrow> (compare_output \<times> string) res" where
  "execute_compare v raw =
     bind_res (strict_internal v decode_compare compare_required raw) (\<lambda>i.
       let out = compare_observations (ce_json v) (ce_print v) i
       in Inr (out, ''asset comparison found '' @ itoa (int (length (mo_changed out))) @ '' new or changed and ''
            @ itoa (int (length (mo_removed out))) @ '' removed''))"

definition execute_classify ::
  "cmd_env \<Rightarrow> full_url_parser \<Rightarrow> (string \<Rightarrow> string) \<Rightarrow> string \<Rightarrow> (class_output \<times> string) res option" where
  "execute_classify v fu sha raw =
     (case strict_internal v decode_classify classify_required raw of
        Inl e \<Rightarrow> Some (Inl e)
      | Inr i \<Rightarrow>
          map_option (\<lambda>r. bind_res r (\<lambda>out. Inr (out, ''classified '' @ itoa (int (length (co_endpoints out)))
              @ '' unique endpoints ('' @ itoa (int (length (co_interesting out))) @ '' interesting)'')))
            (classify_endpoints (ce_json v) fu sha i))"

definition execute_report :: "cmd_env \<Rightarrow> string \<Rightarrow> (report \<times> string) res" where
  "execute_report v raw =
     bind_res (strict_internal v decode_report report_required raw) (\<lambda>i. Inr (i, ''generated changes-only report''))"

subsection \<open>What is printed\<close>

definition json_slice :: "('a \<Rightarrow> json) \<Rightarrow> 'a list option \<Rightarrow> json" where
  "json_slice f xs = (case xs of None \<Rightarrow> JNull | Some ys \<Rightarrow> JArr (map f ys))"

definition json_int :: "int \<Rightarrow> json" where
  "json_int n = JNum (of_int n)"

definition prepare_json :: "prepare_output \<Rightarrow> json" where
  "prepare_json o' =
     JObj [(''urls'', json_texts (to_urls o')), (''port_targets'', json_texts (to_port_targets o')),
       (''filtered'', JArr (map decision_json (to_filtered o'))), (''accepted_count'', json_int (int (to_accepted_count o'))),
       (''filtered_count'', json_int (int (to_filtered_count o'))), (''target_plan_digest'', JStr (to_digest o'))]"

definition change_json :: "asset_change \<Rightarrow> json" where
  "change_json c = JObj [(''kind'', JStr (ch_kind c)), (''value'', JStr (ch_value c))]"

definition compare_json :: "compare_output \<Rightarrow> json" where
  "compare_json o' =
     (let r = mo_routes o' in
      JObj [(''new_or_changed'', json_texts (mo_changed o')), (''crawl_targets'', json_texts (mo_crawl_targets o')),
        (''scan_targets'', json_texts (mo_scan_targets o')),
        (''status_routes'', JObj [(''active'', json_texts (ro_active r)), (''redirects'', json_texts (ro_redirects r)),
           (''authentication'', json_texts (ro_authentication r)), (''ignored'', json_texts (ro_ignored r))]),
        (''removed'', json_texts (mo_removed o')), (''changes'', JArr (map change_json (mo_changes o')))])"

definition signal_json :: "signal \<Rightarrow> json" where
  "signal_json s =
     JObj [(''type'', JStr (sg_type s)), (''value'', JStr (sg_value s)), (''weight'', json_int (sg_weight s)),
       (''source'', JStr (sg_source s))]"

definition relationship_json :: "relationship \<Rightarrow> json" where
  "relationship_json r = JObj [(''source'', JStr (rl_source r)), (''target'', JStr (rl_target r)), (''kind'', JStr (rl_kind r))]"

definition history_json :: "historical_behavior \<Rightarrow> json" where
  "history_json h =
     JObj [(''seen_before'', JBool (hb_seen_before h)), (''status_changed'', JBool (hb_status_changed h)),
       (''technology_changed'', JBool (hb_technology_changed h))]"

definition reported_json :: "reported_endpoint \<Rightarrow> json" where
  "reported_json r =
     JObj [(''endpoint'', JObj [(''exact_url'', JStr (re_exact_url r)), (''route_signature'', JStr (re_route_signature r)),
          (''method'', JStr (re_method r)), (''content_type'', JStr (re_content_type r)),
          (''query_parameters'', json_slice JStr (re_query_parameters r)), (''digest'', JStr (re_digest r))]),
       (''labels'', json_slice JStr (re_labels r)), (''matched_keywords'', json_slice JStr (re_keywords r)),
       (''signals'', json_slice signal_json (re_signals r)), (''interest_score'', json_int (re_score r)),
       (''confidence'', JNum (re_confidence r)), (''sources'', json_slice JStr (re_sources r)),
       (''technologies'', json_slice JStr (re_technologies r)), (''status_codes'', json_slice json_int (re_status_codes r)),
       (''redirect_destinations'', json_slice JStr (re_redirects r)),
       (''relationships'', json_slice relationship_json (re_relationships r)), (''historical'', history_json (re_historical r))]"

definition report_of_class :: "classification \<Rightarrow> reported_endpoint" where
  "report_of_class c =
     \<lparr>re_exact_url = ek_exact_url (cl_endpoint c), re_route_signature = ek_route_signature (cl_endpoint c),
      re_method = ek_method (cl_endpoint c), re_content_type = ek_content_type (cl_endpoint c),
      re_query_parameters = Some (ek_query_parameters (cl_endpoint c)), re_digest = ek_digest (cl_endpoint c),
      re_labels = Some (cl_labels c), re_keywords = Some (cl_keywords c), re_signals = Some (cl_signals c),
      re_score = cl_score c, re_confidence = cl_confidence c, re_sources = Some (cl_sources c),
      re_technologies = Some (cl_technologies c), re_status_codes = Some (cl_status_codes c),
      re_redirects = Some (cl_redirects c), re_relationships = Some (cl_relationships c), re_historical = cl_historical c\<rparr>"

definition endpoint_key_json :: "endpoint_key \<Rightarrow> json" where
  "endpoint_key_json k =
     JObj [(''exact_url'', JStr (ek_exact_url k)), (''route_signature'', JStr (ek_route_signature k)),
       (''method'', JStr (ek_method k)), (''content_type'', JStr (ek_content_type k)),
       (''query_parameters'', json_texts (ek_query_parameters k)), (''digest'', JStr (ek_digest k))]"

definition class_output_json :: "class_output \<Rightarrow> json" where
  "class_output_json o' =
     JObj [(''endpoints'', JArr (map endpoint_key_json (co_endpoints o'))),
       (''classifications'', JArr (map (\<lambda>c. reported_json (report_of_class c)) (co_classifications o'))),
       (''interesting_endpoints'', JArr (map (\<lambda>c. reported_json (report_of_class c)) (co_interesting o'))),
       (''relationships'', JArr (map relationship_json (co_relationships o')))]"

definition report_json :: "report \<Rightarrow> json" where
  "report_json r =
     JObj [(''changes'', JArr (map change_json (rp_changes r))), (''endpoints'', JArr (map reported_json (rp_endpoints r))),
       (''candidate_matches'', json_texts (rp_candidates r)), (''target_plan_digest'', JStr (rp_digest r))]"

subsection \<open>The capabilities\<close>

definition internal_validate ::
  "cmd_env \<Rightarrow> full_url_parser \<Rightarrow> (string \<Rightarrow> string) \<Rightarrow> detailed option \<Rightarrow> string \<Rightarrow> cap_request \<Rightarrow> go_error option option" where
  "internal_validate v fu sha scope name q =
     map_option (\<lambda>e. case e of
         Some e \<Rightarrow> Some e
       | None \<Rightarrow> if name = ''targeting.prepare'' \<and> scope = None
                 then Some (Err ''target preparation requires detailed scope evaluation'') else None)
       (validate_internal_input v fu sha name (aq_input (cq_action q)))"

definition internal_output ::
  "cmd_env \<Rightarrow> full_url_parser \<Rightarrow> (string \<Rightarrow> string) \<Rightarrow> detailed option \<Rightarrow> string \<Rightarrow> string \<Rightarrow> (json \<times> string) res option" where
  "internal_output v fu sha scope name raw =
     (if name = ''targeting.prepare'' then Some (bind_res (execute_prepare v scope raw) (\<lambda>(o', s). Inr (prepare_json o', s)))
      else if name = ''compare.assets'' then Some (bind_res (execute_compare v raw) (\<lambda>(o', s). Inr (compare_json o', s)))
      else if name = ''classify.endpoint''
      then map_option (\<lambda>r. bind_res r (\<lambda>(o', s). Inr (class_output_json o', s))) (execute_classify v fu sha raw)
      else if name = ''report.changes'' then Some (bind_res (execute_report v raw) (\<lambda>(o', s). Inr (report_json o', s)))
      else Some (Inl (Err (''unsupported internal capability '' @ quoted name))))"

definition internal_execute ::
  "cmd_env \<Rightarrow> full_url_parser \<Rightarrow> (string \<Rightarrow> string) \<Rightarrow> detailed option \<Rightarrow> string \<Rightarrow> cap_request \<Rightarrow>
     (cap_result \<times> go_error option) option" where
  "internal_execute v fu sha scope name q =
     map_option (\<lambda>r. case r of
         Inl e \<Rightarrow> (zero_result, Some e)
       | Inr (j, summary) \<Rightarrow>
           (zero_result\<lparr>rs_action := zero_action_result\<lparr>ar_request_id := aq_id (cq_action q), ar_status := ''succeeded'',
              ar_summary := summary, ar_output := ce_print v j\<rparr>\<rparr>, None))
       (internal_output v fu sha scope name (aq_input (cq_action q)))"

definition internal_definitions :: "(string \<times> string \<times> string) list" where
  "internal_definitions =
     [(''targeting.prepare'', ''Filter and prepare scope-authorized active targets'', ''2''),
      (''compare.assets'', ''Compare current and previous HTTP asset observations'', ''2''),
      (''classify.endpoint'', ''Classify endpoint intelligence with deterministic evidence'', ''3''),
      (''report.changes'', ''Produce a typed changes-only report'', ''3'')]"

text \<open>The texts of the schemas are given by \<open>schemas\<close>; nothing in the program reads them.\<close>

definition internal_manifest :: "(string \<Rightarrow> string \<times> string) \<Rightarrow> string \<times> string \<times> string \<Rightarrow> manifest" where
  "internal_manifest schemas d =
     (case d of (name, description, version) \<Rightarrow>
        \<lparr>mf_name = name, mf_description = description, mf_version = version, mf_risk = Passive,
         mf_input_schema = fst (schemas name), mf_output_schema = snd (schemas name), mf_required_scope_type = [],
         mf_approval_required = False, mf_retry_safe = True, mf_idempotent = True, mf_supported_providers = [''platform''],
         mf_produced_artifact_types = [], mf_required_secrets = [], mf_policy_requirements = no_requirements,
         mf_default_timeout = 60000000000\<rparr>)"

end
