(* ===== verification/InternalFacts.thy ===== *)
theory InternalFacts
  imports InternalCaps ProviderFacts DatabaseFacts
begin

text \<open>
  What holds of the internal capabilities, how the results of all capabilities are read back by the store,
  and that the registry of the platform is built.
\<close>

subsection \<open>Prepared targets\<close>

lemma filter_urls_authorised:
  "\<forall>u \<in> set (fr_authorized_urls (filter_urls parse (Scope.evaluate parse sc) ts)). allows parse sc u"
  using scope_filter.finish_filter_spec [OF scope_filter.filters_inv(2)]
  by (simp add: filter_urls_def allows_def)

lemma strict_internal_decodes: "strict_internal v dec required raw = Inr i \<Longrightarrow> \<exists>kvs. parse_object (ce_decode v) raw = Some kvs \<and> dec kvs = Some i"
  by (auto simp: strict_internal_def split: if_splits option.splits)

text \<open>
  Target preparation succeeds only with at least one URL, every URL it prepares is allowed by
  the scope, and the targets of the port scan are exactly the prepared URLs whose port is among
  the requested ones.
\<close>

theorem prepared_targets_are_authorised:
  assumes run: "execute_prepare v (Some (Scope.evaluate (ce_url v) sc, rules)) raw = Inr (out, summary)"
  shows "to_urls out \<noteq> [] \<and> (\<forall>u \<in> set (to_urls out). allows (ce_url v) sc u) \<and>
    (\<exists>i. strict_internal v decode_prepare prepare_required raw = Inr i \<and>
       set (to_port_targets out) = {t \<in> set (to_urls out). \<exists>u. ce_url v t = Some u \<and> url_port_number u \<in> set (ti_ports i)})"
  using run filter_urls_authorised
  by (auto simp: execute_prepare_def bind_res_Inr Let_def split: if_splits option.splits)

subsection \<open>Comparing\<close>

lemma find_member: "find P xs = Some x \<Longrightarrow> x \<in> set xs \<and> P x"
  by (induction xs) (auto split: if_splits)

lemma previous_fingerprint_Some:
  "previous_fingerprint jp js previous t = Some f \<Longrightarrow> \<exists>w \<in> set previous. extract_url jp w = t \<and> observation_fingerprint jp js w = f"
  by (auto simp: previous_fingerprint_def dest!: find_member)

lemma previous_fingerprint_None:
  "previous_fingerprint jp js previous t = None \<longleftrightarrow> t \<notin> extract_url jp ` set previous"
  by (auto simp: previous_fingerprint_def find_None_iff)

lemma find_rev_Some:
  "find P (rev xs) = Some w \<longleftrightarrow> (\<exists>us ws. xs = us @ w # ws \<and> P w \<and> (\<forall>x \<in> set ws. \<not> P x))"
proof (induction xs rule: rev_induct)
  case (snoc x xs)
  show ?case
  proof (cases "P x")
    case True
    have "(\<exists>us ws. xs @ [x] = us @ w # ws \<and> P w \<and> (\<forall>y \<in> set ws. \<not> P y)) \<longleftrightarrow> w = x"
    proof
      assume "\<exists>us ws. xs @ [x] = us @ w # ws \<and> P w \<and> (\<forall>y \<in> set ws. \<not> P y)"
      then obtain us ws where "xs @ [x] = us @ w # ws" "\<forall>y \<in> set ws. \<not> P y" by blast
      then show "w = x" using True by (cases ws rule: rev_cases) auto
    next
      assume "w = x"
      with True show "\<exists>us ws. xs @ [x] = us @ w # ws \<and> P w \<and> (\<forall>y \<in> set ws. \<not> P y)"
        by (intro exI [of _ xs] exI [of _ "[]"]) simp
    qed
    then show ?thesis using True by auto
  next
    case False
    have "(\<exists>us ws. xs @ [x] = us @ w # ws \<and> P w \<and> (\<forall>y \<in> set ws. \<not> P y)) \<longleftrightarrow>
        (\<exists>us ws. xs = us @ w # ws \<and> P w \<and> (\<forall>y \<in> set ws. \<not> P y))" (is "?l \<longleftrightarrow> ?r")
    proof
      assume ?l
      then obtain us ws where "xs @ [x] = us @ w # ws" "P w" "\<forall>y \<in> set ws. \<not> P y" by blast
      then show ?r using False by (cases ws rule: rev_cases) auto
    next
      assume ?r
      then obtain us ws where "xs = us @ w # ws" "P w" "\<forall>y \<in> set ws. \<not> P y" by blast
      then have "xs @ [x] = us @ w # (ws @ [x]) \<and> P w \<and> (\<forall>y \<in> set (ws @ [x]). \<not> P y)" using False by simp
      then show ?l by blast
    qed
    then show ?thesis using snoc.IH False by simp
  qed
qed simp

text \<open>
  What is meant by new or changed: the previous list has no observation that is its last one of the URL and
  has the fingerprint.
\<close>

definition new_or_changed :: "json_parser \<Rightarrow> json_printer \<Rightarrow> string list \<Rightarrow> string \<Rightarrow> bool" where
  "new_or_changed jp js previous v \<longleftrightarrow>
     \<not> (\<exists>us w ws. previous = us @ w # ws \<and> extract_url jp w = extract_url jp v \<and>
          (\<forall>x \<in> set ws. extract_url jp x \<noteq> extract_url jp v) \<and>
          observation_fingerprint jp js w = observation_fingerprint jp js v)"

lemma is_changed_iff: "is_changed jp js previous = new_or_changed jp js previous"
proof
  fix v
  show "is_changed jp js previous v = new_or_changed jp js previous v"
  proof (cases "find (\<lambda>w. extract_url jp w = extract_url jp v) (rev previous)")
    case None
    then have "\<forall>w \<in> set previous. extract_url jp w \<noteq> extract_url jp v" by (simp add: find_None_iff)
    then have "new_or_changed jp js previous v" by (fastforce simp: new_or_changed_def)
    then show ?thesis using None by (simp add: is_changed_def previous_fingerprint_def)
  next
    case (Some w)
    have "(\<exists>us ws. previous = us @ x # ws \<and> extract_url jp x = extract_url jp v \<and>
        (\<forall>y \<in> set ws. extract_url jp y \<noteq> extract_url jp v)) \<longleftrightarrow> x = w" for x
      using Some find_rev_Some [of "\<lambda>w. extract_url jp w = extract_url jp v" previous x] by auto
    then have "new_or_changed jp js previous v \<longleftrightarrow> observation_fingerprint jp js w \<noteq> observation_fingerprint jp js v"
      unfolding new_or_changed_def by metis
    then show ?thesis using Some by (simp add: is_changed_def previous_fingerprint_def)
  qed
qed

text \<open>Each status has one route.\<close>

lemma route_of_iff:
  "route_of n = RouteActive \<longleftrightarrow> 200 \<le> n \<and> n \<le> 299"
  "route_of n = RouteRedirect \<longleftrightarrow> n \<in> {301, 302, 307, 308}"
  "route_of n = RouteAuthentication \<longleftrightarrow> n \<in> {401, 403}"
  "route_of n = RouteIgnored \<longleftrightarrow> \<not> (200 \<le> n \<and> n \<le> 299) \<and> n \<notin> {301, 302, 307, 308, 401, 403}"
  by (auto simp: route_of_def)

lemma routes_partition:
  "mset (map f xs) = mset (map f (List.filter (\<lambda>v. r v = RouteActive) xs)) + mset (map f (List.filter (\<lambda>v. r v = RouteRedirect) xs))
    + mset (map f (List.filter (\<lambda>v. r v = RouteAuthentication) xs)) + mset (map f (List.filter (\<lambda>v. r v = RouteIgnored) xs))"
proof (induction xs)
  case (Cons x xs)
  then show ?case by (cases "r x") simp_all
qed simp

text \<open>
  C35: The comparison of two lists of observations lists as new or changed, in order, exactly the
  URLs of the current observations whose fingerprint is not that of the last previous observation
  of the URL, if there is one; it puts each listed URL into exactly one of four routes by its
  status, of which the successful ones are crawled, and these, the redirects and the
  authentication challenges are scanned; it lists as removed exactly the URLs that disappeared
  under complete coverage, and has one change row for each listed and each removed URL. A list in
  which all observations of one URL have the same fingerprint, compared with itself, gives no
  change.
\<close>

theorem comparison_reports_exactly_the_changes:
  fixes jp js i
  defines "out \<equiv> compare_observations jp js i"
    and "listed \<equiv> List.filter (new_or_changed jp js (mi_previous i)) (mi_current i)"
  shows "mo_changed out = map (extract_url jp) listed \<and>
    mset (mo_changed out) = mset (ro_active (mo_routes out)) + mset (ro_redirects (mo_routes out))
      + mset (ro_authentication (mo_routes out)) + mset (ro_ignored (mo_routes out)) \<and>
    ro_active (mo_routes out) =
      map (extract_url jp) (List.filter (\<lambda>v. 200 \<le> extract_status jp v \<and> extract_status jp v \<le> 299) listed) \<and>
    ro_redirects (mo_routes out) =
      map (extract_url jp) (List.filter (\<lambda>v. extract_status jp v \<in> {301, 302, 307, 308}) listed) \<and>
    ro_authentication (mo_routes out) =
      map (extract_url jp) (List.filter (\<lambda>v. extract_status jp v \<in> {401, 403}) listed) \<and>
    mo_crawl_targets out = ro_active (mo_routes out) \<and>
    mo_scan_targets out = ro_active (mo_routes out) @ ro_redirects (mo_routes out) @ ro_authentication (mo_routes out) \<and>
    set (mo_removed out) = (if mi_coverage_complete i
      then extract_url jp ` set (mi_previous i) - extract_url jp ` set (mi_current i) else {}) \<and>
    map ch_kind (mo_changes out) =
      replicate (length (mo_changed out)) ''new_or_changed'' @ replicate (length (mo_removed out)) ''removed'' \<and>
    map ch_value (mo_changes out) = mo_changed out @ mo_removed out \<and>
    ((\<forall>v \<in> set (mi_current i). \<forall>w \<in> set (mi_current i). extract_url jp v = extract_url jp w \<longrightarrow>
         observation_fingerprint jp js v = observation_fingerprint jp js w) \<and> mi_previous i = mi_current i \<longrightarrow>
       mo_changes out = [])"
proof -
  note unfold = out_def listed_def compare_observations_def Let_def is_changed_iff
  have same: "mo_changes out = []"
    if one: "\<And>v w. v \<in> set (mi_current i) \<Longrightarrow> w \<in> set (mi_current i) \<Longrightarrow> extract_url jp v = extract_url jp w \<Longrightarrow>
         observation_fingerprint jp js v = observation_fingerprint jp js w" and eq: "mi_previous i = mi_current i"
  proof -
    have unchanged: "\<not> is_changed jp js (mi_previous i) v" if v: "v \<in> set (mi_current i)" for v
    proof -
      obtain f where f: "previous_fingerprint jp js (mi_previous i) (extract_url jp v) = Some f"
        using previous_fingerprint_None [of jp js "mi_previous i" "extract_url jp v"] v eq by auto
      from previous_fingerprint_Some [OF f] obtain w where w: "w \<in> set (mi_current i)"
          "extract_url jp w = extract_url jp v" "observation_fingerprint jp js w = f"
        unfolding eq by blast
      with f one [OF w(1) v w(2)] show ?thesis by (simp add: is_changed_def)
    qed
    then have "List.filter (is_changed jp js (mi_previous i)) (mi_current i) = []" by (simp add: filter_empty_conv)
    then show ?thesis
      using eq by (auto simp: out_def compare_observations_def Let_def change_rows_def filter_empty_conv)
  qed
  have changed: "mo_changed out = map (extract_url jp) listed" by (simp add: unfold)
  have routes: "ro_active (mo_routes out) = map (extract_url jp) (List.filter (\<lambda>v. route_of (extract_status jp v) = RouteActive) listed)"
    "ro_redirects (mo_routes out) = map (extract_url jp) (List.filter (\<lambda>v. route_of (extract_status jp v) = RouteRedirect) listed)"
    "ro_authentication (mo_routes out) = map (extract_url jp) (List.filter (\<lambda>v. route_of (extract_status jp v) = RouteAuthentication) listed)"
    "ro_ignored (mo_routes out) = map (extract_url jp) (List.filter (\<lambda>v. route_of (extract_status jp v) = RouteIgnored) listed)"
    by (simp_all add: unfold)
  have targets: "mo_crawl_targets out = ro_active (mo_routes out)"
    "mo_scan_targets out = ro_active (mo_routes out) @ ro_redirects (mo_routes out) @ ro_authentication (mo_routes out)"
    "set (mo_removed out) = (if mi_coverage_complete i
      then extract_url jp ` set (mi_previous i) - extract_url jp ` set (mi_current i) else {})"
    by (auto simp: out_def compare_observations_def Let_def)
  have rows: "map ch_kind (mo_changes out) =
      replicate (length (mo_changed out)) ''new_or_changed'' @ replicate (length (mo_removed out)) ''removed''"
    "map ch_value (mo_changes out) = mo_changed out @ mo_removed out"
    by (simp_all add: out_def compare_observations_def Let_def change_rows_def comp_def map_replicate_const)
  have partition: "mset (mo_changed out) = mset (ro_active (mo_routes out)) + mset (ro_redirects (mo_routes out))
      + mset (ro_authentication (mo_routes out)) + mset (ro_ignored (mo_routes out))"
    unfolding changed routes by (rule routes_partition)
  have self: "(\<forall>v \<in> set (mi_current i). \<forall>w \<in> set (mi_current i). extract_url jp v = extract_url jp w \<longrightarrow>
         observation_fingerprint jp js v = observation_fingerprint jp js w) \<and> mi_previous i = mi_current i \<longrightarrow>
       mo_changes out = []"
    using same by blast
  note routes = routes [unfolded route_of_iff]
  show ?thesis by (intro conjI changed partition routes(1,2,3) targets rows self)
qed

text \<open>Two observations of one URL: only the last one of the previous run is compared with.\<close>

definition two_statuses :: json_parser where
  "two_statuses s = Some (JObj [(''url'', JStr ''https://a.example/''), (''status_code'', JNum (if s = ''x'' then 200 else 301))])"

definition status_printer :: json_printer where
  "status_printer j = (if j = JObj [(''status_code'', JNum 200), (''url'', JStr ''https://a.example/'')] then ''200'' else ''301'')"

definition sample_comparison :: "string list \<Rightarrow> compare_input" where
  "sample_comparison vs = \<lparr>mi_current = vs, mi_previous = vs, mi_coverage_complete = True, mi_digest = ''d''\<rparr>"

lemma comparison_keeps_one_observation:
  "mo_changed (compare_observations two_statuses status_printer (sample_comparison [''x'', ''y''])) = [''https://a.example/'']"
  by code_simp

lemma comparison_reports_exactly_the_changes_witness:
  "mo_changes (compare_observations two_statuses status_printer (sample_comparison [''x''])) = []"
proof -
  let ?i = "sample_comparison [''x'']"
  have i: "mi_current ?i = [''x'']" "mi_previous ?i = mi_current ?i" by (simp_all add: sample_comparison_def)
  show ?thesis
    using comparison_reports_exactly_the_changes [where i = ?i and jp = two_statuses and js = status_printer] i by (simp add: list_all_iff)
qed

definition sample_prepare :: json where
  "sample_prepare =
     JObj [(''exact_urls'', JArr [JStr ''https://example.com/'']), (''discovered_urls'', JArr [JStr ''https://other.org/'']),
       (''ports'', JArr [JNum 443]), (''target_plan_digest'', JStr ''d'')]"

definition prepare_env :: cmd_env where
  "prepare_env = sample_cmd_env\<lparr>ce_json := (\<lambda>s. Some sample_prepare), ce_decode := (\<lambda>s. Some sample_prepare), ce_url := sample_url\<rparr>"

lemma sample_prepared:
  "(case execute_prepare prepare_env (Some (Scope.evaluate (ce_url prepare_env) sample_scope, [])) ''{}'' of
      Inr (out, summary) \<Rightarrow> to_urls out = [''https://example.com/''] \<and> to_filtered_count out = 1 | Inl e \<Rightarrow> False)"
  by code_simp

lemma prepared_targets_are_authorised_witness:
  "\<exists>out summary. execute_prepare prepare_env (Some (Scope.evaluate (ce_url prepare_env) sample_scope, [])) ''{}'' = Inr (out, summary) \<and>
     to_urls out = [''https://example.com/''] \<and> list_all (allows (ce_url prepare_env) sample_scope) (to_urls out)"
proof -
  obtain out summary where run: "execute_prepare prepare_env (Some (Scope.evaluate (ce_url prepare_env) sample_scope, [])) ''{}'' = Inr (out, summary)"
    and urls: "to_urls out = [''https://example.com/'']"
    using sample_prepared by (auto split: sum.splits)
  from prepared_targets_are_authorised [OF run] have "list_all (allows (ce_url prepare_env) sample_scope) (to_urls out)"
    unfolding list_all_iff by (elim conjE)
  with run urls show ?thesis by blast
qed

subsection \<open>What the store reads of a result\<close>

lemma string_items_texts [simp]: "string_items (map JStr ss) = Some ss"
  by (induction ss) simp_all

lemma strings_field_texts [simp]: "strings_field (Some (Commands.json_texts ss)) = Some ss"
  by (simp add: strings_field_def Commands.json_texts_def)

lemma text_field_JStr [simp]: "text_field (Some (JStr s)) = Some s"
  by (simp add: text_field_def)

lemma filtered_items_decisions:
  "filtered_items (map decision_json ds) = Some (map (\<lambda>d. (fd_target d, reason_text (fd_reason d))) ds)"
  by (induction ds) (simp_all add: decision_json_def)

lemma decode_endpoints_keys: "decode_endpoints (map endpoint_key_json ks) = Some ks"
  by (induction ks) (simp_all add: endpoint_key_json_def decode_endpoint_def Let_def)

text \<open>A record is kept for every accepted name.\<close>

lemma kept_records_accept:
  "kp_records (filter_records rx ip parse sc rs) = [] \<Longrightarrow> kp_accepted (filter_records rx ip parse sc rs) = []"
proof -
  have "(kp_records k = [] \<longrightarrow> kp_accepted k = []) \<Longrightarrow>
      kp_records (fold (filter_record rx ip parse sc) rs k) = [] \<Longrightarrow> kp_accepted (fold (filter_record rx ip parse sc) rs k) = []"
    for k
  proof (induction rs arbitrary: k)
    case (Cons r rs)
    have "kp_records (filter_record rx ip parse sc r k) = [] \<longrightarrow> kp_accepted (filter_record rx ip parse sc r k) = []"
      using Cons.prems(1) by (auto simp: filter_record_def keep_result_def Let_def split: record_kind.splits)
    then show ?case using Cons.IH Cons.prems(2) by simp
  qed simp
  then show "kp_records (filter_records rx ip parse sc rs) = [] \<Longrightarrow> kp_accepted (filter_records rx ip parse sc rs) = []"
    by (simp add: filter_records_def Let_def)
qed

text \<open>The run, the capability and the value of every observation.\<close>

definition observed_values :: "database \<Rightarrow> (string \<times> string \<times> string) set" where
  "observed_values db =
     (\<lambda>b. (ob_workflow_run_id b, ob_source_capability b, ob_observed_value b)) ` set (db_observations db)"

lemma image_upsert:
  assumes "\<And>old. key old = key new \<Longrightarrow> f (merge old new) = f old" and "\<And>old. key old = key new \<Longrightarrow> f old = f new"
  shows "f ` set (upsert key merge new rs) = insert (f new) (f ` set rs)"
proof -
  have "key new \<in> key ` set rs \<Longrightarrow> f new \<in> f ` set rs" using assms(2) by (metis imageE image_eqI)
  moreover have "f ` set (upsert key merge new rs) = set (map f (upsert key merge new rs))" by simp
  ultimately show ?thesis using upsert_map [of key new f merge rs] assms(1) by (auto simp: insert_absorb)
qed

lemma observed_upsert:
  "observed_values (db\<lparr>db_observations := upsert observation_key
      (\<lambda>old new. old\<lparr>ob_metadata := ob_metadata new, ob_observed_at := ob_observed_at new,
                     ob_evidence_artifact_ids := ob_evidence_artifact_ids new\<rparr>) x (db_observations db)\<rparr>) =
     insert (ob_workflow_run_id x, ob_source_capability x, ob_observed_value x) (observed_values db)"
  by (simp add: observed_values_def) (subst image_upsert; simp add: observation_key_def)

lemma persist_observations_values:
  "persist_observations v js program step evidence lines t = Inr t' \<Longrightarrow>
     observed_values (tx_db t') = observed_values (tx_db t) \<union>
       (\<lambda>x. (sr_workflow_run_id step, sr_capability step, x)) ` (extract_value (se_json v) ` set lines - {[]})"
proof (induction lines arbitrary: t)
  case (Cons line lines)
  show ?case
  proof (cases "extract_value (se_json v) line = []")
    case True
    then show ?thesis using Cons by (simp add: Let_def)
  next
    case False
    with Cons.prems obtain t1 t2
      where a: "upsert_asset v program (asset_type_of (sr_capability step)) (extract_value (se_json v) line) t = Inr t1"
        and o': "statement v (\<lambda>db. Inr (db\<lparr>db_observations :=
            upsert observation_key
              (\<lambda>old new. old\<lparr>ob_metadata := ob_metadata new, ob_observed_at := ob_observed_at new,
                             ob_evidence_artifact_ids := ob_evidence_artifact_ids new\<rparr>)
              \<lparr>ob_id = se_id v (tx_ids t1),
               ob_asset_id = asset_id_of program (asset_type_of (sr_capability step)) (extract_value (se_json v) line) db,
               ob_workflow_run_id = sr_workflow_run_id step, ob_source_capability = sr_capability step,
               ob_observed_value = extract_value (se_json v) line,
               ob_metadata = (if se_json v line = None then js (JObj [(''value'', JStr line)]) else line),
               ob_first_seen_at = se_now v, ob_observed_at = se_now v, ob_confidence = 1,
               ob_evidence_artifact_ids = evidence\<rparr> (db_observations db)\<rparr>))
            (t1\<lparr>tx_ids := Suc (tx_ids t1)\<rparr>) = Inr t2"
        and rest: "persist_observations v js program step evidence lines t2 = Inr t'"
      by (auto simp: Let_def bind_res_Inr)
    have "observed_values (tx_db t1) = observed_values (tx_db t)"
      using arg_cong [OF statement_Inr [OF a [unfolded upsert_asset_def]], of "case_sum (\<lambda>e. []) db_observations"]
      by (simp add: observed_values_def)
    moreover have "observed_values (tx_db t2) =
        insert (sr_workflow_run_id step, sr_capability step, extract_value (se_json v) line) (observed_values (tx_db t1))"
      using statement_Inr [OF o', symmetric] by (simp add: observed_upsert del: split_paired_Ex)
    ultimately show ?thesis using Cons.IH [OF rest] False by auto
  qed
qed simp

text \<open>Without a fault of the database all lines are stored.\<close>

lemma persist_observations_works:
  "(\<And>n. se_fault v n = None) \<Longrightarrow> \<exists>t'. persist_observations v js program step evidence lines t = Inr t'"
  by (induction lines arbitrary: t) (simp_all add: Let_def upsert_asset_def statement_def)

text \<open>
  C34: What the providers and the classifier write into an action result is what the store reads
  out of it: the decisions about targets become one audit event per accepted name and per filtered
  target; the observations are read from the kept records, so that once they are stored the values
  observed in the run by the capability are the earlier ones and the targets of the kept records;
  the lines that candidate findings are read from are the accepted names; and the endpoints
  persisted are the endpoints of the classification. What is assumed is that decoding undoes
  encoding and that a kept record has a target.
\<close>

theorem results_are_read_back_by_the_store:
  assumes kept: "k = filter_records rx ip parse sc (bt_records b)"
    and adapted: "se_json v (js (adapted_output b k)) = Some (adapted_output b k)"
    and raw_texts: "\<And>kvs xs. adapted_output b k = JObj kvs \<Longrightarrow> map_of kvs ''authorized_records'' = Some (JArr xs) \<Longrightarrow>
      raws (js (adapted_output b k)) ''authorized_records'' = Some (map js xs)"
    and each: "\<And>r. r \<in> set (kp_records k) \<Longrightarrow> se_json v (js (record_json r)) = Some (record_json r) \<and> po_target r \<noteq> []"
    and classified: "se_json v (js (class_output_json out)) = Some (class_output_json out)"
  shows "decision_events (se_json v) program step tool (js (adapted_output b k)) =
      map (\<lambda>t. step_event ''target_accepted'' ''targeting'' program step tool ''target accepted''
                 (string_map [(''target'', t)])) (kp_accepted k)
      @ map (\<lambda>d. step_event (filtered_type (reason_text (fd_reason d))) ''targeting'' program step tool ''target filtered''
                 (string_map [(''target'', fd_target d), (''reason'', reason_text (fd_reason d))])) (kp_filtered k) \<and>
    output_lines (se_json v) (js (adapted_output b k)) = kp_accepted k \<and>
    observation_lines (se_json v) raws (js (adapted_output b k)) = map (\<lambda>r. js (record_json r)) (kp_records k) \<and>
    (persist_observations v js program step evidence (observation_lines (se_json v) raws (js (adapted_output b k))) t =
        Inr t' \<longrightarrow>
      observed_values (tx_db t') = observed_values (tx_db t) \<union>
        (\<lambda>x. (sr_workflow_run_id step, sr_capability step, x)) ` po_target ` set (kp_records k)) \<and>
    persist_endpoints v program (js (class_output_json out)) t = insert_endpoints v program (co_endpoints out) t"
proof (intro conjI impI)
  let ?kvs = "case adapted_output b k of JObj kvs \<Rightarrow> kvs | _ \<Rightarrow> []"
  have obj: "parse_object (se_json v) (js (adapted_output b k)) = Some ?kvs"
    by (simp add: parse_object_def adapted) (simp add: adapted_output_def)
  have raw_records: "raws (js (adapted_output b k)) ''authorized_records'' = Some (map (\<lambda>r. js (record_json r)) (kp_records k))"
    using raw_texts [of ?kvs "map record_json (kp_records k)"] by (simp add: adapted_output_def comp_def)
  show "decision_events (se_json v) program step tool (js (adapted_output b k)) =
      map (\<lambda>t. step_event ''target_accepted'' ''targeting'' program step tool ''target accepted''
                 (string_map [(''target'', t)])) (kp_accepted k)
      @ map (\<lambda>d. step_event (filtered_type (reason_text (fd_reason d))) ''targeting'' program step tool ''target filtered''
                 (string_map [(''target'', fd_target d), (''reason'', reason_text (fd_reason d))])) (kp_filtered k)"
    unfolding decision_events_def obj by (simp add: adapted_output_def filtered_items_decisions)
  show lines: "output_lines (se_json v) (js (adapted_output b k)) = kp_accepted k"
    unfolding output_lines_def obj by (simp add: adapted_output_def)
  have valid: "List.filter (\<lambda>x. se_json v x \<noteq> None) (map (\<lambda>r. js (record_json r)) rs) = map (\<lambda>r. js (record_json r)) rs"
    if "set rs \<subseteq> set (kp_records k)" for rs
    using that each by (auto simp: filter_id_conv)
  show observations: "observation_lines (se_json v) raws (js (adapted_output b k)) = map (\<lambda>r. js (record_json r)) (kp_records k)"
  proof (cases "kp_records k")
    case Nil
    then show ?thesis
      using kept_records_accept [of rx ip parse sc "bt_records b", folded kept] by (simp add: observation_lines_def obj raw_records lines)
  next
    case (Cons r rs)
    then show ?thesis using valid [OF subset_refl] by (simp add: observation_lines_def obj raw_records)
  qed
  have target: "extract_value (se_json v) (js (record_json r)) = po_target r" if "r \<in> set (kp_records k)" for r
    using each [OF that] by (simp add: extract_value_def parse_object_def) (simp add: record_json_def Let_def)
  assume run: "persist_observations v js program step evidence
      (observation_lines (se_json v) raws (js (adapted_output b k))) t = Inr t'"
  have "extract_value (se_json v) ` set (map (\<lambda>r. js (record_json r)) (kp_records k)) - {[]} = po_target ` set (kp_records k)"
    using target each by (auto simp: image_image cong: image_cong)
  then show "observed_values (tx_db t') = observed_values (tx_db t) \<union>
      (\<lambda>x. (sr_workflow_run_id step, sr_capability step, x)) ` po_target ` set (kp_records k)"
    using persist_observations_values [OF run] unfolding observations by simp
next
  have obj': "parse_object (se_json v) (js (class_output_json out)) = Some (case class_output_json out of JObj kvs \<Rightarrow> kvs | _ \<Rightarrow> [])"
    by (simp add: parse_object_def classified) (simp add: class_output_json_def)
  show "persist_endpoints v program (js (class_output_json out)) t = insert_endpoints v program (co_endpoints out) t"
    unfolding persist_endpoints_def obj' by (simp add: class_output_json_def decode_endpoints_keys)
qed

text \<open>
  The lines of a run of nuclei are the URLs that were authorised, never its JSON matches: a text that is
  no JSON object is skipped, so no candidate finding is ever stored.
\<close>

lemma persist_candidates_skips:
  "list_all (\<lambda>l. parse_object (se_json v) l = None) ls \<Longrightarrow> persist_candidates v program step evidence ls t = Inr t"
  by (induction ls) simp_all

lemma nuclei_candidates_are_never_stored:
  assumes "se_json v (js (adapted_output b k)) = Some (adapted_output b k)"
    and "list_all (\<lambda>l. parse_object (se_json v) l = None) (kp_accepted k)"
  shows "persist_candidates v program step evidence (output_lines (se_json v) (js (adapted_output b k))) t = Inr t"
proof -
  have "parse_object (se_json v) (js (adapted_output b k)) = Some (case adapted_output b k of JObj kvs \<Rightarrow> kvs | _ \<Rightarrow> [])"
    by (simp add: parse_object_def assms(1)) (simp add: adapted_output_def)
  then have "output_lines (se_json v) (js (adapted_output b k)) = kp_accepted k"
    by (simp add: output_lines_def adapted_output_def)
  then show ?thesis using persist_candidates_skips [OF assms(2)] by simp
qed

definition sample_batch :: batch where
  "sample_batch = \<lparr>bt_records = sample_records, bt_warnings = []\<rparr>"

definition sample_kept :: kept where
  "sample_kept = filter_records sample_rx (\<lambda>s. None) sample_url (Scope.evaluate sample_url sample_scope, []) sample_records"

lemma sample_kept_parts:
  "kp_accepted sample_kept = [''https://example.com/'']" "kp_records sample_kept = [hd sample_records]"
  "map fd_reason (kp_filtered sample_kept) = [ReasonInvalidTarget]"
  by code_simp+

definition sample_adapted :: json where
  "sample_adapted = adapted_output sample_batch sample_kept"

definition sample_class_output :: class_output where
  "sample_class_output = \<lparr>co_endpoints = [], co_classifications = [], co_interesting = [], co_relationships = []\<rparr>"

definition sample_print :: json_printer where
  "sample_print j = (if j = sample_adapted then ''a'' else if j = record_json (hd sample_records) then ''r'' else ''c'')"

definition read_back_env :: store_env where
  "read_back_env = (sample_store_env 1)\<lparr>se_json := (\<lambda>s. if s = ''a'' then Some sample_adapted
     else if s = ''r'' then Some (record_json (hd sample_records)) else Some (class_output_json sample_class_output))\<rparr>"

lemma sample_printed:
  "sample_print sample_adapted = ''a''" "sample_print (record_json (hd sample_records)) = ''r''"
  "sample_print (class_output_json sample_class_output) = ''c''"
  by (simp_all add: sample_print_def sample_adapted_def adapted_output_def class_output_json_def record_json_def
      sample_records_def Let_def)

lemma results_are_read_back_by_the_store_witness:
  "\<exists>t'. persist_observations read_back_env sample_print ''p'' sample_step_row [] [''r''] (start_tx empty_store) = Inr t' \<and>
     observed_values (tx_db t') = {(''r'', ''http.probe'', ''https://example.com/'')} \<and>
     map (\<lambda>ev. au_type (ev ''i'')) (decision_events (se_json read_back_env) ''p'' sample_step_row None ''a'') =
       [''target_accepted'', ''target_filtered'']"
proof -
  let ?raws = "\<lambda>raw key. Some [''r'']"
  have read: "se_json read_back_env ''a'' = Some sample_adapted" "se_json read_back_env ''r'' = Some (record_json (hd sample_records))"
    "se_json read_back_env ''c'' = Some (class_output_json sample_class_output)"
    by (simp_all add: read_back_env_def)
  have up: "se_fault read_back_env n = None" for n by (simp add: read_back_env_def sample_store_env_def)
  obtain t' where run: "persist_observations read_back_env sample_print ''p'' sample_step_row [] [''r''] (start_tx empty_store) = Inr t'"
    using persist_observations_works [OF up] by blast
  have target: "po_target (hd sample_records) = ''https://example.com/''" by (simp add: sample_records_def)
  have k: "sample_kept = filter_records sample_rx (\<lambda>s. None) sample_url (Scope.evaluate sample_url sample_scope, [])
      (bt_records sample_batch)" by (simp add: sample_kept_def sample_batch_def)
  have texts: "map sample_print xs = [''r'']"
    if "sample_adapted = JObj kvs" "map_of kvs ''authorized_records'' = Some (JArr xs)" for kvs xs
  proof -
    have "xs = map record_json (kp_records sample_kept)" using that by (auto simp: sample_adapted_def adapted_output_def)
    then show ?thesis by (simp only: sample_kept_parts list.map sample_printed)
  qed
  have adapted: "sample_print (adapted_output sample_batch sample_kept) = ''a''" using sample_printed(1) by (simp add: sample_adapted_def)
  have all: "decision_events (se_json read_back_env) ''p'' sample_step_row None ''a'' =
      map (\<lambda>t. step_event ''target_accepted'' ''targeting'' ''p'' sample_step_row None ''target accepted''
                 (string_map [(''target'', t)])) (kp_accepted sample_kept)
      @ map (\<lambda>d. step_event (filtered_type (reason_text (fd_reason d))) ''targeting'' ''p'' sample_step_row None ''target filtered''
                 (string_map [(''target'', fd_target d), (''reason'', reason_text (fd_reason d))])) (kp_filtered sample_kept) \<and>
    output_lines (se_json read_back_env) ''a'' = kp_accepted sample_kept \<and>
    observation_lines (se_json read_back_env) ?raws ''a'' = map (\<lambda>r. sample_print (record_json r)) (kp_records sample_kept) \<and>
    (persist_observations read_back_env sample_print ''p'' sample_step_row []
        (observation_lines (se_json read_back_env) ?raws ''a'') (start_tx empty_store) = Inr t' \<longrightarrow>
      observed_values (tx_db t') = observed_values (tx_db (start_tx empty_store)) \<union>
        (\<lambda>x. (sr_workflow_run_id sample_step_row, sr_capability sample_step_row, x)) ` po_target ` set (kp_records sample_kept)) \<and>
    persist_endpoints read_back_env ''p'' (sample_print (class_output_json sample_class_output)) (start_tx empty_store) =
      insert_endpoints read_back_env ''p'' (co_endpoints sample_class_output) (start_tx empty_store)"
    unfolding adapted [symmetric]
    by (rule results_are_read_back_by_the_store [OF k])
      (simp_all only: adapted sample_printed sample_kept_parts read sample_adapted_def [symmetric] list.map list.set
        insert_iff empty_iff simp_thms target, simp_all add: texts)
  then have lines: "observation_lines (se_json read_back_env) ?raws ''a'' = [''r'']"
    by (simp only: sample_kept_parts list.map sample_printed)
  have "observed_values (tx_db t') = observed_values (tx_db (start_tx empty_store)) \<union>
        (\<lambda>x. (sr_workflow_run_id sample_step_row, sr_capability sample_step_row, x)) ` po_target ` set (kp_records sample_kept)"
    using all run unfolding lines by blast
  then have vals: "observed_values (tx_db t') = {(''r'', ''http.probe'', ''https://example.com/'')}"
    by (simp add: sample_kept_parts target observed_values_def start_tx_def empty_store_def sample_step_row_def)
  obtain d where d: "kp_filtered sample_kept = [d]" "fd_reason d = ReasonInvalidTarget" using sample_kept_parts(3) by auto
  have "map (\<lambda>ev. au_type (ev ''i'')) (decision_events (se_json read_back_env) ''p'' sample_step_row None ''a'') =
      [''target_accepted'', ''target_filtered'']"
    unfolding conjunct1 [OF all] sample_kept_parts d(1) list.map map_append append.simps d(2) reason_text.simps
    by (simp add: step_event_def filtered_type_def)
  with run vals show ?thesis by (intro exI [of _ t'] conjI)
qed

subsection \<open>The registry of the platform\<close>

lemma register_all_distinct:
  assumes "distinct (map fst r @ map (\<lambda>c. mf_name (cap_manifest c)) cs)"
    and "list_all (\<lambda>c. mf_name (cap_manifest c) \<noteq> [] \<and> mf_version (cap_manifest c) \<noteq> []) cs"
  shows "\<exists>r'. capability_registry.register_all r cs = Inr r' \<and> map fst r' = map fst r @ map (\<lambda>c. mf_name (cap_manifest c)) cs"
  using assms
proof (induction cs arbitrary: r)
  case (Cons c cs)
  let ?r = "r @ [(mf_name (cap_manifest c), c)]"
  have "registry_register r c = Inr ?r"
    using Cons.prems by (auto simp: registry_register_def registry_get_def Let_def map_of_eq_None_iff image_iff)
  moreover have "\<exists>r'. capability_registry.register_all ?r cs = Inr r' \<and>
      map fst r' = map fst ?r @ map (\<lambda>c. mf_name (cap_manifest c)) cs"
    by (rule Cons.IH) (use Cons.prems in auto)
  ultimately show ?case by simp
qed simp

lemma discovery_multi:
  "\<exists>m. new_multi ''subfinder'' [(''subfinder'', command_capability v scope (subfinder_def cfg)),
          (''chaos'', command_capability v scope (chaos_def cfg))] = Inr m \<and>
     mf_name (mu_manifest m) = ''discover.subdomains'' \<and> mf_version (mu_manifest m) = ''2''"
  by (simp add: new_multi_def Let_def command_capability_def command_manifest_def subfinder_def_def chaos_def_def
      provider_def_def)

lemma platform_registry_builds:
  assumes "map cap_manifest internal = map (internal_manifest schemas) internal_definitions"
  shows "\<exists>r. provider_registry v scope cfg internal = Inr r \<and>
    map fst r = [''discover.subdomains'', ''resolve.dns'', ''scan.ports'', ''probe.http'', ''crawl.web'',
      ''discover.archive_urls'', ''scan.nuclei'', ''targeting.prepare'', ''compare.assets'', ''classify.endpoint'',
      ''report.changes'']"
proof -
  let ?cs = "map (command_capability v scope) (single_provider_defs (ce_url v) (ce_ip v) cfg) @ internal"
  obtain m where m: "new_multi ''subfinder'' [(''subfinder'', command_capability v scope (subfinder_def cfg)),
          (''chaos'', command_capability v scope (chaos_def cfg))] = Inr m"
    and m_name: "mf_name (mu_manifest m) = ''discover.subdomains''" and m_version: "mf_version (mu_manifest m) = ''2''"
    using discovery_multi by blast
  have names: "map (\<lambda>c. mf_name (cap_manifest c)) ?cs = [''resolve.dns'', ''scan.ports'', ''probe.http'', ''crawl.web'',
      ''discover.archive_urls'', ''scan.nuclei'', ''targeting.prepare'', ''compare.assets'', ''classify.endpoint'',
      ''report.changes'']"
  proof -
    have "map (\<lambda>c. mf_name (cap_manifest c)) internal = map mf_name (map (internal_manifest schemas) internal_definitions)"
      unfolding assms [symmetric] by simp
    then show ?thesis
      by (simp add: single_provider_defs_def provider_def_def command_capability_def command_manifest_def Let_def
          internal_definitions_def internal_manifest_def)
  qed
  have versions: "list_all (\<lambda>c. mf_name (cap_manifest c) \<noteq> [] \<and> mf_version (cap_manifest c) \<noteq> []) ?cs"
  proof -
    have "list_all (\<lambda>m. mf_name m \<noteq> [] \<and> mf_version m \<noteq> []) (map cap_manifest internal)"
      unfolding assms by (simp add: internal_definitions_def internal_manifest_def)
    then show ?thesis
      by (simp add: single_provider_defs_def provider_def_def command_capability_def command_manifest_def Let_def list.pred_map comp_def)
  qed
  let ?r = "[(''discover.subdomains'', multi_capability m)]"
  have first: "registry_register [] (multi_capability m) = Inr ?r"
    by (simp add: registry_register_def registry_get_def multi_capability_def m_name m_version)
  have "\<exists>r'. capability_registry.register_all ?r ?cs = Inr r' \<and> map fst r' = map fst ?r @ map (\<lambda>c. mf_name (cap_manifest c)) ?cs"
    by (rule register_all_distinct [OF _ versions]) (simp only: names, simp)
  then show ?thesis unfolding provider_registry_def m bind_res_simps first names by simp
qed

text \<open>The internal capabilities are found in the registry.\<close>

lemma platform_registry_finds:
  assumes "provider_registry v scope cfg internal = Inr r" and "c \<in> set internal"
  shows "registry_get r (mf_name (cap_manifest c)) = Some c"
proof -
  let ?cs = "map (command_capability v scope) (single_provider_defs (ce_url v) (ce_ip v) cfg) @ internal"
  obtain r0 where "capability_registry.register_all r0 ?cs = Inr r"
    using assms(1) by (auto simp: provider_registry_def bind_res_Inr)
  note found = capability_registry.register_all_lookup [OF this]
  have "map_of (map (\<lambda>c. (mf_name (cap_manifest c), c)) ?cs) (mf_name (cap_manifest c)) = Some c"
    using conjunct1 [OF found] assms(2) by (intro map_of_is_SomeI) (simp_all add: comp_def)
  then show ?thesis using found by simp
qed

end
