(* ===== verification/Continuous.thy ===== *)
theory Continuous
  imports InternalFacts Workflow Targeting
begin

text \<open>
  \<^verbatim>\<open>internal/workflows/continuous.go\<close>: the workflows that the platform builds from a target plan. The static
  inputs are the JSON texts \<^verbatim>\<open>json.Marshal\<close> prints, with the keys of a map in order; a nil slice is null.
  The theorems say that such a workflow is refused for the static input of a step or not at all, that its
  active steps take their targets from prepared ones only, and that the registry of the platform itself
  refuses one of the inputs.
\<close>

subsection \<open>The ports that all groups share\<close>

definition seed_ports :: "active_seed \<Rightarrow> int list" where
  "seed_ports seed = fold (\<lambda>e ports. append_unique ports (ep_port e)) (sd_endpoints seed) []"

definition group_key :: "wildcard_rule \<Rightarrow> string" where
  "group_key r = wc_host_pattern r @ [CHR 0x00] @ wc_path_pattern r"

definition add_port :: "string \<Rightarrow> int \<Rightarrow> (string \<times> int list) list \<Rightarrow> (string \<times> int list) list" where
  "add_port key port gs = AList.update key (append_unique (lookup_or [] gs key) port) gs"

text \<open>
  The map of the groups, in the order of insertion. Its iteration order is not fixed in Go;
  \<open>shared_ports_of_set\<close> below shows that the result does not depend on it.
\<close>

definition wildcard_groups :: "wildcard_rule list \<Rightarrow> (string \<times> int list) list" where
  "wildcard_groups rules = fold (\<lambda>r gs. fold (add_port (group_key r)) (wc_ports r) gs) rules []"

definition shared_ports :: "int list list \<Rightarrow> int list option" where
  "shared_ports gs =
     (case gs of
        [] \<Rightarrow> None
      | g # rest \<Rightarrow> Some (sort (fold (\<lambda>ports kept. List.filter (\<lambda>p. p \<in> set ports) kept) rest g)))"

definition port_groups :: "target_plan \<Rightarrow> int list list" where
  "port_groups p =
     List.filter (\<lambda>ports. ports \<noteq> []) (map seed_ports (tp_seeds p))
     @ List.filter (\<lambda>ports. ports \<noteq> []) (map snd (wildcard_groups (tp_wildcards p)))"

definition common_ports :: "target_plan \<Rightarrow> int list option" where
  "common_ports p = shared_ports (port_groups p)"

definition join_ports :: "int list \<Rightarrow> string" where
  "join_ports ports = join_with '','' (map itoa ports)"

subsection \<open>The steps\<close>

definition recon_step ::
  "string \<Rightarrow> string \<Rightarrow> string \<Rightarrow> string list \<Rightarrow> string \<Rightarrow> string \<Rightarrow> (string \<times> string) list \<Rightarrow> int \<Rightarrow> wf_step" where
  "recon_step sid capability provider deps cond input bindings minutes =
     \<lparr>st_id = sid, st_capability = capability, st_provider = provider, st_depends_on = deps,
      st_condition = cond, st_input = input, st_bindings = bindings, st_max_attempts = 3,
      st_base_delay = nanos 2, st_timeout = nanos (60 * minutes), st_approval_required = False,
      st_rerun_on_input_change = False\<rparr>"

definition slice_json :: "('a \<Rightarrow> json) \<Rightarrow> 'a list \<Rightarrow> json" where
  "slice_json f xs = (if xs = [] then JNull else JArr (map f xs))"

definition prepare_static :: "target_plan \<Rightarrow> json" where
  "prepare_static p =
     JObj [(''discovered_urls'', JArr []), (''exact_urls'', slice_json JStr (initial_urls p)),
       (''ports'', json_slice json_int (common_ports p)), (''target_plan_digest'', JStr (tp_digest p))]"

definition domains_static :: "target_plan \<Rightarrow> json" where
  "domains_static p = JObj [(''domains'', Commands.json_texts (discovery_domains p)), (''target_plan_digest'', JStr (tp_digest p))]"

definition targets_static :: "target_plan \<Rightarrow> json" where
  "targets_static p = JObj [(''target_plan_digest'', JStr (tp_digest p)), (''targets'', JArr [])]"

definition ports_static :: "target_plan \<Rightarrow> int list \<Rightarrow> json" where
  "ports_static p ports =
     JObj [(''ports'', JStr (join_ports ports)), (''target_plan_digest'', JStr (tp_digest p)), (''targets'', JArr [])]"

definition compare_static :: "target_plan \<Rightarrow> json" where
  "compare_static p =
     JObj [(''coverage_complete'', JBool True), (''current'', JArr []), (''previous'', JArr []),
       (''target_plan_digest'', JStr (tp_digest p))]"

definition crawl_static :: "target_plan \<Rightarrow> bool \<Rightarrow> json" where
  "crawl_static p headless =
     JObj [(''headless'', JBool headless), (''target_plan_digest'', JStr (tp_digest p)), (''targets'', JArr [])]"

definition classify_static :: "target_plan \<Rightarrow> json" where
  "classify_static p =
     JObj [(''active'', JArr []), (''passive'', JArr []), (''target_plan_digest'', JStr (tp_digest p))]"

definition report_static :: "target_plan \<Rightarrow> json" where
  "report_static p =
     JObj [(''candidate_matches'', JArr []), (''changes'', JArr []), (''endpoints'', JArr []),
       (''target_plan_digest'', JStr (tp_digest p))]"

text \<open>The part before the classification, with the port scan when a port is shared and passive discovery when wanted.\<close>

definition prepare_step :: "json_printer \<Rightarrow> target_plan \<Rightarrow> bool \<Rightarrow> wf_step" where
  "prepare_step js p discover =
     recon_step ''prepare-authorized-targets'' ''targeting.prepare'' []
       (if discover then [''discover-subdomains''] else []) [] (js (prepare_static p))
       (if discover then [(''discovered_urls'', ''discover-subdomains.output.authorized_urls'')] else []) 1"

definition probing_steps :: "json_printer \<Rightarrow> target_plan \<Rightarrow> wf_step list" where
  "probing_steps js p =
     (let ports = (case common_ports p of None \<Rightarrow> [] | Some ps \<Rightarrow> ps) in
      [recon_step ''resolve-dns'' ''resolve.dns'' ''dnsx'' [''prepare-authorized-targets''] [] (js (targets_static p))
         [(''targets'', ''prepare-authorized-targets.output.urls'')] 10]
      @ (if ports \<noteq> []
         then [recon_step ''scan-ports'' ''scan.ports'' ''naabu'' [''resolve-dns'']
           ''nonempty:prepare-authorized-targets.output.port_targets'' (js (ports_static p ports))
           [(''targets'', ''prepare-authorized-targets.output.port_targets'')] 20]
         else [])
      @ [recon_step ''probe-http'' ''probe.http'' ''httpx'' ([''resolve-dns''] @ (if ports \<noteq> [] then [''scan-ports''] else [])) []
           (js (targets_static p)) [(''targets'', ''prepare-authorized-targets.output.urls'')] 15])"

definition crawling_steps :: "json_printer \<Rightarrow> target_plan \<Rightarrow> bool \<Rightarrow> wf_step list" where
  "crawling_steps js p headless =
     [recon_step ''compare-assets'' ''compare.assets'' [] [''probe-http''] [] (js (compare_static p))
        [(''current'', ''probe-http.output.lines'')] 1,
      recon_step ''crawl-new-or-changed-web-assets'' ''crawl.web'' ''katana'' [''compare-assets'']
        ''nonempty:compare-assets.output.crawl_targets'' (js (crawl_static p headless))
        [(''targets'', ''compare-assets.output.crawl_targets'')] 30]"

definition reporting_steps :: "json_printer \<Rightarrow> target_plan \<Rightarrow> bool \<Rightarrow> wf_step list" where
  "reporting_steps js p discover =
     [recon_step ''classify-interesting-endpoints'' ''classify.endpoint'' []
        ([''crawl-new-or-changed-web-assets''] @ (if discover then [''discover-archive-urls''] else [])) []
        (js (classify_static p))
        ([(''active'', ''crawl-new-or-changed-web-assets.output.lines'')]
         @ (if discover then [(''passive'', ''discover-archive-urls.output.lines'')] else [])) 1,
      (recon_step ''run-safe-nuclei-profile'' ''scan.nuclei'' ''nuclei'' [''classify-interesting-endpoints'']
        ''nonempty:compare-assets.output.scan_targets'' (js (targets_static p))
        [(''targets'', ''compare-assets.output.scan_targets'')] 45)
        \<lparr>st_max_attempts := 2, st_base_delay := nanos 5, st_approval_required := True\<rparr>,
      recon_step ''generate-changes-report'' ''report.changes'' [] [''run-safe-nuclei-profile''] [] (js (report_static p))
        [(''changes'', ''compare-assets.output.changes''),
         (''endpoints'', ''classify-interesting-endpoints.output.interesting_endpoints''),
         (''candidate_matches'', ''run-safe-nuclei-profile.output.lines'')] 1]"

definition recon_steps :: "json_printer \<Rightarrow> target_plan \<Rightarrow> bool \<Rightarrow> bool \<Rightarrow> wf_step list" where
  "recon_steps js p headless allow_discovery =
     (let discover = (allow_discovery \<and> tp_discovery_roots p \<noteq> []) in
      (if discover
       then [recon_step ''discover-subdomains'' ''discover.subdomains'' ''subfinder'' [] [] (js (domains_static p)) [] 15]
       else [])
      @ [prepare_step js p discover] @ probing_steps js p @ crawling_steps js p headless
      @ (if discover
         then [recon_step ''discover-archive-urls'' ''discover.archive_urls'' ''gau'' [''prepare-authorized-targets''] []
           (js (domains_static p)) [] 15]
         else [])
      @ reporting_steps js p discover)"

definition recon_requirements :: string where
  "recon_requirements =
     json_object
       [(''forbid'', json_array (map json_string [''dos'', ''bruteforce'', ''credential-stuffing'', ''state-changing''])),
        (''moderate_requires_approval'', json_bool True)]"

definition web_recon_definition ::
  "json_printer \<Rightarrow> string \<Rightarrow> string \<Rightarrow> string \<Rightarrow> string \<Rightarrow> target_plan \<Rightarrow> bool \<Rightarrow> bool \<Rightarrow> wf_definition" where
  "web_recon_definition js did name version description p headless allow_discovery =
     \<lparr>wd_id = did, wd_name = name, wd_version = version, wd_description = description,
      wd_steps = recon_steps js p headless allow_discovery,
      wd_default_policy_requirements = recon_requirements, wd_created_at = nanos 1784592000\<rparr>"

definition continuous_web_recon :: "json_printer \<Rightarrow> target_plan \<Rightarrow> bool \<Rightarrow> wf_definition" where
  "continuous_web_recon js p headless =
     web_recon_definition js ''75a7c2d0-25b9-4c56-bffe-8cb6d86e6781'' ''continuous-web-recon'' ''2.0.0''
       ''Scope-driven continuous web reconnaissance with passive discovery'' p headless True"

definition authorized_web_baseline :: "json_printer \<Rightarrow> target_plan \<Rightarrow> bool \<Rightarrow> wf_definition" where
  "authorized_web_baseline js p headless =
     web_recon_definition js ''6e996cf6-c850-405a-8296-c59eef26d2a7'' ''authorized-web-baseline'' ''1.0.0''
       ''Scope-derived exact-seed authorized web baseline'' p headless False"

definition build_workflow :: "json_printer \<Rightarrow> string \<Rightarrow> target_plan \<Rightarrow> bool \<Rightarrow> wf_definition res" where
  "build_workflow js name p headless =
     (if name = [] \<or> name = ''continuous-web-recon''
      then if \<not> has_executable_targets p then Inl (Err ''target plan has no executable authorized targets'')
           else Inr (continuous_web_recon js p headless)
      else if name = ''authorized-web-baseline''
      then if tp_seeds p = [] then Inl (Err ''authorized-web-baseline requires at least one exact active seed'')
           else Inr (authorized_web_baseline js p headless)
      else Inl (Err (''unknown workflow '' @ quoted name)))"

subsection \<open>The shared ports\<close>

lemma shared_ports_Some:
  assumes "shared_ports gs = Some ps" and "list_all distinct gs"
  shows "ps = sorted_list_of_set (\<Inter> (set ` set gs))"
proof -
  have keep: "set (fold (\<lambda>ports kept. List.filter (\<lambda>p. p \<in> set ports) kept) rest g) = set g \<inter> \<Inter> (set ` set rest) \<and>
      (distinct g \<longrightarrow> distinct (fold (\<lambda>ports kept. List.filter (\<lambda>p. p \<in> set ports) kept) rest g))"
    for g :: "int list" and rest
    by (induction rest arbitrary: g) auto
  obtain g rest where gs: "gs = g # rest" and ps: "ps = sort (fold (\<lambda>ports kept. List.filter (\<lambda>p. p \<in> set ports) kept) rest g)"
    using assms(1) by (auto simp: shared_ports_def split: list.splits)
  show ?thesis
    using keep [of rest g] assms(2) unfolding gs ps
    by (simp add: sorted_list_of_set_sort_remdups distinct_remdups_id flip: sorted_list_of_set.sorted_key_list_of_set_remove)
      (metis distinct_remdups_id sorted_list_of_set_sort_remdups)
qed

lemma shared_ports_of_set:
  "set gs = set gs' \<Longrightarrow> list_all distinct gs \<Longrightarrow> list_all distinct gs' \<Longrightarrow> shared_ports gs = shared_ports gs'"
proof -
  assume same: "set gs = set gs'" and d: "list_all distinct gs" "list_all distinct gs'"
  show "shared_ports gs = shared_ports gs'"
  proof (cases "gs = []")
    case True
    then show ?thesis using same by simp
  next
    case False
    then obtain ps ps' where "shared_ports gs = Some ps" "shared_ports gs' = Some ps'"
      using same by (cases gs; cases gs') (auto simp: shared_ports_def)
    with shared_ports_Some [OF this(1) d(1)] shared_ports_Some [OF this(2) d(2)] same show ?thesis by simp
  qed
qed

lemma port_groups_distinct: "list_all distinct (port_groups p)"
proof -
  have seed: "distinct (fold (\<lambda>e ports. append_unique ports (ep_port e)) es acc)" if "distinct acc" for es acc
    using that by (induction es arbitrary: acc) auto
  have add: "list_all distinct (map snd (add_port k port gs))" if "list_all distinct (map snd gs)" for k port gs
  proof -
    have "distinct (lookup_or [] gs k)"
      using that map_of_SomeD by (fastforce simp: lookup_or_def list_all_iff split: option.splits)
    then have "distinct (append_unique (lookup_or [] gs k) port)" by simp
    then have "list_all distinct (map snd (AList.update k (append_unique (lookup_or [] gs k) port) gs'))"
      if "list_all distinct (map snd gs')" for gs' using that by (induction gs') auto
    then show ?thesis using that by (simp add: add_port_def)
  qed
  have adds: "list_all distinct (map snd (fold (add_port k) ports gs))" if "list_all distinct (map snd gs)" for k ports gs
    using that by (induction ports arbitrary: gs) (auto simp: add)
  have groups: "list_all distinct (map snd (fold (\<lambda>r gs. fold (add_port (group_key r)) (wc_ports r) gs) rules gs))"
    if "list_all distinct (map snd gs)" for rules gs
    using that by (induction rules arbitrary: gs) (auto simp: adds)
  show ?thesis
    using groups [of "[]" "tp_wildcards p"]
    by (force simp: port_groups_def seed_ports_def wildcard_groups_def list_all_iff seed)
qed

subsection \<open>Definitions whose steps are listed after their dependencies\<close>

fun in_order :: "string list \<Rightarrow> wf_step list \<Rightarrow> bool" where
  "in_order seen [] \<longleftrightarrow> True"
| "in_order seen (s # steps) \<longleftrightarrow>
     st_id s \<notin> set seen \<and> set (st_depends_on s) \<subseteq> set seen \<and> in_order (st_id s # seen) steps"

lemma in_order_distinct:
  "in_order seen steps \<Longrightarrow> distinct (map st_id steps) \<and> st_id ` set steps \<inter> set seen = {}"
  by (induction steps arbitrary: seen) (simp, fastforce)

lemma in_order_depends:
  "in_order seen steps \<Longrightarrow> s \<in> set steps \<Longrightarrow> set (st_depends_on s) \<subseteq> set seen \<union> st_id ` set steps"
  by (induction steps arbitrary: seen) (simp, fastforce)

lemma in_order_take:
  "in_order seen steps \<Longrightarrow> i < length steps \<Longrightarrow> set (st_depends_on (steps ! i)) \<subseteq> set seen \<union> st_id ` set (take i steps)"
proof (induction steps arbitrary: seen i)
  case (Cons s steps)
  show ?case
  proof (cases i)
    case 0
    then show ?thesis using Cons.prems by simp
  next
    case (Suc j)
    then show ?thesis using Cons.IH [of "st_id s # seen" j] Cons.prems by auto
  qed
qed simp

lemma in_order_acyclic: "in_order [] steps \<Longrightarrow> acyclic_steps steps"
proof -
  assume o': "in_order [] steps"
  then have d: "distinct (map st_id steps)" using in_order_distinct by blast
  have ord: "ordered steps (map st_id steps)"
    unfolding ordered_def
  proof (intro allI impI)
    fix i assume "i < length (map st_id steps)"
    then show "set (deps_of steps (map st_id steps ! i)) \<subseteq> set (take i (map st_id steps))"
      using in_order_take [OF o', of i] by (simp add: deps_of_step [OF d] take_map)
  qed
  have "(x, x) \<notin> (dep_rel steps)\<^sup>+" for x
  proof (cases "x \<in> st_id ` set steps")
    case True
    then show ?thesis using ordered_no_cycle [OF ord d, of x] by simp
  next
    case False
    then have "(x, y) \<notin> dep_rel steps" for y by (simp add: deps_of_unknown)
    then show ?thesis by (meson tranclD)
  qed
  then show ?thesis by (simp add: acyclic_steps_def acyclic_def)
qed

lemma depends_directly:
  "in_order [] steps \<Longrightarrow> s \<in> set steps \<Longrightarrow> d \<in> set (st_depends_on s) \<Longrightarrow> (st_id s, d) \<in> (dep_rel steps)\<^sup>+"
  using deps_of_step [of steps s] in_order_distinct [of "[]" steps] by (auto intro: r_into_trancl)

lemma depends_through:
  "in_order [] steps \<Longrightarrow> s \<in> set steps \<Longrightarrow> d \<in> set (st_depends_on s) \<Longrightarrow> (d, e) \<in> (dep_rel steps)\<^sup>+ \<Longrightarrow>
     (st_id s, e) \<in> (dep_rel steps)\<^sup>+"
  using depends_directly trancl_trans by metis

subsection \<open>What the platform builds\<close>

lemma recon_in_order: "in_order [] (recon_steps js p headless allow_discovery)"
  by (simp add: recon_steps_def prepare_step_def probing_steps_def crawling_steps_def reporting_steps_def recon_step_def
      Let_def) auto

lemma literal_bindings:
  "split_on (CHR ''.'') ''discover-subdomains.output.authorized_urls'' = [''discover-subdomains'', ''output'', ''authorized_urls'']"
  "split_on (CHR ''.'') ''prepare-authorized-targets.output.urls'' = [''prepare-authorized-targets'', ''output'', ''urls'']"
  "split_on (CHR ''.'') ''prepare-authorized-targets.output.port_targets'' =
     [''prepare-authorized-targets'', ''output'', ''port_targets'']"
  "split_on (CHR ''.'') ''probe-http.output.lines'' = [''probe-http'', ''output'', ''lines'']"
  "split_on (CHR ''.'') ''compare-assets.output.crawl_targets'' = [''compare-assets'', ''output'', ''crawl_targets'']"
  "split_on (CHR ''.'') ''compare-assets.output.scan_targets'' = [''compare-assets'', ''output'', ''scan_targets'']"
  "split_on (CHR ''.'') ''compare-assets.output.changes'' = [''compare-assets'', ''output'', ''changes'']"
  "split_on (CHR ''.'') ''crawl-new-or-changed-web-assets.output.lines'' = [''crawl-new-or-changed-web-assets'', ''output'', ''lines'']"
  "split_on (CHR ''.'') ''discover-archive-urls.output.lines'' = [''discover-archive-urls'', ''output'', ''lines'']"
  "split_on (CHR ''.'') ''classify-interesting-endpoints.output.interesting_endpoints'' =
     [''classify-interesting-endpoints'', ''output'', ''interesting_endpoints'']"
  "split_on (CHR ''.'') ''run-safe-nuclei-profile.output.lines'' = [''run-safe-nuclei-profile'', ''output'', ''lines'']"
  by code_simp+

lemma literal_conditions:
  "supported_condition ''nonempty:prepare-authorized-targets.output.port_targets''"
  "supported_condition ''nonempty:compare-assets.output.crawl_targets''"
  "supported_condition ''nonempty:compare-assets.output.scan_targets''"
  "condition_source ''nonempty:prepare-authorized-targets.output.port_targets'' = ''prepare-authorized-targets''"
  "condition_source ''nonempty:compare-assets.output.crawl_targets'' = ''compare-assets''"
  "condition_source ''nonempty:compare-assets.output.scan_targets'' = ''compare-assets''"
  by code_simp+

lemma recon_paths:
  fixes js p headless allow_discovery
  defines "steps \<equiv> recon_steps js p headless allow_discovery"
  shows "(''resolve-dns'', ''prepare-authorized-targets'') \<in> (dep_rel steps)\<^sup>+"
    "(''probe-http'', ''prepare-authorized-targets'') \<in> (dep_rel steps)\<^sup>+"
    "(''compare-assets'', ''probe-http'') \<in> (dep_rel steps)\<^sup>+"
    "(''crawl-new-or-changed-web-assets'', ''compare-assets'') \<in> (dep_rel steps)\<^sup>+"
    "(''classify-interesting-endpoints'', ''crawl-new-or-changed-web-assets'') \<in> (dep_rel steps)\<^sup>+"
    "(''run-safe-nuclei-profile'', ''compare-assets'') \<in> (dep_rel steps)\<^sup>+"
    "(''generate-changes-report'', ''run-safe-nuclei-profile'') \<in> (dep_rel steps)\<^sup>+"
    "(''generate-changes-report'', ''classify-interesting-endpoints'') \<in> (dep_rel steps)\<^sup>+"
    "(''generate-changes-report'', ''compare-assets'') \<in> (dep_rel steps)\<^sup>+"
proof -
  note o' = recon_in_order [of js p headless allow_discovery, folded steps_def]
  have edge: "(st_id s, d) \<in> (dep_rel steps)\<^sup>+"
    if "s \<in> set (probing_steps js p) \<union> set (crawling_steps js p headless)
          \<union> set (reporting_steps js p (allow_discovery \<and> tp_discovery_roots p \<noteq> []))"
      and "d \<in> set (st_depends_on s)" for s d
    using that by (intro depends_directly [OF o']) (auto simp: steps_def recon_steps_def Let_def)
  have m1: "(''resolve-dns'', ''prepare-authorized-targets'') \<in> (dep_rel steps)\<^sup>+"
    and m2: "(''probe-http'', ''resolve-dns'') \<in> (dep_rel steps)\<^sup>+"
    using edge by (force simp: probing_steps_def recon_step_def Let_def)+
  have m3: "(''compare-assets'', ''probe-http'') \<in> (dep_rel steps)\<^sup>+"
    and m4: "(''crawl-new-or-changed-web-assets'', ''compare-assets'') \<in> (dep_rel steps)\<^sup>+"
    using edge by (force simp: crawling_steps_def recon_step_def)+
  have m5: "(''classify-interesting-endpoints'', ''crawl-new-or-changed-web-assets'') \<in> (dep_rel steps)\<^sup>+"
    and m6: "(''run-safe-nuclei-profile'', ''classify-interesting-endpoints'') \<in> (dep_rel steps)\<^sup>+"
    and m7: "(''generate-changes-report'', ''run-safe-nuclei-profile'') \<in> (dep_rel steps)\<^sup>+"
    using edge by (force simp: reporting_steps_def recon_step_def)+
  note t = trancl_trans [where r = "dep_rel steps"]
  show "(''resolve-dns'', ''prepare-authorized-targets'') \<in> (dep_rel steps)\<^sup>+"
    "(''probe-http'', ''prepare-authorized-targets'') \<in> (dep_rel steps)\<^sup>+"
    "(''compare-assets'', ''probe-http'') \<in> (dep_rel steps)\<^sup>+"
    "(''crawl-new-or-changed-web-assets'', ''compare-assets'') \<in> (dep_rel steps)\<^sup>+"
    "(''classify-interesting-endpoints'', ''crawl-new-or-changed-web-assets'') \<in> (dep_rel steps)\<^sup>+"
    "(''run-safe-nuclei-profile'', ''compare-assets'') \<in> (dep_rel steps)\<^sup>+"
    "(''generate-changes-report'', ''run-safe-nuclei-profile'') \<in> (dep_rel steps)\<^sup>+"
    "(''generate-changes-report'', ''classify-interesting-endpoints'') \<in> (dep_rel steps)\<^sup>+"
    "(''generate-changes-report'', ''compare-assets'') \<in> (dep_rel steps)\<^sup>+"
    by (fact m1, fact t [OF m2 m1], fact m3, fact m4, fact m5, fact t [OF m6 t [OF m5 m4]], fact m7,
        fact t [OF m7 m6], fact t [OF m7 t [OF m6 t [OF m5 m4]]])
qed

text \<open>The checks that concern the references of a step to others; the rest of \<open>valid_step\<close> concerns its input.\<close>

definition valid_references :: "wf_step list \<Rightarrow> wf_step \<Rightarrow> bool" where
  "valid_references steps s \<longleftrightarrow>
     st_id s \<noteq> [] \<and> set (st_depends_on s) \<subseteq> st_id ` set steps \<and>
     list_all (\<lambda>(f, b). valid_binding steps (st_id s) b) (st_bindings s) \<and>
     valid_condition steps (st_id s) (st_condition s)"

lemma recon_ids:
  "st_id ` set (recon_steps js p headless allow_discovery) =
      {''prepare-authorized-targets'', ''resolve-dns'', ''probe-http'', ''compare-assets'', ''crawl-new-or-changed-web-assets'',
       ''classify-interesting-endpoints'', ''run-safe-nuclei-profile'', ''generate-changes-report''}
      \<union> (if allow_discovery \<and> tp_discovery_roots p \<noteq> [] then {''discover-subdomains'', ''discover-archive-urls''} else {})
      \<union> (if common_ports p \<notin> {None, Some []} then {''scan-ports''} else {})"
  by (auto simp: recon_steps_def prepare_step_def probing_steps_def crawling_steps_def reporting_steps_def
      recon_step_def Let_def split: option.splits)

lemma recon_references:
  "list_all (valid_references (recon_steps js p headless allow_discovery)) (recon_steps js p headless allow_discovery)"
proof -
  define steps where "steps = recon_steps js p headless allow_discovery"
  let ?discover = "allow_discovery \<and> tp_discovery_roots p \<noteq> []"
  note o' = recon_in_order [of js p headless allow_discovery, folded steps_def]
  note ids = recon_ids [of js p headless allow_discovery, folded steps_def]
  note paths = recon_paths [of js p headless allow_discovery, folded steps_def]
  have edge: "(st_id s, d) \<in> (dep_rel steps)\<^sup>+" if "s \<in> set steps" "d \<in> set (st_depends_on s)" for s d
    by (rule depends_directly [OF o' that])
  have found: "(''prepare-authorized-targets'', ''discover-subdomains'') \<in> (dep_rel steps)\<^sup>+"
      "(''classify-interesting-endpoints'', ''discover-archive-urls'') \<in> (dep_rel steps)\<^sup>+" if "?discover"
    using edge [of "prepare_step js p True" "''discover-subdomains''"]
      edge [of "hd (reporting_steps js p True)" "''discover-archive-urls''"] that
    by (simp_all add: steps_def recon_steps_def prepare_step_def reporting_steps_def recon_step_def Let_def)
  have scan: "(''scan-ports'', ''prepare-authorized-targets'') \<in> (dep_rel steps)\<^sup>+" if "common_ports p = Some ps" "ps \<noteq> []" for ps
    using edge [of "probing_steps js p ! 1" "''resolve-dns''"] that trancl_trans [OF _ paths(1)]
    by (simp add: steps_def recon_steps_def probing_steps_def recon_step_def Let_def)
  note shape = valid_references_def valid_binding_def binding_source_def literal_bindings valid_condition_def literal_conditions
    ids paths recon_step_def
  have "list_all (valid_references steps) (prepare_step js p ?discover # probing_steps js p)"
    by (auto simp: prepare_step_def probing_steps_def Let_def shape found scan split: option.splits)
  moreover have "list_all (valid_references steps) (crawling_steps js p headless)"
    by (simp add: crawling_steps_def shape)
  moreover have "list_all (valid_references steps) (reporting_steps js p ?discover)"
    by (auto simp: reporting_steps_def shape found)
  moreover have "valid_references steps (recon_step ''discover-subdomains'' ''discover.subdomains'' ''subfinder'' [] [] x [] 15)" for x
    by (simp add: shape)
  moreover have "valid_references steps
      (recon_step ''discover-archive-urls'' ''discover.archive_urls'' ''gau'' [''prepare-authorized-targets''] [] x [] 15)" for x
    by (simp add: shape)
  ultimately have "list_all (valid_references steps) (recon_steps js p headless allow_discovery)"
    unfolding recon_steps_def Let_def by simp
  then show ?thesis by (simp add: steps_def)
qed

lemma built_workflow_cases:
  assumes "build_workflow js name p headless = Inr d"
  shows "wd_name d \<noteq> [] \<and> wd_version d \<noteq> [] \<and> (\<exists>allow_discovery. wd_steps d = recon_steps js p headless allow_discovery)"
  using assms
  by (auto simp: build_workflow_def continuous_web_recon_def authorized_web_baseline_def web_recon_definition_def
      split: if_splits)

text \<open>
  C38: In every workflow built from any plan the steps are distinct, the dependencies known and
  without a cycle, and the bindings and conditions refer to steps that the dependencies cover; so
  Validate refuses it only for a step whose capability is not registered or whose static input is
  empty, no JSON, or refused by the capability.
\<close>

theorem built_workflows_are_refused_only_for_their_inputs:
  assumes "build_workflow js name p headless = Inr d"
    and iter: "mset (iter (map st_id (wd_steps d))) = mset (map st_id (wd_steps d))"
  shows "distinct (map st_id (wd_steps d)) \<and> acyclic (dep_rel (wd_steps d)) \<and>
    (\<forall>s \<in> set (wd_steps d). set (st_depends_on s) \<subseteq> st_id ` set (wd_steps d) \<and>
       valid_condition (wd_steps d) (st_id s) (st_condition s) \<and>
       (\<forall>(f, b) \<in> set (st_bindings s). valid_binding (wd_steps d) (st_id s) b)) \<and>
    (validate jp iter r d = None \<longleftrightarrow>
      (\<forall>s \<in> set (wd_steps d). registry_get r (st_capability s) \<noteq> None \<and> st_input s \<noteq> [] \<and>
         jp (st_input s) \<noteq> None \<and> validate_definition_input r (st_capability s) (st_input s) = None))"
proof -
  obtain allow where d: "wd_name d \<noteq> []" "wd_version d \<noteq> []" "wd_steps d = recon_steps js p headless allow"
    using built_workflow_cases [OF assms(1)] by blast
  note o' = recon_in_order [of js p headless allow, folded d(3)]
  have references: "valid_references (wd_steps d) s" if "s \<in> set (wd_steps d)" for s
    using recon_references [of js p headless allow, folded d(3)] that by (simp add: list_all_iff)
  have distinct: "distinct (map st_id (wd_steps d))" and acyclic: "acyclic_steps (wd_steps d)"
    using in_order_distinct [OF o'] in_order_acyclic [OF o'] by simp_all
  have "valid_definition jp r d \<longleftrightarrow>
      (\<forall>s \<in> set (wd_steps d). registry_get r (st_capability s) \<noteq> None \<and> st_input s \<noteq> [] \<and>
         jp (st_input s) \<noteq> None \<and> validate_definition_input r (st_capability s) (st_input s) = None)"
    using d(1,2) distinct acyclic references
    by (auto simp: valid_definition_def list_all_iff valid_step_def valid_references_def)
  then show ?thesis
    using validate_None_iff [of iter d jp r] mset_eq_setD [OF iter] distinct acyclic references
    by (auto simp: acyclic_steps_def valid_references_def list_all_iff)
qed

text \<open>The capabilities that send packets to targets.\<close>

definition active_capabilities :: "string list" where
  "active_capabilities = [''resolve.dns'', ''scan.ports'', ''probe.http'', ''crawl.web'', ''scan.nuclei'']"

text \<open>
  C5: In every workflow the platform builds, each step that sends packets to targets takes its
  targets through a binding to an output of the preparation of authorised targets or of the
  comparison of probed assets, a step it depends on (directly or not), and the Nuclei step
  requires an approval.
\<close>

theorem active_steps_take_prepared_targets:
  assumes "build_workflow js name p headless = Inr d" and "s \<in> set (wd_steps d)"
    and "st_capability s \<in> set active_capabilities"
  shows "(\<exists>t source. t \<in> set (wd_steps d) \<and> st_capability t \<in> {''targeting.prepare'', ''compare.assets''} \<and>
      source \<in> {''urls'', ''port_targets'', ''crawl_targets'', ''scan_targets''} \<and>
      map_of (st_bindings s) ''targets'' = Some (st_id t @ ''.output.'' @ source) \<and>
      (st_id s, st_id t) \<in> (dep_rel (wd_steps d))\<^sup>+) \<and>
    (st_capability s = ''scan.nuclei'' \<longrightarrow> st_approval_required s)"
proof -
  obtain allow where d: "wd_steps d = recon_steps js p headless allow"
    using built_workflow_cases [OF assms(1)] by blast
  let ?prepare = "prepare_step js p (allow \<and> tp_discovery_roots p \<noteq> [])"
  have steps: "?prepare \<in> set (wd_steps d)" "crawling_steps js p headless ! 0 \<in> set (wd_steps d)"
    by (simp_all add: d recon_steps_def Let_def crawling_steps_def)
  have names: "st_id ?prepare = ''prepare-authorized-targets''" "st_capability ?prepare = ''targeting.prepare''"
      "st_id (crawling_steps js p headless ! 0) = ''compare-assets''"
      "st_capability (crawling_steps js p headless ! 0) = ''compare.assets''"
    by (simp_all add: prepare_step_def crawling_steps_def recon_step_def)
  let ?sources = "\<lambda>s. map_of (st_bindings s) ''targets'' \<in> Some ` {''prepare-authorized-targets.output.urls'',
      ''prepare-authorized-targets.output.port_targets'', ''compare-assets.output.crawl_targets'',
      ''compare-assets.output.scan_targets''}"
  let ?P = "\<lambda>s. st_capability s \<in> set active_capabilities \<longrightarrow>
      ?sources s \<and> (st_capability s = ''scan.nuclei'' \<longrightarrow> st_approval_required s)"
  have "list_all ?P (probing_steps js p)" "list_all ?P (crawling_steps js p headless)"
      "list_all ?P (reporting_steps js p discover)" for discover
    by (simp_all add: active_capabilities_def probing_steps_def crawling_steps_def reporting_steps_def recon_step_def Let_def)
  then have "list_all ?P (wd_steps d)"
    unfolding d recon_steps_def Let_def by (simp add: active_capabilities_def prepare_step_def recon_step_def)
  then have sources: "?sources s" and approved: "st_capability s = ''scan.nuclei'' \<longrightarrow> st_approval_required s"
    using assms(2,3) unfolding list_all_iff by blast+
  have bound: "(\<exists>source \<in> {''urls'', ''port_targets''}. map_of (st_bindings s) ''targets'' = Some (''prepare-authorized-targets.output.'' @ source)) \<or>
      (\<exists>source \<in> {''crawl_targets'', ''scan_targets''}. map_of (st_bindings s) ''targets'' = Some (''compare-assets.output.'' @ source))"
    using sources by auto
  have valid: "valid_binding (wd_steps d) (st_id s) b" if "map_of (st_bindings s) ''targets'' = Some b" for b
    using recon_references [of js p headless allow, folded d] assms(2) map_of_SomeD [OF that]
    by (auto simp: list_all_iff valid_references_def)
  from bound show ?thesis
  proof (elim disjE bexE)
    fix source assume a: "source \<in> {''urls'', ''port_targets''}"
      "map_of (st_bindings s) ''targets'' = Some (''prepare-authorized-targets.output.'' @ source)"
    then have "(st_id s, ''prepare-authorized-targets'') \<in> (dep_rel (wd_steps d))\<^sup>+"
      using valid [OF a(2)] by (auto simp: valid_binding_def binding_source_def literal_bindings)
    with a steps(1) approved names show ?thesis
      by (intro conjI exI [of _ ?prepare] exI [of _ source]) auto
  next
    fix source assume a: "source \<in> {''crawl_targets'', ''scan_targets''}"
      "map_of (st_bindings s) ''targets'' = Some (''compare-assets.output.'' @ source)"
    then have "(st_id s, ''compare-assets'') \<in> (dep_rel (wd_steps d))\<^sup>+"
      using valid [OF a(2)] by (auto simp: valid_binding_def binding_source_def literal_bindings)
    with a steps(2) approved names show ?thesis
      by (intro conjI exI [of _ "crawling_steps js p headless ! 0"] exI [of _ source]) auto
  qed
qed

subsection \<open>What the platform's registry says\<close>

text \<open>The input of the classification lacks fields that the capability requires.\<close>

lemma classify_input_is_refused:
  assumes "raw \<noteq> []" "ce_json v raw = Some (classify_static p)" "ce_decode v raw = Some (classify_static p)"
  shows "\<exists>e. validate_internal_input v fu sha ''classify.endpoint'' raw = Some (Some e)"
proof -
  have "parse_object (ce_json v) raw = Some [(''active'', JArr []), (''passive'', JArr []), (''target_plan_digest'', JStr (tp_digest p))]"
    using assms(2) by (simp add: parse_object_def classify_static_def)
  then have "\<exists>e. strict_internal v decode_classify classify_required raw = Inl e"
    unfolding strict_internal_def classify_required_def by (simp split: option.split)
  then show ?thesis by (auto simp: validate_internal_input_def validate_classify_def)
qed

lemma platform_refuses_its_workflows:
  assumes d: "build_workflow (ce_print v) name p headless = Inr d"
    and iter: "mset (iter (map st_id (wd_steps d))) = mset (map st_id (wd_steps d))"
    and raw: "raw = ce_print v (classify_static p)" "raw \<noteq> []"
      "ce_json v raw = Some (classify_static p)" "ce_decode v raw = Some (classify_static p)"
    and c: "registry_get r ''classify.endpoint'' = Some c" "cap_definition_validator c = Some check"
      "validate_internal_input v fu sha ''classify.endpoint'' raw = Some (check raw)"
  shows "validate (ce_json v) iter r d \<noteq> None"
proof
  assume "validate (ce_json v) iter r d = None"
  then have "valid_definition (ce_json v) r d"
    using validate_None_iff [of iter d "ce_json v" r] mset_eq_setD [OF iter] by simp
  moreover obtain allow where steps: "wd_steps d = recon_steps (ce_print v) p headless allow"
    using built_workflow_cases [OF d] by blast
  define s where "s = hd (reporting_steps (ce_print v) p (allow \<and> tp_discovery_roots p \<noteq> []))"
  have "s \<in> set (wd_steps d)" "st_capability s = ''classify.endpoint''" "st_input s = raw"
    by (simp_all add: steps s_def recon_steps_def Let_def reporting_steps_def recon_step_def raw(1))
  ultimately have "check raw = None"
    using c(1,2) by (auto simp: valid_definition_def list_all_iff valid_step_def validate_definition_input_def)
  with classify_input_is_refused [OF raw(2,3,4), of fu sha] c(3) show False by simp
qed

text \<open>A plan without an exact seed has a nil slice of initial URLs, which the preparation refuses.\<close>

lemma discovery_only_plan_is_refused:
  assumes "tp_seeds p = []" "raw \<noteq> []" "ce_json v raw = Some (prepare_static p)" "ce_decode v raw = Some (prepare_static p)"
  shows "\<exists>e. validate_internal_input v fu sha ''targeting.prepare'' raw = Some (Some e)"
proof -
  have "parse_object (ce_json v) raw = Some [(''discovered_urls'', JArr []), (''exact_urls'', JNull),
      (''ports'', json_slice json_int (common_ports p)), (''target_plan_digest'', JStr (tp_digest p))]"
    using assms(1,3) by (simp add: parse_object_def prepare_static_def slice_json_def initial_urls_def unique_sorted_def)
  then have "\<exists>e. strict_internal v decode_prepare prepare_required raw = Inl e"
    unfolding strict_internal_def prepare_required_def by (simp split: option.split)
  then show ?thesis by (auto simp: validate_internal_input_def validate_prepare_def)
qed

subsection \<open>Witnesses\<close>

definition seed_plan :: target_plan where
  "seed_plan =
     \<lparr>tp_scope_digest = ''s'', tp_digest = ''d'', tp_discovery_roots = [],
      tp_seeds = [\<lparr>sd_host = ''x.test'', sd_endpoints = [\<lparr>ep_protocol = ''https'', ep_port = 443, ep_url = ''https://x.test/''\<rparr>],
        sd_path_pattern = ''/'', sd_source_rule_ids = []\<rparr>],
      tp_wildcards = [], tp_exclusions = [], tp_protocols = [''https''], tp_ports = [443], tp_warnings = []\<rparr>"

definition open_registry :: registry where
  "open_registry =
     map (\<lambda>n. (n, sample_capability n False))
       [''discover.subdomains'', ''targeting.prepare'', ''resolve.dns'', ''scan.ports'', ''probe.http'', ''compare.assets'',
        ''crawl.web'', ''discover.archive_urls'', ''classify.endpoint'', ''scan.nuclei'', ''report.changes'']"

lemma seed_plan_built:
  "build_workflow (\<lambda>_. ''x'') ''authorized-web-baseline'' seed_plan False = Inr (authorized_web_baseline (\<lambda>_. ''x'') seed_plan False)"
  by (simp add: build_workflow_def seed_plan_def)

lemma seed_plan_ports: "common_ports seed_plan = Some [443]"
  by (simp add: common_ports_def port_groups_def seed_plan_def seed_ports_def wildcard_groups_def shared_ports_def
      append_unique_def)

text \<open>The registry of the platform, with an encoding under which the input of the classification is read back.\<close>

definition printing_env :: cmd_env where
  "printing_env = sample_cmd_env\<lparr>ce_print := (\<lambda>j. if j = classify_static seed_plan then ''c'' else ''x''),
     ce_json := (\<lambda>s. Some (if s = ''c'' then classify_static seed_plan else JNull)),
     ce_decode := (\<lambda>s. Some (if s = ''c'' then classify_static seed_plan else JNull))\<rparr>"

definition sample_internal :: "capability list" where
  "sample_internal =
     map (\<lambda>d. \<lparr>cap_manifest = internal_manifest (\<lambda>n. ([], [])) d, cap_validate = (\<lambda>q. None),
          cap_execute = (\<lambda>q. (zero_result, None)),
          cap_definition_validator = Some (\<lambda>raw. case validate_internal_input printing_env (\<lambda>s. None) (\<lambda>s. s) (fst d) raw of
            None \<Rightarrow> Some (Err ''panic'') | Some e \<Rightarrow> e)\<rparr>)
       internal_definitions"

lemma sample_internal_classifier:
  "\<exists>c \<in> set sample_internal. mf_name (cap_manifest c) = ''classify.endpoint'' \<and>
     cap_definition_validator c = Some (\<lambda>raw. case validate_internal_input printing_env (\<lambda>s. None) (\<lambda>s. s) ''classify.endpoint'' raw of
            None \<Rightarrow> Some (Err ''panic'') | Some e \<Rightarrow> e)"
  by (simp add: sample_internal_def internal_definitions_def internal_manifest_def)

lemma classification_step_built:
  "\<exists>s. s \<in> set (wd_steps (authorized_web_baseline js p headless)) \<and> st_capability s = ''classify.endpoint'' \<and>
     st_input s = js (classify_static p)"
  by (intro exI [of _ "hd (reporting_steps js p False)"])
    (simp add: authorized_web_baseline_def web_recon_definition_def recon_steps_def Let_def reporting_steps_def recon_step_def)

lemma open_registry_accepts:
  assumes "s \<in> set (wd_steps (authorized_web_baseline (\<lambda>_. ''x'') seed_plan False))"
  shows "registry_get open_registry (st_capability s) \<noteq> None \<and> st_input s \<noteq> [] \<and> Some JNull \<noteq> None \<and>
    validate_definition_input open_registry (st_capability s) (st_input s) = None"
proof -
  have "s \<in> set (recon_steps (\<lambda>_. ''x'') seed_plan False False)"
    using assms by (simp add: authorized_web_baseline_def web_recon_definition_def)
  moreover have "list_all (\<lambda>s. st_capability s \<in> fst ` set open_registry \<and> st_input s = ''x'')
      (recon_steps (\<lambda>_. ''x'') seed_plan False False)"
    by (simp add: recon_steps_def prepare_step_def probing_steps_def crawling_steps_def reporting_steps_def
        recon_step_def open_registry_def Let_def)
  ultimately have s: "st_capability s \<in> fst ` set open_registry" "st_input s = ''x''" by (simp_all add: list_all_iff)
  then have "registry_get open_registry (st_capability s) = Some (sample_capability (st_capability s) False)"
    unfolding registry_get_def open_registry_def map_of_map_restrict by (simp add: restrict_map_def image_image)
  then show ?thesis using s(2) by (simp add: validate_definition_input_def sample_capability_def)
qed

text \<open>A registry whose capabilities check nothing accepts the workflow, the one of the platform does not.\<close>

lemma built_workflows_are_refused_only_for_their_inputs_witness:
  "validate (\<lambda>_. Some JNull) rev open_registry (authorized_web_baseline (\<lambda>_. ''x'') seed_plan False) = None \<and>
   (\<exists>r e. provider_registry printing_env None sample_app_config sample_internal = Inr r \<and>
     validate (ce_json printing_env) rev r (authorized_web_baseline (ce_print printing_env) seed_plan False) = Some e)"
proof
  let ?d = "authorized_web_baseline (\<lambda>_. ''x'') seed_plan False"
  from built_workflows_are_refused_only_for_their_inputs [OF seed_plan_built, of rev "\<lambda>_. Some JNull" open_registry]
  show "validate (\<lambda>_. Some JNull) rev open_registry ?d = None" using open_registry_accepts by simp
next
  let ?d = "authorized_web_baseline (ce_print printing_env) seed_plan False"
  have "map cap_manifest sample_internal = map (internal_manifest (\<lambda>n. ([], []))) internal_definitions"
    by (simp add: sample_internal_def)
  from platform_registry_builds [OF this] obtain r
    where r: "provider_registry printing_env None sample_app_config sample_internal = Inr r" by blast
  obtain c where c: "registry_get r ''classify.endpoint'' = Some c"
    "cap_definition_validator c = Some (\<lambda>raw. case validate_internal_input printing_env (\<lambda>s. None) (\<lambda>s. s) ''classify.endpoint'' raw of
            None \<Rightarrow> Some (Err ''panic'') | Some e \<Rightarrow> e)"
    using sample_internal_classifier platform_registry_finds [OF r] by metis
  obtain s where s: "s \<in> set (wd_steps ?d)" "st_capability s = ''classify.endpoint''"
    "st_input s = ce_print printing_env (classify_static seed_plan)"
    using classification_step_built by blast
  have input: "st_input s = ''c''" using s(3) by (simp add: printing_env_def)
  have "\<exists>e. validate_internal_input printing_env (\<lambda>s. None) (\<lambda>s. s) ''classify.endpoint'' ''c'' = Some (Some e)"
    by (rule classify_input_is_refused [where p = seed_plan]) (simp_all add: printing_env_def)
  then have refused: "validate_definition_input r (st_capability s) (st_input s) \<noteq> None"
    unfolding validate_definition_input_def s(2) c(1) input by (auto simp: c(2))
  have "build_workflow (ce_print printing_env) ''authorized-web-baseline'' seed_plan False = Inr ?d"
    by (simp add: build_workflow_def seed_plan_def)
  from built_workflows_are_refused_only_for_their_inputs [OF this, of rev "ce_json printing_env" r]
  have "validate (ce_json printing_env) rev r ?d \<noteq> None" using s(1) refused by auto
  with r show "\<exists>r e. provider_registry printing_env None sample_app_config sample_internal = Inr r \<and>
      validate (ce_json printing_env) rev r ?d = Some e" by blast
qed

lemma active_steps_take_prepared_targets_witness:
  "\<exists>s. s \<in> set (wd_steps (authorized_web_baseline (\<lambda>_. ''x'') seed_plan False)) \<and> st_capability s = ''scan.nuclei'' \<and>
     st_approval_required s"
proof -
  let ?d = "authorized_web_baseline (\<lambda>_. ''x'') seed_plan False"
  let ?s = "reporting_steps (\<lambda>_. ''x'') seed_plan False ! 1"
  have s: "?s \<in> set (wd_steps ?d)"
    by (simp add: authorized_web_baseline_def web_recon_definition_def recon_steps_def Let_def reporting_steps_def)
  have c: "st_capability ?s = ''scan.nuclei''" by (simp add: reporting_steps_def recon_step_def)
  then have "st_capability ?s \<in> set active_capabilities" by (simp add: active_capabilities_def)
  from active_steps_take_prepared_targets [OF seed_plan_built s this] s c show ?thesis by blast
qed

end
