(* ===== verification/Findings.thy ===== *)
theory Findings
  imports GoData
begin

text \<open>
  \<^verbatim>\<open>internal/findings/lifecycle.go\<close>: the life cycle of a candidate finding and the playbooks that verify one.
  The life cycle is a step relation over \<^verbatim>\<open>Transition\<close>; the lemmas bound its length and say that only a
  candidate that was queued and verified is ever confirmed or rejected.
\<close>

subsection \<open>The life cycle\<close>

datatype candidate_status = CandNew | CandQueued | CandVerifying | CandConfirmed | CandRejected | CandInformational | CandManualReview

fun candidate_text :: "candidate_status \<Rightarrow> string" where
  "candidate_text CandNew = ''new''"
| "candidate_text CandQueued = ''queued_for_verification''"
| "candidate_text CandVerifying = ''verifying''"
| "candidate_text CandConfirmed = ''confirmed''"
| "candidate_text CandRejected = ''rejected''"
| "candidate_text CandInformational = ''informational''"
| "candidate_text CandManualReview = ''needs_manual_review''"

fun allowed_next :: "candidate_status \<Rightarrow> candidate_status list" where
  "allowed_next CandNew = [CandQueued, CandInformational, CandManualReview]"
| "allowed_next CandQueued = [CandVerifying]"
| "allowed_next CandVerifying = [CandConfirmed, CandRejected, CandManualReview]"
| "allowed_next _ = []"

definition candidate_transition :: "candidate_status \<Rightarrow> candidate_status \<Rightarrow> go_error option" where
  "candidate_transition from_status to_status =
     (if to_status \<in> set (allowed_next from_status) then None
      else Some (Err (''invalid candidate transition '' @ candidate_text from_status @ '' -> '' @ candidate_text to_status)))"

text \<open>The histories of a candidate: each status follows the one before it by an accepted transition.\<close>

inductive candidate_history :: "candidate_status list \<Rightarrow> candidate_status \<Rightarrow> bool" where
  found: "candidate_history [] CandNew"
| moved: "candidate_history past s \<Longrightarrow> candidate_transition s t = None \<Longrightarrow> candidate_history (past @ [s]) t"


inductive_cases candidate_historyE: "candidate_history past s"

lemma candidate_transition_None [simp]: "candidate_transition s t = None \<longleftrightarrow> t \<in> set (allowed_next s)"
  by (simp add: candidate_transition_def)

fun expected_past :: "candidate_status \<Rightarrow> candidate_status list list" where
  "expected_past CandNew = [[]]"
| "expected_past CandQueued = [[CandNew]]"
| "expected_past CandVerifying = [[CandNew, CandQueued]]"
| "expected_past CandConfirmed = [[CandNew, CandQueued, CandVerifying]]"
| "expected_past CandRejected = [[CandNew, CandQueued, CandVerifying]]"
| "expected_past CandInformational = [[CandNew]]"
| "expected_past CandManualReview = [[CandNew], [CandNew, CandQueued, CandVerifying]]"

text \<open>
  A candidate finding is confirmed or rejected only after it was queued and verified: the
  statuses passed on the way from new to a status by accepted transitions are exactly those of the
  listed paths, so that each history is one of finitely many and both confirmed and rejected come
  after queued and verifying.
\<close>

theorem candidates_are_confirmed_only_after_verification:
  "candidate_history past s \<longleftrightarrow> past \<in> set (expected_past s)"
proof
  assume "candidate_history past s"
  then show "past \<in> set (expected_past s)"
  proof induction
    case (moved past s t)
    then show ?case by (cases s) auto
  qed simp
next
  have m: "candidate_history (past @ [s]) t" if "candidate_history past s" "t \<in> set (allowed_next s)" for past s t
    using candidate_history.moved [OF that(1)] that(2) by simp
  have new: "candidate_history [] CandNew" by (rule candidate_history.found)
  have queued: "candidate_history [CandNew] CandQueued" using m [OF new] by simp
  have verifying: "candidate_history [CandNew, CandQueued] CandVerifying" using m [OF queued] by simp
  assume "past \<in> set (expected_past s)"
  then show "candidate_history past s"
    using new queued verifying m [OF new] m [OF verifying] by (cases s) auto
qed

lemma settled_candidates_are_final:
  "s \<in> {CandConfirmed, CandRejected, CandInformational, CandManualReview} \<Longrightarrow> candidate_transition s t \<noteq> None"
  by auto

subsection \<open>Verification\<close>

datatype verdict = VerdictConfirmed | VerdictRejected | VerdictInconclusive | VerdictManual

record verification_input =
  vi_url :: string
  vi_status_code :: int
  vi_headers :: "string \<Rightarrow> string list"
  vi_body :: string
  vi_unauthenticated_status :: int

record verification =
  vf_playbook :: string
  vf_verdict :: verdict
  vf_summary :: string

definition first_value :: "string list \<Rightarrow> string" where
  "first_value v = (case v of [] \<Rightarrow> [] | x # _ \<Rightarrow> x)"

definition quoted_key :: "string \<Rightarrow> string" where
  "quoted_key k = [CHR 0x22] @ k @ [CHR 0x22]"

definition redirects_away :: "url_parser \<Rightarrow> verification_input \<Rightarrow> bool" where
  "redirects_away parse i =
     (case parse (vi_url i) of
        None \<Rightarrow> False
      | Some u \<Rightarrow>
          list_ex (\<lambda>v. case parse v of
              None \<Rightarrow> False
            | Some loc \<Rightarrow> url_scheme loc \<noteq> [] \<and> \<not> equal_fold (url_hostname loc) (url_hostname u))
            (vi_headers i ''Location''))"

definition verify_candidate :: "url_parser \<Rightarrow> string \<Rightarrow> verification_input \<Rightarrow> verification" where
  "verify_candidate parse playbook i =
     (let body = to_lower (vi_body i);
          answer = (\<lambda>v s. \<lparr>vf_playbook = playbook, vf_verdict = v, vf_summary = s\<rparr>);
          origin = first_value (vi_headers i ''X-Verification-Origin'');
          allow = first_value (vi_headers i ''Access-Control-Allow-Origin'');
          unmet = answer VerdictRejected ''independent confirmation criteria were not met''
      in if playbook = ''exposed-file''
         then if vi_status_code i = 200 \<and> (str_contains body ''private key'' \<or> str_contains body ''database_password'' \<or>
                  str_contains body ''aws_access_key_id'')
              then answer VerdictConfirmed ''independent response evidence contains an exposed-file marker'' else unmet
         else if playbook = ''openapi''
         then if vi_status_code i = 200 \<and> (str_contains body (quoted_key ''openapi'') \<or> str_contains body (quoted_key ''swagger'')) \<and>
                  str_contains body (quoted_key ''paths'')
              then answer VerdictConfirmed ''response parses as a public API description candidate'' else unmet
         else if playbook = ''graphql-introspection''
         then if vi_status_code i = 200 \<and> str_contains body (quoted_key ''__schema'')
              then answer VerdictConfirmed ''GraphQL schema evidence was returned'' else unmet
         else if playbook = ''open-redirect''
         then if redirects_away parse i
              then answer VerdictConfirmed ''redirect location points to the configured external verification origin'' else unmet
         else if playbook = ''cors-reflection''
         then if origin \<noteq> [] \<and> origin = allow
              then answer VerdictConfirmed ''arbitrary verification origin was reflected'' else unmet
         else if playbook = ''missing-authentication''
         then if vi_unauthenticated_status i \<ge> 200 \<and> vi_unauthenticated_status i < 300
              then answer VerdictManual ''endpoint responded without credentials; authorization and impact require human review''
              else unmet
         else answer VerdictInconclusive ''unknown verification playbook'')"

text \<open>
  Any host other than that of the request confirms an open redirect, although the summary speaks of the
  configured verification origin: no origin is looked at.
\<close>

lemma redirect_to_any_host_confirms:
  assumes "parse (vi_url i) = Some u" "vi_headers i ''Location'' = [l]" "parse l = Some loc" "url_scheme loc \<noteq> []"
    and "\<not> equal_fold (url_hostname loc) (url_hostname u)"
  shows "vf_verdict (verify_candidate parse ''open-redirect'' i) = VerdictConfirmed"
  using assms by (simp add: verify_candidate_def Let_def redirects_away_def)

lemma playbooks_decide:
  "vf_verdict (verify_candidate parse playbook i) = VerdictInconclusive \<longleftrightarrow>
     playbook \<notin> {''exposed-file'', ''openapi'', ''graphql-introspection'', ''open-redirect'', ''cors-reflection'',
       ''missing-authentication''}"
  by (simp add: verify_candidate_def Let_def split: if_splits)

lemma manual_only_without_authentication:
  "vf_verdict (verify_candidate parse playbook i) = VerdictManual \<longleftrightarrow>
     playbook = ''missing-authentication'' \<and> 200 \<le> vi_unauthenticated_status i \<and> vi_unauthenticated_status i < 300"
  by (simp add: verify_candidate_def Let_def split: if_splits)

end
