(* ===== verification/ReconPipeline.thy ===== *)
theory ReconPipeline
  imports Prelude
begin

text \<open>
  \<^verbatim>\<open>internal/recon/pipeline.go\<close>: the stages of a pipeline and what they require. The unknown stages are found by
  iterating over a map, so any of them can be the one reported; \<open>iter\<close> is that order.
\<close>

record pipeline_stage =
  sg_key :: char
  sg_capability :: string
  sg_requires :: "char list"

definition pipeline_stages :: "pipeline_stage list" where
  "pipeline_stages =
     map (\<lambda>(k, c, r). \<lparr>sg_key = k, sg_capability = c, sg_requires = r\<rparr>)
       [(CHR ''s'', ''discover.subdomains'', []), (CHR ''d'', ''resolve.dns'', ''s''), (CHR ''n'', ''scan.ports'', ''d''),
        (CHR ''h'', ''probe.http'', ''d''), (CHR ''k'', ''crawl.web'', ''h''), (CHR ''g'', ''discover.archive_urls'', []),
        (CHR ''a'', ''classify.endpoint'', ''kg'')]"

definition quoted_char :: "char \<Rightarrow> string" where
  "quoted_char c = [CHR 0x27, c, CHR 0x27]"

fun find_duplicate :: "string \<Rightarrow> char list \<Rightarrow> char option" where
  "find_duplicate [] seen = None"
| "find_duplicate (r # rest) seen = (if r \<in> set seen then Some r else find_duplicate rest (r # seen))"

definition missing_dependency :: "string \<Rightarrow> pipeline_stage \<Rightarrow> char option" where
  "missing_dependency pipeline s =
     (if sg_key s \<notin> set pipeline then None else find (\<lambda>d. d \<notin> set pipeline) (sg_requires s))"

definition validate_pipeline :: "(string \<Rightarrow> string) \<Rightarrow> string \<Rightarrow> go_error option" where
  "validate_pipeline iter pipeline =
     (if pipeline = [] then Some (Err ''pipeline is empty'')
      else (case find_duplicate pipeline [] of
        Some r \<Rightarrow> Some (Err (''pipeline stage '' @ quoted_char r @ '' is duplicated''))
      | None \<Rightarrow>
          (case find (\<lambda>s. missing_dependency pipeline s \<noteq> None) pipeline_stages of
             Some s \<Rightarrow> Some (Err (''stage '' @ quoted_char (sg_key s) @ '' ('' @ sg_capability s @ '') requires stage ''
               @ (case missing_dependency pipeline s of None \<Rightarrow> [] | Some d \<Rightarrow> quoted_char d)))
           | None \<Rightarrow>
               (case find (\<lambda>r. r \<notin> sg_key ` set pipeline_stages) (iter pipeline) of
                  Some r \<Rightarrow> Some (Err (''unknown pipeline stage '' @ quoted_char r @ ''; allowed stages are sdnhkga''))
                | None \<Rightarrow> None))))"

definition pipeline_capabilities :: "(string \<Rightarrow> string) \<Rightarrow> string \<Rightarrow> string list res" where
  "pipeline_capabilities iter pipeline =
     (case validate_pipeline iter pipeline of
        Some e \<Rightarrow> Inl e
      | None \<Rightarrow> Inr (map sg_capability (List.filter (\<lambda>s. sg_key s \<in> set pipeline) pipeline_stages)))"

lemma find_duplicate_None: "find_duplicate p seen = None \<longleftrightarrow> distinct p \<and> set p \<inter> set seen = {}"
  by (induction p arbitrary: seen) auto

lemma find_None: "find P xs = None \<longleftrightarrow> (\<forall>x \<in> set xs. \<not> P x)"
  by (induction xs) auto

text \<open>A pipeline is accepted exactly when it is a set of known stages that is closed under what they require.\<close>

lemma validate_pipeline_None:
  assumes "set (iter pipeline) = set pipeline"
  shows "validate_pipeline iter pipeline = None \<longleftrightarrow>
    pipeline \<noteq> [] \<and> distinct pipeline \<and> set pipeline \<subseteq> set ''sdnhkga'' \<and>
    (\<forall>s \<in> set pipeline_stages. sg_key s \<in> set pipeline \<longrightarrow> set (sg_requires s) \<subseteq> set pipeline)"
proof -
  have keys: "sg_key ` set pipeline_stages = set ''sdnhkga''" by (auto simp: pipeline_stages_def)
  have missing: "missing_dependency pipeline s = None \<longleftrightarrow> (sg_key s \<in> set pipeline \<longrightarrow> set (sg_requires s) \<subseteq> set pipeline)" for s
    by (auto simp: missing_dependency_def find_None)
  have none: "find (\<lambda>s. missing_dependency pipeline s \<noteq> None) pipeline_stages = None \<longleftrightarrow>
      (\<forall>s \<in> set pipeline_stages. sg_key s \<in> set pipeline \<longrightarrow> set (sg_requires s) \<subseteq> set pipeline)"
    by (simp add: find_None missing)
  have unknown: "find (\<lambda>r. r \<notin> sg_key ` set pipeline_stages) (iter pipeline) = None \<longleftrightarrow> set pipeline \<subseteq> set ''sdnhkga''"
    unfolding keys by (auto simp: find_None assms)
  show ?thesis
    unfolding validate_pipeline_def using none unknown find_duplicate_None [of pipeline "[]"]
    by (auto split: option.splits)
qed

text \<open>The capabilities come in an order in which everything a stage requires comes before it.\<close>

lemma stage_order:
  "i < length pipeline_stages \<Longrightarrow> set (sg_requires (pipeline_stages ! i)) \<subseteq> sg_key ` set (take i pipeline_stages)"
proof -
  have "list_all (\<lambda>i. list_all (\<lambda>d. d \<in> set (map sg_key (take i pipeline_stages))) (sg_requires (pipeline_stages ! i)))
      [0..<length pipeline_stages]"
    by code_simp
  moreover assume "i < length pipeline_stages"
  ultimately show ?thesis by (auto simp: list_all_iff)
qed

lemma whole_pipeline: "pipeline_capabilities (\<lambda>p. p) ''sdnhkga'' = Inr (map sg_capability pipeline_stages)"
  by code_simp

end
