(* ===== verification/AssetChanges.thy ===== *)
theory AssetChanges
  imports Commands
begin

text \<open>
  \<^verbatim>\<open>internal/assets/changes.go\<close>: the comparison of two inventories of assets. The two maps are iterated in an
  order that Go does not fix (\<open>iter\<close>) and the result is sorted, which leaves the order of changes of one kind and
  value open. Metadata are equal when they decode to equal values; objects are compared as maps.
\<close>

record asset_state =
  at_type :: string
  at_value :: string
  at_source :: string
  at_metadata :: string

record coverage =
  cg_capability :: string
  cg_successful :: bool
  cg_complete :: bool

record state_change =
  sc_kind :: string
  sc_type :: string
  sc_value :: string
  sc_before :: "asset_state option"
  sc_after :: "asset_state option"
  sc_reason :: string

definition state_key :: "asset_state \<Rightarrow> string" where
  "state_key s = at_type s @ [CHR 0x00] @ at_value s"

definition index_states :: "asset_state list \<Rightarrow> (string \<times> asset_state) list" where
  "index_states states = fold (\<lambda>s m. AList.update (state_key s) s m) states []"

definition same_metadata :: "json_parser \<Rightarrow> string \<Rightarrow> string \<Rightarrow> bool" where
  "same_metadata jp a b =
     (case (jp a, jp b) of
        (Some x, Some y) \<Rightarrow> sort_json x = sort_json y
      | _ \<Rightarrow> a = b)"

definition is_covered :: "coverage list \<Rightarrow> string \<Rightarrow> bool" where
  "is_covered cs capability =
     (case map_of (map (\<lambda>c. (cg_capability c, cg_successful c \<and> cg_complete c)) (rev cs)) capability of
        None \<Rightarrow> False | Some b \<Rightarrow> b)"

definition new_change :: "asset_state \<Rightarrow> state_change" where
  "new_change s =
     \<lparr>sc_kind = ''new'', sc_type = at_type s, sc_value = at_value s, sc_before = None, sc_after = Some s, sc_reason = []\<rparr>"

definition changed_change :: "asset_state \<Rightarrow> asset_state \<Rightarrow> state_change" where
  "changed_change old s =
     \<lparr>sc_kind = ''changed'', sc_type = at_type s, sc_value = at_value s, sc_before = Some old, sc_after = Some s,
      sc_reason = []\<rparr>"

definition removed_change :: "asset_state \<Rightarrow> state_change" where
  "removed_change old =
     \<lparr>sc_kind = ''removed'', sc_type = at_type old, sc_value = at_value old, sc_before = Some old, sc_after = None,
      sc_reason = ''source step completed successfully with complete coverage''\<rparr>"

definition current_changes :: "json_parser \<Rightarrow> (string \<times> asset_state) list \<Rightarrow> string \<times> asset_state \<Rightarrow> state_change list" where
  "current_changes jp prev e =
     (case map_of prev (fst e) of
        None \<Rightarrow> [new_change (snd e)]
      | Some old \<Rightarrow> if same_metadata jp (at_metadata old) (at_metadata (snd e)) then [] else [changed_change old (snd e)])"

definition previous_changes :: "coverage list \<Rightarrow> (string \<times> asset_state) list \<Rightarrow> string \<times> asset_state \<Rightarrow> state_change list" where
  "previous_changes cs cur e =
     (if map_of cur (fst e) = None \<and> is_covered cs (at_source (snd e)) then [removed_change (snd e)] else [])"

definition compare_states ::
  "json_parser \<Rightarrow> ((string \<times> asset_state) list \<Rightarrow> (string \<times> asset_state) list) \<Rightarrow> asset_state list \<Rightarrow> asset_state list \<Rightarrow>
     coverage list \<Rightarrow> state_change list" where
  "compare_states jp iter previous current cs =
     (let prev = index_states previous; cur = index_states current in
      sort_key (\<lambda>c. (sc_kind c, sc_value c))
        (concat (map (current_changes jp prev) (iter cur)) @ concat (map (previous_changes cs cur) (iter prev))))"

subsection \<open>What is reported\<close>

definition last_state :: "asset_state list \<Rightarrow> string \<Rightarrow> asset_state option" where
  "last_state states k = map_of (map (\<lambda>s. (state_key s, s)) (rev states)) k"

lemma index_states_snoc: "index_states (states @ [s]) = AList.update (state_key s) s (index_states states)"
  by (simp add: index_states_def)

lemma index_states_map: "map_of (index_states states) = last_state states"
  by (induction states rule: rev_induct)
    (auto simp: index_states_snoc last_state_def update_conv fun_eq_iff, simp add: index_states_def)

lemma index_states_distinct: "distinct (map fst (index_states states))"
  by (induction states rule: rev_induct) (simp_all add: index_states_snoc distinct_update, simp add: index_states_def)

lemma index_states_entry: "(k, s) \<in> set (index_states states) \<longleftrightarrow> last_state states k = Some s"
  using map_of_eq_Some_iff [OF index_states_distinct] by (simp add: index_states_map)

lemma current_changes_cases:
  "c \<in> set (current_changes jp (index_states previous) (k, s)) \<longleftrightarrow>
     (last_state previous k = None \<and> c = new_change s) \<or>
     (\<exists>old. last_state previous k = Some old \<and> \<not> same_metadata jp (at_metadata old) (at_metadata s) \<and>
        c = changed_change old s)"
  by (simp add: current_changes_def index_states_map split: option.split)

lemma previous_changes_cases:
  "c \<in> set (previous_changes cs (index_states current) (k, old)) \<longleftrightarrow>
     last_state current k = None \<and> is_covered cs (at_source old) \<and> c = removed_change old"
  by (auto simp: previous_changes_def index_states_map)

text \<open>
  The changes are exactly the assets that are new, those whose metadata differ and those that are gone from a source
  that was covered, sorted by kind and value.
\<close>

theorem inventory_changes_are_exact:
  assumes iter: "\<And>m. set (iter m) = set m"
  shows "set (compare_states jp iter previous current cs) =
      {new_change s | k s. last_state current k = Some s \<and> last_state previous k = None}
      \<union> {changed_change old s | k old s. last_state current k = Some s \<and> last_state previous k = Some old \<and>
           \<not> same_metadata jp (at_metadata old) (at_metadata s)}
      \<union> {removed_change old | k old. last_state previous k = Some old \<and> last_state current k = None \<and>
           is_covered cs (at_source old)} \<and>
    sorted (map (\<lambda>c. (sc_kind c, sc_value c)) (compare_states jp iter previous current cs))"
proof -
  have cur: "set (concat (map (current_changes jp (index_states previous)) (iter (index_states current)))) =
      {new_change s | k s. last_state current k = Some s \<and> last_state previous k = None}
      \<union> {changed_change old s | k old s. last_state current k = Some s \<and> last_state previous k = Some old \<and>
           \<not> same_metadata jp (at_metadata old) (at_metadata s)}"
    (is "set ?cs = ?A")
  proof (rule set_eqI)
    fix c
    have "c \<in> set ?cs \<longleftrightarrow> (\<exists>k s. last_state current k = Some s \<and> c \<in> set (current_changes jp (index_states previous) (k, s)))"
      by (simp add: iter Bex_def index_states_entry)
    also have "\<dots> \<longleftrightarrow> c \<in> ?A" unfolding current_changes_cases by blast
    finally show "c \<in> set ?cs \<longleftrightarrow> c \<in> ?A" .
  qed
  have prev: "set (concat (map (previous_changes cs (index_states current)) (iter (index_states previous)))) =
      {removed_change old | k old. last_state previous k = Some old \<and> last_state current k = None \<and>
           is_covered cs (at_source old)}"
    (is "set ?cs = ?A")
  proof (rule set_eqI)
    fix c
    have "c \<in> set ?cs \<longleftrightarrow> (\<exists>k old. last_state previous k = Some old \<and> c \<in> set (previous_changes cs (index_states current) (k, old)))"
      by (simp add: iter Bex_def index_states_entry)
    also have "\<dots> \<longleftrightarrow> c \<in> ?A" unfolding previous_changes_cases by blast
    finally show "c \<in> set ?cs \<longleftrightarrow> c \<in> ?A" .
  qed
  show ?thesis
    unfolding compare_states_def Let_def by (simp only: set_sort set_append cur prev sorted_sort_key)
qed

definition host_state :: "string \<Rightarrow> string \<Rightarrow> asset_state" where
  "host_state v m = \<lparr>at_type = ''host'', at_value = v, at_source = ''discover.subdomains'', at_metadata = m\<rparr>"

lemma inventory_changes_are_exact_witness:
  "removed_change (host_state ''old.example'' ''1'') \<in> set (compare_states (\<lambda>_. None) rev
     [host_state ''old.example'' ''1'', host_state ''same.example'' ''1''] [host_state ''same.example'' ''2'']
     [\<lparr>cg_capability = ''discover.subdomains'', cg_successful = True, cg_complete = True\<rparr>])"
proof -
  let ?prev = "[host_state ''old.example'' ''1'', host_state ''same.example'' ''1'']"
  let ?cur = "[host_state ''same.example'' ''2'']"
  let ?cs = "[\<lparr>cg_capability = ''discover.subdomains'', cg_successful = True, cg_complete = True\<rparr>]"
  have "last_state ?prev (state_key (host_state ''old.example'' ''1'')) = Some (host_state ''old.example'' ''1'')"
    "last_state ?cur (state_key (host_state ''old.example'' ''1'')) = None"
    by (simp_all add: last_state_def state_key_def host_state_def)
  moreover have "is_covered ?cs (at_source (host_state ''old.example'' ''1''))"
    by (simp add: is_covered_def host_state_def)
  ultimately have member: "removed_change (host_state ''old.example'' ''1'') \<in> {removed_change old | k old.
      last_state ?prev k = Some old \<and> last_state ?cur k = None \<and> is_covered ?cs (at_source old)}"
    by blast
  show ?thesis
    unfolding inventory_changes_are_exact [OF set_rev, THEN conjunct1] by (rule UnI2, rule member)
qed

end
