(* ===== verification/Redaction.thy ===== *)
theory Redaction
  imports GoURL ProviderCheck
begin

text \<open>
  \<^verbatim>\<open>internal/redaction/redaction.go\<close>: secrets removed from headers, texts and the queries of URLs. The replacements of
  its four expressions are an argument (\<open>rd_patterns\<close>), as is the text of a URL whose query was changed; the queries
  themselves are read and written by the functions of \<^verbatim>\<open>GoURL\<close>.
\<close>

record redactor =
  rd_names :: "string list"
  rd_patterns :: "(string \<Rightarrow> string) list"

definition redacted :: string where
  "redacted = ''<redacted>''"

definition new_redactor :: "(string \<Rightarrow> string) list \<Rightarrow> string list \<Rightarrow> redactor" where
  "new_redactor patterns extra =
     \<lparr>rd_names = map (\<lambda>n. to_lower (trim_space n))
        ([''authorization'', ''cookie'', ''set-cookie'', ''api_key'', ''apikey'', ''access_token'', ''refresh_token'',
          ''password'', ''secret'', ''signature''] @ extra),
      rd_patterns = patterns\<rparr>"

definition secret_name :: "redactor \<Rightarrow> string \<Rightarrow> bool" where
  "secret_name r k \<longleftrightarrow> to_lower k \<in> set (rd_names r)"

definition redact_headers :: "redactor \<Rightarrow> (string \<rightharpoonup> string list) \<Rightarrow> (string \<rightharpoonup> string list)" where
  "redact_headers r h =
     (\<lambda>k. case h k of None \<Rightarrow> None | Some vs \<Rightarrow> Some (if secret_name r k then [redacted] else vs))"

text \<open>The query after \<^verbatim>\<open>q.Set\<close> at every secret name: one value each.\<close>

definition redact_query :: "redactor \<Rightarrow> (string \<times> string) list \<Rightarrow> (string \<times> string) list" where
  "redact_query r ps =
     List.filter (\<lambda>p. \<not> secret_name r (fst p)) ps
     @ map (\<lambda>k. (k, redacted)) (remdups (List.filter (secret_name r) (map fst ps)))"

definition redact_field :: "full_url_parser \<Rightarrow> (full_url \<Rightarrow> string) \<Rightarrow> redactor \<Rightarrow> string \<Rightarrow> string" where
  "redact_field parse url_string_of r f =
     (case parse (trim (\<lambda>c. c \<in> {CHR 0x22, CHR 0x27, CHR ''('', CHR '')'', CHR '',''}) f) of
        None \<Rightarrow> f
      | Some u \<Rightarrow>
          let ps = query_pairs (url_raw_query u)
          in if url_scheme u = [] \<or> \<not> list_ex (\<lambda>p. secret_name r (fst p)) ps then f
             else url_string_of (u\<lparr>url_raw_query := encode_query (redact_query r ps)\<rparr>))"

definition redact_urls :: "full_url_parser \<Rightarrow> (full_url \<Rightarrow> string) \<Rightarrow> redactor \<Rightarrow> string \<Rightarrow> string" where
  "redact_urls parse url_string_of r s =
     join_with [CHR 0x0A] (map (\<lambda>line. join_with '' '' (map (redact_field parse url_string_of r) (str_fields line)))
       (split_on (CHR 0x0A) s))"

definition redact_text :: "full_url_parser \<Rightarrow> (full_url \<Rightarrow> string) \<Rightarrow> redactor \<Rightarrow> string \<Rightarrow> string" where
  "redact_text parse url_string_of r s = redact_urls parse url_string_of r (fold (\<lambda>p t. p t) (rd_patterns r) s)"

subsection \<open>Queries are read back as they were written\<close>

definition hex_digits :: "char list" where
  "hex_digits = ''0123456789ABCDEF''"

lemma hex_digits_read: "map hex_val hex_digits = map Some [0..<16]"
  by (simp add: hex_digits_def hex_val_def upt_rec)

lemma hex_digits_safe: "list_all (\<lambda>c. c \<notin> {CHR ''&'', CHR ''='', CHR '';'', CHR ''+'', CHR ''%''}) hex_digits"
  by (simp add: hex_digits_def)

lemma hex_digits_written: "map (\<lambda>d. upper_char (hex_char d)) [0..<16] = hex_digits"
  by (simp add: hex_digits_def hex_char_def upper_char_def upt_rec char_of_def bit_iff_odd)

lemma hex_digit:
  assumes "d < 16"
  shows "hex_val (upper_char (hex_char d)) = Some d"
    and "upper_char (hex_char d) \<notin> {CHR ''&'', CHR ''='', CHR '';'', CHR ''+'', CHR ''%''}"
proof -
  have c: "upper_char (hex_char d) = hex_digits ! d"
    using arg_cong [OF hex_digits_written, of "\<lambda>xs. xs ! d"] assms by simp
  have "map hex_val hex_digits ! d = Some d" unfolding hex_digits_read using assms by simp
  moreover have "d < length hex_digits" using assms by (simp add: hex_digits_def)
  ultimately show "hex_val (upper_char (hex_char d)) = Some d" unfolding c by (simp only: nth_map)
  have "hex_digits ! d \<in> set hex_digits" using \<open>d < length hex_digits\<close> by (rule nth_mem)
  then show "upper_char (hex_char d) \<notin> {CHR ''&'', CHR ''='', CHR '';'', CHR ''+'', CHR ''%''}"
    unfolding c using hex_digits_safe by (simp add: list_all_iff)
qed

lemma nibbles: "(of_char c :: nat) div 16 < 16" "(of_char c :: nat) mod 16 < 16"
proof -
  have "(of_char c :: nat) < 16 * 16" by simp
  then show "(of_char c :: nat) div 16 < 16" by (rule less_mult_imp_div_less)
qed simp

lemma unescape_percent: "unescape True (percent c @ rest) = map_option (\<lambda>s. c # s) (unescape True rest)"
proof -
  let ?n = "of_char c :: nat"
  note hex = hex_digit [OF nibbles(1), of c] hex_digit [OF nibbles(2), of c]
  have "char_of (16 * (?n div 16) + ?n mod 16) = c" by simp
  then show ?thesis using hex by (simp add: percent_def Let_def split: option.split)
qed

definition plain_char :: "char \<Rightarrow> bool" where
  "plain_char c \<longleftrightarrow> is_alnum c \<or> c \<in> set ''-_.~''"

lemma plain_char_safe: "plain_char c \<Longrightarrow> c \<notin> set ''&=;+%''"
  by (auto simp: plain_char_def is_alnum_def)

lemma unescape_query_escape: "unescape True (query_escape s) = Some s"
proof (induction s)
  case (Cons c s)
  let ?e = "if plain_char c then [c] else if c = CHR '' '' then ''+'' else percent c"
  have e: "query_escape (c # s) = ?e @ query_escape s" by (simp add: query_escape_def plain_char_def)
  show ?case
  proof (cases "plain_char c")
    case True
    then have "c \<noteq> CHR ''%'' \<and> c \<noteq> CHR ''+''" using plain_char_safe by auto
    then show ?thesis using Cons True by (simp add: e)
  next
    case False
    then show ?thesis using Cons by (simp add: e unescape_percent)
  qed
qed (simp add: query_escape_def)

lemma query_escape_chars: "x \<in> set (query_escape s) \<Longrightarrow> x \<notin> {CHR ''&'', CHR ''='', CHR '';''}"
proof (induction s)
  case (Cons c s)
  let ?n = "of_char c :: nat"
  note hex = hex_digit [OF nibbles(1), of c] hex_digit [OF nibbles(2), of c]
  have "x \<in> set (if plain_char c then [c] else if c = CHR '' '' then ''+'' else percent c) \<or> x \<in> set (query_escape s)"
    using Cons.prems by (auto simp: query_escape_def plain_char_def split: if_splits)
  then show ?case
  proof
    assume "x \<in> set (if plain_char c then [c] else if c = CHR '' '' then ''+'' else percent c)"
    then show ?thesis using plain_char_safe [of c] hex by (auto simp: percent_def Let_def split: if_splits)
  qed (rule Cons.IH)
qed (simp add: query_escape_def)

lemma cut_at: "sep \<notin> set a \<Longrightarrow> cut (a @ sep # b) sep = (a, b, True)"
  by (induction a) auto

definition query_part :: "string \<times> string \<Rightarrow> string" where
  "query_part p = query_escape (fst p) @ ''='' @ query_escape (snd p)"

lemma parse_query_part: "parse_pair (query_part p) = Some p"
proof -
  have "CHR ''='' \<notin> set (query_escape (fst p))" using query_escape_chars by blast
  from cut_at [OF this, of "query_escape (snd p)"]
  have c: "cut (query_part p) (CHR ''='') = (query_escape (fst p), query_escape (snd p), True)"
    by (simp add: query_part_def)
  have "CHR '';'' \<notin> set (query_part p)" unfolding query_part_def using query_escape_chars by auto
  then show ?thesis unfolding parse_pair_def c by (simp add: unescape_query_escape query_part_def)
qed

definition grouped :: "(string \<times> string) list \<Rightarrow> (string \<times> string) list" where
  "grouped ps = concat (map (\<lambda>k. List.filter (\<lambda>p. fst p = k) ps) (unique_sorted (map fst ps)))"

lemma query_round_trip: "query_pairs (encode_query ps) = grouped ps"
proof (cases "grouped ps")
  case Nil
  then have "encode_query ps = []" by (simp only: encode_query_def grouped_def) simp
  then show ?thesis by (simp add: query_pairs_def parse_pair_def Nil List.map_filter_def)
next
  case (Cons p qs)
  have "encode_query ps = join_with ''&'' (map query_part (grouped ps))"
    by (simp add: encode_query_def grouped_def query_part_def [abs_def] case_prod_beta')
  moreover have amp: "CHR ''&'' \<notin> set (query_part q)" for q unfolding query_part_def using query_escape_chars by auto
  moreover have "split_on (CHR ''&'') (join_with [CHR ''&''] (map query_part (grouped ps))) = map query_part (grouped ps)"
  proof (rule split_on_join)
    show "map query_part (grouped ps) \<noteq> []" unfolding Cons by simp
    fix x assume "x \<in> set (map query_part (grouped ps))"
    then obtain q where "x = query_part q" unfolding set_map by blast
    then show "CHR ''&'' \<notin> set x" using amp by (simp only: not_False_eq_True)
  qed
  ultimately have "split_on (CHR ''&'') (encode_query ps) = map query_part (grouped ps)" by (simp only:)
  moreover have "List.map_filter parse_pair (map query_part ps) = ps" for ps
    by (induction ps) (simp_all add: List.map_filter_def parse_query_part)
  ultimately show ?thesis by (simp add: query_pairs_def)
qed

lemma mem_grouped [simp]: "p \<in> set (grouped ps) \<longleftrightarrow> p \<in> set ps"
  by (auto simp: grouped_def unique_sorted_def)

lemma redact_query_mem:
  "p \<in> set (redact_query r ps) \<longleftrightarrow>
     (p \<in> set ps \<and> \<not> secret_name r (fst p)) \<or> (secret_name r (fst p) \<and> fst p \<in> fst ` set ps \<and> snd p = redacted)"
  by (cases p) (auto simp: redact_query_def image_iff)

text \<open>
  C40: After redaction every header with a secret name has one redacted value and every other
  header is unchanged; the query of a redacted URL, read back, has no value at a secret name but
  the redacted one, keeps every other parameter, and adds none.
\<close>

theorem secrets_leave_headers_and_queries:
  "(\<forall>k vs. redact_headers r h k = Some vs \<longrightarrow>
      (if secret_name r k then vs = [redacted] else h k = Some vs)) \<and>
   dom (redact_headers r h) = dom h \<and>
   (\<forall>(k, v) \<in> set (query_pairs (encode_query (redact_query r (query_pairs q)))).
      if secret_name r k then v = redacted else (k, v) \<in> set (query_pairs q)) \<and>
   (\<forall>(k, v) \<in> set (query_pairs q). \<exists>w. (k, w) \<in> set (query_pairs (encode_query (redact_query r (query_pairs q)))) \<and>
      (\<not> secret_name r k \<longrightarrow> w = v))"
proof (intro conjI)
  show "\<forall>k vs. redact_headers r h k = Some vs \<longrightarrow> (if secret_name r k then vs = [redacted] else h k = Some vs)"
    by (auto simp: redact_headers_def split: option.splits)
  show "dom (redact_headers r h) = dom h" by (auto simp: redact_headers_def split: option.splits)
  show "\<forall>(k, v) \<in> set (query_pairs (encode_query (redact_query r (query_pairs q)))).
      if secret_name r k then v = redacted else (k, v) \<in> set (query_pairs q)"
    by (auto simp: query_round_trip redact_query_mem)
  show "\<forall>(k, v) \<in> set (query_pairs q). \<exists>w. (k, w) \<in> set (query_pairs (encode_query (redact_query r (query_pairs q)))) \<and>
      (\<not> secret_name r k \<longrightarrow> w = v)"
  proof (clarify)
    fix k v assume kv: "(k, v) \<in> set (query_pairs q)"
    show "\<exists>w. (k, w) \<in> set (query_pairs (encode_query (redact_query r (query_pairs q)))) \<and> (\<not> secret_name r k \<longrightarrow> w = v)"
      by (rule exI [of _ "if secret_name r k then redacted else v"])
        (use kv in \<open>force simp: query_round_trip redact_query_mem\<close>)
  qed
qed

text \<open>A pair that does not parse is not seen, so its URL keeps the secret it holds.\<close>

lemma unparsed_pairs_keep_their_secrets:
  assumes "parse u = Some x" and "url_raw_query x = ''signature=abc;v=2''"
    and "u = trim (\<lambda>c. c \<in> {CHR 0x22, CHR 0x27, CHR ''('', CHR '')'', CHR '',''}) f"
  shows "redact_field parse out r f = f"
proof -
  have "query_pairs ''signature=abc;v=2'' = []" by code_simp
  then show ?thesis using assms by (simp add: redact_field_def)
qed

lemma secrets_leave_headers_and_queries_witness:
  "redact_headers (new_redactor [] []) [''Cookie'' \<mapsto> [''sid'']] ''Cookie'' = Some [redacted] \<and>
   list_all (\<lambda>(k, v). k = ''Signature'' \<longrightarrow> v = redacted)
     (query_pairs (encode_query (redact_query (new_redactor [] []) (query_pairs ''a=1&Signature=abc''))))"
proof
  let ?r = "new_redactor [] []"
  have "to_lower ''Cookie'' = ''cookie''" and "to_lower ''Signature'' = ''signature''"
    by (simp_all add: to_lower_def lower_char_def char_of_def bit_iff_odd)
  moreover have "''cookie'' \<in> set (rd_names ?r)" and "''signature'' \<in> set (rd_names ?r)"
    unfolding new_redactor_def by code_simp+
  ultimately have names: "secret_name ?r ''Cookie''" "secret_name ?r ''Signature''" by (simp_all only: secret_name_def)
  have "redact_headers ?r [''Cookie'' \<mapsto> [''sid'']] ''Cookie'' \<noteq> None" by (simp add: redact_headers_def)
  then obtain vs where vs: "redact_headers ?r [''Cookie'' \<mapsto> [''sid'']] ''Cookie'' = Some vs" by blast
  have "vs = [redacted]"
    using secrets_leave_headers_and_queries [of ?r "[''Cookie'' \<mapsto> [''sid'']]" "[]", THEN conjunct1,
        THEN spec, THEN spec, THEN mp, OF vs] unfolding if_P [OF names(1)] by (rule asm_rl)
  with vs show "redact_headers ?r [''Cookie'' \<mapsto> [''sid'']] ''Cookie'' = Some [redacted]" by simp
  have all: "\<forall>(k, v) \<in> set (query_pairs (encode_query (redact_query ?r (query_pairs ''a=1&Signature=abc'')))).
      if secret_name ?r k then v = redacted else (k, v) \<in> set (query_pairs ''a=1&Signature=abc'')"
    using secrets_leave_headers_and_queries [of ?r Map.empty "''a=1&Signature=abc''", THEN conjunct2, THEN conjunct2,
        THEN conjunct1] .
  have "v = redacted" if "(''Signature'', v) \<in> set (query_pairs (encode_query (redact_query ?r
      (query_pairs ''a=1&Signature=abc''))))" for v
    using bspec [OF all that] unfolding prod.case if_P [OF names(2)] by (rule asm_rl)
  then show "list_all (\<lambda>(k, v). k = ''Signature'' \<longrightarrow> v = redacted)
     (query_pairs (encode_query (redact_query ?r (query_pairs ''a=1&Signature=abc''))))"
    unfolding list_all_iff by blast
qed

end
