(* ===== verification/Migrations.thy ===== *)
theory Migrations
  imports Prelude
begin

text \<open>
  \<^verbatim>\<open>internal/migrations/migrations.go\<close>: the migrations of the schema. A schema is an element of \<open>'d\<close>, on which the text of
  a migration is executed; the table \<^verbatim>\<open>schema_migrations\<close> lists the versions that were applied. Every transaction takes
  the advisory lock first, so the transactions of several processes do not overlap, and one that is not committed
  leaves nothing behind.
\<close>

record 'd migrated =
  mg_schema :: 'd
  mg_applied :: "(int \<times> string) list"

text \<open>
  \<open>me_fault\<close> answers the statements of a transaction: its begin, the lock, the query, the text, the insertion and the
  commit. \<open>me_read\<close> reads an embedded file and \<open>me_exec\<close> executes its text.
\<close>

record 'd migration_env =
  me_fault :: "string \<Rightarrow> nat \<Rightarrow> go_error option"
  me_read :: "string \<Rightarrow> string res"
  me_exec :: "string \<Rightarrow> 'd \<Rightarrow> 'd res"

definition migration_version :: "string \<Rightarrow> int res" where
  "migration_version name =
     (case cut name (CHR ''_'') of (prefix, rest, found) \<Rightarrow>
        if \<not> found then Inl (Err (''migration '' @ name @ '' has no numeric prefix''))
        else (case atoi prefix of
                None \<Rightarrow> Inl (Err (''migration '' @ name @ '': invalid version''))
              | Some n \<Rightarrow> Inr n))"

definition is_migration :: "string \<times> bool \<Rightarrow> bool" where
  "is_migration entry \<longleftrightarrow> \<not> snd entry \<and> has_suffix (fst entry) ''.sql''"

text \<open>The names of the migrations in the directory (with the mark of a subdirectory), in their order.\<close>

definition migration_names :: "(string \<times> bool) list \<Rightarrow> string list" where
  "migration_names entries = sort (map fst (List.filter is_migration entries))"

text \<open>One round of the loop: a transaction that applies the migration unless it was applied.\<close>

definition apply_migration ::
  "'d migration_env \<Rightarrow> string \<Rightarrow> int \<Rightarrow> 'd migrated \<Rightarrow> 'd migrated \<times> go_error option" where
  "apply_migration v name version m =
     (case me_read v name of
        Inl e \<Rightarrow> (m, Some e)
      | Inr body \<Rightarrow>
          (case (case me_fault v name 3 of Some e \<Rightarrow> Inl e | None \<Rightarrow> me_exec v body (mg_schema m)) of
             Inl e \<Rightarrow> (m, Some (Wrapped (''apply migration '' @ name @ '': '') e))
           | Inr d \<Rightarrow>
               (case join_errors [me_fault v name 4] of
                  Some e \<Rightarrow> (m, Some e)
                | None \<Rightarrow>
                    (case me_fault v name 5 of
                       Some e \<Rightarrow> (m, Some e)
                     | None \<Rightarrow> (\<lparr>mg_schema = d, mg_applied = mg_applied m @ [(version, name)]\<rparr>, None)))))"

definition migrate_one :: "'d migration_env \<Rightarrow> string \<Rightarrow> 'd migrated \<Rightarrow> 'd migrated \<times> go_error option" where
  "migrate_one v name m =
     (case migration_version name of
        Inl e \<Rightarrow> (m, Some e)
      | Inr version \<Rightarrow>
          (case me_fault v name 0 of
             Some e \<Rightarrow> (m, Some e)
           | None \<Rightarrow>
               (case me_fault v name 1 of
                  Some e \<Rightarrow> (m, Some (Wrapped ''acquire migration lock: '' e))
                | None \<Rightarrow>
                    (case me_fault v name 2 of
                       Some e \<Rightarrow> (m, Some e)
                     | None \<Rightarrow>
                         if version \<in> fst ` set (mg_applied m) then (m, None)
                         else apply_migration v name version m))))"

fun migrate_all :: "'d migration_env \<Rightarrow> string list \<Rightarrow> 'd migrated \<Rightarrow> 'd migrated \<times> go_error option" where
  "migrate_all v [] m = (m, None)"
| "migrate_all v (name # names) m =
     (case migrate_one v name m of
        (m', Some e) \<Rightarrow> (m', Some e)
      | (m', None) \<Rightarrow> migrate_all v names m')"

text \<open>\<^verbatim>\<open>Up\<close>: \<open>create\<close> is the error of creating the table, \<open>entries\<close> the listing of the embedded directory.\<close>

definition migrate_up ::
  "'d migration_env \<Rightarrow> go_error option \<Rightarrow> (string \<times> bool) list res \<Rightarrow> 'd migrated \<Rightarrow> 'd migrated \<times> go_error option" where
  "migrate_up v create entries m =
     (case create of
        Some e \<Rightarrow> (m, Some (Wrapped ''create migration table: '' e))
      | None \<Rightarrow>
          (case entries of
             Inl e \<Rightarrow> (m, Some e)
           | Inr es \<Rightarrow> migrate_all v (migration_names es) m))"

subsection \<open>Several processes\<close>

text \<open>
  The platform and its workers migrate on their own, over the same files: \<open>at_name i\<close> is the migration the process
  \<open>i\<close> comes to next. Its environment may differ from step to step, but for the files and what their texts do. A process
  that fails starts again.
\<close>

record 'd fleet =
  fl_store :: "'d migrated"
  fl_next :: "nat \<Rightarrow> nat"

inductive migration_step ::
  "(string \<Rightarrow> string res) \<Rightarrow> (string \<Rightarrow> 'd \<Rightarrow> 'd res) \<Rightarrow> string list \<Rightarrow> 'd fleet \<Rightarrow> 'd fleet \<Rightarrow> bool"
  for read exec names where
  advance: "fl_next s i < length names \<Longrightarrow> me_read v = read \<Longrightarrow> me_exec v = exec \<Longrightarrow>
     migrate_one v (names ! fl_next s i) (fl_store s) = (m, None) \<Longrightarrow>
     migration_step read exec names s \<lparr>fl_store = m, fl_next = (fl_next s)(i := Suc (fl_next s i))\<rparr>"
| restart: "fl_next s i < length names \<Longrightarrow> me_read v = read \<Longrightarrow> me_exec v = exec \<Longrightarrow>
     migrate_one v (names ! fl_next s i) (fl_store s) = (m, Some e) \<Longrightarrow>
     migration_step read exec names s \<lparr>fl_store = m, fl_next = (fl_next s)(i := 0)\<rparr>"

inductive_cases migration_stepE: "migration_step read exec names s s'"

text \<open>The schema after the given migrations, each executed once, in this order.\<close>

fun executed :: "(string \<Rightarrow> string res) \<Rightarrow> (string \<Rightarrow> 'd \<Rightarrow> 'd res) \<Rightarrow> string list \<Rightarrow> 'd \<Rightarrow> 'd res" where
  "executed read exec [] d = Inr d"
| "executed read exec (name # names) d =
     bind_res (read name) (\<lambda>body. bind_res (exec body d) (executed read exec names))"

lemma executed_append:
  "executed read exec (xs @ ys) d = bind_res (executed read exec xs d) (executed read exec ys)"
  by (induction xs arbitrary: d) (auto simp: bind_res_def split: sum.splits)

definition in_step :: "(string \<Rightarrow> string res) \<Rightarrow> (string \<Rightarrow> 'd \<Rightarrow> 'd res) \<Rightarrow> string list \<Rightarrow> 'd \<Rightarrow> 'd fleet \<Rightarrow> bool" where
  "in_step read exec names d s \<longleftrightarrow>
     (\<exists>n \<le> length names.
        map snd (mg_applied (fl_store s)) = take n names \<and>
        list_all (\<lambda>(version, name). migration_version name = Inr version) (mg_applied (fl_store s)) \<and>
        executed read exec (take n names) d = Inr (mg_schema (fl_store s)) \<and> (\<forall>i. fl_next s i \<le> n))"

lemma migrate_one_None:
  assumes "migrate_one v name m = (m', None)"
  shows "\<exists>version. migration_version name = Inr version \<and>
    (version \<in> fst ` set (mg_applied m) \<and> m' = m \<or>
     version \<notin> fst ` set (mg_applied m) \<and>
     (\<exists>body d. me_read v name = Inr body \<and> me_exec v body (mg_schema m) = Inr d \<and>
        m' = \<lparr>mg_schema = d, mg_applied = mg_applied m @ [(version, name)]\<rparr>))"
  using assms
  by (auto simp: migrate_one_def apply_migration_def split: sum.splits option.splits if_splits)

lemma migrate_one_Some: "migrate_one v name m = (m', Some e) \<Longrightarrow> m' = m"
  by (auto simp: migrate_one_def apply_migration_def split: sum.splits option.splits if_splits)

lemma in_step_preserved:
  assumes step: "migration_step read exec names s s'" and inv: "in_step read exec names d s"
    and distinct: "distinct (map migration_version names)"
  shows "in_step read exec names d s'"
proof -
  obtain n where n: "n \<le> length names" "map snd (mg_applied (fl_store s)) = take n names"
      "list_all (\<lambda>(version, name). migration_version name = Inr version) (mg_applied (fl_store s))"
      "executed read exec (take n names) d = Inr (mg_schema (fl_store s))" "\<And>i. fl_next s i \<le> n"
    using inv by (auto simp: in_step_def)
  consider (advance) i v m where "s' = \<lparr>fl_store = m, fl_next = (fl_next s)(i := Suc (fl_next s i))\<rparr>"
      "fl_next s i < length names" "me_read v = read" "me_exec v = exec"
      "migrate_one v (names ! fl_next s i) (fl_store s) = (m, None)"
    | (restart) i v m e where "s' = \<lparr>fl_store = m, fl_next = (fl_next s)(i := 0)\<rparr>"
      "migrate_one v (names ! fl_next s i) (fl_store s) = (m, Some e)"
    using step by (elim migration_stepE) blast+
  then show ?thesis
  proof cases
    case (restart i v m e)
    then have "m = fl_store s" using migrate_one_Some by blast
    then show ?thesis using n restart(1) by (auto simp: in_step_def)
  next
    case (advance i v m)
    let ?name = "names ! fl_next s i"
    obtain version where version: "migration_version ?name = Inr version"
      and cases: "version \<in> fst ` set (mg_applied (fl_store s)) \<and> m = fl_store s \<or>
        version \<notin> fst ` set (mg_applied (fl_store s)) \<and>
        (\<exists>body d. me_read v ?name = Inr body \<and> me_exec v body (mg_schema (fl_store s)) = Inr d \<and>
          m = \<lparr>mg_schema = d, mg_applied = mg_applied (fl_store s) @ [(version, ?name)]\<rparr>)"
      using migrate_one_None [OF advance(5)] by blast
    show ?thesis
    proof (cases "fl_next s i < n")
      case True
      have "?name \<in> set (map snd (mg_applied (fl_store s)))"
        unfolding n(2) using True n(1) by (auto simp: in_set_conv_nth)
      then obtain w where w: "(w, ?name) \<in> set (mg_applied (fl_store s))" by auto
      then have "w = version" using n(3) version by (auto simp: list_all_iff)
      then have "version \<in> fst ` set (mg_applied (fl_store s))" using w by force
      then have "m = fl_store s" using cases by blast
      then show ?thesis using n True advance(1) by (auto simp: in_step_def intro!: exI [of _ n])
    next
      case False
      then have at_n: "fl_next s i = n" using n(5) [of i] by simp
      have fresh: "version \<notin> fst ` set (mg_applied (fl_store s))"
      proof
        assume "version \<in> fst ` set (mg_applied (fl_store s))"
        then obtain other where o': "(version, other) \<in> set (mg_applied (fl_store s))" by auto
        then have "other \<in> set (take n names)" unfolding n(2) [symmetric] by force
        then obtain j where j: "j < n" "names ! j = other" using n(1) by (auto simp: in_set_conv_nth)
        moreover have "migration_version other = Inr version" using o' n(3) by (auto simp: list_all_iff)
        ultimately have "map migration_version names ! j = map migration_version names ! n"
          using version at_n advance(2) by simp
        moreover have "j < length (map migration_version names)" and "n < length (map migration_version names)"
          using j(1) at_n advance(2) by simp_all
        ultimately show False using nth_eq_iff_index_eq [OF distinct] j(1) by blast
      qed
      then obtain body d1 where run: "read ?name = Inr body" "exec body (mg_schema (fl_store s)) = Inr d1"
        and m: "m = \<lparr>mg_schema = d1, mg_applied = mg_applied (fl_store s) @ [(version, ?name)]\<rparr>"
        using cases advance(3,4) by auto
      have take: "take (Suc n) names = take n names @ [?name]"
        using advance(2) at_n by (simp add: take_Suc_conv_app_nth)
      have "executed read exec (take (Suc n) names) d = Inr d1"
        unfolding take executed_append n(4) using run by (simp add: bind_res_Inr bind_res_def)
      moreover have "((fl_next s)(i := Suc (fl_next s i))) k \<le> Suc n" for k using n(5) [of k] at_n by simp
      moreover have "Suc n \<le> length names" using advance(2) at_n by simp
      moreover have "map snd (mg_applied m) = take (Suc n) names" unfolding take m using n(2) by simp
      moreover have "list_all (\<lambda>(version, name). migration_version name = Inr version) (mg_applied m)"
        unfolding m using n(3) version by simp
      ultimately show ?thesis
        unfolding in_step_def advance(1) by (intro exI [of _ "Suc n"]) (simp add: m)
    qed
  qed
qed

text \<open>
  C37: However many processes migrate the same database at the same time, failing and starting
  again, the applied migrations are always a prefix of the ordered files, each executed exactly
  once and in that order, and a process that came to the end knows that all of them are applied.
\<close>

theorem migrations_are_applied_once_and_in_order:
  assumes "(migration_step read exec names)\<^sup>*\<^sup>* \<lparr>fl_store = \<lparr>mg_schema = d, mg_applied = []\<rparr>, fl_next = (\<lambda>i. 0)\<rparr> s"
    and "distinct (map migration_version names)"
  shows "\<exists>n \<le> length names. map snd (mg_applied (fl_store s)) = take n names \<and>
    executed read exec (take n names) d = Inr (mg_schema (fl_store s)) \<and>
    (\<forall>i. fl_next s i = length names \<longrightarrow> n = length names)"
proof -
  have "in_step read exec names d s"
    using assms(1)
  proof (induction rule: rtranclp_induct)
    case base
    then show ?case by (auto simp: in_step_def)
  next
    case (step y z)
    show ?case by (rule in_step_preserved [OF step.hyps(2) step.IH assms(2)])
  qed
  then obtain n where "n \<le> length names" "map snd (mg_applied (fl_store s)) = take n names"
      "executed read exec (take n names) d = Inr (mg_schema (fl_store s))" "\<And>i. fl_next s i \<le> n"
    unfolding in_step_def by blast
  moreover from this have "n = length names" if "fl_next s i = length names" for i using that by (metis le_antisym)
  ultimately show ?thesis by blast
qed

text \<open>A start on a store that is up to date changes nothing, and neither does one that fails on its first file.\<close>

lemma migrate_all_done:
  assumes "\<forall>name \<in> set names. \<exists>version. migration_version name = Inr version \<and> version \<in> fst ` set (mg_applied m)"
    and "\<And>name k. me_fault v name k = None"
  shows "migrate_all v names m = (m, None)"
  using assms(1)
proof (induction names)
  case (Cons name names)
  then obtain version where "migration_version name = Inr version" "version \<in> fst ` set (mg_applied m)" by auto
  then have "migrate_one v name m = (m, None)" unfolding migrate_one_def assms(2) by simp
  then show ?case using Cons by simp
qed simp

text \<open>The files in the repository: their versions differ.\<close>

lemma repository_versions:
  "distinct (map migration_version [''0001_platform_core.sql'', ''0002_findings_approvals_audit.sql'',
     ''0003_audit_immutability.sql'', ''0004_scope_target_plans.sql'', ''0005_policy_enforcement.sql''])"
  by code_simp

text \<open>Two processes start at the same time; the second one finds the first migration applied.\<close>

definition sample_migrations :: "nat list migration_env" where
  "sample_migrations =
     \<lparr>me_fault = (\<lambda>name k. None), me_read = Inr, me_exec = (\<lambda>body d. Inr (d @ [length body]))\<rparr>"

lemma two_processes:
  "(migration_step Inr (\<lambda>body d. Inr (d @ [length body])) [''0001_a.sql'', ''0002_bc.sql''])\<^sup>*\<^sup>*
     \<lparr>fl_store = \<lparr>mg_schema = [], mg_applied = []\<rparr>, fl_next = (\<lambda>i. 0)\<rparr>
     \<lparr>fl_store = \<lparr>mg_schema = [10], mg_applied = [(1, ''0001_a.sql'')]\<rparr>, fl_next = (\<lambda>i. 0)(0 := 1, 1 := 1)\<rparr>"
proof -
  let ?names = "[''0001_a.sql'', ''0002_bc.sql'']" and ?exec = "\<lambda>body d. Inr (d @ [length body])"
  let ?m = "\<lparr>mg_schema = [10], mg_applied = [(1, ''0001_a.sql'')]\<rparr>"
  have v: "me_read sample_migrations = Inr" "me_exec sample_migrations = ?exec" by (simp_all add: sample_migrations_def)
  have one: "migrate_one sample_migrations ''0001_a.sql'' \<lparr>mg_schema = [], mg_applied = []\<rparr> = (?m, None)" by code_simp
  have two: "migrate_one sample_migrations ''0001_a.sql'' ?m = (?m, None)" by code_simp
  have "migration_step Inr ?exec ?names \<lparr>fl_store = \<lparr>mg_schema = [], mg_applied = []\<rparr>, fl_next = (\<lambda>i. 0)\<rparr>
      \<lparr>fl_store = ?m, fl_next = (\<lambda>i. 0)(0 := 1)\<rparr>"
    using migration_step.advance [of "\<lparr>fl_store = \<lparr>mg_schema = [], mg_applied = []\<rparr>, fl_next = (\<lambda>i. 0)\<rparr>" 0 ?names
        sample_migrations Inr ?exec ?m] one v by simp
  moreover have "migration_step Inr ?exec ?names \<lparr>fl_store = ?m, fl_next = (\<lambda>i. 0)(0 := 1)\<rparr>
      \<lparr>fl_store = ?m, fl_next = (\<lambda>i. 0)(0 := 1, 1 := 1)\<rparr>"
    using migration_step.advance [of "\<lparr>fl_store = ?m, fl_next = (\<lambda>i. 0)(0 := 1)\<rparr>" 1 ?names
        sample_migrations Inr ?exec ?m] two v by simp
  ultimately show ?thesis by simp
qed

lemma migrations_are_applied_once_and_in_order_witness:
  "\<exists>n \<le> 2. map snd [(1 :: int, ''0001_a.sql'')] = take n [''0001_a.sql'', ''0002_bc.sql''] \<and>
     executed Inr (\<lambda>body d. Inr (d @ [length body])) (take n [''0001_a.sql'', ''0002_bc.sql'']) [] = Inr [10]"
proof -
  have versions: "distinct (map migration_version [''0001_a.sql'', ''0002_bc.sql''])" by code_simp
  from migrations_are_applied_once_and_in_order [OF two_processes versions] show ?thesis by auto
qed

end
