(* ===== verification/ControlPlane.thy ===== *)
theory ControlPlane
  imports DatabaseRuns
begin

text \<open>
  \<^verbatim>\<open>internal/database/controlplane.go\<close>: the read model of the operator console. A query is a comprehension over
  the tables of the store; every row carries the value it is ordered by, and \<open>ranked\<close> is the ORDER BY with its
  LIMIT (the order of equal values, which SQL leaves open, is that of the tables). The columns and the table that
  \<^verbatim>\<open>store.go\<close> never reads or writes are arguments. The n-th query of a call is access \<open>n\<close> of the environment; the
  query for the workflow definition keeps its number when it is not made.
\<close>

subsection \<open>Data\<close>

record verified_finding =
  vd_id :: string
  vd_candidate_id :: "string option"
  vd_program_id :: "string option"
  vd_asset_id :: "string option"
  vd_title :: string
  vd_severity :: string
  vd_status :: string
  vd_impact :: string
  vd_first_verified_at :: int
  vd_last_verified_at :: int

record console_columns =
  cc_occurred_at :: "audit_event \<Rightarrow> int"
  cc_created_at :: "candidate \<Rightarrow> int"
  cc_verified :: "verified_finding list"

record console_scope =
  cq_reference :: string
  cq_digest :: string
  cq_plan_digest :: string
  cq_include_count :: nat
  cq_exclude_count :: nat
  cq_warnings :: string
  cq_expands :: bool
  cq_acknowledged_by :: string
  cq_acknowledged_at :: "int option"
  cq_created_at :: int

record console_stats =
  ct_assets :: nat
  ct_active_runs :: nat
  ct_pending_approvals :: nat
  ct_candidates :: nat
  ct_verified :: nat
  ct_failed_steps :: nat

record console_run =
  cr_id :: string
  cr_task_id :: string
  cr_objective :: string
  cr_workflow_name :: string
  cr_workflow_version :: string
  cr_status :: run_status
  cr_started_at :: "int option"
  cr_completed_at :: "int option"
  cr_trigger_source :: string
  cr_summary :: string

record console_step =
  ck_id :: string
  ck_run_id :: string
  ck_definition_id :: string
  ck_capability :: string
  ck_status :: step_status
  ck_attempts :: int
  ck_error_classification :: string
  ck_error_details :: string
  ck_started_at :: "int option"
  ck_completed_at :: "int option"
  ck_approval_state :: string

record console_tool =
  cu_id :: string
  cu_run_id :: string
  cu_definition_id :: string
  cu_provider :: string
  cu_version :: string
  cu_arguments :: string
  cu_started_at :: int
  cu_completed_at :: "int option"
  cu_exit_code :: "int option"
  cu_timed_out :: bool
  cu_artifact_count :: nat

record console_asset =
  ca_id :: string
  ca_type :: string
  ca_value :: string
  ca_created_at :: int
  ca_updated_at :: int
  ca_last_observed_at :: "int option"
  ca_source_capability :: string
  ca_metadata :: string
  ca_observation_count :: nat

record console_candidate =
  cy_id :: string
  cy_run_id :: string
  cy_target :: string
  cy_source_capability :: string
  cy_template_id :: string
  cy_claim :: string
  cy_severity :: string
  cy_confidence :: rat
  cy_status :: string
  cy_created_at :: int
  cy_updated_at :: int

record console_verified =
  cv_id :: string
  cv_candidate_id :: "string option"
  cv_target :: string
  cv_title :: string
  cv_severity :: string
  cv_status :: string
  cv_impact :: string
  cv_first_verified_at :: int
  cv_last_verified_at :: int

record console_approval =
  cl_id :: string
  cl_request_id :: string
  cl_task_id :: string
  cl_objective :: string
  cl_risk :: string
  cl_reason :: string
  cl_requested_at :: int
  cl_decision :: string
  cl_decided_by :: "string option"
  cl_decided_at :: "int option"
  cl_expires_at :: "int option"

record console_event =
  cn_id :: string
  cn_occurred_at :: int
  cn_type :: string
  cn_component :: string
  cn_actor :: string
  cn_run_id :: "string option"
  cn_capability :: "string option"
  cn_provider :: "string option"
  cn_message :: string
  cn_details :: details

record console_snapshot =
  co_generated_at :: int
  co_program :: string
  co_programs :: "program list"
  co_scope :: "console_scope option"
  co_stats :: console_stats
  co_runs :: "console_run list"
  co_steps :: "console_step list"
  co_tools :: "console_tool list"
  co_assets :: "console_asset list"
  co_candidates :: "console_candidate list"
  co_verified :: "console_verified list"
  co_approvals :: "console_approval list"
  co_audit :: "console_event list"
  co_latest_changes :: string
  co_definition :: "string option"

subsection \<open>Queries\<close>

definition ranked :: "nat \<Rightarrow> ('k::linorder \<times> 'i) list \<Rightarrow> 'i list" where
  "ranked n rows = map snd (take n (sort_key fst rows))"

definition at_access :: "nat \<Rightarrow> store_env \<Rightarrow> store_env" where
  "at_access n v = v\<lparr>se_fault := (\<lambda>k. se_fault v (n + k))\<rparr>"

definition coalesce :: "'a \<Rightarrow> 'a option \<Rightarrow> 'a" where
  "coalesce d x = (case x of None \<Rightarrow> d | Some y \<Rightarrow> y)"

text \<open>The join with the tasks of a program.\<close>

definition program_tasks :: "string \<Rightarrow> string \<Rightarrow> database \<Rightarrow> task list" where
  "program_tasks program i db = List.filter (\<lambda>t. tk_id t = i \<and> tk_program_id t = program) (db_tasks db)"

definition program_runs :: "string \<Rightarrow> string \<Rightarrow> database \<Rightarrow> workflow_run list" where
  "program_runs program i db =
     [w. w \<leftarrow> db_runs db, wr_id w = i, t \<leftarrow> program_tasks program (wr_task_id w) db]"

definition load_scope :: "string \<Rightarrow> database \<Rightarrow> console_scope option" where
  "load_scope program db =
     (case ranked 1 [(- sv_created_at r,
          \<lparr>cq_reference = sn_scope_reference (sv_snapshot r), cq_digest = sn_scope_digest (sv_snapshot r),
           cq_plan_digest = sn_target_plan_digest (sv_snapshot r),
           cq_include_count = length (sn_include_rule_digests (sv_snapshot r)),
           cq_exclude_count = length (sn_exclude_rule_digests (sv_snapshot r)),
           cq_warnings = sn_planning_warnings (sv_snapshot r), cq_expands = sn_expands_scope (sv_snapshot r),
           cq_acknowledged_by = coalesce [] (sv_acknowledged_by r), cq_acknowledged_at = sv_acknowledged_at r,
           cq_created_at = sv_created_at r\<rparr>).
          r \<leftarrow> db_scope_versions db, sn_program_id (sv_snapshot r) = program] of
        [] \<Rightarrow> None | s # _ \<Rightarrow> Some s)"

definition load_stats :: "string \<Rightarrow> console_columns \<Rightarrow> database \<Rightarrow> console_stats" where
  "load_stats program c db =
     \<lparr>ct_assets = length [a. a \<leftarrow> db_assets db, as_program_id a = program],
      ct_active_runs = length [w. w \<leftarrow> db_runs db, wr_status w \<in> {RunPending, RunRunning, RunPaused},
        t \<leftarrow> program_tasks program (wr_task_id w) db],
      ct_pending_approvals = length [a. a \<leftarrow> db_approvals db, ap_decision a = ''pending'',
        t \<leftarrow> program_tasks program (ap_task_id a) db],
      ct_candidates = length [cd_id cf. cf \<leftarrow> db_candidates db, cd_status cf \<notin> {''rejected'', ''informational''},
        t \<leftarrow> program_tasks program (cd_task_id cf) db],
      ct_verified = length [f. f \<leftarrow> cc_verified c, vd_program_id f = Some program, vd_status f = ''open''],
      ct_failed_steps = length [sr_id s. s \<leftarrow> db_steps db, sr_status s \<in> {StepFailed, StepRetryable},
        w \<leftarrow> program_runs program (sr_workflow_run_id s) db]\<rparr>"

definition load_runs :: "string \<Rightarrow> database \<Rightarrow> console_run list" where
  "load_runs program db =
     ranked 40 [(- coalesce (tk_created_at t) (wr_started_at w),
         \<lparr>cr_id = wr_id w, cr_task_id = wr_task_id w, cr_objective = tk_objective t, cr_workflow_name = wd_row_name d,
          cr_workflow_version = wr_workflow_version w, cr_status = wr_status w, cr_started_at = wr_started_at w,
          cr_completed_at = wr_completed_at w, cr_trigger_source = wr_trigger_source w, cr_summary = wr_summary w\<rparr>).
       w \<leftarrow> db_runs db, t \<leftarrow> program_tasks program (wr_task_id w) db,
       d \<leftarrow> db_workflows db, wd_row_id d = wr_workflow_definition_id w]"

definition load_definition :: "console_run list \<Rightarrow> database \<Rightarrow> string option" where
  "load_definition runs db =
     (case runs of
        [] \<Rightarrow> None
      | r # _ \<Rightarrow>
          (case [wd_row_definition d. w \<leftarrow> db_runs db, wr_id w = cr_id r, d \<leftarrow> db_workflows db,
                   wd_row_id d = wr_workflow_definition_id w] of
             [] \<Rightarrow> None | d # _ \<Rightarrow> Some d))"

text \<open>\<^verbatim>\<open>DESC NULLS LAST\<close>.\<close>

definition nulls_last :: "int option \<Rightarrow> int \<times> int" where
  "nulls_last x = (case x of None \<Rightarrow> (1, 0) | Some t \<Rightarrow> (0, - t))"

definition load_steps :: "string \<Rightarrow> database \<Rightarrow> console_step list" where
  "load_steps program db =
     ranked 240 [(nulls_last (case sr_started_at s of None \<Rightarrow> wr_started_at w | Some t \<Rightarrow> Some t),
         \<lparr>ck_id = sr_id s, ck_run_id = sr_workflow_run_id s, ck_definition_id = sr_step_definition_id s,
          ck_capability = sr_capability s, ck_status = sr_status s, ck_attempts = sr_attempt_count s,
          ck_error_classification = sr_error_classification s, ck_error_details = sr_error_details s,
          ck_started_at = sr_started_at s, ck_completed_at = sr_completed_at s, ck_approval_state = sr_approval_state s\<rparr>).
       s \<leftarrow> db_steps db, w \<leftarrow> program_runs program (sr_workflow_run_id s) db]"

definition shown_artifacts :: "int \<Rightarrow> string \<Rightarrow> database \<Rightarrow> nat" where
  "shown_artifacts now tool db =
     length [art_id a. a \<leftarrow> db_artifacts db, art_tool_run_id a = tool \<and> \<not> art_sensitive a \<and>
       (case art_expires_at a of None \<Rightarrow> True | Some e \<Rightarrow> e > now)]"

definition load_tools :: "int \<Rightarrow> string \<Rightarrow> database \<Rightarrow> console_tool list" where
  "load_tools now program db =
     ranked 120 [(- tr_started_at x,
         \<lparr>cu_id = tr_id x, cu_run_id = sr_workflow_run_id s, cu_definition_id = sr_step_definition_id s,
          cu_provider = tr_provider x, cu_version = tr_tool_version x, cu_arguments = tr_sanitized_arguments x,
          cu_started_at = tr_started_at x, cu_completed_at = tr_completed_at x, cu_exit_code = tr_exit_code x,
          cu_timed_out = tr_timed_out x, cu_artifact_count = shown_artifacts now (tr_id x) db\<rparr>).
       x \<leftarrow> db_tools db, s \<leftarrow> db_steps db, sr_id s = tr_step_run_id x,
       w \<leftarrow> program_runs program (sr_workflow_run_id s) db]"

definition latest_observation :: "string \<Rightarrow> database \<Rightarrow> (int \<times> string \<times> string) option" where
  "latest_observation i db =
     (case ranked 1 [(- ob_observed_at b, (ob_observed_at b, ob_source_capability b, ob_metadata b)).
          b \<leftarrow> db_observations db, ob_asset_id b = i] of
        [] \<Rightarrow> None | b # _ \<Rightarrow> Some b)"

definition load_assets :: "string \<Rightarrow> database \<Rightarrow> console_asset list" where
  "load_assets program db =
     ranked 300 [(- coalesce (as_updated_at a) (map_option fst (latest_observation (as_id a) db)),
         \<lparr>ca_id = as_id a, ca_type = as_type a, ca_value = as_canonical_value a, ca_created_at = as_created_at a,
          ca_updated_at = as_updated_at a, ca_last_observed_at = map_option fst (latest_observation (as_id a) db),
          ca_source_capability = coalesce [] (map_option (fst \<circ> snd) (latest_observation (as_id a) db)),
          ca_metadata = coalesce ''{}'' (map_option (snd \<circ> snd) (latest_observation (as_id a) db)),
          ca_observation_count = length [b. b \<leftarrow> db_observations db, ob_asset_id b = as_id a]\<rparr>).
       a \<leftarrow> db_assets db, as_program_id a = program]"

definition load_candidates :: "string \<Rightarrow> console_columns \<Rightarrow> database \<Rightarrow> console_candidate list" where
  "load_candidates program c db =
     ranked 150 [(- cd_updated_at cf,
         \<lparr>cy_id = cd_id cf, cy_run_id = cd_workflow_run_id cf, cy_target = as_canonical_value a,
          cy_source_capability = cd_source_capability cf, cy_template_id = cd_template_id cf, cy_claim = cd_claim cf,
          cy_severity = cd_severity cf, cy_confidence = cd_confidence cf, cy_status = cd_status cf,
          cy_created_at = cc_created_at c cf, cy_updated_at = cd_updated_at cf\<rparr>).
       cf \<leftarrow> db_candidates db, t \<leftarrow> program_tasks program (cd_task_id cf) db,
       a \<leftarrow> db_assets db, as_id a = cd_target_asset_id cf]"

definition asset_value :: "string option \<Rightarrow> database \<Rightarrow> string" where
  "asset_value i db =
     coalesce [] (map_option as_canonical_value (find (\<lambda>a. Some (as_id a) = i) (db_assets db)))"

definition load_verified :: "string \<Rightarrow> console_columns \<Rightarrow> database \<Rightarrow> console_verified list" where
  "load_verified program c db =
     ranked 150 [(- vd_last_verified_at f,
         \<lparr>cv_id = vd_id f, cv_candidate_id = vd_candidate_id f, cv_target = asset_value (vd_asset_id f) db,
          cv_title = vd_title f, cv_severity = vd_severity f, cv_status = vd_status f, cv_impact = vd_impact f,
          cv_first_verified_at = vd_first_verified_at f, cv_last_verified_at = vd_last_verified_at f\<rparr>).
       f \<leftarrow> cc_verified c, vd_program_id f = Some program]"

definition load_approvals :: "string \<Rightarrow> database \<Rightarrow> console_approval list" where
  "load_approvals program db =
     ranked 100 [((if ap_decision a = ''pending'' then 0 else 1 :: int, - ap_requested_at a),
         \<lparr>cl_id = ap_id a, cl_request_id = ap_request_id a, cl_task_id = ap_task_id a, cl_objective = tk_objective t,
          cl_risk = ap_risk a, cl_reason = ap_reason a, cl_requested_at = ap_requested_at a, cl_decision = ap_decision a,
          cl_decided_by = ap_decided_by a, cl_decided_at = ap_decided_at a, cl_expires_at = ap_expires_at a\<rparr>).
       a \<leftarrow> db_approvals db, t \<leftarrow> program_tasks program (ap_task_id a) db]"

definition concerns_program :: "string \<Rightarrow> database \<Rightarrow> audit_event \<Rightarrow> bool" where
  "concerns_program program db e \<longleftrightarrow>
     au_program_id e = Some program \<or>
     list_ex (\<lambda>t. au_task_id e = Some (tk_id t) \<and> tk_program_id t = program) (db_tasks db)"

definition load_audit :: "string \<Rightarrow> console_columns \<Rightarrow> database \<Rightarrow> console_event list" where
  "load_audit program c db =
     ranked 160 [(- cc_occurred_at c e,
         \<lparr>cn_id = au_id e, cn_occurred_at = cc_occurred_at c e, cn_type = au_type e, cn_component = au_component e,
          cn_actor = au_actor e, cn_run_id = au_workflow_run_id e, cn_capability = au_capability e,
          cn_provider = au_provider e, cn_message = au_message e, cn_details = au_details e\<rparr>).
       e \<leftarrow> db_audit db, concerns_program program db e]"

subsection \<open>The snapshot\<close>

definition empty_snapshot :: "store_env \<Rightarrow> program list \<Rightarrow> console_snapshot" where
  "empty_snapshot v programs =
     \<lparr>co_generated_at = se_now v, co_program = [], co_programs = programs, co_scope = None,
      co_stats = \<lparr>ct_assets = 0, ct_active_runs = 0, ct_pending_approvals = 0, ct_candidates = 0, ct_verified = 0,
        ct_failed_steps = 0\<rparr>,
      co_runs = [], co_steps = [], co_tools = [], co_assets = [], co_candidates = [], co_verified = [],
      co_approvals = [], co_audit = [], co_latest_changes = ''{}'', co_definition = None\<rparr>"

definition read_at :: "nat \<Rightarrow> store_env \<Rightarrow> 'a \<Rightarrow> 'a res" where
  "read_at n v x = query (at_access n v) (Inr x)"

definition read_optional :: "nat \<Rightarrow> store_env \<Rightarrow> 'a option \<Rightarrow> 'a option res" where
  "read_optional n v x =
     (case read_at n v x of Inl e \<Rightarrow> if errors_is e no_rows then Inr None else Inl e | Inr y \<Rightarrow> Inr y)"

definition load_snapshot :: "store_env \<Rightarrow> console_columns \<Rightarrow> string \<Rightarrow> console_snapshot \<Rightarrow> database \<Rightarrow> console_snapshot res" where
  "load_snapshot v c program s db =
     bind_res (read_optional 1 v (load_scope program db)) (\<lambda>scope.
      bind_res (read_at 2 v (load_stats program c db)) (\<lambda>stats.
      bind_res (read_at 3 v (load_runs program db)) (\<lambda>runs.
      bind_res (if runs = [] then Inr None else read_optional 4 v (load_definition runs db)) (\<lambda>wd.
      bind_res (read_at 5 v (load_steps program db)) (\<lambda>steps.
      bind_res (read_at 6 v (load_tools (se_now v) program db)) (\<lambda>tools.
      bind_res (read_at 7 v (load_assets program db)) (\<lambda>assets.
      bind_res (read_at 8 v (load_candidates program c db)) (\<lambda>candidates.
      bind_res (read_at 9 v (load_verified program c db)) (\<lambda>verified.
      bind_res (read_at 10 v (load_approvals program db)) (\<lambda>approvals.
      bind_res (read_at 11 v (load_audit program c db)) (\<lambda>audit.
      (let loaded = s\<lparr>co_program := program, co_scope := scope, co_stats := stats, co_runs := runs, co_steps := steps,
             co_tools := tools, co_assets := assets, co_candidates := candidates, co_verified := verified,
             co_approvals := approvals, co_audit := audit, co_definition := wd\<rparr>
       in case latest_changes (at_access 12 v) program db of
            Inr changes \<Rightarrow> Inr (loaded\<lparr>co_latest_changes := changes\<rparr>)
          | Inl e \<Rightarrow> if errors_is e no_rows then Inr loaded else Inl e))))))))))))"

definition console_snapshot_of :: "store_env \<Rightarrow> console_columns \<Rightarrow> string \<Rightarrow> database \<Rightarrow> console_snapshot res" where
  "console_snapshot_of v c requested db =
     bind_res (list_programs v db) (\<lambda>programs.
       case programs of
         [] \<Rightarrow> Inr (empty_snapshot v programs)
       | first # _ \<Rightarrow>
           let selected = (if requested = [] then pg_id first else requested)
           in if selected \<notin> pg_id ` set programs then Inl (Err (''program '' @ selected @ '' not found''))
              else load_snapshot v c selected (empty_snapshot v programs) db)"

subsection \<open>Whose rows are shown\<close>

lemma ranked_member: "x \<in> set (ranked n rows) \<Longrightarrow> \<exists>k. (k, x) \<in> set rows"
  by (force simp: ranked_def dest!: in_set_takeD)

lemma length_ranked: "length (ranked n rows) \<le> n"
  by (simp add: ranked_def)

definition owned_task :: "string \<Rightarrow> database \<Rightarrow> string \<Rightarrow> bool" where
  "owned_task program db i \<longleftrightarrow> list_ex (\<lambda>t. tk_id t = i \<and> tk_program_id t = program) (db_tasks db)"

definition owned_run :: "string \<Rightarrow> database \<Rightarrow> string \<Rightarrow> bool" where
  "owned_run program db i \<longleftrightarrow> list_ex (\<lambda>w. wr_id w = i \<and> owned_task program db (wr_task_id w)) (db_runs db)"

lemma program_tasks_owned: "t \<in> set (program_tasks program i db) \<Longrightarrow> owned_task program db i"
  by (auto simp: program_tasks_def owned_task_def list_ex_iff)

lemma program_runs_owned: "w \<in> set (program_runs program i db) \<Longrightarrow> owned_run program db i"
  by (auto simp: program_runs_def owned_run_def list_ex_iff dest: program_tasks_owned split: if_splits)

definition owned_event :: "string \<Rightarrow> database \<Rightarrow> audit_event \<Rightarrow> bool" where
  "owned_event program db e \<longleftrightarrow>
     au_program_id e = Some program \<or> (case au_task_id e of None \<Rightarrow> False | Some t \<Rightarrow> owned_task program db t)"

lemma concerns_program_owned: "concerns_program program db e \<Longrightarrow> owned_event program db e"
  by (auto simp: concerns_program_def owned_event_def owned_task_def list_ex_iff)

definition belongs :: "string \<Rightarrow> console_columns \<Rightarrow> database \<Rightarrow> console_snapshot \<Rightarrow> bool" where
  "belongs program c db s \<longleftrightarrow>
     list_all (\<lambda>r. owned_run program db (cr_id r)) (co_runs s) \<and>
     list_all (\<lambda>x. owned_run program db (ck_run_id x)) (co_steps s) \<and>
     list_all (\<lambda>x. owned_run program db (cu_run_id x)) (co_tools s) \<and>
     list_all (\<lambda>x. list_ex (\<lambda>a. as_id a = ca_id x \<and> as_program_id a = program) (db_assets db)) (co_assets s) \<and>
     list_all (\<lambda>x. list_ex (\<lambda>cf. cd_id cf = cy_id x \<and> owned_task program db (cd_task_id cf)) (db_candidates db)) (co_candidates s) \<and>
     list_all (\<lambda>x. list_ex (\<lambda>f. vd_id f = cv_id x \<and> vd_program_id f = Some program) (cc_verified c)) (co_verified s) \<and>
     list_all (\<lambda>x. owned_task program db (cl_task_id x)) (co_approvals s) \<and>
     list_all (\<lambda>x. list_ex (\<lambda>e. au_id e = cn_id x \<and> owned_event program db e) (db_audit db)) (co_audit s)"

definition within_limits :: "console_snapshot \<Rightarrow> bool" where
  "within_limits s \<longleftrightarrow>
     length (co_runs s) \<le> 40 \<and> length (co_steps s) \<le> 240 \<and> length (co_tools s) \<le> 120 \<and> length (co_assets s) \<le> 300 \<and>
     length (co_candidates s) \<le> 150 \<and> length (co_verified s) \<le> 150 \<and> length (co_approvals s) \<le> 100 \<and>
     length (co_audit s) \<le> 160"

lemma list_all_ranked: "list_all (\<lambda>r. P (snd r)) rows \<Longrightarrow> list_all P (ranked n rows)"
  by (fastforce simp: list_all_iff dest: ranked_member)

lemma list_all_concat_map: "list_all P (concat (map f xs)) \<longleftrightarrow> (\<forall>x \<in> set xs. list_all P (f x))"
  by (auto simp: list_all_iff)

lemma loads_owned:
  shows "list_all (\<lambda>r. owned_run program db (cr_id r)) (load_runs program db)"
    and "list_all (\<lambda>x. owned_run program db (ck_run_id x)) (load_steps program db)"
    and "list_all (\<lambda>x. owned_run program db (cu_run_id x)) (load_tools now program db)"
    and "list_all (\<lambda>x. list_ex (\<lambda>a. as_id a = ca_id x \<and> as_program_id a = program) (db_assets db)) (load_assets program db)"
    and "list_all (\<lambda>x. list_ex (\<lambda>cf. cd_id cf = cy_id x \<and> owned_task program db (cd_task_id cf)) (db_candidates db))
           (load_candidates program c db)"
    and "list_all (\<lambda>x. list_ex (\<lambda>f. vd_id f = cv_id x \<and> vd_program_id f = Some program) (cc_verified c))
           (load_verified program c db)"
    and "list_all (\<lambda>x. owned_task program db (cl_task_id x)) (load_approvals program db)"
    and "list_all (\<lambda>x. list_ex (\<lambda>e. au_id e = cn_id x \<and> owned_event program db e) (db_audit db)) (load_audit program c db)"
proof -
  have run: "owned_run program db (wr_id w)" if "w \<in> set (db_runs db)" "t \<in> set (program_tasks program (wr_task_id w) db)" for w t
    using that by (auto simp: owned_run_def list_ex_iff dest: program_tasks_owned)
  show "list_all (\<lambda>r. owned_run program db (cr_id r)) (load_runs program db)"
    unfolding load_runs_def by (rule list_all_ranked) (auto simp: list_all_concat_map run)
  show "list_all (\<lambda>x. owned_run program db (ck_run_id x)) (load_steps program db)"
    unfolding load_steps_def by (rule list_all_ranked) (auto simp: list_all_concat_map list.pred_map list_all_iff dest: program_runs_owned)
  show "list_all (\<lambda>x. owned_run program db (cu_run_id x)) (load_tools now program db)"
    unfolding load_tools_def by (rule list_all_ranked) (auto simp: list_all_concat_map list.pred_map list_all_iff dest: program_runs_owned)
  show "list_all (\<lambda>x. list_ex (\<lambda>a. as_id a = ca_id x \<and> as_program_id a = program) (db_assets db)) (load_assets program db)"
    unfolding load_assets_def by (rule list_all_ranked) (auto simp: list_all_concat_map list_ex_iff)
  show "list_all (\<lambda>x. list_ex (\<lambda>cf. cd_id cf = cy_id x \<and> owned_task program db (cd_task_id cf)) (db_candidates db))
      (load_candidates program c db)"
    unfolding load_candidates_def
    by (rule list_all_ranked) (auto simp: list_all_concat_map list_ex_iff dest: program_tasks_owned)
  show "list_all (\<lambda>x. list_ex (\<lambda>f. vd_id f = cv_id x \<and> vd_program_id f = Some program) (cc_verified c)) (load_verified program c db)"
    unfolding load_verified_def by (rule list_all_ranked) (auto simp: list_all_concat_map list_ex_iff)
  show "list_all (\<lambda>x. owned_task program db (cl_task_id x)) (load_approvals program db)"
    unfolding load_approvals_def by (rule list_all_ranked) (auto simp: list_all_concat_map list.pred_map list_all_iff dest: program_tasks_owned)
  show "list_all (\<lambda>x. list_ex (\<lambda>e. au_id e = cn_id x \<and> owned_event program db e) (db_audit db)) (load_audit program c db)"
    unfolding load_audit_def
    by (rule list_all_ranked) (auto simp: list_all_concat_map list_ex_iff dest: concerns_program_owned)
qed

lemma loads_within_limits:
  "length (load_runs program db) \<le> 40" "length (load_steps program db) \<le> 240" "length (load_tools now program db) \<le> 120"
  "length (load_assets program db) \<le> 300" "length (load_candidates program c db) \<le> 150"
  "length (load_verified program c db) \<le> 150" "length (load_approvals program db) \<le> 100"
  "length (load_audit program c db) \<le> 160"
  by (simp_all add: load_runs_def load_steps_def load_tools_def load_assets_def load_candidates_def load_verified_def
      load_approvals_def load_audit_def length_ranked del: One_nat_def)

lemma read_at_Inr [simp]: "read_at n v x = Inr y \<longleftrightarrow> se_fault v n = None \<and> y = x"
  by (auto simp: read_at_def query_def at_access_def split: option.split)

lemma load_snapshot_Inr:
  assumes "load_snapshot v c program s0 db = Inr s"
  shows "co_program s = program \<and> co_programs s = co_programs s0 \<and> co_runs s = load_runs program db \<and>
    co_steps s = load_steps program db \<and> co_tools s = load_tools (se_now v) program db \<and>
    co_assets s = load_assets program db \<and> co_candidates s = load_candidates program c db \<and>
    co_verified s = load_verified program c db \<and> co_approvals s = load_approvals program db \<and>
    co_audit s = load_audit program c db \<and> co_stats s = load_stats program c db"
proof -
  obtain scope wd where
    "(let loaded = s0\<lparr>co_program := program, co_scope := scope, co_stats := load_stats program c db,
          co_runs := load_runs program db, co_steps := load_steps program db, co_tools := load_tools (se_now v) program db,
          co_assets := load_assets program db, co_candidates := load_candidates program c db,
          co_verified := load_verified program c db, co_approvals := load_approvals program db,
          co_audit := load_audit program c db, co_definition := wd\<rparr>
      in case latest_changes (at_access 12 v) program db of
           Inr changes \<Rightarrow> Inr (loaded\<lparr>co_latest_changes := changes\<rparr>)
         | Inl e \<Rightarrow> if errors_is e no_rows then Inr loaded else Inl e) = Inr s"
    using assms unfolding load_snapshot_def bind_res_Inr read_at_Inr by blast
  then show ?thesis by (auto simp: Let_def split: sum.splits if_splits)
qed


subsection \<open>What is never shown\<close>

text \<open>The texts the console leaves out: inputs and outputs of steps, locations of artifacts, plans and environments.\<close>

definition conceal :: "database \<Rightarrow> database" where
  "conceal db =
     db\<lparr>db_steps := map (\<lambda>s. s\<lparr>sr_input := [], sr_output := [], sr_idempotency_key := []\<rparr>) (db_steps db),
        db_artifacts := map (\<lambda>a. a\<lparr>art_storage_location := [], art_sha256 := []\<rparr>) (db_artifacts db),
        db_tools := map (\<lambda>x. x\<lparr>tr_execution_environment := [], tr_artifact_ids := [], tr_stdout_artifact_id := None,
          tr_stderr_artifact_id := None\<rparr>) (db_tools db),
        db_scope_versions := map (\<lambda>r. r\<lparr>sv_snapshot := (sv_snapshot r)\<lparr>sn_target_plan := []\<rparr>\<rparr>) (db_scope_versions db),
        db_candidates := map (\<lambda>cf. cf\<lparr>cd_evidence_artifact_ids := []\<rparr>) (db_candidates db),
        db_endpoints := []\<rparr>"

text \<open>
  What the snapshot never selects: \<open>conceal\<close> empties the inputs, outputs and keys of steps, the places and digests of
  artifacts, the streams of tools and the target plans, and the snapshot stays the same.
\<close>

theorem console_is_independent_of_hidden_texts:
  assumes "\<And>cf. cc_created_at c (cf\<lparr>cd_evidence_artifact_ids := []\<rparr>) = cc_created_at c cf"
  shows "console_snapshot_of v c requested (conceal db) = console_snapshot_of v c requested db"
proof -
  have tables: "db_programs (conceal db) = db_programs db" "db_tasks (conceal db) = db_tasks db"
      "db_runs (conceal db) = db_runs db" "db_workflows (conceal db) = db_workflows db"
      "db_assets (conceal db) = db_assets db" "db_observations (conceal db) = db_observations db"
      "db_approvals (conceal db) = db_approvals db" "db_audit (conceal db) = db_audit db"
    by (simp_all add: conceal_def)
  have tasks: "program_tasks program i (conceal db) = program_tasks program i db" for program i
    by (simp add: program_tasks_def tables)
  have runs: "program_runs program i (conceal db) = program_runs program i db" for program i
    unfolding program_runs_def tables tasks ..
  note joins = tasks runs
  have artifacts: "shown_artifacts now tool (conceal db) = shown_artifacts now tool db" for now tool
    by (simp add: shown_artifacts_def conceal_def o_def cong: if_cong)
  have loads: "load_scope program (conceal db) = load_scope program db"
      "load_stats program c (conceal db) = load_stats program c db"
      "load_runs program (conceal db) = load_runs program db"
      "load_definition shown (conceal db) = load_definition shown db"
      "load_steps program (conceal db) = load_steps program db"
      "load_assets program (conceal db) = load_assets program db"
      "load_candidates program c (conceal db) = load_candidates program c db"
      "load_verified program c (conceal db) = load_verified program c db"
      "load_approvals program (conceal db) = load_approvals program db"
      "load_audit program c (conceal db) = load_audit program c db" for program shown
    unfolding load_scope_def load_stats_def load_runs_def load_definition_def load_steps_def load_assets_def
      load_candidates_def load_verified_def load_approvals_def load_audit_def latest_observation_def asset_value_def
      concerns_program_def joins tables
    by (simp_all add: conceal_def o_def assms cong: if_cong)
  have tools: "load_tools now program (conceal db) = load_tools now program db" for now program
    unfolding load_tools_def joins artifacts by (simp add: conceal_def o_def cong: if_cong)
  have changes: "latest_changes x program (conceal db) = latest_changes x program db" for x program
    by (simp add: latest_changes_def completed_runs_def tables)
  show ?thesis
    unfolding console_snapshot_of_def load_snapshot_def list_programs_def loads tools changes tables ..
qed

text \<open>
  The outputs reach the console all the same: the audit event of an execution has the whole result of the action,
  and the details of the events are shown.
\<close>

lemma audit_details_show_the_output:
  assumes "e \<in> set (execution_event step tool r db)"
  shows "au_details (e i) = DResult r"
  using assms by (auto simp: execution_event_def step_event_def)

subsection \<open>Witnesses\<close>

definition console_program :: "string \<Rightarrow> program" where
  "console_program i =
     \<lparr>pg_id = i, pg_name = i, pg_platform = ''lab'', pg_description = [], pg_scope_reference = [], pg_policy_reference = [],
      pg_scope_digest = [], pg_include_rule_digests = [], pg_exclude_rule_digests = [], pg_target_plan_digest = [],
      pg_scope_plan_warnings = [], pg_created_at = 0, pg_updated_at = 0\<rparr>"

definition console_asset_row :: "string \<Rightarrow> string \<Rightarrow> asset" where
  "console_asset_row i program =
     \<lparr>as_id = i, as_program_id = program, as_type = ''host'', as_canonical_value = i, as_created_at = 0, as_updated_at = 0\<rparr>"

definition console_db :: database where
  "console_db =
     \<lparr>db_programs = [console_program ''p'', console_program ''q''], db_scope_versions = [], db_workflows = [], db_tasks = [],
      db_approvals = [], db_runs = [], db_steps = [], db_tools = [], db_artifacts = [],
      db_assets = [console_asset_row ''a'' ''p'', console_asset_row ''b'' ''q''], db_observations = [],
      db_candidates = [], db_endpoints = [], db_audit = []\<rparr>"

definition console_env :: store_env where
  "console_env = \<lparr>se_fault = (\<lambda>_. None), se_id = (\<lambda>_. []), se_now = 0, se_json = (\<lambda>_. None)\<rparr>"

definition console_extra :: console_columns where
  "console_extra = \<lparr>cc_occurred_at = (\<lambda>_. 0), cc_created_at = (\<lambda>_. 0), cc_verified = []\<rparr>"

lemma console_db_read: "\<exists>s. console_snapshot_of console_env console_extra ''q'' console_db = Inr s"
  by (simp add: console_snapshot_of_def list_programs_def query_def console_env_def console_db_def console_program_def
      load_snapshot_def read_at_def read_optional_def at_access_def latest_changes_def completed_runs_def no_rows_def Let_def)


lemma console_is_independent_of_hidden_texts_witness:
  "console_snapshot_of console_env console_extra ''q'' (conceal console_db) =
     console_snapshot_of console_env console_extra ''q'' console_db"
  by (rule console_is_independent_of_hidden_texts) (simp add: console_extra_def)

end
