(* ===== verification/Console.thy ===== *)
theory Console
  imports ControlPlane Queue Commands DatabaseFacts
begin

text \<open>
  \<^verbatim>\<open>internal/console/server.go\<close>: the HTTP interface of the operator console. A request has its method, its path
  (a clean one, as its segments, each unescaped), its headers by canonical name (empty when absent) and its body; a
  handler maps the state of the database to the new one, the transactions sent to the queue and the response. The
  files of the static directory and the texts of log lines are left out.
\<close>

subsection \<open>Requests and responses\<close>

record http_request =
  hq_method :: string
  hq_segments :: "string list"
  hq_headers :: "string \<Rightarrow> string"
  hq_host :: string
  hq_program :: string
  hq_body :: string

record dead_letter =
  dt_message_id :: string
  dt_job_id :: string
  dt_capability :: string
  dt_provider :: string
  dt_attempt :: int
  dt_error :: string
  dt_failed_at :: string

record queue_status =
  qe_pending :: int
  qe_dead_letters :: "dead_letter list"
  qe_error :: string

datatype http_body =
    BodyError string
  | BodyStatus string
  | BodySnapshot console_snapshot queue_status
  | BodyFile string
  | BodyText string

record http_response =
  hp_status :: int
  hp_headers :: "(string \<times> string) list"
  hp_body :: http_body

text \<open>The interfaces \<^verbatim>\<open>Store\<close> and \<^verbatim>\<open>Queue\<close>; the queue may be missing, its pending count may be nil.\<close>

record 'db console_store =
  kt_snapshot :: "string \<Rightarrow> 'db \<Rightarrow> console_snapshot res"
  kt_decide :: "string \<Rightarrow> string \<Rightarrow> string \<Rightarrow> 'db \<Rightarrow> 'db \<times> go_error option"

record console_queue =
  kq_pending :: "int option res"
  kq_dead_letters :: "int \<Rightarrow> redis_message list res"
  kq_retry :: "string \<Rightarrow> transactions \<times> go_error option"

text \<open>
  The decoders: \<open>he_json\<close> is the first JSON value of a text (\<^verbatim>\<open>Decoder.Decode\<close>), \<open>he_job\<close> decodes a job, and
  \<open>he_origin\<close> gives the scheme and the host (with its port) of a URL.
\<close>

record http_env =
  he_json :: json_parser
  he_job :: "string \<Rightarrow> job res"
  he_origin :: "string \<Rightarrow> (string \<times> string) option"

subsection \<open>Answers\<close>

definition json_answer :: "int \<Rightarrow> http_body \<Rightarrow> http_response" where
  "json_answer status body =
     \<lparr>hp_status = status,
      hp_headers = [(''Content-Type'', ''application/json; charset=utf-8''), (''Cache-Control'', ''no-store'')],
      hp_body = body\<rparr>"

definition error_answer :: "int \<Rightarrow> string \<Rightarrow> http_response" where
  "error_answer status message = json_answer status (BodyError message)"

definition security_headers :: "(string \<times> string) list" where
  "security_headers =
     [(''Content-Security-Policy'',
       map (\<lambda>c. if c = CHR ''!'' then CHR 0x27 else c)
         (''default-src !self!; script-src !self!; style-src !self!; img-src !self! data:; connect-src !self!; ''
          @ ''object-src !none!; base-uri !none!; form-action !self!; frame-ancestors !none!'')),
      (''Permissions-Policy'', ''camera=(), microphone=(), geolocation=()''),
      (''Referrer-Policy'', ''no-referrer''),
      (''X-Content-Type-Options'', ''nosniff''),
      (''X-Frame-Options'', ''DENY'')]"

subsection \<open>Handlers\<close>

definition valid_operator_request :: "http_env \<Rightarrow> http_request \<Rightarrow> bool" where
  "valid_operator_request v q \<longleftrightarrow>
     hq_headers q ''X-Reconductor-Request'' = ''operator-console'' \<and>
     (let site = to_lower (hq_headers q ''Sec-Fetch-Site'') in site = [] \<or> site = ''same-origin'') \<and>
     (let origin = trim_space (hq_headers q ''Origin'') in
      origin = [] \<or>
      (case he_origin v origin of
         None \<Rightarrow> False
       | Some (scheme, host) \<Rightarrow> (scheme = ''http'' \<or> scheme = ''https'') \<and> equal_fold host (hq_host q)))"

fun decision_members :: "(string \<times> json) list \<Rightarrow> string \<times> string \<Rightarrow> (string \<times> string) option" where
  "decision_members [] b = Some b"
| "decision_members ((k, x) # kvs) (decision, actor) =
     (if equal_fold k ''decision''
      then (case decode_text x decision of None \<Rightarrow> None | Some s \<Rightarrow> decision_members kvs (s, actor))
      else if equal_fold k ''actor''
      then (case decode_text x actor of None \<Rightarrow> None | Some s \<Rightarrow> decision_members kvs (decision, s))
      else None)"

definition decode_decision :: "http_env \<Rightarrow> http_request \<Rightarrow> (string \<times> string) res" where
  "decode_decision v q =
     (if \<not> has_prefix (to_lower (hq_headers q ''Content-Type'')) ''application/json''
      then Inl (Err ''content type must be application/json'')
      else (case parse_object (he_json v) (take 4096 (hq_body q)) of
              None \<Rightarrow> Inl (Err ''request body must be valid JSON'')
            | Some kvs \<Rightarrow>
                (case decision_members kvs ([], []) of
                   None \<Rightarrow> Inl (Err ''request body must be valid JSON'')
                 | Some b \<Rightarrow> Inr b)))"

definition operator_name :: "string \<Rightarrow> string" where
  "operator_name actor = (let named = trim_space actor in if named = [] then ''console-operator'' else named)"

definition decide_handler ::
  "http_env \<Rightarrow> 'db console_store \<Rightarrow> string \<Rightarrow> http_request \<Rightarrow> 'db \<Rightarrow> 'db \<times> http_response" where
  "decide_handler v s i q db =
     (if \<not> valid_operator_request v q then (db, error_answer 403 ''operator request validation failed'')
      else (case decode_decision v q of
        Inl e \<Rightarrow> (db, error_answer 400 (error_text e))
      | Inr (raw_decision, raw_actor) \<Rightarrow>
          let decision = to_lower (trim_space raw_decision);
              actor = operator_name raw_actor
          in if decision \<noteq> ''approved'' \<and> decision \<noteq> ''rejected''
             then (db, error_answer 400 ''decision must be approved or rejected'')
             else if length actor > 80 then (db, error_answer 400 ''actor is too long'')
             else (case kt_decide s i decision actor db of
                     (db', Some e) \<Rightarrow> (db', error_answer 409 ''approval is no longer pending'')
                   | (db', None) \<Rightarrow> (db', json_answer 200 (BodyStatus decision)))))"

definition retry_handler :: "http_env \<Rightarrow> console_queue option \<Rightarrow> string \<Rightarrow> http_request \<Rightarrow> transactions \<times> http_response" where
  "retry_handler v queue i q =
     (if \<not> valid_operator_request v q then ([], error_answer 403 ''operator request validation failed'')
      else (case queue of
        None \<Rightarrow> ([], error_answer 503 ''queue status unavailable'')
      | Some k \<Rightarrow>
          (case kq_retry k i of
             (txs, Some e) \<Rightarrow> (txs, error_answer 409 ''dead-letter job could not be retried'')
           | (txs, None) \<Rightarrow> (txs, json_answer 202 (BodyStatus ''queued'')))))"

definition value_text :: "redis_message \<Rightarrow> string \<Rightarrow> string" where
  "value_text m k = (case rm_values m k of None \<Rightarrow> [] | Some s \<Rightarrow> s)"

definition sanitize_dead_letter :: "http_env \<Rightarrow> redis_message \<Rightarrow> dead_letter" where
  "sanitize_dead_letter v m =
     (let item = \<lparr>dt_message_id = rm_id m, dt_job_id = [], dt_capability = [], dt_provider = [], dt_attempt = 0,
            dt_error = value_text m ''error'', dt_failed_at = value_text m ''failed_at''\<rparr>
      in case he_job v (value_text m ''payload'') of
           Inl e \<Rightarrow> item
         | Inr j \<Rightarrow> item\<lparr>dt_job_id := jb_id j, dt_capability := aq_capability (jb_action j), dt_provider := jb_provider j,
             dt_attempt := jb_attempt j\<rparr>)"

definition read_queue :: "http_env \<Rightarrow> console_queue option \<Rightarrow> queue_status" where
  "read_queue v queue =
     (case queue of
        None \<Rightarrow> \<lparr>qe_pending = 0, qe_dead_letters = [], qe_error = []\<rparr>
      | Some k \<Rightarrow>
          \<lparr>qe_pending = (case kq_pending k of Inr (Some n) \<Rightarrow> n | _ \<Rightarrow> 0),
           qe_dead_letters = (case kq_dead_letters k 50 of Inl e \<Rightarrow> [] | Inr ms \<Rightarrow> map (sanitize_dead_letter v) ms),
           qe_error = (case (kq_pending k, kq_dead_letters k 50) of
              (Inr n, Inr ms) \<Rightarrow> [] | _ \<Rightarrow> ''queue status unavailable'')\<rparr>)"

definition snapshot_handler :: "http_env \<Rightarrow> 'db console_store \<Rightarrow> console_queue option \<Rightarrow> http_request \<Rightarrow> 'db \<Rightarrow> http_response" where
  "snapshot_handler v s queue q db =
     (case kt_snapshot s (trim_space (hq_program q)) db of
        Inl e \<Rightarrow> error_answer 500 ''console data is temporarily unavailable''
      | Inr data \<Rightarrow> json_answer 200 (BodySnapshot data (read_queue v queue)))"

text \<open>The path \<^verbatim>\<open>/\<close> has one empty segment. The headers of the file server itself are left out.\<close>

definition static_handler :: "string list \<Rightarrow> http_response" where
  "static_handler path =
     (if path \<noteq> [[]] \<and> path \<noteq> [''app.js''] \<and> path \<noteq> [''styles.css'']
      then \<lparr>hp_status = 404, hp_headers = [], hp_body = BodyText ''404 page not found''\<rparr>
      else \<lparr>hp_status = 200, hp_headers = (if path = [[]] then [(''Cache-Control'', ''no-store'')] else []),
            hp_body = BodyFile (hd path)\<rparr>)"

subsection \<open>Routing\<close>

text \<open>
  The patterns of the mux: a pattern for GET takes HEAD as well, and a path that only has patterns for other methods
  is answered with 405. A wildcard stands for one segment that is not empty.
\<close>

datatype console_route = ToSnapshot | ToDecision string | ToRetry string | ToHealth | ToStatic | NotAllowed

definition api_segment :: "string \<Rightarrow> string \<Rightarrow> string list \<Rightarrow> string option" where
  "api_segment before after path =
     (case path of
        [a, b, c, i, d] \<Rightarrow>
          if [a, b, c, d] = [''api'', ''v1'', before, after] \<and> i \<noteq> [] then Some i else None
      | _ \<Rightarrow> None)"

definition route_request :: "string \<Rightarrow> string list \<Rightarrow> console_route" where
  "route_request httpmethod path =
     (if httpmethod = ''GET'' \<or> httpmethod = ''HEAD''
      then if path = [''api'', ''v1'', ''snapshot''] then ToSnapshot
           else if path = [''healthz''] then ToHealth else ToStatic
      else if httpmethod = ''POST''
      then (case api_segment ''approvals'' ''decision'' path of
              Some i \<Rightarrow> ToDecision i
            | None \<Rightarrow> (case api_segment ''dead-letters'' ''retry'' path of Some i \<Rightarrow> ToRetry i | None \<Rightarrow> NotAllowed))
      else NotAllowed)"

definition secured :: "http_response \<Rightarrow> http_response" where
  "secured r = r\<lparr>hp_headers := security_headers @ hp_headers r\<rparr>"

definition serve_console ::
  "http_env \<Rightarrow> 'db console_store \<Rightarrow> console_queue option \<Rightarrow> http_request \<Rightarrow> 'db \<Rightarrow> 'db \<times> transactions \<times> http_response" where
  "serve_console v s queue q db =
     (case route_request (hq_method q) (hq_segments q) of
        ToSnapshot \<Rightarrow> (db, [], secured (snapshot_handler v s queue q db))
      | ToDecision i \<Rightarrow> (case decide_handler v s i q db of (db', r) \<Rightarrow> (db', [], secured r))
      | ToRetry i \<Rightarrow> (case retry_handler v queue i q of (txs, r) \<Rightarrow> (db, txs, secured r))
      | ToHealth \<Rightarrow> (db, [], secured (json_answer 200 (BodyStatus ''ok'')))
      | ToStatic \<Rightarrow> (db, [], secured (static_handler (hq_segments q)))
      | NotAllowed \<Rightarrow> (db, [], secured \<lparr>hp_status = 405, hp_headers = [], hp_body = BodyText ''Method Not Allowed''\<rparr>))"

subsection \<open>The console on the real store\<close>

text \<open>
  The server as \<^verbatim>\<open>cmd/platform\<close> starts it: over the PostgreSQL store and the Redis streams, whose reads (the
  pending entries and the newest dead letters) are arguments.
\<close>

definition database_store :: "store_env \<Rightarrow> console_columns \<Rightarrow> database console_store" where
  "database_store w c =
     \<lparr>kt_snapshot = console_snapshot_of w c, kt_decide = decide_approval w\<rparr>"

definition streams_queue ::
  "(job \<Rightarrow> string res) \<Rightarrow> (string \<Rightarrow> job res) \<Rightarrow> 8 word list \<Rightarrow> int \<Rightarrow> streams \<Rightarrow>
     int option res \<Rightarrow> (int \<Rightarrow> redis_message list res) \<Rightarrow> console_queue" where
  "streams_queue enc dec random now s pending dead =
     \<lparr>kq_pending = pending, kq_dead_letters = dead, kq_retry = retry_dead_letter enc dec random now s\<rparr>"

subsection \<open>What a request can change\<close>

text \<open>The contract of a store: a decision that fails leaves the database as it was.\<close>

locale decision_store =
  fixes store :: "'db console_store"
  assumes failed_decision: "kt_decide store i d a db = (db', Some e) \<Longrightarrow> db' = db"
begin

lemma decision_changes:
  assumes "decide_handler v store i q db = (db', r)" and "db' \<noteq> db"
  shows "\<exists>d a. valid_operator_request v q \<and> decode_decision v q = Inr (d, a) \<and>
    to_lower (trim_space d) \<in> {''approved'', ''rejected''} \<and> length (operator_name a) \<le> 80 \<and>
    kt_decide store i (to_lower (trim_space d)) (operator_name a) db = (db', None) \<and> hp_status r = 200"
proof -
  have valid: "valid_operator_request v q"
    using assms by (cases "valid_operator_request v q") (simp_all add: decide_handler_def)
  obtain d a where body: "decode_decision v q = Inr (d, a)"
    using assms valid by (cases "decode_decision v q") (auto simp: decide_handler_def)
  let ?d = "to_lower (trim_space d)" and ?a = "operator_name a"
  have known: "?d = ''approved'' \<or> ?d = ''rejected''"
    by (rule ccontr) (use assms valid body in \<open>simp add: decide_handler_def Let_def\<close>)
  have short: "length ?a \<le> 80"
    by (rule ccontr) (use assms valid body known in \<open>auto simp: decide_handler_def Let_def\<close>)
  obtain db1 e where call: "kt_decide store i ?d ?a db = (db1, e)" by fastforce
  have "e = None \<and> db1 = db' \<and> hp_status r = 200"
    using assms valid body known short call failed_decision [of i ?d ?a db db1]
    by (cases e) (auto simp: decide_handler_def Let_def json_answer_def)
  then show ?thesis using valid body known short call by blast
qed

lemma request_changes:
  assumes "serve_console v store queue q db = (db', txs, r)" and "db' \<noteq> db"
  shows "\<exists>i r'. route_request (hq_method q) (hq_segments q) = ToDecision i \<and> txs = [] \<and>
    decide_handler v store i q db = (db', r') \<and> r = secured r'"
  using assms unfolding serve_console_def
  by (auto split: console_route.splits prod.splits)

end

lemma decide_failed: "decide_approval w i d a db = (db', Some e) \<Longrightarrow> db' = db"
  by (auto simp: decide_approval_def transaction_def dest: commit_Some split: if_splits option.splits)

interpretation console: decision_store "database_store w c"
  by unfold_locales (auto simp: database_store_def dest: decide_failed)

lemma api_segment_Some:
  "api_segment before after path = Some i \<longleftrightarrow> i \<noteq> [] \<and> path = [''api'', ''v1'', before, i, after]"
  by (auto simp: api_segment_def split: list.splits if_splits)

lemma route_decision:
  "route_request m p = ToDecision i \<Longrightarrow> m = ''POST'' \<and> api_segment ''approvals'' ''decision'' p = Some i"
  unfolding route_request_def
  by (cases "api_segment ''approvals'' ''decision'' p"; cases "api_segment ''dead-letters'' ''retry'' p")
    (simp_all split: if_split_asm)

lemma route_retry:
  "route_request m p = ToRetry i \<Longrightarrow> m = ''POST'' \<and> api_segment ''dead-letters'' ''retry'' p = Some i"
  unfolding route_request_def
  by (cases "api_segment ''approvals'' ''decision'' p"; cases "api_segment ''dead-letters'' ''retry'' p")
    (simp_all split: if_split_asm)

lemma retry_sends:
  assumes "serve_console v store queue q db = (db', txs, r)" and "txs \<noteq> []"
  shows "\<exists>i k. route_request (hq_method q) (hq_segments q) = ToRetry i \<and> db' = db \<and>
    valid_operator_request v q \<and> queue = Some k \<and> txs = fst (kq_retry k i)"
  using assms unfolding serve_console_def retry_handler_def
  by (auto split: console_route.splits prod.splits if_splits option.splits)

lemma always_secured:
  "serve_console v store queue q db = (db', txs, r) \<Longrightarrow> \<exists>r'. r = secured r'"
  unfolding serve_console_def by (auto split: console_route.splits prod.splits)

text \<open>
  C13: Every response of the console carries the security headers. A request changes the database
  only if it is a valid operator request posted to the decision of an approval, whose body decodes
  to approved or rejected with an actor of at most 80 characters, and the store accepted that
  decision; it sends transactions to the queue only if it is a valid operator request posted to
  the retry of a dead letter.
\<close>

theorem console_changes_need_an_operator_request:
  assumes run: "serve_console v (database_store w c) queue q db = (db', txs, r)"
  shows "set security_headers \<subseteq> set (hp_headers r) \<and>
    (db' \<noteq> db \<longrightarrow> valid_operator_request v q \<and> hq_method q = ''POST'' \<and> txs = [] \<and> hp_status r = 200 \<and>
       (\<exists>i d a. hq_segments q = [''api'', ''v1'', ''approvals'', i, ''decision''] \<and>
          decode_decision v q = Inr (d, a) \<and> to_lower (trim_space d) \<in> {''approved'', ''rejected''} \<and>
          length (operator_name a) \<le> 80 \<and>
          decide_approval w i (to_lower (trim_space d)) (operator_name a) db = (db', None))) \<and>
    (txs \<noteq> [] \<longrightarrow> valid_operator_request v q \<and> hq_method q = ''POST'' \<and> db' = db \<and>
       (\<exists>i k. hq_segments q = [''api'', ''v1'', ''dead-letters'', i, ''retry''] \<and> queue = Some k \<and>
          txs = fst (kq_retry k i)))"
proof (intro conjI impI)
  show "set security_headers \<subseteq> set (hp_headers r)"
    using always_secured [OF run] by (auto simp: secured_def)
next
  assume changed: "db' \<noteq> db"
  obtain i r' where route: "route_request (hq_method q) (hq_segments q) = ToDecision i" and none: "txs = []"
    and handled: "decide_handler v (database_store w c) i q db = (db', r')" and r: "r = secured r'"
    using console.request_changes [OF run changed] by blast
  note facts = console.decision_changes [OF handled changed]
  have path: "hq_segments q = [''api'', ''v1'', ''approvals'', i, ''decision'']"
    using route_decision [OF route] by (simp only: api_segment_Some)
  show "valid_operator_request v q" using facts by blast
  show "hq_method q = ''POST''" using route_decision [OF route] by blast
  show "txs = []" by (rule none)
  show "hp_status r = 200" using facts by (auto simp: r secured_def)
  show "\<exists>i d a. hq_segments q = [''api'', ''v1'', ''approvals'', i, ''decision''] \<and>
      decode_decision v q = Inr (d, a) \<and> to_lower (trim_space d) \<in> {''approved'', ''rejected''} \<and>
      length (operator_name a) \<le> 80 \<and>
      decide_approval w i (to_lower (trim_space d)) (operator_name a) db = (db', None)"
    using facts path by (simp only: database_store_def console_store.select_convs) blast
next
  assume sent: "txs \<noteq> []"
  obtain i k where route: "route_request (hq_method q) (hq_segments q) = ToRetry i" and same: "db' = db"
    and valid: "valid_operator_request v q" and k: "queue = Some k" "txs = fst (kq_retry k i)"
    using retry_sends [OF run sent] by blast
  show "valid_operator_request v q" and "db' = db" using valid same by blast+
  show "hq_method q = ''POST''" using route_retry [OF route] by blast
  have "hq_segments q = [''api'', ''v1'', ''dead-letters'', i, ''retry'']"
    using route_retry [OF route] by (simp only: api_segment_Some)
  then show "\<exists>i k. hq_segments q = [''api'', ''v1'', ''dead-letters'', i, ''retry''] \<and> queue = Some k \<and>
      txs = fst (kq_retry k i)"
    using k by blast
qed

definition console_request :: http_request where
  "console_request =
     \<lparr>hq_method = ''POST'', hq_segments = [''api'', ''v1'', ''approvals'', ''a'', ''decision''],
      hq_headers = (\<lambda>_. [])(''X-Reconductor-Request'' := ''operator-console'', ''Content-Type'' := ''application/json''),
      hq_host = [], hq_program = [], hq_body = ''{}''\<rparr>"

definition console_parser :: http_env where
  "console_parser =
     \<lparr>he_json = (\<lambda>s. Some (JObj [(''decision'', JStr ''approved'')])), he_job = (\<lambda>s. Inl (Err [])),
      he_origin = (\<lambda>s. None)\<rparr>"

lemma console_approves:
  "map ap_decision (db_approvals (fst (serve_console console_parser (database_store (sample_store_env 1) console_extra)
       None console_request sample_pending))) = [''approved'']"
  by code_simp

lemma console_changes_need_an_operator_request_witness:
  "\<exists>db' txs r.
     serve_console console_parser (database_store (sample_store_env 1) console_extra) None console_request sample_pending
       = (db', txs, r) \<and>
     map ap_decision (db_approvals db') = [''approved''] \<and>
     valid_operator_request console_parser console_request \<and> txs = [] \<and> hp_status r = 200"
proof -
  obtain db' txs r where run: "serve_console console_parser (database_store (sample_store_env 1) console_extra) None
      console_request sample_pending = (db', txs, r)"
    by (cases "serve_console console_parser (database_store (sample_store_env 1) console_extra) None console_request
        sample_pending") blast
  then have approved: "map ap_decision (db_approvals db') = [''approved'']" using console_approves by simp
  have "map ap_decision (db_approvals sample_pending) = [''pending'']" by (simp add: sample_pending_def)
  then have "db' \<noteq> sample_pending" using approved by auto
  note this [THEN console_changes_need_an_operator_request [OF run, THEN conjunct2, THEN conjunct1, THEN mp]]
  then show ?thesis using run approved by (elim conjE) (intro exI conjI, assumption+)
qed

end
