(* ===== verification/Doctor.thy ===== *)
theory Doctor
  imports Providers GoFiles
begin

text \<open>
  \<^verbatim>\<open>internal/doctor/doctor.go\<close>: the checks of the environment, over the answers of the machine (the runner of the
  providers, the file system, the database and Redis). A status is a string, as in the code: those of the provider
  check and the further ones of this file. The time of the report and the tables it is printed in are left out.
\<close>

subsection \<open>Results\<close>

record env_result =
  ev_component :: string
  ev_kind :: string
  ev_required :: bool
  ev_status :: string
  ev_detected_version :: string
  ev_expected_version :: string
  ev_path :: string
  ev_details :: string

record doctor_report =
  dr_healthy :: bool
  dr_results :: "env_result list"

definition of_check :: "check_result \<Rightarrow> env_result" where
  "of_check r =
     \<lparr>ev_component = kr_component r, ev_kind = kr_kind r, ev_required = kr_required r,
      ev_status = status_string (kr_status r), ev_detected_version = kr_detected_version r,
      ev_expected_version = kr_expected_version r, ev_path = kr_path r, ev_details = kr_details r\<rparr>"

text \<open>
  The outcomes the checks read. \<open>dv_context\<close> and \<open>dv_template_context\<close> are the errors of the contexts of the
  probes; \<open>dv_marker\<close> reads a file; \<open>dv_open\<close>, \<open>dv_dial\<close> and \<open>dv_ping\<close> are the errors of connecting.
\<close>

record doctor_env =
  dv_look_path :: "string \<Rightarrow> string res"
  dv_output :: "string \<Rightarrow> string list \<Rightarrow> string \<times> go_error option"
  dv_context :: "check_spec \<Rightarrow> go_error option"
  dv_template_context :: "go_error option"
  dv_getwd :: "string res"
  dv_is_dir :: "string \<Rightarrow> bool"
  dv_marker :: "string \<Rightarrow> string res"
  dv_open :: "go_error option"
  dv_server_version :: "string res"
  dv_dial :: "go_error option"
  dv_ping :: "go_error option"
  dv_info :: "string res"

definition successful :: "string \<Rightarrow> bool" where
  "successful status \<longleftrightarrow>
     status = ''compatible'' \<or> status = ''current'' \<or> status = ''ahead'' \<or> status = ''reachable''"

definition failures :: "env_result list \<Rightarrow> bool \<Rightarrow> env_result list" where
  "failures results include_optional =
     List.filter (\<lambda>r. (include_optional \<or> ev_required r) \<and> \<not> successful (ev_status r)) results"

definition safe_error :: "go_error \<Rightarrow> string" where
  "safe_error e = take 1024 (join_with '' '' (str_fields (error_text e)))"

subsection \<open>Versions\<close>

fun atoi_parts :: "string list \<Rightarrow> int list option" where
  "atoi_parts [] = Some []"
| "atoi_parts (x # xs) =
     (case atoi x of
        None \<Rightarrow> None
      | Some n \<Rightarrow> (case atoi_parts xs of None \<Rightarrow> None | Some ns \<Rightarrow> Some (n # ns)))"

definition parse_version_parts :: "string \<Rightarrow> int list option" where
  "parse_version_parts version =
     (let values = split_on (CHR ''.'') (trim_prefix (trim_space (to_lower version)) ''v'')
      in if length values \<noteq> 3 then None else atoi_parts values)"

fun compare_parts :: "int list \<Rightarrow> int list \<Rightarrow> int" where
  "compare_parts (x # xs) (y # ys) = (if x < y then -1 else if x > y then 1 else compare_parts xs ys)"
| "compare_parts xs ys = 0"

definition compare_version :: "string \<Rightarrow> string \<Rightarrow> int" where
  "compare_version x y =
     (case (parse_version_parts x, parse_version_parts y) of
        (Some l, Some r) \<Rightarrow> compare_parts l r
      | _ \<Rightarrow> 2)"

text \<open>\<^verbatim>\<open>strconv.Atoi\<close> with its error ignored: 0 for what is not a number, the nearest value for one out of range.\<close>

definition atoi_value :: "string \<Rightarrow> int" where
  "atoi_value s =
     (case atoi s of
        Some n \<Rightarrow> n
      | None \<Rightarrow>
          (let negative = has_prefix s ''-''; ds = (if negative \<or> has_prefix s ''+'' then drop 1 s else s)
           in if ds = [] \<or> digits_val 0 ds = None then 0 else if negative then - (2 ^ 63) else 2 ^ 63 - 1))"

definition major_version :: "string \<Rightarrow> int" where
  "major_version version = atoi_value (hd (split_on (CHR ''.'') version))"

subsection \<open>The templates\<close>

definition templates_pinned_version :: string where
  "templates_pinned_version = ''v10.4.3''"

text \<open>
  The expression of \<^verbatim>\<open>nucleiTemplatesVersionPattern\<close>: behind the words come three numbers with dots between them,
  then perhaps a text in parentheses. No part of it has two ways to match, so the greedy one is taken.
\<close>

definition is_blank :: "char \<Rightarrow> bool" where
  "is_blank c \<longleftrightarrow> c \<in> {CHR 0x09, CHR 0x0A, CHR 0x0C, CHR 0x0D, CHR '' ''}"

fun dotted_numbers :: "nat \<Rightarrow> string \<Rightarrow> (string \<times> string) option" where
  "dotted_numbers extra s =
     (let d = takeWhile is_digit s; r = dropWhile is_digit s in
      if d = [] then None
      else (case extra of
              0 \<Rightarrow> Some (d, r)
            | Suc n \<Rightarrow>
                (case r of
                   [] \<Rightarrow> None
                 | c # r' \<Rightarrow>
                     if c \<noteq> CHR ''.'' then None
                     else map_option (\<lambda>(n, t). (d @ ''.'' @ n, t)) (dotted_numbers n r'))))"

definition parenthesised :: "string \<Rightarrow> string" where
  "parenthesised s =
     (case dropWhile is_blank s of
        [] \<Rightarrow> []
      | c # r \<Rightarrow>
          let p = takeWhile (\<lambda>x. x \<noteq> CHR '')'') r
          in if c = CHR ''('' \<and> p \<noteq> r then p else [])"

definition template_version_here :: "string \<Rightarrow> (string \<times> string) option" where
  "template_version_here s =
     (let words = ''nuclei-templates version:''; n = length words in
      if \<not> has_prefix (to_lower s) words then None
      else let t = dropWhile is_blank (drop n s);
               v = takeWhile (\<lambda>c. c = CHR ''v'' \<or> c = CHR ''V'') (take 1 t)
           in case dotted_numbers 2 (drop (length v) t) of
                None \<Rightarrow> None
              | Some (number, rest) \<Rightarrow> Some (v @ number, parenthesised rest))"

fun find_template_version :: "string \<Rightarrow> (string \<times> string) option" where
  "find_template_version [] = None"
| "find_template_version (c # s) =
     (case template_version_here (c # s) of Some m \<Rightarrow> Some m | None \<Rightarrow> find_template_version s)"

definition parse_nuclei_templates_version :: "string \<Rightarrow> string \<times> string" where
  "parse_nuclei_templates_version output =
     (case find_template_version output of
        None \<Rightarrow> ([], [])
      | Some (version, path) \<Rightarrow>
          ((if has_prefix (to_lower version) ''v'' then version else ''v'' @ version), trim_space path))"

definition evaluate_template_version :: "env_result \<Rightarrow> string \<Rightarrow> string \<Rightarrow> env_result" where
  "evaluate_template_version result version source =
     (let r = result\<lparr>ev_detected_version := version\<rparr>; c = compare_version version templates_pinned_version in
      if c = -1 then r\<lparr>ev_status := ''outdated'', ev_details := source @ '' is older than the platform pin''\<rparr>
      else if c = 0 then r\<lparr>ev_status := ''current'', ev_details := source @ '' matches the platform pin''\<rparr>
      else if c = 1 then r\<lparr>ev_status := ''ahead'', ev_details := source @ '' is newer than the worker pin''\<rparr>
      else r\<lparr>ev_status := ''untracked'', ev_details := source @ '' does not contain a comparable version''\<rparr>)"

definition same_path :: "string res \<Rightarrow> string \<Rightarrow> string \<Rightarrow> bool" where
  "same_path getwd x y =
     (let absolute = (\<lambda>p. case abs_path getwd p of Inl e \<Rightarrow> p | Inr q \<Rightarrow> q)
      in equal_fold (clean_path (absolute x)) (clean_path (absolute y)))"

definition probe_templates :: "doctor_env \<Rightarrow> string \<Rightarrow> string \<Rightarrow> env_result \<Rightarrow> env_result" where
  "probe_templates v tree nuclei result =
     (case dv_look_path v nuclei of
        Inl e \<Rightarrow> result\<lparr>ev_status := ''missing'',
            ev_details := ''nuclei is required to discover the standard template directory''\<rparr>
      | Inr path \<Rightarrow>
          (case dv_output v path [''-tv''] of
             (output, output_error) \<Rightarrow>
               let probe_error = (case dv_template_context v of Some e \<Rightarrow> Some e | None \<Rightarrow> output_error)
               in (case parse_nuclei_templates_version output of
                     (version, found) \<Rightarrow>
                       let r = (if found \<noteq> [] then result\<lparr>ev_path := found\<rparr> else result)
                       in (case probe_error of
                             Some e \<Rightarrow> r\<lparr>ev_status := ''untracked'',
                                 ev_details := ''nuclei template version probe failed: '' @ safe_error e\<rparr>
                           | None \<Rightarrow>
                               if version = []
                               then r\<lparr>ev_status := ''untracked'',
                                      ev_details := ''nuclei -tv did not report a template version''\<rparr>
                               else if tree \<noteq> [] \<and> found = []
                               then r\<lparr>ev_status := ''untracked'', ev_detected_version := version,
                                      ev_details := ''nuclei -tv did not report the active template directory''\<rparr>
                               else if tree \<noteq> [] \<and> found \<noteq> [] \<and> \<not> same_path (dv_getwd v) tree found
                               then r\<lparr>ev_status := ''untracked'', ev_detected_version := version,
                                      ev_details := ''NUCLEI_TEMPLATE_DIR differs from nuclei'' @ [CHR 0x27]
                                        @ ''s active template directory''\<rparr>
                               else evaluate_template_version r version ''nuclei -tv''))))"

definition check_templates :: "doctor_env \<Rightarrow> string \<Rightarrow> string \<Rightarrow> env_result" where
  "check_templates v directory nuclei =
     (let result = \<lparr>ev_component = ''Nuclei templates'', ev_kind = ''templates'', ev_required = True, ev_status = [],
            ev_detected_version = [], ev_expected_version = templates_pinned_version, ev_path = [], ev_details = []\<rparr>;
          tree = trim_space directory
      in if tree = [] then probe_templates v tree nuclei result
         else (case abs_path (dv_getwd v) tree of
                 Inl e \<Rightarrow> result\<lparr>ev_status := ''missing'', ev_details := safe_error e\<rparr>
               | Inr full_path \<Rightarrow>
                   let r = result\<lparr>ev_path := full_path\<rparr>
                   in if \<not> dv_is_dir v full_path
                      then r\<lparr>ev_status := ''missing'', ev_details := ''template directory is unavailable''\<rparr>
                      else (case dv_marker v (join_path [full_path, ''.platform-template-version'']) of
                              Inr marker \<Rightarrow> evaluate_template_version r (trim_space marker) ''template snapshot marker''
                            | Inl e \<Rightarrow> probe_templates v tree nuclei r)))"

subsection \<open>The services\<close>

definition service_result :: "string \<Rightarrow> string \<Rightarrow> string \<Rightarrow> string \<Rightarrow> string \<Rightarrow> env_result" where
  "service_result component expected status version details =
     \<lparr>ev_component = component, ev_kind = ''service'', ev_required = True, ev_status = status,
      ev_detected_version = version, ev_expected_version = expected, ev_path = [], ev_details = details\<rparr>"

definition check_postgresql :: "doctor_env \<Rightarrow> app_config \<Rightarrow> env_result" where
  "check_postgresql v cfg =
     (let result = service_result ''PostgreSQL'' ''>=15'' in
      if trim_space (cf_database_url cfg) = [] then result ''not_configured'' [] ''DATABASE_URL is required''
      else (case dv_open v of
              Some e \<Rightarrow> result ''unreachable'' [] (safe_error e)
            | None \<Rightarrow>
                (case dv_server_version v of
                   Inl e \<Rightarrow> result ''unreachable'' [] (safe_error e)
                 | Inr version \<Rightarrow>
                     if major_version version < 15
                     then result ''incompatible'' version ''database server is older than the supported major version''
                     else result ''reachable'' version ''connection and version query succeeded'')))"

fun redis_version :: "string list \<Rightarrow> string" where
  "redis_version [] = []"
| "redis_version (l # ls) =
     (let line = trim_space l in
      if has_prefix line ''redis_version:'' then drop (length ''redis_version:'') line else redis_version ls)"

definition check_redis :: "doctor_env \<Rightarrow> app_config \<Rightarrow> env_result" where
  "check_redis v cfg =
     (let result = service_result ''Redis'' ''>=7'' in
      if \<not> str_contains (cfr_address (cf_redis cfg)) '':'' then result ''not_configured'' [] ''REDIS_ADDR must be host:port''
      else (case dv_dial v of
              Some e \<Rightarrow> result ''unreachable'' [] (safe_error e)
            | None \<Rightarrow>
                (case dv_ping v of
                   Some e \<Rightarrow> result ''unreachable'' [] (safe_error e)
                 | None \<Rightarrow>
                     (case dv_info v of
                        Inl e \<Rightarrow> result ''unreachable'' [] (safe_error e)
                      | Inr info \<Rightarrow>
                          let version = redis_version (split_on (CHR 0x0A) info)
                          in if major_version version < 7
                             then result ''incompatible'' version ''Redis server is older than the supported major version''
                             else result ''reachable'' version ''PING and server information query succeeded''))))"

subsection \<open>The report\<close>

definition check_provider_environment :: "doctor_env \<Rightarrow> app_config \<Rightarrow> env_result list" where
  "check_provider_environment v cfg =
     map (\<lambda>s. of_check (check_provider (dv_look_path v) (dv_output v) (dv_context v s) s)) (external_provider_specs cfg)
     @ [check_templates v (cfn_template_directory (cf_nuclei cfg)) (cft_nuclei (cf_tools cfg))]"

definition run_doctor :: "doctor_env \<Rightarrow> app_config \<Rightarrow> go_error option \<Rightarrow> doctor_report" where
  "run_doctor v cfg config_error =
     (let results =
            (case config_error of
               None \<Rightarrow> []
             | Some e \<Rightarrow>
                 [\<lparr>ev_component = ''Configuration'', ev_kind = ''configuration'', ev_required = True,
                   ev_status = status_string Incompatible, ev_detected_version = [], ev_expected_version = [],
                   ev_path = [], ev_details = error_text e\<rparr>])
            @ check_provider_environment v cfg @ [check_postgresql v cfg, check_redis v cfg]
      in \<lparr>dr_healthy = (failures results False = []), dr_results = results\<rparr>)"

subsection \<open>What the results mean\<close>

lemma compare_parts_order:
  "length xs = length ys \<Longrightarrow> compare_parts xs ys = (if xs < ys then -1 else if ys < xs then 1 else 0)"
  by (induction xs ys rule: compare_parts.induct) auto

lemma atoi_parts_length: "atoi_parts xs = Some ns \<Longrightarrow> length ns = length xs"
  by (induction xs arbitrary: ns) (auto split: option.splits)

lemma parse_version_length: "parse_version_parts s = Some ns \<Longrightarrow> length ns = 3"
  by (auto simp: parse_version_parts_def Let_def dest: atoi_parts_length split: if_splits)

text \<open>The comparison is the lexicographic order of the three numbers; 2 says that one text is no version.\<close>

lemma compare_version_order:
  "compare_version x y =
     (case (parse_version_parts x, parse_version_parts y) of
        (Some l, Some r) \<Rightarrow> if l < r then -1 else if r < l then 1 else 0
      | _ \<Rightarrow> 2)"
  by (auto simp: compare_version_def compare_parts_order dest!: parse_version_length split: option.splits)

lemma pin_parts: "parse_version_parts templates_pinned_version = Some [10, 4, 3]"
  by code_simp

lemma compare_pin:
  "compare_version x templates_pinned_version \<in> {0, 1} \<longleftrightarrow> (\<exists>l. parse_version_parts x = Some l \<and> [10, 4, 3] \<le> l)"
  by (auto simp: compare_version_order pin_parts not_less split: option.splits)

lemma successful_template:
  "successful (ev_status (evaluate_template_version r version source)) \<longleftrightarrow>
     (\<exists>l. parse_version_parts version = Some l \<and> [10, 4, 3] \<le> l)"
  unfolding compare_pin [symmetric] by (simp add: evaluate_template_version_def Let_def successful_def)

lemma probe_required: "ev_required (probe_templates v tree nuclei r) = ev_required r"
  unfolding probe_templates_def
  by (simp add: evaluate_template_version_def Let_def split: sum.split prod.split option.split)

lemma templates_required [simp]: "ev_required (check_templates v d n)"
  unfolding check_templates_def
  by (simp add: probe_required evaluate_template_version_def Let_def split: sum.split)

lemma successful_status [simp]:
  "\<not> successful ''missing''" "\<not> successful ''untracked''" "\<not> successful ''not_configured''"
  "\<not> successful ''unreachable''" "\<not> successful ''incompatible''" "\<not> successful ''wrong_binary''"
  "successful ''compatible''" "successful ''reachable''"
  by (simp_all add: successful_def)

text \<open>
  What the environment says about the templates: \<^verbatim>\<open>nuclei -tv\<close> names a version and perhaps the directory. A
  configured directory must exist; the marker in it names the version, and without a readable marker nuclei
  must name one for this very directory.
\<close>

definition named_templates :: "doctor_env \<Rightarrow> string \<Rightarrow> string \<Rightarrow> string \<Rightarrow> bool" where
  "named_templates v nuclei version found \<longleftrightarrow>
     (\<exists>path output. dv_look_path v nuclei = Inr path \<and> dv_template_context v = None \<and>
        dv_output v path [''-tv''] = (output, None) \<and> parse_nuclei_templates_version output = (version, found))"

definition environment_templates :: "doctor_env \<Rightarrow> string \<Rightarrow> string \<Rightarrow> string \<Rightarrow> bool" where
  "environment_templates v directory nuclei version \<longleftrightarrow>
     (if trim_space directory = [] then \<exists>found. named_templates v nuclei version found
      else \<exists>full. abs_path (dv_getwd v) (trim_space directory) = Inr full \<and> dv_is_dir v full \<and>
        (\<forall>marker. dv_marker v (join_path [full, ''.platform-template-version'']) = Inr marker \<longrightarrow>
           version = trim_space marker) \<and>
        (\<forall>e. dv_marker v (join_path [full, ''.platform-template-version'']) = Inl e \<longrightarrow>
           (\<exists>found. named_templates v nuclei version found \<and> found \<noteq> [] \<and>
              same_path (dv_getwd v) (trim_space directory) found)))"

lemma no_version_parts [simp]: "parse_version_parts [] = None"
  by code_simp

lemma probe_successful:
  "successful (ev_status (probe_templates v tree nuclei r)) \<longleftrightarrow>
     (\<exists>version found l. named_templates v nuclei version found \<and>
        (tree \<noteq> [] \<longrightarrow> found \<noteq> [] \<and> same_path (dv_getwd v) tree found) \<and>
        parse_version_parts version = Some l \<and> [10, 4, 3] \<le> l)"
proof (cases "dv_look_path v nuclei")
  case (Inr path)
  obtain out e where o': "dv_output v path [''-tv''] = (out, e)" by fastforce
  obtain version found where p: "parse_nuclei_templates_version out = (version, found)" by fastforce
  show ?thesis
    unfolding probe_templates_def named_templates_def
    by (cases "dv_template_context v"; cases e; cases "version = []"; cases "tree = []"; cases "found = []")
      (simp_all add: Inr o' p Let_def successful_template)
qed (simp add: probe_templates_def named_templates_def)

lemma templates_successful:
  "successful (ev_status (check_templates v directory nuclei)) \<longleftrightarrow>
     (\<exists>version l. environment_templates v directory nuclei version \<and> parse_version_parts version = Some l \<and> [10, 4, 3] \<le> l)"
proof (cases "trim_space directory = []")
  case True
  then show ?thesis by (simp add: check_templates_def environment_templates_def probe_successful Let_def)
next
  case False
  show ?thesis
  proof (cases "abs_path (dv_getwd v) (trim_space directory)")
    case (Inr full)
    show ?thesis
      by (cases "dv_is_dir v full"; cases "dv_marker v (join_path [full, ''.platform-template-version''])")
        (use False Inr in \<open>simp_all add: check_templates_def environment_templates_def probe_successful successful_template Let_def; blast\<close>)+
  qed (use False in \<open>simp add: check_templates_def environment_templates_def Let_def\<close>)
qed

lemma service_required [simp]: "ev_required (check_postgresql v cfg)" "ev_required (check_redis v cfg)"
  by (auto simp: check_postgresql_def check_redis_def service_result_def Let_def split: option.splits sum.splits)

lemma postgresql_reachable:
  "successful (ev_status (check_postgresql v cfg)) \<longleftrightarrow>
     trim_space (cf_database_url cfg) \<noteq> [] \<and> dv_open v = None \<and>
     (\<exists>version. dv_server_version v = Inr version \<and> major_version version \<ge> 15)"
  by (auto simp: check_postgresql_def service_result_def Let_def successful_def split: option.splits sum.splits)

lemma redis_reachable:
  "successful (ev_status (check_redis v cfg)) \<longleftrightarrow>
     str_contains (cfr_address (cf_redis cfg)) '':'' \<and> dv_dial v = None \<and> dv_ping v = None \<and>
     (\<exists>info. dv_info v = Inr info \<and> major_version (redis_version (split_on (CHR 0x0A) info)) \<ge> 7)"
  by (auto simp: check_redis_def service_result_def Let_def successful_def split: option.splits sum.splits)

lemma check_successful: "successful (ev_status (of_check r)) \<longleftrightarrow> kr_status r = Compatible"
  by (cases "kr_status r") (simp_all add: of_check_def successful_def)

lemma base_required [simp]:
  "kr_required (check_provider look output context s) = sp_required s"
proof -
  have "kr_required (evaluate_version s out e) = sp_required s" for out e
    by (simp add: evaluate_version_def base_result_def Let_def split: option.split)
  then have "kr_required (evaluate_executable s path out e) = sp_required s" for path out e
    by (simp add: evaluate_executable_def Let_def)
  then show ?thesis by (simp add: check_provider_def base_result_def split: sum.split prod.split)
qed

lemma of_check_required [simp]: "ev_required (of_check r) = kr_required r"
  by (simp add: of_check_def)

lemma no_failures: "failures rs False = [] \<longleftrightarrow> (\<forall>r \<in> set rs. ev_required r \<longrightarrow> successful (ev_status r))"
  by (auto simp: failures_def filter_empty_conv)

lemma configuration_failure: "\<not> successful (status_string Incompatible)"
  by (simp add: successful_def)

lemma healthy_iff:
  "dr_healthy (run_doctor v cfg config_error) \<longleftrightarrow>
     config_error = None \<and>
     (\<forall>s \<in> set (external_provider_specs cfg). sp_required s \<longrightarrow>
        kr_status (check_provider (dv_look_path v) (dv_output v) (dv_context v s) s) = Compatible) \<and>
     successful (ev_status (check_templates v (cfn_template_directory (cf_nuclei cfg)) (cft_nuclei (cf_tools cfg)))) \<and>
     successful (ev_status (check_postgresql v cfg)) \<and> successful (ev_status (check_redis v cfg))"
  by (cases config_error)
    (auto simp: run_doctor_def check_provider_environment_def no_failures check_successful configuration_failure
      simp del: status_string.simps)

text \<open>
  C39: The doctor reports a healthy environment exactly when the configuration loaded, every
  required provider was found and identified in its tested version family, the marker of the
  configured template directory, or without one nuclei itself (for that directory, if one is
  configured), names the pinned version of the templates or a newer one, and PostgreSQL (at least
  15) and Redis (at least 7) answered.
\<close>

theorem healthy_reports_mean_a_working_environment:
  "dr_healthy (run_doctor v cfg config_error) \<longleftrightarrow>
     config_error = None \<and>
     (\<forall>s \<in> set (external_provider_specs cfg). sp_required s \<longrightarrow>
        (\<exists>path output found. dv_look_path v (sp_executable s) = Inr path \<and> dv_context v s = None \<and>
           dv_output v path (sp_version_args s) = (output, None) \<and>
           find_version (safe_detail output 512) = Some found \<and> has_prefix found (sp_compatible_prefix s) \<and>
           equal_fold (trim_suffix (file_base path) (file_ext path)) (sp_name s))) \<and>
     (\<exists>version l. environment_templates v (cfn_template_directory (cf_nuclei cfg)) (cft_nuclei (cf_tools cfg)) version \<and>
        parse_version_parts version = Some l \<and> [10, 4, 3] \<le> l) \<and>
     trim_space (cf_database_url cfg) \<noteq> [] \<and> dv_open v = None \<and>
     (\<exists>version. dv_server_version v = Inr version \<and> major_version version \<ge> 15) \<and>
     str_contains (cfr_address (cf_redis cfg)) '':'' \<and> dv_dial v = None \<and> dv_ping v = None \<and>
     (\<exists>info. dv_info v = Inr info \<and> major_version (redis_version (split_on (CHR 0x0A) info)) \<ge> 7)"
proof -
  have named: "sp_name s \<noteq> []" if "s \<in> set (external_provider_specs cfg)" for s
    using that by (auto simp: external_provider_specs_def provider_spec_def Let_def)
  show ?thesis
    unfolding healthy_iff postgresql_reachable redis_reachable templates_successful check_provider_status
    using named by (metis (no_types, lifting))
qed

definition sample_doctor :: doctor_env where
  "sample_doctor =
     \<lparr>dv_look_path = Inr,
      dv_output = (\<lambda>path args.
        (if args = [''-tv''] then ''[INF] Public nuclei-templates version: v10.4.4 (/t)''
         else if path = ''dnsx'' \<or> path = ''httpx'' \<or> path = ''katana'' then ''v1.9.0''
         else if path = ''nuclei'' then ''v3.10.0'' else ''v2.6.1'', None)),
      dv_context = (\<lambda>s. None), dv_template_context = None, dv_getwd = Inr ''/'', dv_is_dir = (\<lambda>p. True),
      dv_marker = (\<lambda>p. Inl (Err ''none'')), dv_open = None, dv_server_version = Inr ''16.2 (Debian)'', dv_dial = None,
      dv_ping = None, dv_info = Inr (''redis_version:7.2.4'' @ [CHR 0x0A])\<rparr>"

definition doctor_config :: app_config where
  "doctor_config = read_config (\<lambda>_. None) (Inr ''w'') (\<lambda>key. if key = ''DATABASE_URL'' then ''db'' else [])"

lemma sample_doctor_healthy: "dr_healthy (run_doctor sample_doctor doctor_config None)"
  by code_simp

lemma healthy_reports_mean_a_working_environment_witness:
  "dr_healthy (run_doctor sample_doctor doctor_config None) \<and>
   (\<exists>version. dv_server_version sample_doctor = Inr version \<and> major_version version \<ge> 15) \<and>
   (\<exists>version l. environment_templates sample_doctor (cfn_template_directory (cf_nuclei doctor_config))
        (cft_nuclei (cf_tools doctor_config)) version \<and> parse_version_parts version = Some l \<and> [10, 4, 3] \<le> l)"
  using iffD1 [OF healthy_reports_mean_a_working_environment sample_doctor_healthy] sample_doctor_healthy
  by (elim conjE) (intro conjI)

end
