(* ===== verification/Platform.thy ===== *)
theory Platform
  imports Continuous Console Doctor WorkflowEngine WorkflowFiles
begin

text \<open>
  \<^verbatim>\<open>cmd/platform/main.go\<close>, the commands of the operator, with \<^verbatim>\<open>LoadBurp\<close> of \<^verbatim>\<open>internal/scope/scope.go\<close>, and
  \<^verbatim>\<open>cmd/worker/main.go\<close>. A command takes its flags as the \<^verbatim>\<open>flag\<close> package has parsed them (the defaults are the
  records \<open>default_\<dots>\<close>) and maps the disk and the database to new ones, with what it prints and its error. A call of the
  store is named by a label, which selects the environment that answers it.
\<close>

subsection \<open>The surroundings\<close>

text \<open>
  Decoders and encoders (\<open>pe_burp\<close> is \<^verbatim>\<open>json.Unmarshal\<close> at \<^verbatim>\<open>burpFile\<close>: the include and the exclude rules), the clock,
  fresh identifiers, the store and its migration, the machine. \<open>pe_engine\<close> holds the surroundings of an engine whose
  executor works for a program, \<open>pe_budget\<close> the answers of a limiter, \<open>pe_meanwhile\<close> what a run of the engine leaves on
  the disk and in the database, and \<open>pe_order\<close> the order in which a map is ranged over.
\<close>

record platform_env =
  pe_read_file :: "string \<Rightarrow> string res"
  pe_burp :: "string \<Rightarrow> (rule list \<times> rule list) res"
  pe_rx :: rx_parser
  pe_ip :: ip_parser
  pe_url :: url_parser
  pe_sha :: "string \<Rightarrow> string"
  pe_print :: json_printer
  pe_definition_text :: "wf_definition \<Rightarrow> string"
  pe_id :: "string \<Rightarrow> string"
  pe_now :: int
  pe_store :: "string \<Rightarrow> store_env"
  pe_open :: "go_error option"
  pe_migrate :: "go_error option"
  pe_getwd :: "string res"
  pe_cwd :: string
  pe_faults :: faults
  pe_decode_state :: "string \<Rightarrow> wf_state res"
  pe_redact :: "string list \<Rightarrow> string \<Rightarrow> string"
  pe_order :: "(string \<rightharpoonup> step_state) \<Rightarrow> step_state list"
  pe_budget :: "limits \<Rightarrow> nat \<Rightarrow> string \<Rightarrow> budget_request \<Rightarrow> go_error option"
  pe_engine :: "string \<Rightarrow> engine"
  pe_fuel :: nat
  pe_meanwhile :: "run_result \<Rightarrow> file_system \<times> database \<Rightarrow> file_system \<times> database"

type_synonym world = "file_system \<times> database"

datatype printed =
    PrintProgram program
  | PrintPrograms "program list"
  | PrintTask task
  | PrintTasks "task list"
  | PrintRun workflow_run
  | PrintApprovals "approval list"
  | PrintPlan target_plan
  | PrintValid string string nat
  | PrintPlanned target_plan wf_definition "(string \<times> string \<times> string \<times> risk \<times> bool) list"
  | PrintText string

record command_outcome =
  co_world :: world
  co_printed :: "printed list"
  co_error :: "go_error option"

definition failed_with :: "world \<Rightarrow> go_error \<Rightarrow> command_outcome" where
  "failed_with s e = \<lparr>co_world = s, co_printed = [], co_error = Some e\<rparr>"

definition printed_value :: "world \<Rightarrow> printed \<Rightarrow> command_outcome" where
  "printed_value s x = \<lparr>co_world = s, co_printed = [x], co_error = None\<rparr>"

text \<open>What a read prints, or its error.\<close>

definition print_read :: "world \<Rightarrow> ('a \<Rightarrow> printed) \<Rightarrow> 'a res \<Rightarrow> command_outcome" where
  "print_read s f r = (case r of Inl e \<Rightarrow> failed_with s e | Inr x \<Rightarrow> printed_value s (f x))"

definition ready_store :: "platform_env \<Rightarrow> go_error option" where
  "ready_store e = (case pe_open e of Some er \<Rightarrow> Some er | None \<Rightarrow> pe_migrate e)"

definition with_store :: "platform_env \<Rightarrow> world \<Rightarrow> command_outcome \<Rightarrow> command_outcome" where
  "with_store e s next_outcome = (case ready_store e of Some er \<Rightarrow> failed_with s er | None \<Rightarrow> next_outcome)"

subsection \<open>Scope and plan\<close>

definition load_burp :: "platform_env \<Rightarrow> string \<Rightarrow> scope res" where
  "load_burp e path =
     bind_res (pe_read_file e path) (\<lambda>b. bind_res (pe_burp e b) (\<lambda>(includes, excludes).
       compile_scope (pe_sha e) (pe_rx e) includes excludes))"

definition plan_of :: "platform_env \<Rightarrow> scope \<Rightarrow> manual_root list \<Rightarrow> target_plan res" where
  "plan_of e sc manual = plan_targets (pe_rx e) (pe_ip e) (pe_url e) (pe_sha e) sc manual"

definition load_scope_file :: "platform_env \<Rightarrow> string \<Rightarrow> scope res" where
  "load_scope_file e path =
     (case load_burp e path of Inl er \<Rightarrow> Inl (Wrapped ''load scope: '' er) | Inr sc \<Rightarrow> Inr sc)"

definition load_target_plan :: "platform_env \<Rightarrow> string \<Rightarrow> manual_root list \<Rightarrow> target_plan res" where
  "load_target_plan e path manual = bind_res (load_scope_file e path) (\<lambda>sc. plan_of e sc manual)"

definition no_targets :: go_error where
  "no_targets = Err ''target plan has no executable authorized targets''"

definition plan_text :: "target_plan \<Rightarrow> string" where
  "plan_text p =
     json_object
       [(''scope_digest'', json_string (tp_scope_digest p)), (''target_plan_digest'', json_string (tp_digest p)),
        (''discovery_roots'', json_array (map json_root (tp_discovery_roots p))),
        (''exact_active_seeds'', json_array (map json_seed (tp_seeds p))),
        (''wildcard_rules'', json_array (map json_wildcard (tp_wildcards p))),
        (''exclusions'', json_array (map json_summary (tp_exclusions p))),
        (''allowed_protocols'', json_strings (tp_protocols p)), (''allowed_ports'', json_ints (tp_ports p)),
        (''warnings'', json_array (map json_warning (tp_warnings p)))]"

definition warnings_text :: "target_plan \<Rightarrow> string" where
  "warnings_text p = json_array (map json_warning (tp_warnings p))"

definition snapshot_of :: "platform_env \<Rightarrow> string \<Rightarrow> string \<Rightarrow> scope \<Rightarrow> target_plan \<Rightarrow> scope_snapshot" where
  "snapshot_of e program path sc p =
     \<lparr>sn_id = pe_id e ''snapshot'', sn_program_id = program, sn_scope_reference = path,
      sn_scope_digest = sc_digest sc, sn_include_rule_digests = rule_digests (sc_include sc),
      sn_exclude_rule_digests = rule_digests (sc_exclude sc), sn_target_plan_digest = tp_digest p,
      sn_planning_warnings = warnings_text p, sn_target_plan = plan_text p, sn_expands_scope = False,
      sn_added_include_digests = [], sn_removed_include_digests = [], sn_added_exclude_digests = [],
      sn_removed_exclude_digests = [], sn_acknowledged_by = [], sn_acknowledged_at = None,
      sn_created_at = pe_now e\<rparr>"

definition manual_roots :: "string list \<Rightarrow> string \<Rightarrow> string \<Rightarrow> manual_root list res" where
  "manual_roots roots why deprecated_domain =
     (if roots \<noteq> [] \<and> trim_space why = []
      then Inl (Err ''--discovery-root-reason is required with --discovery-root'')
      else Inr (map (\<lambda>d. \<lparr>mr_domain = d, mr_reason = why\<rparr>) roots
        @ (if trim_space deprecated_domain \<noteq> []
           then [\<lparr>mr_domain = deprecated_domain, mr_reason = ''deprecated --domain compatibility input''\<rparr>] else [])))"

definition scope_plan_command :: "platform_env \<Rightarrow> string \<Rightarrow> string list \<Rightarrow> string \<Rightarrow> world \<Rightarrow> command_outcome" where
  "scope_plan_command e path roots why s =
     (if path = [] then failed_with s (Err ''--scope is required'')
      else print_read s PrintPlan
        (bind_res (manual_roots roots why []) (\<lambda>manual. load_target_plan e path manual)))"

subsection \<open>Programs and tasks\<close>

record program_flags =
  pf_name :: string
  pf_platform :: string
  pf_description :: string
  pf_scope :: string
  pf_policy :: string

definition default_program_flags :: program_flags where
  "default_program_flags =
     \<lparr>pf_name = [], pf_platform = ''private'', pf_description = [], pf_scope = [], pf_policy = ''default''\<rparr>"

definition new_program :: "platform_env \<Rightarrow> program_flags \<Rightarrow> scope \<Rightarrow> target_plan \<Rightarrow> program" where
  "new_program e f sc p =
     \<lparr>pg_id = pe_id e ''program'', pg_name = pf_name f, pg_platform = pf_platform f, pg_description = pf_description f,
      pg_scope_reference = pf_scope f, pg_policy_reference = pf_policy f, pg_scope_digest = sc_digest sc,
      pg_include_rule_digests = rule_digests (sc_include sc), pg_exclude_rule_digests = rule_digests (sc_exclude sc),
      pg_target_plan_digest = tp_digest p, pg_scope_plan_warnings = warnings_text p, pg_created_at = pe_now e,
      pg_updated_at = pe_now e\<rparr>"

definition create_program_command :: "platform_env \<Rightarrow> program_flags \<Rightarrow> world \<Rightarrow> command_outcome" where
  "create_program_command e f s =
     with_store e s
       (if pf_name f = [] \<or> pf_scope f = [] then failed_with s (Err ''--name and --scope are required'')
        else (case load_scope_file e (pf_scope f) of
                Inl er \<Rightarrow> failed_with s er
              | Inr sc \<Rightarrow>
                  (case plan_of e sc [] of
                     Inl er \<Rightarrow> failed_with s er
                   | Inr p \<Rightarrow>
                       if \<not> has_executable_targets p then failed_with s no_targets
                       else let pg = new_program e f sc p
                            in (case create_program (pe_store e ''create program'') pg
                                    (snapshot_of e (pg_id pg) (pf_scope f) sc p) (Some (pe_now e)) (snd s) of
                                  (db, Some er) \<Rightarrow> failed_with (fst s, db) er
                                | (db, None) \<Rightarrow> printed_value (fst s, db) (PrintProgram pg)))))"

definition list_programs_command :: "platform_env \<Rightarrow> world \<Rightarrow> command_outcome" where
  "list_programs_command e s =
     with_store e s (print_read s PrintPrograms (list_programs (pe_store e ''programs'') (snd s)))"

text \<open>The errors of the placeholder scope and plan are ignored; what is left then are the zero values.\<close>

definition zero_scope :: scope where
  "zero_scope = \<lparr>sc_include = [], sc_exclude = [], sc_digest = []\<rparr>"

definition zero_plan :: target_plan where
  "zero_plan =
     \<lparr>tp_scope_digest = [], tp_digest = [], tp_discovery_roots = [], tp_seeds = [], tp_wildcards = [],
      tp_exclusions = [], tp_protocols = [], tp_ports = [], tp_warnings = []\<rparr>"

definition placeholder_definition :: "platform_env \<Rightarrow> wf_definition" where
  "placeholder_definition e =
     (let sc = (case host_scope (pe_sha e) (pe_rx e) (pe_ip e) [''placeholder.invalid''] of
                  Inl er \<Rightarrow> zero_scope | Inr sc \<Rightarrow> sc);
          p = (case plan_of e sc [] of Inl er \<Rightarrow> zero_plan | Inr p \<Rightarrow> p)
      in continuous_web_recon (pe_print e) p False)"

definition store_definition :: "platform_env \<Rightarrow> wf_definition \<Rightarrow> database \<Rightarrow> database \<times> go_error option" where
  "store_definition e d db =
     create_workflow_definition (pe_store e ''definition'') (wd_id d) (wd_name d) (wd_version d) (wd_description d)
       (pe_definition_text e d) db"

definition new_task :: "platform_env \<Rightarrow> string \<Rightarrow> string \<Rightarrow> string \<Rightarrow> task_status \<Rightarrow> string \<Rightarrow> task" where
  "new_task e program objective definition_id status requested =
     \<lparr>tk_id = pe_id e ''task'', tk_program_id = program, tk_objective = objective,
      tk_workflow_definition_id = definition_id, tk_status = status, tk_requested_by = requested,
      tk_created_at = pe_now e, tk_updated_at = pe_now e, tk_schedule_reference = None, tk_cancelled_at = None,
      tk_cancellation_reason = []\<rparr>"

definition create_task_command :: "platform_env \<Rightarrow> string \<Rightarrow> string \<Rightarrow> string \<Rightarrow> world \<Rightarrow> command_outcome" where
  "create_task_command e program objective requested s =
     with_store e s
       (if program = [] \<or> objective = [] then failed_with s (Err ''--program-id and --objective are required'')
        else let d = placeholder_definition e
             in (case store_definition e d (snd s) of
                   (db, Some er) \<Rightarrow> failed_with (fst s, db) er
                 | (db, None) \<Rightarrow>
                     let t = new_task e program objective (wd_id d) TaskPending requested
                     in (case create_task (pe_store e ''create task'') t db of
                           (db', Some er) \<Rightarrow> failed_with (fst s, db') er
                         | (db', None) \<Rightarrow> printed_value (fst s, db') (PrintTask t))))"

definition task_verb :: "string \<Rightarrow> task_status option" where
  "task_verb verb =
     (if verb = ''pause'' then Some TaskPaused else if verb = ''resume'' then Some TaskRunning
      else if verb = ''cancel'' then Some TaskCancelled else None)"

text \<open>The other verbs of \<^verbatim>\<open>task\<close>, on the arguments behind the word \<^verbatim>\<open>task\<close>.\<close>

definition task_command :: "platform_env \<Rightarrow> string list \<Rightarrow> world \<Rightarrow> command_outcome" where
  "task_command e args s =
     (case args of
        [] \<Rightarrow> failed_with s (Err ''task requires create, list, show, pause, resume, or cancel'')
      | verb # rest \<Rightarrow>
          with_store e s
            (if verb = ''list'' then print_read s PrintTasks (list_tasks (pe_store e ''tasks'') (snd s))
             else if verb = ''show''
             then (case rest of
                     [] \<Rightarrow> failed_with s (Err ''task show <task-id>'')
                   | i # _ \<Rightarrow> print_read s PrintTask (get_task (pe_store e ''task'') i (snd s)))
             else (case task_verb verb of
                     None \<Rightarrow> failed_with s (Err (''unknown task command '' @ quoted verb))
                   | Some status \<Rightarrow>
                       (case rest of
                          [] \<Rightarrow> failed_with s (Err (''task '' @ verb @ '' <task-id>''))
                        | i # ws \<Rightarrow>
                            let why = (if verb = ''cancel'' \<and> ws \<noteq> [] then join_with '' '' ws else [])
                            in (case set_task_status (pe_store e ''task status'') i status why (snd s) of
                                  (db, er) \<Rightarrow> \<lparr>co_world = (fst s, db), co_printed = [], co_error = er\<rparr>)))))"

subsection \<open>Planning and validating a workflow\<close>

record run_flags =
  rf_program_id :: string
  rf_task_id :: string
  rf_objective :: string
  rf_domain :: string
  rf_scope :: string
  rf_workflow :: string
  rf_discovery_roots :: "string list"
  rf_discovery_reason :: string
  rf_acknowledge :: bool
  rf_resume :: string
  rf_approve :: bool
  rf_headless :: bool

definition default_run_flags :: "app_config \<Rightarrow> run_flags" where
  "default_run_flags cfg =
     \<lparr>rf_program_id = [], rf_task_id = [], rf_objective = ''continuous authorized web reconnaissance'', rf_domain = [],
      rf_scope = [], rf_workflow = ''continuous-web-recon'', rf_discovery_roots = [], rf_discovery_reason = [],
      rf_acknowledge = False, rf_resume = [], rf_approve = False, rf_headless = cfc_headless (cf_recon cfg)\<rparr>"

text \<open>The definition a plan gives, once it is valid against the registry.\<close>

definition checked_definition ::
  "platform_env \<Rightarrow> registry \<Rightarrow> string \<Rightarrow> target_plan \<Rightarrow> bool \<Rightarrow> wf_definition res" where
  "checked_definition e registry name p headless =
     (if \<not> has_executable_targets p then Inl no_targets
      else bind_res (build_workflow (pe_print e) name p headless) (\<lambda>d.
        case validate (eg_json (pe_engine e [])) (eg_iter (pe_engine e [])) registry d of
          Some er \<Rightarrow> Inl er
        | None \<Rightarrow> Inr d))"

definition planned_capabilities ::
  "registry \<Rightarrow> wf_definition \<Rightarrow> (string \<times> string \<times> string \<times> risk \<times> bool) list" where
  "planned_capabilities registry d =
     List.map_filter (\<lambda>st. case registry_get registry (st_capability st) of
         None \<Rightarrow> None
       | Some c \<Rightarrow> Some (st_id st, st_capability st, st_provider st, mf_risk (cap_manifest c),
           st_approval_required st \<or> mf_approval_required (cap_manifest c))) (wd_steps d)"

definition workflow_plan_command :: "platform_env \<Rightarrow> registry \<Rightarrow> run_flags \<Rightarrow> world \<Rightarrow> command_outcome" where
  "workflow_plan_command e registry f s =
     (if rf_program_id f = [] \<or> rf_scope f = [] then failed_with s (Err ''--program-id and --scope are required'')
      else print_read s (\<lambda>(p, d). PrintPlanned p d (planned_capabilities registry d))
        (bind_res (manual_roots (rf_discovery_roots f) (rf_discovery_reason f) (rf_domain f)) (\<lambda>manual.
         bind_res (load_target_plan e (rf_scope f) manual) (\<lambda>p.
         bind_res (checked_definition e registry (rf_workflow f) p (rf_headless f)) (\<lambda>d. Inr (p, d))))))"

definition workflow_validate_command ::
  "platform_env \<Rightarrow> app_config \<Rightarrow> registry \<Rightarrow> string \<Rightarrow> string \<Rightarrow> world \<Rightarrow> command_outcome" where
  "workflow_validate_command e cfg registry path name s =
     (if path = [] then failed_with s (Err ''--scope is required'')
      else print_read s (\<lambda>d. PrintValid (wd_name d) (wd_version d) (length (wd_steps d)))
        (bind_res (load_target_plan e path []) (\<lambda>p.
           checked_definition e registry name p (cfc_headless (cf_recon cfg)))))"

subsection \<open>Running a workflow\<close>

definition run_policy :: "app_config \<Rightarrow> registry \<Rightarrow> bool \<Rightarrow> policy" where
  "run_policy cfg registry headless =
     (let c = cf_policy cfg in
      \<lparr>pol_id = ''runtime'', allowed_capabilities = registry_names registry, denied_capabilities = [],
       rate_limit = cfp_rate_limit c, concurrency = cfp_concurrency c, provider_concurrency = cfp_provider_concurrency c,
       host_concurrency = cfp_host_concurrency c, scan_windows = cfp_scan_windows c,
       allowed_http_methods = cfp_allowed_methods c, authentication_usage = cfp_authentication_usage c,
       headless_browser = headless, directory_fuzzing = cfp_directory_fuzzing c, template_tags = [],
       excluded_template_tags = cfn_exclude_tags (cf_nuclei cfg), maximum_payload_size = cfp_max_payload_bytes c,
       follow_redirects = cfp_follow_redirects c, cross_origin = cfp_cross_origin c,
       intrusive_checks = cfp_intrusive_checks c, artifact_retention = cfp_artifact_retention c,
       moderate_approved = False\<rparr>)"

text \<open>The recorded decisions on the steps of a saved run that wait for one.\<close>

fun recorded_approval :: "(string \<Rightarrow> string res) \<Rightarrow> step_state list \<Rightarrow> bool \<Rightarrow> bool res" where
  "recorded_approval decide [] approved = Inr approved"
| "recorded_approval decide (ss # sss) approved =
     (if sr_status (ss_run ss) \<noteq> StepAwaitingApproval then recorded_approval decide sss approved
      else (case decide (sr_id (ss_run ss)) of
              Inl er \<Rightarrow> Inl er
            | Inr decision \<Rightarrow>
                if decision = ''rejected''
                then Inl (Err (''approval for step '' @ sr_step_definition_id (ss_run ss) @ '' was rejected''))
                else recorded_approval decide sss (approved \<or> decision = ''approved'')))"

definition state_approval :: "platform_env \<Rightarrow> wf_state option \<Rightarrow> database \<Rightarrow> bool res" where
  "state_approval e state db =
     (case state of
        None \<Rightarrow> Inr False
      | Some st \<Rightarrow>
          recorded_approval (\<lambda>i. step_approval_decision (pe_store e (''approval '' @ i)) i db)
            (pe_order e (ws_steps st)) False)"

text \<open>The controls a run starts with, and what the watcher of the task does to them, poll by poll.\<close>

definition initial_controls :: "task \<Rightarrow> controls" where
  "initial_controls t =
     (if tk_status t = TaskCancelled then controls_cancel new_controls
      else if tk_status t = TaskPaused then controls_pause new_controls else new_controls)"

fun watch_task :: "task res list \<Rightarrow> controls \<Rightarrow> controls" where
  "watch_task [] c = c"
| "watch_task (Inl er # polls) c = watch_task polls c"
| "watch_task (Inr t # polls) c =
     (if tk_status t = TaskCancelled then controls_cancel c
      else if tk_status t = TaskPaused then watch_task polls (controls_pause c) else watch_task polls c)"

text \<open>The engine of a run: its fields over the surroundings \<open>pe_engine\<close>, whose controls answer for the watcher.\<close>

definition run_engine ::
  "platform_env \<Rightarrow> app_config \<Rightarrow> registry \<Rightarrow> scope \<Rightarrow> bool \<Rightarrow> bool \<Rightarrow> task \<Rightarrow> engine" where
  "run_engine e cfg registry sc headless approve t =
     (let base = pe_engine e (tk_program_id t); p = run_policy cfg registry headless; c = initial_controls t;
          parallel = program_parallelism p
      in base\<lparr>eg_registry := registry, eg_policy := p, eg_scope := Some (allows (pe_url e) sc),
           eg_max_parallel := parallel,
           eg_budget := Some (pe_budget e \<lparr>lim_program = parallel, lim_provider = provider_concurrency p,
               lim_host = host_concurrency p\<rparr>),
           eg_approval := (if approve then Some (\<lambda>k st r. Inr True) else None),
           eg_paused := (\<lambda>k. ct_paused c \<or> eg_paused base k),
           eg_cancelled := (\<lambda>k. ct_cancelled c \<or> eg_cancelled base k)\<rparr>)"

definition finished_status :: "run_status \<Rightarrow> task_status option" where
  "finished_status st =
     (case st of
        RunCompleted \<Rightarrow> Some TaskCompleted | RunPaused \<Rightarrow> Some TaskPaused | RunFailed \<Rightarrow> Some TaskFailed
      | RunCancelled \<Rightarrow> Some TaskCancelled | _ \<Rightarrow> None)"

record run_call =
  rl_engine :: engine
  rl_definition :: wf_definition
  rl_state :: "wf_state option"
  rl_task :: task

text \<open>\<open>ro_call\<close> is the call of the engine, when the command comes to it, and \<open>ro_result\<close> its result.\<close>

record run_outcome =
  ro_world :: world
  ro_call :: "run_call option"
  ro_result :: "run_result option"
  ro_error :: "go_error option"

definition stopped_run :: "world \<Rightarrow> go_error \<Rightarrow> run_outcome" where
  "stopped_run s er = \<lparr>ro_world = s, ro_call = None, ro_result = None, ro_error = Some er\<rparr>"

definition settle_task :: "platform_env \<Rightarrow> task \<Rightarrow> run_result \<Rightarrow> world \<Rightarrow> world" where
  "settle_task e t r s =
     (case r of
        Returned rs er \<Rightarrow>
          (case finished_status (wr_status (ws_run (rn_state rs))) of
             None \<Rightarrow> s
           | Some status \<Rightarrow> (fst s, fst (set_task_status (pe_store e ''settle'') (tk_id t) status [] (snd s))))
      | _ \<Rightarrow> s)"

definition call_engine :: "platform_env \<Rightarrow> run_call \<Rightarrow> world \<Rightarrow> run_outcome" where
  "call_engine e c s =
     (let r = run (rl_engine c) (pe_fuel e) (rl_definition c) (rl_state c) (rl_task c)
      in \<lparr>ro_world = settle_task e (rl_task c) r (pe_meanwhile e r s), ro_call = Some c, ro_result = Some r,
          ro_error = (case r of Returned rs er \<Rightarrow> er | Rejected er \<Rightarrow> Some er | _ \<Rightarrow> None)\<rparr>)"

text \<open>From the task on: its program, the retention pass, the recorded decisions, the engine.\<close>

definition run_task ::
  "platform_env \<Rightarrow> app_config \<Rightarrow> registry \<Rightarrow> run_flags \<Rightarrow> scope \<Rightarrow> wf_definition \<Rightarrow> wf_state option \<Rightarrow> task \<Rightarrow>
     world \<Rightarrow> run_outcome" where
  "run_task e cfg registry f sc d state t s =
     (if tk_program_id t \<noteq> rf_program_id f
      then stopped_run s (Err (''task '' @ tk_id t @ '' belongs to program '' @ tk_program_id t @ '', not '' @ rf_program_id f))
      else (case new_local_store (pe_getwd e) (cfs_root (cf_storage cfg)) (pe_redact e (cfl_secret_names (cf_logging cfg))) of
              Inl er \<Rightarrow> stopped_run s er
            | Inr l \<Rightarrow>
                (case purge_expired (Some (\<lambda>k w. expired_artifacts (pe_store e ''purge'') k (snd w)))
                     (row_delete (pe_store e ''purge'')) (Some (disk_delete (pe_getwd e) (pe_faults e) l)) 1000 s of
                   (s1, n, Some er) \<Rightarrow> stopped_run s1 (Wrapped ''purge expired artifacts: '' er)
                 | (s1, n, None) \<Rightarrow>
                     (case state_approval e state (snd s1) of
                        Inl er \<Rightarrow> stopped_run s1 er
                      | Inr approved \<Rightarrow>
                          call_engine e
                            \<lparr>rl_engine = run_engine e cfg registry sc (rf_headless f) (rf_approve f \<or> approved) t,
                             rl_definition = d, rl_state = state, rl_task = t\<rparr> s1))))"

text \<open>The task of a run: that of the saved state, the one that is named, or a new one.\<close>

definition task_of_run ::
  "platform_env \<Rightarrow> run_flags \<Rightarrow> wf_definition \<Rightarrow> wf_state option \<Rightarrow> database \<Rightarrow> database \<times> task res" where
  "task_of_run e f d state db =
     (case state of
        Some st \<Rightarrow> (db, get_task (pe_store e ''task'') (wr_task_id (ws_run st)) db)
      | None \<Rightarrow>
          if rf_task_id f \<noteq> [] then (db, get_task (pe_store e ''task'') (rf_task_id f) db)
          else let t = new_task e (rf_program_id f) (rf_objective f) (wd_id d) TaskRunning ''cli''
               in (case create_task (pe_store e ''create task'') t db of
                     (db', Some er) \<Rightarrow> (db', Inl er) | (db', None) \<Rightarrow> (db', Inr t)))"

definition saved_state :: "platform_env \<Rightarrow> string \<Rightarrow> world \<Rightarrow> wf_state option res" where
  "saved_state e i s =
     (if i = [] then Inr None
      else bind_res (load_state (pe_cwd e) (pe_faults e) (pe_decode_state e) ''state/runs'' i (fst s)) (\<lambda>st. Inr (Some st)))"

text \<open>From the scope change on: the definition, the saved state, the task.\<close>

definition run_definition ::
  "platform_env \<Rightarrow> app_config \<Rightarrow> registry \<Rightarrow> run_flags \<Rightarrow> scope \<Rightarrow> target_plan \<Rightarrow> world \<Rightarrow> run_outcome" where
  "run_definition e cfg registry f sc p s =
     (case build_workflow (pe_print e) (rf_workflow f) p (rf_headless f) of
        Inl er \<Rightarrow> stopped_run s er
      | Inr d \<Rightarrow>
          (case store_definition e d (snd s) of
             (db1, Some er) \<Rightarrow> stopped_run (fst s, db1) er
           | (db1, None) \<Rightarrow>
               (case saved_state e (rf_resume f) (fst s, db1) of
                  Inl er \<Rightarrow> stopped_run (fst s, db1) er
                | Inr state \<Rightarrow>
                    (case task_of_run e f d state db1 of
                       (db2, Inl er) \<Rightarrow> stopped_run (fst s, db2) er
                     | (db2, Inr t) \<Rightarrow> run_task e cfg registry f sc d state t (fst s, db2)))))"

definition scope_expansion :: go_error where
  "scope_expansion =
     Err ''scope change expands authorization; review the plan and rerun with --acknowledge-scope-expansion''"

definition workflow_run_command ::
  "platform_env \<Rightarrow> app_config \<Rightarrow> registry \<Rightarrow> run_flags \<Rightarrow> world \<Rightarrow> run_outcome" where
  "workflow_run_command e cfg registry f s =
     (if rf_program_id f = [] \<or> rf_scope f = [] then stopped_run s (Err ''--program-id and --scope are required'')
      else (case bind_res (manual_roots (rf_discovery_roots f) (rf_discovery_reason f) (rf_domain f)) (\<lambda>manual.
                 bind_res (load_burp e (rf_scope f)) (\<lambda>sc.
                 bind_res (plan_of e sc manual) (\<lambda>p.
                 if has_executable_targets p then Inr (sc, p) else Inl no_targets))) of
              Inl er \<Rightarrow> stopped_run s er
            | Inr (sc, p) \<Rightarrow>
                (case ready_store e of
                   Some er \<Rightarrow> stopped_run s er
                 | None \<Rightarrow>
                     (case check_and_record (pe_store e ''scope'') (snapshot_of e (rf_program_id f) (rf_scope f) sc p)
                          (rf_acknowledge f) ''cli'' (snd s) of
                        (db1, change, Some er) \<Rightarrow> stopped_run (fst s, db1) er
                      | (db1, change, None) \<Rightarrow>
                          if sch_expands_scope change \<and> \<not> sch_acknowledged change
                          then stopped_run (fst s, db1) scope_expansion
                          else run_definition e cfg registry f sc p (fst s, db1)))))"

subsection \<open>Approvals, runs and reports\<close>

text \<open>\<^verbatim>\<open>run show\<close>; \<^verbatim>\<open>run retry\<close> is \<open>workflow_run_command\<close> with the run as \<open>rf_resume\<close>.\<close>

definition run_command :: "platform_env \<Rightarrow> string list \<Rightarrow> world \<Rightarrow> command_outcome" where
  "run_command e args s =
     (case args of
        verb # i # _ \<Rightarrow>
          with_store e s
            (if verb = ''show'' then print_read s PrintRun (get_workflow_run (pe_store e ''run'') i (snd s))
             else failed_with s (Err ''unknown run command''))
      | _ \<Rightarrow> failed_with s (Err ''run show|retry <run-id>''))"

definition approval_verb :: "string \<Rightarrow> string option" where
  "approval_verb verb =
     (if verb = ''approve'' then Some ''approved'' else if verb = ''reject'' then Some ''rejected'' else None)"

definition approval_command :: "platform_env \<Rightarrow> string list \<Rightarrow> world \<Rightarrow> command_outcome" where
  "approval_command e args s =
     (case args of
        [] \<Rightarrow> failed_with s (Err ''approvals requires list, approve, or reject'')
      | verb # rest \<Rightarrow>
          with_store e s
            (if verb = ''list'' then print_read s PrintApprovals (list_approvals (pe_store e ''approvals'') (snd s))
             else (case approval_verb verb of
                     None \<Rightarrow> failed_with s (Err ''unknown approvals command'')
                   | Some decision \<Rightarrow>
                       (case rest of
                          [] \<Rightarrow> failed_with s (Err (''approvals '' @ verb @ '' <approval-id> [actor]''))
                        | i # ws \<Rightarrow>
                            let actor = (case ws of [] \<Rightarrow> ''human'' | a # _ \<Rightarrow> a)
                            in (case decide_approval (pe_store e ''decide'') i decision actor (snd s) of
                                  (db, er) \<Rightarrow> \<lparr>co_world = (fst s, db), co_printed = [], co_error = er\<rparr>)))))"

definition report_command :: "platform_env \<Rightarrow> string list \<Rightarrow> world \<Rightarrow> command_outcome" where
  "report_command e args s =
     (case args of
        verb # i # _ \<Rightarrow>
          if verb \<noteq> ''changes'' then failed_with s (Err ''report changes <program-id>'')
          else with_store e s (print_read s PrintText (latest_changes (pe_store e ''changes'') i (snd s)))
      | _ \<Rightarrow> failed_with s (Err ''report changes <program-id>''))"

subsection \<open>The queue\<close>

datatype queue_answer =
    QueueFailed go_error
  | QueuePending "int option"
  | QueueMessages "redis_message list"
  | QueueRetried

definition platform_streams :: "redis_client \<Rightarrow> app_config \<Rightarrow> streams" where
  "platform_streams client cfg =
     (let w = cf_worker cfg
      in new_streams client (cfw_consumer_group w) (cfw_consumer_name w) (cfw_max_retries w) (cfw_retry_base w))"

definition queue_command ::
  "(job \<Rightarrow> string res) \<Rightarrow> (string \<Rightarrow> job res) \<Rightarrow> 8 word list \<Rightarrow> int \<Rightarrow> int option res \<Rightarrow>
     (int \<Rightarrow> redis_message list res) \<Rightarrow> redis_client \<Rightarrow> app_config \<Rightarrow> string list \<Rightarrow> transactions \<times> queue_answer" where
  "queue_command enc dec random now pending dead client cfg args =
     (case args of
        [] \<Rightarrow> ([], QueueFailed (Err ''queue requires pending, failed, or retry''))
      | verb # rest \<Rightarrow>
          let q = platform_streams client cfg
          in (case ensure_group q of
                Some er \<Rightarrow> ([], QueueFailed er)
              | None \<Rightarrow>
                  if verb = ''pending''
                  then ([], case pending of Inl er \<Rightarrow> QueueFailed er | Inr n \<Rightarrow> QueuePending n)
                  else if verb = ''failed''
                  then ([], case dead 100 of Inl er \<Rightarrow> QueueFailed er | Inr ms \<Rightarrow> QueueMessages ms)
                  else if verb = ''retry''
                  then (case rest of
                          [] \<Rightarrow> ([], QueueFailed (Err ''queue retry <dead-letter-message-id>''))
                        | i # _ \<Rightarrow>
                            (case retry_dead_letter enc dec random now q i of
                               (txs, Some er) \<Rightarrow> (txs, QueueFailed er) | (txs, None) \<Rightarrow> (txs, QueueRetried)))
                  else ([], QueueFailed (Err ''unknown queue command''))))"

subsection \<open>Console, doctor and worker\<close>

text \<open>\<open>split_host_port\<close> is \<^verbatim>\<open>net.SplitHostPort\<close>, \<open>loopback\<close> tells whether an address that parses is a loopback one.\<close>

definition require_loopback ::
  "(string \<Rightarrow> (string \<times> string) res) \<Rightarrow> ip_parser \<Rightarrow> (string \<Rightarrow> bool) \<Rightarrow> string \<Rightarrow> go_error option" where
  "require_loopback split_host_port ip loopback address =
     (case split_host_port address of
        Inl er \<Rightarrow> Some (Err ''console --listen must be a loopback host:port'')
      | Inr (host, port) \<Rightarrow>
          if port = [] then Some (Err ''console --listen must be a loopback host:port'')
          else if equal_fold host ''localhost'' then None
          else (case ip host of
                  None \<Rightarrow> Some (Err (''console refuses non-loopback address '' @ quoted address
                    @ '' because authentication is not configured''))
                | Some canonical \<Rightarrow>
                    if loopback canonical then None
                    else Some (Err (''console refuses non-loopback address '' @ quoted address
                      @ '' because authentication is not configured''))))"

text \<open>Up to the start of the server: \<open>Inr\<close> is the address it listens on.\<close>

definition console_command ::
  "platform_env \<Rightarrow> (string \<Rightarrow> (string \<times> string) res) \<Rightarrow> (string \<Rightarrow> bool) \<Rightarrow> redis_client \<Rightarrow> app_config \<Rightarrow> string \<Rightarrow>
     string res" where
  "console_command e split_host_port loopback client cfg listen =
     (case require_loopback split_host_port (pe_ip e) loopback listen of
        Some er \<Rightarrow> Inl er
      | None \<Rightarrow>
          (case ready_store e of
             Some er \<Rightarrow> Inl er
           | None \<Rightarrow>
               (case ensure_group (platform_streams client cfg) of
                  Some er \<Rightarrow> Inl (Wrapped ''initialize console queue view: '' er)
                | None \<Rightarrow> Inr listen)))"

definition unhealthy :: go_error where
  "unhealthy = Err ''required environment checks failed''"

definition doctor_command ::
  "doctor_env \<Rightarrow> app_config \<Rightarrow> go_error option \<Rightarrow> string \<Rightarrow> doctor_report option \<times> go_error option" where
  "doctor_command v cfg config_error format =
     (let report = run_doctor v cfg config_error; kind = to_lower (trim_space format) in
      if kind \<noteq> ''table'' \<and> kind \<noteq> ''json''
      then (None, Some (Err (''unsupported doctor format '' @ quoted format @ '' (use table or json)'')))
      else (Some report, if dr_healthy report then None else Some unhealthy))"

text \<open>
  \<^verbatim>\<open>run\<close> of \<^verbatim>\<open>cmd/worker/main.go\<close> up to the service: every check has to succeed, the optional ones as well. \<open>ping\<close>
  is the answer of Redis; \<open>Inr\<close> has the streams, the artifact store and the limits the service gets.
\<close>

definition worker_limits :: "app_config \<Rightarrow> policy \<Rightarrow> limits" where
  "worker_limits cfg p =
     \<lparr>lim_program = program_parallelism p, lim_provider = cfp_provider_concurrency (cf_policy cfg),
      lim_host = cfp_host_concurrency (cf_policy cfg)\<rparr>"

definition worker_policy :: "app_config \<Rightarrow> policy" where
  "worker_policy cfg =
     zero_policy\<lparr>rate_limit := cfp_rate_limit (cf_policy cfg), concurrency := cfp_concurrency (cf_policy cfg)\<rparr>"

definition start_service ::
  "platform_env \<Rightarrow> doctor_env \<Rightarrow> go_error option \<Rightarrow> redis_client \<Rightarrow> app_config res \<Rightarrow>
     (streams \<times> local_store \<times> limits) res" where
  "start_service e v ping client loaded =
     bind_res loaded (\<lambda>cfg.
       let failing = failures (check_provider_environment v cfg) True in
       if failing \<noteq> []
       then Inl (Err (''worker environment is incomplete: '' @ itoa (int (length failing)) @ '' provider checks failed''))
       else (case ready_store e of
               Some er \<Rightarrow> Inl er
             | None \<Rightarrow>
                 (case ping of
                    Some er \<Rightarrow> Inl er
                  | None \<Rightarrow>
                      bind_res (new_local_store (pe_getwd e) (cfs_root (cf_storage cfg))
                          (pe_redact e (cfl_secret_names (cf_logging cfg))))
                        (\<lambda>l. Inr (platform_streams client cfg, l, worker_limits cfg (worker_policy cfg))))))"

subsection \<open>The command line\<close>

datatype dispatched =
    ShowUsage
  | ConfigurationRefused go_error
  | ToScope "string list"
  | ToDoctor app_config "go_error option" "string list"
  | ToCommand string app_config "string list"

definition platform_commands :: "string list" where
  "platform_commands =
     [''migrate'', ''program'', ''task'', ''workflow'', ''run'', ''approvals'', ''queue'', ''report'', ''console'',
      ''capabilities'']"

text \<open>
  \<^verbatim>\<open>run\<close>; \<open>load\<close> reads and checks the configuration, with or without the need of a database. Only \<^verbatim>\<open>workflow plan\<close>
  and \<^verbatim>\<open>doctor\<close> do without one.
\<close>

definition dispatch_args :: "(bool \<Rightarrow> app_config \<times> go_error option) \<Rightarrow> string list \<Rightarrow> dispatched" where
  "dispatch_args load args =
     (case args of
        [] \<Rightarrow> ShowUsage
      | verb # rest \<Rightarrow>
          if verb = ''scope'' then ToScope rest
          else if verb = ''doctor'' then (case load False of (cfg, er) \<Rightarrow> ToDoctor cfg er rest)
          else (case load (\<not> (verb = ''workflow'' \<and> rest \<noteq> [] \<and> hd rest = ''plan'')) of
                  (cfg, Some er) \<Rightarrow> ConfigurationRefused er
                | (cfg, None) \<Rightarrow> if verb \<in> set platform_commands then ToCommand verb cfg rest else ShowUsage))"

end
