(* ===== verification/PlatformFacts.thy ===== *)
theory PlatformFacts
  imports Platform
begin

text \<open>
  What the commands of the operator guarantee: what has to hold before a run of a workflow reaches the engine, what the
  switch of the operator (a paused or cancelled task) does to it, and where the console listens.
\<close>

subsection \<open>The store keeps its approvals until somebody decides\<close>

interpretation approvals: audited_relation "\<lambda>a b. db_approvals b = db_approvals a"
  by unfold_locales simp_all

lemma check_and_record_approvals:
  "db_approvals (fst (check_and_record v s acknowledge actor db)) = db_approvals db"
proof -
  have rc: "approvals.keeps (record_change v s change actor)" for change
    unfolding record_change_def
    by (intro approvals.keeps_bind approvals.keeps_statement_ids approvals.keeps_if approvals.keeps_statement
        approvals.keeps_Inr) (auto simp: adopt_scope_def)
  have k: "approvals.keeps (\<lambda>t. bind_res (if b then record_change v s change actor t else Inr t)
      (insert_audits v evs))" for b change evs
    by (intro approvals.keeps_bind approvals.keeps_if rc approvals.keeps_Inr approvals.keeps_audits)
  show ?thesis
  proof (cases "se_fault v 0 = None \<and> se_fault v 1 = None")
    case True
    then show ?thesis
      unfolding check_and_record_def Let_def
      by (simp only: fst_conv prod.case option.case) (rule approvals.commit_rel [OF k], simp add: start_tx_def)
  next
    case False
    then show ?thesis by (auto simp: check_and_record_def split: option.splits)
  qed
qed

lemma store_definition_approvals: "db_approvals (fst (store_definition e d db)) = db_approvals db"
  unfolding store_definition_def create_workflow_definition_def
  by (rule approvals.execute_one_rel) auto

lemma create_task_approvals: "db_approvals (fst (create_task v t db)) = db_approvals db"
  unfolding create_task_def
  by (intro approvals.transaction_rel approvals.keeps_bind approvals.keeps_statement approvals.keeps_audit)
    (auto simp: bind_res_Inr)

lemma delete_row_approvals: "db_approvals (fst (delete_artifact_row v i db)) = db_approvals db"
  unfolding delete_artifact_row_def
  by (intro approvals.transaction_rel approvals.keeps_bind approvals.keeps_statement)
    (auto simp: forget_stdout_def forget_stderr_def forget_observed_def forget_candidates_def split: if_splits)

lemma purge_items_approvals:
  "db_approvals (snd (fst (purge_items (disk_delete g w l) (row_delete v) rows n s))) = db_approvals (snd s)"
proof (induction rows arbitrary: n s)
  case (Cons a rows)
  obtain s1 e1 where d: "disk_delete g w l a s = (s1, e1)" by fastforce
  obtain s2 e2 where r: "row_delete v (art_id a) s1 = (s2, e2)" by fastforce
  have "snd s1 = snd s" using d by (auto simp: disk_delete_def split: prod.splits)
  moreover have "db_approvals (snd s2) = db_approvals (snd s1)"
    using r delete_row_approvals [of v "art_id a" "snd s1"] by (auto simp: row_delete_def split: prod.splits)
  ultimately show ?case using d r Cons.IH by (cases e1; cases e2) auto
qed simp

lemma purge_approvals:
  "db_approvals (snd (fst (purge_expired ex (row_delete v) (Some (disk_delete g w l)) n s))) = db_approvals (snd s)"
  by (auto simp: purge_expired_def purge_items_approvals split: option.splits sum.splits)

subsection \<open>What a run of the command needs\<close>

definition waiting :: "step_state \<Rightarrow> bool" where
  "waiting ss \<longleftrightarrow> sr_status (ss_run ss) = StepAwaitingApproval"

definition decided_as :: "database \<Rightarrow> step_state \<Rightarrow> string option" where
  "decided_as db ss = map_option ap_decision (find (\<lambda>a. ap_request_id a = sr_id (ss_run ss)) (db_approvals db))"

lemma find_filter: "find P xs = (case List.filter P xs of [] \<Rightarrow> None | x # _ \<Rightarrow> Some x)"
  by (induction xs) auto

lemma decision_read:
  "step_approval_decision v (sr_id (ss_run ss)) db = Inr d \<Longrightarrow> decided_as db ss = Some d"
  by (auto simp: step_approval_decision_def query_def decided_as_def find_filter split: option.splits list.splits)

lemma recorded_approval_spec:
  assumes "recorded_approval decide sss approved = Inr b" and "\<And>ss d. decide (sr_id (ss_run ss)) = Inr d \<Longrightarrow> P ss d"
  shows "(\<forall>ss \<in> set sss. waiting ss \<longrightarrow> (\<exists>d. P ss d \<and> d \<noteq> ''rejected'')) \<and>
    (b \<longrightarrow> approved \<or> (\<exists>ss \<in> set sss. waiting ss \<and> P ss ''approved''))"
  using assms(1)
proof (induction sss arbitrary: approved)
  case (Cons ss sss)
  show ?case
  proof (cases "waiting ss")
    case False
    then show ?thesis using Cons by (auto simp: waiting_def)
  next
    case True
    then obtain d where d: "decide (sr_id (ss_run ss)) = Inr d" "d \<noteq> ''rejected''"
      and rest: "recorded_approval decide sss (approved \<or> d = ''approved'') = Inr b"
      using Cons.prems by (auto simp: waiting_def split: sum.splits if_splits)
    from Cons.IH [OF rest] assms(2) [OF d(1)] d(2) True show ?thesis by auto
  qed
qed simp

definition states_of :: "platform_env \<Rightarrow> wf_state option \<Rightarrow> step_state list" where
  "states_of e state = (case state of None \<Rightarrow> [] | Some st \<Rightarrow> pe_order e (ws_steps st))"

lemma state_approval_spec:
  assumes "state_approval e state db = Inr b"
  shows "(\<forall>ss \<in> set (states_of e state). waiting ss \<longrightarrow> (\<exists>d. decided_as db ss = Some d \<and> d \<noteq> ''rejected'')) \<and>
    (b \<longrightarrow> (\<exists>ss \<in> set (states_of e state). waiting ss \<and> decided_as db ss = Some ''approved''))"
proof (cases state)
  case (Some st)
  then have run: "recorded_approval (\<lambda>i. step_approval_decision (pe_store e (''approval '' @ i)) i db)
      (pe_order e (ws_steps st)) False = Inr b"
    using assms by (simp add: state_approval_def)
  have "(\<forall>ss \<in> set (pe_order e (ws_steps st)). waiting ss \<longrightarrow> (\<exists>d. decided_as db ss = Some d \<and> d \<noteq> ''rejected'')) \<and>
      (b \<longrightarrow> False \<or> (\<exists>ss \<in> set (pe_order e (ws_steps st)). waiting ss \<and> decided_as db ss = Some ''approved''))"
    by (rule recorded_approval_spec [OF run]) (rule decision_read)
  then show ?thesis by (simp add: states_of_def Some)
qed (use assms in \<open>simp add: states_of_def state_approval_def\<close>)

lemma run_task_call:
  assumes "ro_call (run_task e cfg registry f sc d state t s) = Some c"
  shows "tk_program_id t = rf_program_id f \<and>
    (\<exists>approved. (\<forall>ss \<in> set (states_of e state). waiting ss \<longrightarrow>
          (\<exists>x. decided_as (snd s) ss = Some x \<and> x \<noteq> ''rejected'')) \<and>
       (approved \<longrightarrow> (\<exists>ss \<in> set (states_of e state). waiting ss \<and> decided_as (snd s) ss = Some ''approved'')) \<and>
       c = \<lparr>rl_engine = run_engine e cfg registry sc (rf_headless f) (rf_approve f \<or> approved) t,
            rl_definition = d, rl_state = state, rl_task = t\<rparr>) \<and>
    ro_result (run_task e cfg registry f sc d state t s) =
      Some (run (rl_engine c) (pe_fuel e) (rl_definition c) (rl_state c) (rl_task c))"
proof -
  have own: "tk_program_id t = rf_program_id f"
    by (rule ccontr) (use assms in \<open>simp add: run_task_def stopped_run_def\<close>)
  obtain l where l: "new_local_store (pe_getwd e) (cfs_root (cf_storage cfg))
      (pe_redact e (cfl_secret_names (cf_logging cfg))) = Inr l"
    using assms own by (auto simp: run_task_def stopped_run_def split: sum.splits)
  obtain s1 n er where purge: "purge_expired (Some (\<lambda>k w. expired_artifacts (pe_store e ''purge'') k (snd w)))
      (row_delete (pe_store e ''purge'')) (Some (disk_delete (pe_getwd e) (pe_faults e) l)) 1000 s = (s1, n, er)"
    by (cases "purge_expired (Some (\<lambda>k w. expired_artifacts (pe_store e ''purge'') k (snd w)))
      (row_delete (pe_store e ''purge'')) (Some (disk_delete (pe_getwd e) (pe_faults e) l)) 1000 s") blast
  have none: "er = None" using assms own l purge by (cases er) (simp_all add: run_task_def stopped_run_def)
  have same: "db_approvals (snd s1) = db_approvals (snd s)"
    using purge_approvals [of _ "pe_store e ''purge''" "pe_getwd e" "pe_faults e" l 1000 s] purge by (metis fst_conv)
  have decided: "decided_as (snd s1) = decided_as (snd s)" by (rule ext) (simp add: decided_as_def same)
  obtain approved where approved: "state_approval e state (snd s1) = Inr approved"
    using assms own l purge none
    by (cases "state_approval e state (snd s1)") (simp_all add: run_task_def stopped_run_def)
  have "c = \<lparr>rl_engine = run_engine e cfg registry sc (rf_headless f) (rf_approve f \<or> approved) t,
            rl_definition = d, rl_state = state, rl_task = t\<rparr>"
    using assms own l purge none approved by (simp add: run_task_def call_engine_def Let_def)
  moreover from this have "ro_result (run_task e cfg registry f sc d state t s) =
      Some (run (rl_engine c) (pe_fuel e) (rl_definition c) (rl_state c) (rl_task c))"
    using own l purge none approved by (simp add: run_task_def call_engine_def Let_def)
  ultimately show ?thesis using own state_approval_spec [OF approved] unfolding decided by blast
qed

lemma task_of_run_approvals: "db_approvals (fst (task_of_run e f d state db)) = db_approvals db"
  using create_task_approvals [of "pe_store e ''create task''"
      "new_task e (rf_program_id f) (rf_objective f) (wd_id d) TaskRunning ''cli''" db]
  by (auto simp: task_of_run_def Let_def split: option.splits prod.splits)

lemma run_definition_call:
  assumes "ro_call (run_definition e cfg registry f sc p s) = Some c"
  shows "\<exists>d state t db. build_workflow (pe_print e) (rf_workflow f) p (rf_headless f) = Inr d \<and>
    db_approvals db = db_approvals (snd s) \<and>
    run_definition e cfg registry f sc p s = run_task e cfg registry f sc d state t (fst s, db)"
proof -
  obtain d where d: "build_workflow (pe_print e) (rf_workflow f) p (rf_headless f) = Inr d"
    using assms
    by (cases "build_workflow (pe_print e) (rf_workflow f) p (rf_headless f)") (simp_all add: run_definition_def stopped_run_def)
  obtain db1 e1 where stored: "store_definition e d (snd s) = (db1, e1)" by fastforce
  have none: "e1 = None" using assms d stored by (cases e1) (simp_all add: run_definition_def stopped_run_def)
  obtain state where state: "saved_state e (rf_resume f) (fst s, db1) = Inr state"
    using assms d stored none
    by (cases "saved_state e (rf_resume f) (fst s, db1)") (simp_all add: run_definition_def stopped_run_def)
  obtain db2 r where task: "task_of_run e f d state db1 = (db2, r)" by fastforce
  obtain t where t: "r = Inr t"
    using assms d stored none state task by (cases r) (simp_all add: run_definition_def stopped_run_def)
  have "run_definition e cfg registry f sc p s = run_task e cfg registry f sc d state t (fst s, db2)"
    using d stored none state task t by (simp add: run_definition_def)
  moreover have "db_approvals db2 = db_approvals (snd s)"
    using store_definition_approvals [of e d "snd s"] task_of_run_approvals [of e f d state db1] stored task by simp
  ultimately show ?thesis using d by blast
qed

lemma change_against_open: "\<not> sch_acknowledged (change_against previous s)"
  by (simp add: change_against_def scope_change_of_def Let_def split: option.split)

lemma acknowledged_only_if_asked:
  assumes "check_and_record v s acknowledge actor db = (db', change, None)"
    and "sch_expands_scope change" and "sch_acknowledged change"
  shows "acknowledge"
proof -
  have "change = change_made s acknowledge db"
    using assms(1) by (auto simp: check_and_record_def Let_def split: option.splits)
  then show ?thesis using assms(2,3) change_against_open by (auto simp: change_made_def Let_def split: if_splits)
qed

lemma workflow_run_stages:
  assumes "ro_call (workflow_run_command e cfg registry f s) = Some c"
  shows "\<exists>sc manual p db change d state t db2.
    load_burp e (rf_scope f) = Inr sc \<and>
    manual_roots (rf_discovery_roots f) (rf_discovery_reason f) (rf_domain f) = Inr manual \<and>
    plan_of e sc manual = Inr p \<and> has_executable_targets p \<and>
    build_workflow (pe_print e) (rf_workflow f) p (rf_headless f) = Inr d \<and>
    check_and_record (pe_store e ''scope'') (snapshot_of e (rf_program_id f) (rf_scope f) sc p)
       (rf_acknowledge f) ''cli'' (snd s) = (db, change, None) \<and>
    (sch_expands_scope change \<longrightarrow> rf_acknowledge f) \<and> db_approvals db2 = db_approvals (snd s) \<and>
    workflow_run_command e cfg registry f s = run_task e cfg registry f sc d state t (fst s, db2)"
proof -
  let ?found = "bind_res (manual_roots (rf_discovery_roots f) (rf_discovery_reason f) (rf_domain f)) (\<lambda>manual.
      bind_res (load_burp e (rf_scope f)) (\<lambda>sc. bind_res (plan_of e sc manual) (\<lambda>p.
      if has_executable_targets p then Inr (sc, p) else Inl no_targets)))"
  have named: "\<not> (rf_program_id f = [] \<or> rf_scope f = [])"
    by (rule notI) (use assms in \<open>simp add: workflow_run_command_def stopped_run_def\<close>)
  obtain sc p where found: "?found = Inr (sc, p)"
  proof (cases ?found)
    case (Inl er)
    then show ?thesis using assms named by (simp add: workflow_run_command_def stopped_run_def)
  qed (metis prod.collapse that)
  then obtain manual where plan: "manual_roots (rf_discovery_roots f) (rf_discovery_reason f) (rf_domain f) = Inr manual"
      "load_burp e (rf_scope f) = Inr sc" "plan_of e sc manual = Inr p" "has_executable_targets p"
    by (auto simp: bind_res_Inr split: if_splits)
  have ready: "ready_store e = None"
    using assms named found by (cases "ready_store e") (simp_all add: workflow_run_command_def stopped_run_def)
  let ?checked = "check_and_record (pe_store e ''scope'') (snapshot_of e (rf_program_id f) (rf_scope f) sc p)
      (rf_acknowledge f) ''cli'' (snd s)"
  obtain db change er where checked: "?checked = (db, change, er)" by (cases ?checked) blast
  have none: "er = None"
    using assms named found ready checked by (cases er) (simp_all add: workflow_run_command_def stopped_run_def)
  have expanding: "(sch_expands_scope change \<and> \<not> sch_acknowledged change) = False"
    by (rule ccontr) (use assms named found ready checked none in \<open>simp add: workflow_run_command_def stopped_run_def\<close>)
  then have asked: "sch_expands_scope change \<longrightarrow> rf_acknowledge f"
    using acknowledged_only_if_asked checked none expanding by blast
  have same: "db_approvals db = db_approvals (snd s)" using check_and_record_approvals checked by (metis fst_conv)
  have to: "workflow_run_command e cfg registry f s = run_definition e cfg registry f sc p (fst s, db)"
    using named found ready checked none unfolding workflow_run_command_def by (simp add: expanding)
  from run_definition_call [OF assms [unfolded to]] same to plan checked none asked show ?thesis by auto
qed

text \<open>
  C4: The run command reaches the engine only when the scope file loads and gives a plan with
  executable targets, the scope change was recorded and an expansion acknowledged, and the task
  belongs to the program; the engine then works on the definition built from that plan, with that
  scope and the policy of the configuration, no waiting step was rejected, and steps may pass the
  approval gate only if the operator asked for it or a recorded approval of a waiting step exists.
\<close>

theorem the_engine_runs_only_what_was_authorised:
  assumes "ro_call (workflow_run_command e cfg registry f s) = Some c"
  shows "\<exists>sc manual p.
    load_burp e (rf_scope f) = Inr sc \<and>
    manual_roots (rf_discovery_roots f) (rf_discovery_reason f) (rf_domain f) = Inr manual \<and>
    plan_of e sc manual = Inr p \<and> has_executable_targets p \<and>
    build_workflow (pe_print e) (rf_workflow f) p (rf_headless f) = Inr (rl_definition c) \<and>
    (\<exists>db change. check_and_record (pe_store e ''scope'') (snapshot_of e (rf_program_id f) (rf_scope f) sc p)
         (rf_acknowledge f) ''cli'' (snd s) = (db, change, None) \<and>
       (sch_expands_scope change \<longrightarrow> rf_acknowledge f)) \<and>
    tk_program_id (rl_task c) = rf_program_id f \<and>
    eg_scope (rl_engine c) = Some (allows (pe_url e) sc) \<and>
    eg_policy (rl_engine c) = run_policy cfg registry (rf_headless f) \<and>
    (\<forall>ss \<in> set (states_of e (rl_state c)). waiting ss \<longrightarrow>
       (\<exists>d. decided_as (snd s) ss = Some d \<and> d \<noteq> ''rejected'')) \<and>
    (eg_approval (rl_engine c) \<noteq> None \<longrightarrow> rf_approve f \<or>
       (\<exists>ss \<in> set (states_of e (rl_state c)). waiting ss \<and> decided_as (snd s) ss = Some ''approved''))"
proof -
  from workflow_run_stages [OF assms] obtain sc manual p db change d state t db2 where
      plan: "load_burp e (rf_scope f) = Inr sc"
        "manual_roots (rf_discovery_roots f) (rf_discovery_reason f) (rf_domain f) = Inr manual"
        "plan_of e sc manual = Inr p" "has_executable_targets p"
    and d: "build_workflow (pe_print e) (rf_workflow f) p (rf_headless f) = Inr d"
    and checked: "check_and_record (pe_store e ''scope'') (snapshot_of e (rf_program_id f) (rf_scope f) sc p)
       (rf_acknowledge f) ''cli'' (snd s) = (db, change, None)" "sch_expands_scope change \<longrightarrow> rf_acknowledge f"
    and same: "db_approvals db2 = db_approvals (snd s)"
    and to: "workflow_run_command e cfg registry f s = run_task e cfg registry f sc d state t (fst s, db2)"
    by blast
  have decided: "decided_as db2 = decided_as (snd s)" by (rule ext) (simp add: decided_as_def same)
  note task = run_task_call [OF assms [unfolded to], unfolded snd_conv decided]
  obtain approved where
      c: "c = \<lparr>rl_engine = run_engine e cfg registry sc (rf_headless f) (rf_approve f \<or> approved) t,
            rl_definition = d, rl_state = state, rl_task = t\<rparr>"
    and rejected: "\<forall>ss \<in> set (states_of e state). waiting ss \<longrightarrow> (\<exists>d. decided_as (snd s) ss = Some d \<and> d \<noteq> ''rejected'')"
    and approved: "approved \<longrightarrow> (\<exists>ss \<in> set (states_of e state). waiting ss \<and> decided_as (snd s) ss = Some ''approved'')"
    using task by blast
  have engine: "eg_scope (rl_engine c) = Some (allows (pe_url e) sc)"
      "eg_policy (rl_engine c) = run_policy cfg registry (rf_headless f)"
      "eg_approval (rl_engine c) \<noteq> None \<longrightarrow> rf_approve f \<or> approved"
    unfolding c by (simp_all add: run_engine_def Let_def)
  have parts: "rl_definition c = d" "rl_state c = state" "rl_task c = t" unfolding c by simp_all
  show ?thesis
    unfolding parts using plan d checked task engine rejected approved by blast
qed

subsection \<open>The switch of the operator\<close>

lemma save_waves [simp]: "rn_waves (fst (save e s)) = rn_waves s"
  by (simp add: save_def pass_tick_def split: option.split)

lemma event_waves [simp]: "rn_waves (event e typ i msg s) = rn_waves s"
  by (simp add: event_def pass_tick_def append_event_def)

lemma frame_waves [simp]:
  "rn_waves (pass_tick s) = rn_waves s" "rn_waves (set_run_status st s) = rn_waves s"
  "rn_waves (finish_step i s) = rn_waves s" "rn_waves (append_event ev s) = rn_waves s"
  by (simp_all add: pass_tick_def set_run_status_def finish_step_def append_event_def)

definition idle :: "run_state \<Rightarrow> run_result \<Rightarrow> bool" where
  "idle s r \<longleftrightarrow> (\<exists>s' er. r = Returned s' er \<and> rn_waves s' = rn_waves s)"

lemma idle_terminal: "idle s (return_terminal e status typ s)"
proof -
  obtain s' er where t: "terminal e status typ s = (s', er)" by fastforce
  then have "rn_waves s' = rn_waves s" unfolding terminal_def Let_def by (metis (no_types, lifting) save_waves event_waves
      frame_waves run_state.ext_inject run_state.surjective run_state.update_convs(1) fst_conv)
  then show ?thesis by (simp add: idle_def return_terminal_def t)
qed

lemma idle_pause: "idle s (pause_run e msg s)"
  by (simp add: idle_def pause_run_def)

lemma run_loop_switched_off:
  assumes "\<And>k. eg_cancelled e k \<or> eg_paused e k"
  shows "run_loop e (Suc fuel) t seq s = OutOfFuel \<or> idle s (run_loop e (Suc fuel) t seq s)"
proof (cases "length (rn_finished s) \<ge> length seq")
  case True
  then show ?thesis by (simp add: run_loop.simps idle_terminal)
next
  case False
  have pass: "idle (pass_tick s) r \<Longrightarrow> idle s r" for r by (simp add: idle_def)
  have "\<exists>r. iterate e t seq s = Stop r \<and> idle s r"
  proof (cases "eg_cancelled e (rn_tick s) \<or> eg_ctx_err e (rn_tick s) \<noteq> None")
    case True
    have "idle s (cancel_run e ctx (pass_tick s))" for ctx
      using idle_terminal [of "pass_tick s" e RunCancelled "''workflow_cancelled''"]
      by (auto simp: idle_def cancel_run_def return_terminal_def split: prod.splits)
    with True show ?thesis by (auto simp: iterate_def Let_def intro!: pass idle_terminal)
  next
    case False
    then show ?thesis using assms [of "rn_tick s"] by (auto simp: iterate_def Let_def intro!: pass idle_pause)
  qed
  then obtain r where "iterate e t seq s = Stop r" and r: "idle s r" by blast
  then have "run_loop e (Suc fuel) t seq s = r" using False by (simp add: run_loop.simps)
  then show ?thesis using r by simp
qed

lemma start_run_waves: "rn_waves (start_run e d state t) = []"
  by (simp add: start_run_def Let_def append_event_def split: option.split)

lemma retained_waves: "rn_waves (fold (retain_step e b) sts s) = rn_waves s"
  by (induction sts arbitrary: s) (auto simp: retain_step_def Let_def split: option.split)

lemma run_switched_off:
  assumes "\<And>k. eg_cancelled e k \<or> eg_paused e k" and "run e fuel d state t = Returned s er"
  shows "rn_waves s = []"
proof -
  have v: "validate (eg_json e) (eg_iter e) (eg_registry e) d = None"
    using assms(2) by (cases "validate (eg_json e) (eg_iter e) (eg_registry e) d") (simp_all add: run_def)
  obtain s0 e0 where saved: "save e (start_run e d state t) = (s0, e0)" by fastforce
  then have s0: "rn_waves s0 = []" using save_waves [of e "start_run e d state t"] by (simp add: start_run_waves)
  show ?thesis
  proof (cases e0)
    case (Some x)
    then show ?thesis using assms(2) v saved s0 by (simp add: run_def)
  next
    case None
    then obtain seq where seq: "topological (Suc (length (wd_steps d))) d = Some seq"
      using assms(2) v saved by (cases "topological (Suc (length (wd_steps d))) d") (simp_all add: run_def)
    let ?s = "fold (retain_step e (state \<noteq> None)) seq s0"
    have result: "run_loop e fuel t seq ?s = Returned s er" using assms(2) v saved None seq by (simp add: run_def)
    show ?thesis
    proof (cases fuel)
      case 0
      then show ?thesis using result s0 idle_terminal [of ?s e RunCompleted "''workflow_completed''"]
        by (auto simp: run_loop.simps idle_def retained_waves split: if_splits)
    next
      case (Suc n)
      then show ?thesis using run_loop_switched_off [OF assms(1), of n t seq ?s] result s0
        by (auto simp: idle_def retained_waves)
    qed
  qed
qed

text \<open>
  C14: When the task of a run is paused or cancelled as the run command starts, the engine plans
  no wave and executes no step, whatever was approved before.
\<close>

theorem paused_and_cancelled_tasks_execute_nothing:
  assumes "ro_call (workflow_run_command e cfg registry f s) = Some c"
    and "ro_result (workflow_run_command e cfg registry f s) = Some (Returned rs er)"
    and "tk_status (rl_task c) = TaskPaused \<or> tk_status (rl_task c) = TaskCancelled"
  shows "rn_waves rs = []"
proof -
  from workflow_run_stages [OF assms(1)] obtain sc d state t db2
    where to: "workflow_run_command e cfg registry f s = run_task e cfg registry f sc d state t (fst s, db2)"
    by blast
  from run_task_call [OF assms(1) [unfolded to]] obtain approve
    where c: "rl_engine c = run_engine e cfg registry sc (rf_headless f) approve t" "rl_task c = t"
      and result: "ro_result (workflow_run_command e cfg registry f s) =
        Some (run (rl_engine c) (pe_fuel e) (rl_definition c) (rl_state c) (rl_task c))"
    unfolding to by auto
  have "eg_cancelled (rl_engine c) k \<or> eg_paused (rl_engine c) k" for k
    using assms(3) unfolding c
    by (auto simp: run_engine_def Let_def initial_controls_def new_controls_def controls_cancel_def controls_pause_def)
  from run_switched_off [OF this] show ?thesis using assms(2) result by auto
qed

text \<open>
  So a run that stopped to wait for an approval cannot be resumed as the documentation says: its task is paused by
  the end of the command, and the resumed run pauses again before any step, approved or not.
\<close>

lemma waiting_run_pauses_its_task:
  assumes "wr_status (ws_run (rn_state rs)) = RunPaused" and "\<And>k. se_fault (pe_store e ''settle'') k = None"
    and "tk_id t \<in> tk_id ` set (db_tasks (snd s))"
  shows "\<forall>x \<in> set (db_tasks (snd (settle_task e t (Returned rs er) s))). tk_id x = tk_id t \<longrightarrow> tk_status x = TaskPaused"
  using assms
  by (auto simp: settle_task_def finished_status_def set_task_status_def transaction_def commit_def statement_def
      insert_audit_def start_tx_def bind_res_Inr split: sum.split)

text \<open>An approval of one step approves every step of the resumed run, whatever its risk.\<close>

lemma one_approval_covers_every_step:
  "eg_approval (run_engine e cfg registry sc headless True t) = Some ask \<Longrightarrow> ask k st risk = Inr True"
  by (auto simp: run_engine_def Let_def)

text \<open>The decision that is read does not look at the expiry, unlike \<^verbatim>\<open>StepApproved\<close>, which nothing calls.\<close>

lemma expired_approval_still_counts:
  assumes "db_approvals db = [a]" and "ap_request_id a = i" and "ap_decision a = ''approved''"
    and "ap_expires_at a = Some x" and "x \<le> se_now v" and "se_fault v 0 = None"
  shows "step_approved v i db = Inr False" and "step_approval_decision v i db = Inr ''approved''"
  using assms by (simp_all add: step_approved_def step_approval_decision_def query_def)

text \<open>The watcher never lifts what the operator asked for, and the server of the console only listens on a loopback name.\<close>

lemma watcher_only_stops:
  "ct_cancelled c \<or> ct_paused c \<Longrightarrow> ct_cancelled (watch_task polls c) \<or> ct_paused (watch_task polls c)"
  by (induction polls c rule: watch_task.induct) (auto simp: controls_cancel_def controls_pause_def)

lemma console_listens_on_loopback:
  assumes "console_command e split_host_port loopback client cfg listen = Inr address"
  shows "address = listen \<and> (\<exists>host port. split_host_port listen = Inr (host, port) \<and> port \<noteq> [] \<and>
    (equal_fold host ''localhost'' \<or> (\<exists>a. pe_ip e host = Some a \<and> loopback a)))"
  using assms by (auto simp: console_command_def require_loopback_def split: option.splits sum.splits if_splits prod.splits)

lemma plan_text_digest: "tp_digest p = [] \<Longrightarrow> plan_digest sha p = sha (plan_text p)"
  by (simp add: plan_digest_def plan_text_def)

subsection \<open>A run of the command\<close>

definition sample_platform :: platform_env where
  "sample_platform =
     \<lparr>pe_read_file = Inr,
      pe_burp = (\<lambda>b. Inr ([\<lparr>rule_protocol = ''https?'', rule_host = ''example.com'', rule_port = ''443'', rule_file = ''/.*'',
          rule_enabled = True\<rparr>], [])),
      pe_rx = sample_rx, pe_ip = (\<lambda>s. None), pe_url = sample_url, pe_sha = (\<lambda>s. ''00''), pe_print = (\<lambda>j. ''x''),
      pe_definition_text = (\<lambda>d. []), pe_id = id, pe_now = 7, pe_store = (\<lambda>l. sample_store_env 7), pe_open = None,
      pe_migrate = None, pe_getwd = Inr ''/'', pe_cwd = ''/'', pe_faults = no_faults,
      pe_decode_state = (\<lambda>s. Inl (Err [])), pe_redact = (\<lambda>ns s. s), pe_order = (\<lambda>m. []),
      pe_budget = (\<lambda>l k i r. None), pe_engine = (\<lambda>i. sample_engine\<lparr>eg_json := (\<lambda>s. Some JNull)\<rparr>), pe_fuel = 9,
      pe_meanwhile = (\<lambda>r s. s)\<rparr>"

definition sample_flags :: run_flags where
  "sample_flags =
     \<lparr>rf_program_id = ''p'', rf_task_id = ''t'', rf_objective = [], rf_domain = [], rf_scope = ''scope.json'',
      rf_workflow = ''authorized-web-baseline'', rf_discovery_roots = [], rf_discovery_reason = [], rf_acknowledge = False,
      rf_resume = [], rf_approve = True, rf_headless = False\<rparr>"

definition paused_world :: world where
  "paused_world = (Map.empty, empty_store\<lparr>db_tasks := [sample_task\<lparr>tk_status := TaskPaused\<rparr>]\<rparr>)"

definition sample_run :: run_outcome where
  "sample_run = workflow_run_command sample_platform doctor_config open_registry sample_flags paused_world"

definition run_facts where
  "run_facts o1 =
     (map_option (\<lambda>c. (tk_id (rl_task c), tk_status (rl_task c))) (ro_call o1),
      map_option (\<lambda>x. (fst x, fst (snd x))) (Option.bind (ro_result o1) run_summary))"

lemma sample_run_facts:
  "run_facts sample_run =
     (Some (''t'', TaskPaused), Some (RunPaused, [(''workflow_started'', []), (''workflow_paused'', [])]))"
  by code_simp

lemma sample_run_called:
  "map_option (\<lambda>c. (tk_id (rl_task c), tk_status (rl_task c))) (ro_call sample_run) = Some (''t'', TaskPaused)"
  using sample_run_facts by (simp only: run_facts_def prod.inject)

lemma sample_run_returned:
  "map_option (\<lambda>x. (fst x, fst (snd x))) (Option.bind (ro_result sample_run) run_summary) =
     Some (RunPaused, [(''workflow_started'', []), (''workflow_paused'', [])])"
  using sample_run_facts by (simp only: run_facts_def prod.inject)

lemma the_engine_runs_only_what_was_authorised_witness:
  "\<exists>c sc p. ro_call sample_run = Some c \<and> tk_program_id (rl_task c) = ''p'' \<and>
     load_burp sample_platform ''scope.json'' = Inr sc \<and> plan_of sample_platform sc [] = Inr p \<and>
     has_executable_targets p \<and> eg_scope (rl_engine c) = Some (allows sample_url sc)"
proof -
  obtain c where c: "ro_call sample_run = Some c" using sample_run_called by auto
  have flags: "rf_program_id sample_flags = ''p''" "rf_scope sample_flags = ''scope.json''"
      "rf_discovery_roots sample_flags = []" "rf_domain sample_flags = []" "pe_url sample_platform = sample_url"
    by (simp_all add: sample_flags_def sample_platform_def)
  have none: "manual_roots [] why [] = Inr []" for why
    by (simp add: manual_roots_def trim_space_def trim_def trim_left_def trim_right_def)
  from the_engine_runs_only_what_was_authorised [OF c [unfolded sample_run_def], unfolded flags none]
  show ?thesis using c by auto
qed

lemma paused_and_cancelled_tasks_execute_nothing_witness:
  "\<exists>c rs er. ro_call sample_run = Some c \<and> ro_result sample_run = Some (Returned rs er) \<and>
     tk_status (rl_task c) = TaskPaused \<and> eg_approval (rl_engine c) \<noteq> None \<and> rn_waves rs = []"
proof -
  obtain c where c: "ro_call sample_run = Some c" "tk_status (rl_task c) = TaskPaused" using sample_run_called by auto
  obtain y where y: "ro_result sample_run = Some y" "run_summary y \<noteq> None"
    using sample_run_returned by (auto simp: bind_eq_Some_conv)
  then obtain rs er where r: "ro_result sample_run = Some (Returned rs er)"
    by (cases y) (auto simp: run_summary_def)
  have "eg_approval (rl_engine c) \<noteq> None"
  proof -
    from workflow_run_stages [OF c(1) [unfolded sample_run_def]] obtain sc d state t db2
      where to: "workflow_run_command sample_platform doctor_config open_registry sample_flags paused_world =
          run_task sample_platform doctor_config open_registry sample_flags sc d state t (fst paused_world, db2)"
      by blast
    have "rf_approve sample_flags" by (simp add: sample_flags_def)
    with run_task_call [OF c(1) [unfolded sample_run_def to]] show ?thesis
      by (auto simp: run_engine_def Let_def)
  qed
  moreover have "rn_waves rs = []"
    using paused_and_cancelled_tasks_execute_nothing
        [OF c(1) [unfolded sample_run_def] r [unfolded sample_run_def] disjI1 [OF c(2)]] .
  ultimately show ?thesis using c r by blast
qed

end
