(* ===== verification/Spec2Isabelle.thy ===== *)
theory Spec2Isabelle
  imports Scope Policy Budget Domain Capability Workflow WorkflowStep WorkflowEngine WorkflowFiles
    Artifacts Execution Queue Worker WorkerPool Targeting Normalize ProviderOutput Classifier
    DatabaseFacts Config ProviderCheck Commands Providers ProviderFacts InternalCaps InternalFacts
    Continuous Findings ReconPipeline AssetChanges Redaction Migrations ControlPlane Console Doctor
    Platform PlatformFacts
begin

text \<open>
  A verification development for Reconductor, a platform that reconnoitres web targets within an authorised scope.
  The source names below are those of the repository; every definition is translated from the Go code it names.

  \<^bold>\<open>The program.\<close> An operator gives the platform (\<^verbatim>\<open>cmd/platform\<close>) a Burp scope file. The scope is compiled
  (\<^verbatim>\<open>internal/scope\<close>), its rules are turned into a plan of concrete targets (\<^verbatim>\<open>internal/targeting\<close>), and the plan into
  a workflow (\<^verbatim>\<open>internal/workflows\<close>), a graph of steps that each name a capability. The engine
  (\<^verbatim>\<open>internal/workflow\<close>) executes the steps in waves, checks dependencies, conditions and approvals, and saves its
  state after every wave. A step is dispatched to a registry of capabilities (\<^verbatim>\<open>internal/capability\<close>), where the policy
  (\<^verbatim>\<open>internal/policy\<close>) is asked and its decision recorded before a provider runs: an external program
  (\<^verbatim>\<open>internal/providers\<close>) whose arguments, environment and output are filtered by the scope again, or an internal
  capability. Results go to artifacts (\<^verbatim>\<open>internal/artifact\<close>) and to PostgreSQL (\<^verbatim>\<open>internal/database\<close>). Workers
  (\<^verbatim>\<open>cmd/worker\<close>, \<^verbatim>\<open>internal/worker\<close>) take jobs from Redis streams (\<^verbatim>\<open>internal/queue\<close>) under a budget
  (\<^verbatim>\<open>internal/budget\<close>). The operator looks at all this, decides approvals and retries dead letters in a console
  (\<^verbatim>\<open>internal/console\<close>).

  \<^bold>\<open>The language.\<close>
  \<^item> \<^theory_text>\<open>Prelude\<close>: strings are lists of characters; an error is a \<open>go_error\<close>, whose constructors are what
    \<^verbatim>\<open>errors.Is\<close>, \<^verbatim>\<open>errors.Join\<close> and \<^verbatim>\<open>fmt.Errorf\<close> tell apart; \<open>'a res\<close> is the sum of an error and a value; an outcome
    \<open>None\<close> is a panic. The functions of \<^verbatim>\<open>strings\<close>, \<^verbatim>\<open>slices\<close> and \<^verbatim>\<open>sort\<close> the components share, with their lemmas and the
    collections of rewrite rules.
  \<^item> \<^theory_text>\<open>GoData\<close>, \<^theory_text>\<open>GoRegexp\<close>, \<^theory_text>\<open>GoURL\<close>, \<^theory_text>\<open>GoFiles\<close>: JSON values, URLs, regular expressions with
    leftmost-first matching, the query of a URL, paths, and a file system with directories, temporary files and renaming,
    in which each operation can fail.

  \<^bold>\<open>Scope and policy.\<close>
  \<^item> \<^theory_text>\<open>Scope\<close> (\<^verbatim>\<open>scope/scope.go\<close>): rules, their normal form and compilation, the digest, the evaluation of a URL. Its lemmas
    say that excludes win, that the reason is the one of a declarative specification, and that the order of rules does not matter.
    The interface of a scope for its clients is the locale \<open>scope_evaluator\<close>, that of the filters the locale
    \<open>detailed_scope\<close>; both are interpreted on \<open>evaluate\<close>.
  \<^item> \<^theory_text>\<open>Policy\<close> (\<^verbatim>\<open>policy/policy.go\<close>): the decision with all its branches, scan windows on the clock of a week, and the
    share of a limit for parallel steps; characterised by when it allows.
  \<^item> \<^theory_text>\<open>Targeting\<close> (\<^verbatim>\<open>targeting/plan.go\<close>, \<^verbatim>\<open>filter.go\<close>): the enumeration of what a rule can match, bounded by the limit of
    the source, the plan, and the filters of URLs and hosts. Planned and accepted targets are authorised.
  \<^item> \<^theory_text>\<open>Normalize\<close> (\<^verbatim>\<open>normalize/url.go\<close>): the normal form of URLs and the signature of a route.

  \<^bold>\<open>Capabilities and providers.\<close>
  \<^item> \<^theory_text>\<open>Domain\<close> (\<^verbatim>\<open>domain/models.go\<close>): the records of the platform and its identifiers (version 4 UUIDs on 8-bit words).
  \<^item> \<^theory_text>\<open>Capability\<close> (\<^verbatim>\<open>capability/capability.go\<close>): the registry, the merging of requirements, authorisation and execution as a
    trace of events; locale \<open>named_registry\<close>, interpreted on the registry.
  \<^item> \<^theory_text>\<open>ProviderCheck\<close>, \<^theory_text>\<open>ProviderOutput\<close>, \<^theory_text>\<open>Commands\<close>, \<^theory_text>\<open>Providers\<close>, \<^theory_text>\<open>ProviderFacts\<close>
    (\<^verbatim>\<open>providercheck\<close>, \<^verbatim>\<open>provideroutput\<close>, \<^verbatim>\<open>providers/command\<close>, \<^verbatim>\<open>providers\<close>): detection of a program, the parsers of its output,
    the checked request, the arguments of every program with its limits, the execution and what is kept of the output. The facts
    cover the registered providers one by one: what they run stays within scope and policy, what they keep is authorised.
  \<^item> \<^theory_text>\<open>InternalCaps\<close>, \<^theory_text>\<open>Classifier\<close>, \<^theory_text>\<open>InternalFacts\<close>
    (\<^verbatim>\<open>providers/internal_capabilities.go\<close>, \<^verbatim>\<open>intelligence/classifier.go\<close>): preparation of targets, comparison of
    assets, classification of endpoints and the report; their results are read back by the store as they were written.
  \<^item> \<^theory_text>\<open>AssetChanges\<close>, \<^theory_text>\<open>Findings\<close>, \<^theory_text>\<open>ReconPipeline\<close>, \<^theory_text>\<open>Redaction\<close> (\<^verbatim>\<open>assets/changes.go\<close>,
    \<^verbatim>\<open>findings/lifecycle.go\<close>, \<^verbatim>\<open>recon/pipeline.go\<close>, \<^verbatim>\<open>redaction/redaction.go\<close>): the comparison of inventories, the life cycle of a
    candidate finding (an inductive predicate over its histories) and its verification, the validation of a pipeline, and
    the removal of secrets from headers and queries.

  \<^bold>\<open>Workflows.\<close>
  \<^item> \<^theory_text>\<open>Workflow\<close>, \<^theory_text>\<open>WorkflowStep\<close>, \<^theory_text>\<open>WorkflowEngine\<close>, \<^theory_text>\<open>WorkflowFiles\<close> (\<^verbatim>\<open>workflow/workflow.go\<close>,
    \<^verbatim>\<open>file_store.go\<close>): validation of a definition, with its topological sort, against a declarative notion of a valid one;
    inputs, conditions, attempts with their back-off on 64-bit durations, and idempotency; the engine with its waves, approvals,
    controls and resumption; and the file a state is saved to. The answer to a step of a
    wave depends on the wave, the step and the attempt, so that the result of a wave does not depend on how its steps interleave;
    what other goroutines do to the controls are answers of the surroundings as well.
  \<^item> \<^theory_text>\<open>Continuous\<close> (\<^verbatim>\<open>workflows/continuous.go\<close>): the workflows the platform builds from a plan, whose structure is
    always valid, so that only a static input can be refused, and whose active steps take prepared targets only.

  \<^bold>\<open>Storage and queue.\<close>
  \<^item> \<^theory_text>\<open>Artifacts\<close>, \<^theory_text>\<open>Execution\<close> (\<^verbatim>\<open>artifact/local.go\<close>, \<^verbatim>\<open>retention.go\<close>, \<^verbatim>\<open>execution/service.go\<close>): content below a root, its
    retention (locale \<open>retention_stores\<close>, interpreted on the disk alone and on the disk with the database), and the
    execution service that stores every outcome.
  \<^item> \<^theory_text>\<open>Database\<close>, \<^theory_text>\<open>DatabaseRuns\<close>, \<^theory_text>\<open>DatabaseFacts\<close>, \<^theory_text>\<open>ControlPlane\<close> (\<^verbatim>\<open>database/store.go\<close>,
    \<^verbatim>\<open>controlplane.go\<close>): tables as lists of rows, transactions as functions of the tables that take effect as a whole or not at
    all, any statement of which can fail. The relations that every transaction preserves are proved once, in the locales
    \<open>tx_relation\<close>, \<open>audited_relation\<close> and \<open>output_relation\<close>, and interpreted on the permanence of the audit log, on
    the scopes, on the steps and, for the commands, on the approvals.
  \<^item> \<^theory_text>\<open>Migrations\<close> (\<^verbatim>\<open>migrations/migrations.go\<close>): the migrations as a step relation of concurrent processes.
  \<^item> \<^theory_text>\<open>Budget\<close> (\<^verbatim>\<open>budget/limiter.go\<close>): the limiter as a step relation of requests that wait, acquire and release, with the
    hosts a request counts against; locale \<open>limiter\<close>, interpreted on it.
  \<^item> \<^theory_text>\<open>Queue\<close>, \<^theory_text>\<open>Worker\<close>, \<^theory_text>\<open>WorkerPool\<close> (\<^verbatim>\<open>queue/streams.go\<close>, \<^verbatim>\<open>dispatcher.go\<close>, \<^verbatim>\<open>worker/service.go\<close>): the transactions
    on Redis streams with 64-bit back-off; what one delivery leaves behind; and the goroutines of the service as a step
    relation in which they interleave freely, with the invariant of its end and a measure for its stop.

  \<^bold>\<open>The commands.\<close>
  \<^item> \<^theory_text>\<open>Config\<close>, \<^theory_text>\<open>Doctor\<close> (\<^verbatim>\<open>config/config.go\<close>, \<^verbatim>\<open>doctor/doctor.go\<close>): the configuration that is read from the
    environment, and the checks of the machine.
  \<^item> \<^theory_text>\<open>Console\<close> (\<^verbatim>\<open>console/server.go\<close>): routes, handlers and headers over the interface of its store, the locale
    \<open>decision_store\<close>, interpreted on the database.
  \<^item> \<^theory_text>\<open>Platform\<close>, \<^theory_text>\<open>PlatformFacts\<close> (\<^verbatim>\<open>cmd/platform/main.go\<close>, \<^verbatim>\<open>cmd/worker/main.go\<close>): every command on its parsed flags,
    composed of the components above; a run reaches the engine only with an authorised plan, a recorded scope and approvals
    that were not rejected, and a paused or cancelled task executes nothing.

  \<^bold>\<open>What the properties say together.\<close> A target is in a plan only if the scope allows it; the active steps of a built
  workflow take their targets from such plans; the run command starts the engine on such a workflow only, and the engine plans
  a step after its dependencies, its approval and the record of the wave; a capability runs only after an allowing decision
  was recorded; and the program it starts gets authorised targets only, as the store gets authorised results only. What was
  decided stays decided, and what succeeded is not executed again.

  \<^bold>\<open>Recursion and bounds.\<close> Loops over finite data are structural recursions or have a measure (the search for cycles, the
  matching of expressions). Two recursions take a fuel: the topological sort, which the code runs on validated definitions only
  and which then needs one more than the number of steps, and the loop of the engine, one unit for each wave, for which the same
  number is enough because every wave settles a step; both are proved. The run command has the fuel as \<open>pe_fuel\<close>. The
  enumeration of a pattern stops at the limit of \<^verbatim>\<open>targeting/plan.go\<close>; what runs for ever (the limiter, the
  store, the pool of a worker) is a step relation. Durations, back-off and shifts are at their 64-bit width where the code can
  overflow; other Go integers, which cannot in the code's use of them, are \<open>int\<close>.

  \<^bold>\<open>Parameters.\<close> Not under the repository, and so arguments of the definitions: the parsers and printers of JSON, URLs, regular
  expressions, times and durations of the standard library, its hashes, the iteration order of a map (\<open>iter\<close>), clocks and
  random bytes, the answers of Redis, of the machine and of programs that are run, and the columns only SQL writes. Laws of
  these that a property needs are hypotheses of it, and its witness has concrete functions for them.

  \<^bold>\<open>Not modelled.\<close> Printing (tables, indented JSON, log lines, usage texts) and the parsing of flags, which have no state; the
  opening of connections, timeouts of the HTTP server and the embedded static files; signals; the JSON schemas that the code
  keeps as texts and never evaluates; \<^verbatim>\<open>migrations.Versions\<close>, which lists a directory. Letters are mapped to lower case
  in ASCII only, and case folding of other letters is left out; confidences are rational numbers where Go has floats; objects of
  JSON do not repeat a member; rows that SQL may return in any order have the order of the table; a transaction
  whose commit fails has had no effect. Transactions of the store are atomic against each other; the steps of one wave
  write to separate rows, and \<open>pe_meanwhile\<close> stands for what they write while a run is in the engine.
\<close>

end
